(* ===== verification/Oblfr_Prelude.thy ===== *)
theory Oblfr_Prelude
  imports Main "HOL-Library.Word" "HOL-Library.Monad_Syntax"
begin

text \<open>
  Prelude of the OBLFR development: the machine integer types of the firmware, the
  little-endian view of words as bytes, the C string functions on byte buffers, and the
  counting loop on \<^verbatim>\<open>uint16_t\<close> that most of the flash database code is made of.

  Conventions used by every component:
  \<^item> a C function that may fail to return normally is modelled in the option monad;
    \<^const>\<open>None\<close> stands for undefined behaviour (a read or write outside an object), an
    endless loop, or a wait for a semaphore that is never given;
  \<^item> an error code of the source is a value like any other and never \<^const>\<open>None\<close>;
  \<^item> state is passed explicitly and returned updated.
\<close>

unbundle bit_operations_syntax

section \<open>Machine integers and bytes\<close>

type_synonym u8 = "8 word"
type_synonym u16 = "16 word"
type_synonym u32 = "32 word"
type_synonym u64 = "64 word"
type_synonym bytes = "u8 list"

named_theorems word_bits \<open>bit-level facts about the masks of the firmware\<close>
named_theorems c_strings \<open>facts about the C string functions on buffers\<close>

text \<open>Little-endian assembly and disassembly of a word.\<close>

fun le_word :: "bytes \<Rightarrow> 'a::len word" where
  "le_word [] = 0"
| "le_word (b # bs) = ucast b OR push_bit 8 (le_word bs)"

fun le_bytes :: "nat \<Rightarrow> 'a::len word \<Rightarrow> bytes" where
  "le_bytes 0 w = []"
| "le_bytes (Suc n) w = ucast w # le_bytes n (drop_bit 8 w)"

lemma length_le_bytes [simp]: "length (le_bytes n w) = n"
  by (induction n arbitrary: w) auto

lemma nth_le_bytes: "i < n \<Longrightarrow> le_bytes n w ! i = ucast (drop_bit (8 * i) w)"
proof (induction n arbitrary: w i)
  case 0
  then show ?case by simp
next
  case (Suc n)
  show ?case
  proof (cases i)
    case 0
    then show ?thesis by simp
  next
    case (Suc j)
    with Suc.prems have "le_bytes n (drop_bit 8 w) ! j = ucast (drop_bit (8 * j) (drop_bit 8 w))"
      by (intro Suc.IH) simp
    with Suc show ?thesis by (simp add: drop_bit_drop_bit ac_simps)
  qed
qed

lemma bit_ucast_byte: "bit (ucast (b :: u8) :: 'a::len word) i \<longleftrightarrow> i < LENGTH('a) \<and> i < 8 \<and> bit b i"
  by (auto simp: bit_simps dest: bit_imp_le_length)

lemma le_bytes_le_word:
  assumes "8 * length bs \<le> LENGTH('a::len)"
  shows "le_bytes (length bs) (le_word bs :: 'a word) = bs"
  using assms
proof (induction bs)
  case Nil
  then show ?case by simp
next
  case (Cons b bs)
  have hd: "(ucast (ucast b OR push_bit 8 (le_word bs) :: 'a word) :: u8) = b"
    using Cons.prems by (intro bit_word_eqI) (auto simp: bit_simps)
  have "drop_bit 8 (ucast b OR push_bit 8 (le_word bs) :: 'a word) = drop_bit 8 (push_bit 8 (le_word bs))"
    by (rule bit_word_eqI) (auto simp: bit_simps dest: bit_imp_le_length)
  moreover have "le_bytes (length bs) (drop_bit 8 (push_bit 8 (le_word bs :: 'a word))) =
      le_bytes (length bs) (le_word bs :: 'a word)"
  proof (rule nth_equalityI)
    fix i assume i: "i < length (le_bytes (length bs) (drop_bit 8 (push_bit 8 (le_word bs :: 'a word))))"
    have "(ucast (drop_bit (8 * i) (drop_bit 8 (push_bit 8 (le_word bs :: 'a word)))) :: u8) =
        ucast (drop_bit (8 * i) (le_word bs :: 'a word))"
      using i Cons.prems by (intro bit_word_eqI) (auto simp: bit_simps)
    with i show "le_bytes (length bs) (drop_bit 8 (push_bit 8 (le_word bs :: 'a word))) ! i =
        le_bytes (length bs) (le_word bs :: 'a word) ! i"
      by (simp add: nth_le_bytes)
  qed simp
  ultimately show ?case
    using Cons hd by simp
qed

lemma le_word_le_bytes:
  assumes "LENGTH('a::len) \<le> 8 * n"
  shows "le_word (le_bytes n (w :: 'a word)) = w"
proof -
  have "bit (le_word (le_bytes n w) :: 'a word) i = (i < 8 * n \<and> bit w i)" for i
  proof (induction n arbitrary: w i)
    case 0
    then show ?case by simp
  next
    case (Suc n)
    show ?case
      by (auto simp: bit_simps Suc.IH dest: bit_imp_le_length)
  qed
  then show ?thesis
    using assms by (intro bit_word_eqI) (auto dest: bit_imp_le_length)
qed

text \<open>Small words and casts that lose nothing.\<close>

lemma not_bit_small:
  assumes "unat w < 2 ^ m" "m \<le> i"
  shows "\<not> bit w i"
proof
  assume "bit w i"
  then have "bit (unat w) i" by (simp add: bit_unsigned_iff)
  then have "odd (unat w div 2 ^ i)" by (simp add: bit_iff_odd)
  moreover have "(2 :: nat) ^ m \<le> 2 ^ i" using assms(2) by (intro power_increasing) simp_all
  then have "unat w < 2 ^ i" using assms(1) by (rule less_le_trans [rotated])
  then have "unat w div 2 ^ i = 0" by (rule div_less)
  ultimately show False by simp
qed

lemma ucast_up_down_u32 [simp]: "(ucast (ucast (t :: u32) :: u64) :: u32) = t"
  by (rule bit_word_eqI) (auto simp: bit_simps)

lemma ucast_u32_u64_inj [simp]: "(ucast (a :: u32) :: u64) = ucast b \<longleftrightarrow> a = b"
  by (metis ucast_up_down_u32)

lemma ucast_up_down_u16 [simp]: "(ucast (ucast (t :: u16) :: u64) :: u16) = t"
  by (rule bit_word_eqI) (auto simp: bit_simps)

section \<open>C strings on byte buffers\<close>

text \<open>
  \<^verbatim>\<open>strlen\<close> on an array: \<^const>\<open>None\<close> when the array holds no terminator, since the C code
  then reads past its end. \<open>strnlen\<close> and \<open>strncpy\<close> are bounded; \<open>strncpy\<close> pads with zeros. A
  \<^verbatim>\<open>const char *\<close> argument that is a proper C string is the list of the bytes before its
  terminator, on which \<open>strncpy\<close> reads the same bytes.
\<close>

definition strnlen :: "nat \<Rightarrow> bytes \<Rightarrow> nat" where
  "strnlen n buf = length (takeWhile (\<lambda>b. b \<noteq> 0) (take n buf))"

definition strlen :: "bytes \<Rightarrow> nat option" where
  "strlen buf = (if 0 \<in> set buf then Some (length (takeWhile (\<lambda>b. b \<noteq> 0) buf)) else None)"

definition strncpy :: "nat \<Rightarrow> bytes \<Rightarrow> bytes" where
  "strncpy n src = (let t = takeWhile (\<lambda>b. b \<noteq> 0) (take n src) in t @ replicate (n - length t) 0)"

text \<open>Whether \<^verbatim>\<open>strcmp\<close> returns 0; \<^const>\<open>None\<close> when it runs off one of the arrays.\<close>

fun strcmp_eq :: "bytes \<Rightarrow> bytes \<Rightarrow> bool option" where
  "strcmp_eq (x # xs) (y # ys) =
     (if x \<noteq> y then Some False else if x = 0 then Some True else strcmp_eq xs ys)"
| "strcmp_eq _ _ = None"

lemma length_takeWhile_take: "length (takeWhile P (take n xs)) \<le> n"
  by (metis length_take length_takeWhile_le min.bounded_iff)

lemma length_strncpy [simp]: "length (strncpy n src) = n"
  by (simp add: strncpy_def Let_def length_takeWhile_take)

lemma strncpy_short [c_strings]:
  "0 \<notin> set src \<Longrightarrow> length src \<le> n \<Longrightarrow> strncpy n src = src @ replicate (n - length src) 0"
  unfolding strncpy_def Let_def by (subst takeWhile_eq_all_conv [THEN iffD2]) auto

lemma takeWhile_nonzero_append_zeros:
  "0 \<notin> set xs \<Longrightarrow> takeWhile (\<lambda>b. b \<noteq> 0) (xs @ replicate k (0 :: u8)) = xs"
  by (cases k) (auto simp: takeWhile_tail intro: takeWhile_append1 [THEN trans])

lemma zero_notin_takeWhile: "0 \<notin> set (takeWhile (\<lambda>b. b \<noteq> (0 :: u8)) xs)"
  by (auto dest: set_takeWhileD)

lemma strncpy_idem [simp]: "strncpy n (strncpy n src) = strncpy n src"
proof -
  let ?t = "takeWhile (\<lambda>b. b \<noteq> 0) (take n src)"
  have "takeWhile (\<lambda>b. b \<noteq> 0) (take n (?t @ replicate (n - length ?t) 0)) = ?t"
    using takeWhile_nonzero_append_zeros [OF zero_notin_takeWhile]
    by (simp add: length_takeWhile_take)
  then show ?thesis by (simp add: strncpy_def Let_def)
qed

lemma strlen_append_zero [c_strings]:
  "0 \<notin> set xs \<Longrightarrow> strlen (xs @ 0 # ys) = Some (length xs)"
  by (induction xs) (auto simp: strlen_def)

lemma strcmp_eq_refl_cstring [c_strings]:
  "0 \<notin> set xs \<Longrightarrow> strcmp_eq (xs @ 0 # ys) (xs @ 0 # zs) = Some True"
  by (induction xs) auto

lemma strcmp_eq_cstrings [c_strings]:
  "0 \<notin> set xs \<Longrightarrow> 0 \<notin> set xs' \<Longrightarrow> strcmp_eq (xs @ 0 # ys) (xs' @ 0 # zs) = Some (xs = xs')"
proof (induction xs arbitrary: xs')
  case Nil
  then show ?case by (cases xs') auto
next
  case (Cons x xs)
  then show ?case by (cases xs') auto
qed

section \<open>Counting loops\<close>

text \<open>
  \<^verbatim>\<open>for (uint16_t i = first; i <= last; i += step) body\<close>, with \<^verbatim>\<open>break\<close>. The counter wraps around
  as the C variable does, so the loop may not end; that is \<^const>\<open>None\<close>.
\<close>

datatype 'a loop_step = Break 'a | Continue 'a

partial_function (option) u16_for ::
  "u16 \<Rightarrow> u16 \<Rightarrow> (u16 \<Rightarrow> 'a \<Rightarrow> 'a loop_step option) \<Rightarrow> u16 \<Rightarrow> 'a \<Rightarrow> 'a option" where
  "u16_for hi step body i a =
     (if i \<le> hi
      then Option.bind (body i a) (\<lambda>r. case r of
             Break a' \<Rightarrow> Some a'
           | Continue a' \<Rightarrow> u16_for hi step body (i + step) a')
      else Some a)"

text \<open>\<^verbatim>\<open>for (uint16_t i = 0; i < n; i++) body\<close>.\<close>

definition u16_for_less ::
  "u16 \<Rightarrow> (u16 \<Rightarrow> 'a \<Rightarrow> 'a loop_step option) \<Rightarrow> 'a \<Rightarrow> 'a option" where
  "u16_for_less n body a = (if n = 0 then Some a else u16_for (n - 1) 1 body 0 a)"

text \<open>The same loop on a list of counter values.\<close>

fun for_list :: "('i \<Rightarrow> 'a \<Rightarrow> 'a loop_step option) \<Rightarrow> 'i list \<Rightarrow> 'a \<Rightarrow> 'a option" where
  "for_list body [] a = Some a"
| "for_list body (i # is) a =
     Option.bind (body i a) (\<lambda>r. case r of
         Break a' \<Rightarrow> Some a'
       | Continue a' \<Rightarrow> for_list body is a')"

text \<open>
  When the counter cannot wrap, the loop visits \<open>n\<close> values \<open>first, first + step, \<dots>\<close> and ends.
\<close>

lemma u16_for_list:
  assumes "unat i + n * unat step \<le> 65535"
    and "unat hi < unat i + n * unat step"
    and "n > 0 \<Longrightarrow> unat i + (n - 1) * unat step \<le> unat hi"
  shows "u16_for hi step body i a =
      for_list body (map (\<lambda>k. i + of_nat k * step) [0..<n]) a"
  using assms
proof (induction n arbitrary: i a)
  case 0
  then have "\<not> i \<le> hi" by (simp add: word_le_nat_alt)
  then show ?case by (simp add: u16_for.simps)
next
  case (Suc n)
  have i_le: "i \<le> hi"
    using Suc.prems(3) by (simp add: word_le_nat_alt)
  have nxt: "unat (i + step) = unat i + unat step"
    using Suc.prems(1) by (simp add: unat_word_ariths)
  have step: "u16_for hi step body (i + step) a' =
      for_list body (map (\<lambda>k. i + step + of_nat k * step) [0..<n]) a'" for a'
  proof (rule Suc.IH)
    show "unat (i + step) + n * unat step \<le> 65535"
      using Suc.prems(1) nxt by simp
    show "unat hi < unat (i + step) + n * unat step"
      using Suc.prems(2) nxt by simp
    show "unat (i + step) + (n - 1) * unat step \<le> unat hi" if "n > 0"
      using Suc.prems(3) nxt that by (cases n) auto
  qed
  have "map (\<lambda>k. i + of_nat k * step) [0..<Suc n] =
      i # map (\<lambda>k. i + step + of_nat k * step) [0..<n]"
    by (simp add: upt_conv_Cons map_Suc_upt [symmetric] algebra_simps del: upt_Suc)
  with i_le step show ?case
    by (subst u16_for.simps) (cases "body i a"; auto simp del: upt_Suc split: loop_step.splits)
qed

text \<open>A loop without break and without failure is a fold.\<close>

lemma for_list_fold:
  assumes "\<And>i a. i \<in> set is \<Longrightarrow> body i a = Some (Continue (f i a))"
  shows "for_list body is a = Some (fold f is a)"
  using assms by (induction "is" arbitrary: a) auto

text \<open>Rules for the loop: congruence, search, and an invariant that also shows that it ends.\<close>

lemma for_list_cong:
  "(\<And>i a. i \<in> set is \<Longrightarrow> body i a = body' i a) \<Longrightarrow> for_list body is a = for_list body' is a"
proof (induction "is" arbitrary: a)
  case Nil
  then show ?case by simp
next
  case (Cons i "is")
  then have "for_list body is b = for_list body' is b" for b by simp
  with Cons.prems show ?case by (cases "body' i a") (auto split: loop_step.splits)
qed

lemma for_list_find:
  "for_list (\<lambda>i a. Some (if P i then Break (g i) else Continue a)) is a =
     Some (case find P is of None \<Rightarrow> a | Some i \<Rightarrow> g i)"
  by (induction "is") auto

lemma for_list_inv:
  assumes "\<And>j a. j < m \<Longrightarrow> I j a \<Longrightarrow> \<exists>a'. body (f j) a = Some (Continue a') \<and> I (Suc j) a'"
    and "I 0 a"
  shows "\<exists>a'. for_list body (map f [0..<m]) a = Some a' \<and> I m a'"
proof -
  have "\<exists>a'. for_list body (map f [k..<m]) a = Some a' \<and> I m a'" if "k \<le> m" "I k a" for k a
    using that
  proof (induction "m - k" arbitrary: k a)
    case 0
    then show ?case by simp
  next
    case (Suc d)
    then have k: "k < m" by simp
    with assms(1) Suc.prems obtain a' where a': "body (f k) a = Some (Continue a')" "I (Suc k) a'"
      by blast
    have "\<exists>a''. for_list body (map f [Suc k..<m]) a' = Some a'' \<and> I m a''"
      using Suc.hyps k a' by simp
    with a'(1) k show ?case by (simp add: upt_conv_Cons)
  qed
  with assms(2) show ?thesis by blast
qed

lemma u16_for_less_list: "u16_for_less hi body a = for_list body (map of_nat [0..<unat hi]) a"
proof (cases "hi = 0")
  case True
  then show ?thesis by (simp add: u16_for_less_def)
next
  case False
  then have pos: "0 < unat hi" by (simp add: unat_gt_0)
  have "unat (hi - 1) = unat hi - 1"
    using pos by (simp add: unat_minus_one False)
  moreover have "unat hi < 65536"
    using unsigned_less [of hi] by simp
  ultimately have "u16_for (hi - 1) 1 body 0 a = for_list body (map (\<lambda>k. 0 + of_nat k * 1) [0..<unat hi]) a"
    using pos by (intro u16_for_list) auto
  with False show ?thesis by (simp add: u16_for_less_def)
qed

section \<open>Error codes\<close>

text \<open>\<^verbatim>\<open>OBLFR_Err\<close> of \<^verbatim>\<open>components/oblfr/include/oblfr_common.h\<close>.\<close>

datatype oblfr_err =
    OBLFR_OK
  | OBLFR_ERR_ERROR
  | OBLFR_ERR_TIMEOUT
  | OBLFR_ERR_INVALID
  | OBLFR_ERR_NORESC
  | OBLFR_ERR_NOMEM
  | OBLFR_ERR_NOTSUPPORTED

end
