(* ===== verification/Kved_Driver.thy ===== *)
theory Kved_Driver
  imports Oblfr_Prelude
begin

text \<open>
  The storage interface of kved (\<^verbatim>\<open>components/nvkvs/kved/kved.h\<close>): the sectors, the record of
  function pointers that a backend fills in, the layout constants, and, as a locale, what the
  database relies on a backend to do. The RAM and flash backends interpret the locale.
\<close>

section \<open>Sectors, words and the driver record\<close>

type_synonym kved_word = u64

datatype kved_flash_sector =
    KVED_FLASH_SECTOR_A
  | KVED_FLASH_SECTOR_B
  | KVED_FLASH_STRING_SECTOR_A
  | KVED_FLASH_STRING_SECTOR_B
  | KVED_FLASH_NUM_SECTORS

text \<open>
  \<^verbatim>\<open>kved_flash_driver_t\<close>. The type variable is the state behind \<^verbatim>\<open>drv_arg\<close>. Data buffers are
  byte lists; \<open>data_read\<close> returns the buffer as the call leaves it, next to the state, because a
  backend may do more to the caller's memory than fill in the bytes it was asked for.
\<close>

record 's kved_flash_driver =
  sector_erase :: "kved_flash_sector \<Rightarrow> 's \<Rightarrow> bool \<times> 's"
  header_write :: "kved_flash_sector \<Rightarrow> u16 \<Rightarrow> kved_word \<Rightarrow> 's \<Rightarrow> 's"
  header_read :: "kved_flash_sector \<Rightarrow> u16 \<Rightarrow> 's \<Rightarrow> kved_word"
  data_write :: "kved_flash_sector \<Rightarrow> u16 \<Rightarrow> bytes \<Rightarrow> u16 \<Rightarrow> 's \<Rightarrow> 's"
  data_read :: "kved_flash_sector \<Rightarrow> u16 \<Rightarrow> bytes \<Rightarrow> u16 \<Rightarrow> 's \<Rightarrow> bytes \<times> 's"
  sector_size :: "kved_flash_sector \<Rightarrow> 's \<Rightarrow> u32"
  drv_init :: "'s \<Rightarrow> bool \<times> 's"
  max_entries :: "'s \<Rightarrow> u16"

text \<open>
  \<^verbatim>\<open>CONFIG_COMPONENT_NVKVS_MAX_STRING_SIZE\<close> is 64 by default (\<^verbatim>\<open>components/nvkvs/Kconfig\<close>).
\<close>

definition KVED_MAX_STRING_SIZE :: nat where
  "KVED_MAX_STRING_SIZE = 64"

definition KVED_FLASH_WORD_SIZE :: nat where
  "KVED_FLASH_WORD_SIZE = 8"

definition KVED_MAX_KEY_SIZE :: nat where
  "KVED_MAX_KEY_SIZE = KVED_FLASH_WORD_SIZE - 1"

definition KVED_DELETED_ENTRY :: kved_word where
  "KVED_DELETED_ENTRY = 0"

definition KVED_FREE_ENTRY :: kved_word where
  "KVED_FREE_ENTRY = 0xFFFFFFFFFFFFFFFF"

definition KVED_FLASH_UINT_MAX :: kved_word where
  "KVED_FLASH_UINT_MAX = NOT 0"

definition KVED_STR_DELETED_ENTRY :: kved_word where
  "KVED_STR_DELETED_ENTRY = 0"

definition KVED_STR_FREE_ENTRY :: kved_word where
  "KVED_STR_FREE_ENTRY = 0xFFFFFFFFFFFFFFFF"

definition KVED_HDR_SIZE_IN_WORDS :: u16 where
  "KVED_HDR_SIZE_IN_WORDS = 2"

definition KVED_ENTRY_SIZE_IN_WORDS :: u16 where
  "KVED_ENTRY_SIZE_IN_WORDS = 2"

definition KVED_INDEX_NOT_FOUND :: u16 where
  "KVED_INDEX_NOT_FOUND = 0"

definition KVED_HDR_MASK_KEY :: "kved_word \<Rightarrow> kved_word" where
  "KVED_HDR_MASK_KEY k = k AND 0xFFFFFFFFFFFFFF00"

definition KVED_HDR_MASK_TYPE :: "kved_word \<Rightarrow> kved_word" where
  "KVED_HDR_MASK_TYPE k = drop_bit 4 (k AND 0xF0)"

definition KVED_HDR_MASK_SIZE :: "kved_word \<Rightarrow> kved_word" where
  "KVED_HDR_MASK_SIZE k = k AND 0x0F"

lemmas kved_entry_consts =
  KVED_DELETED_ENTRY_def KVED_FREE_ENTRY_def KVED_FLASH_UINT_MAX_def
  KVED_STR_DELETED_ENTRY_def KVED_STR_FREE_ENTRY_def

lemmas kved_layout_consts =
  KVED_HDR_SIZE_IN_WORDS_def KVED_ENTRY_SIZE_IN_WORDS_def KVED_INDEX_NOT_FOUND_def
  KVED_FLASH_WORD_SIZE_def KVED_MAX_KEY_SIZE_def KVED_MAX_STRING_SIZE_def

lemma free_entry_ones: "KVED_FREE_ENTRY = NOT 0"
  by (simp add: KVED_FREE_ENTRY_def)

lemma uint_max_free: "KVED_FLASH_UINT_MAX = KVED_FREE_ENTRY"
  by (simp add: free_entry_ones KVED_FLASH_UINT_MAX_def)

lemma deleted_neq_free [simp]:
  "KVED_DELETED_ENTRY \<noteq> KVED_FREE_ENTRY" "KVED_FREE_ENTRY \<noteq> KVED_DELETED_ENTRY"
  by (simp_all add: kved_entry_consts)

lemma free_entry_and [simp]: "KVED_FREE_ENTRY AND d = d"
  by (simp add: free_entry_ones)

lemma mask_key_idem [simp]: "KVED_HDR_MASK_KEY (KVED_HDR_MASK_KEY k) = KVED_HDR_MASK_KEY k"
  by (simp add: KVED_HDR_MASK_KEY_def and.assoc)

lemma mask_key_zero [simp]: "KVED_HDR_MASK_KEY 0 = 0"
  by (simp add: KVED_HDR_MASK_KEY_def)

lemma mask_type_bound: "KVED_HDR_MASK_TYPE k < 16"
proof -
  have "k AND 0xF0 \<le> 0xF0"
    by (rule word_and_le1)
  then have "unat (k AND 0xF0) \<le> 240"
    by (simp add: word_le_nat_alt)
  then have "unat (drop_bit 4 (k AND 0xF0)) < 16"
    by (simp only: unat_drop_bit_eq) (simp add: drop_bit_eq_div)
  then show ?thesis
    by (simp add: KVED_HDR_MASK_TYPE_def word_less_nat_alt)
qed

lemma mask_type_ucast: "(ucast (KVED_HDR_MASK_TYPE k) :: u32) = t \<longleftrightarrow> KVED_HDR_MASK_TYPE k = ucast t"
proof -
  have "(ucast (ucast (KVED_HDR_MASK_TYPE k) :: u32) :: u64) = KVED_HDR_MASK_TYPE k"
    using mask_type_bound [of k]
    by (simp add: word_unat_eq_iff unsigned_ucast_eq word_less_nat_alt take_bit_nat_eq_self
        unsigned_take_bit_eq)
  moreover have "(ucast (ucast t :: u64) :: u32) = t"
    by (rule bit_word_eqI) (auto simp: bit_simps)
  ultimately show ?thesis by metis
qed

section \<open>What kved relies on\<close>

text \<open>
  The README of kved asks for word-granular writes, sectors that erase to ones, and that a written
  word can be written again to lower bits. Nothing else is used on the main index: a word is
  written when it is erased, or to invalidate it with zero. \<open>words sec\<close> is the number of words of
  a sector, \<open>ok\<close> the states in which the backend has not been misused.
\<close>

locale kved_backend =
  fixes drv :: "'s kved_flash_driver"
    and ok :: "'s \<Rightarrow> bool"
    and words :: "kved_flash_sector \<Rightarrow> nat"
  assumes words_u16: "words sec \<le> 65536"
    and write_ok: "ok s \<Longrightarrow> unat i < words sec \<Longrightarrow> ok (header_write drv sec i d s)"
    and read_write_same:
      "ok s \<Longrightarrow> unat i < words sec \<Longrightarrow> header_read drv sec i s AND d = d \<Longrightarrow>
         header_read drv sec i (header_write drv sec i d s) = d"
    and read_write_other:
      "ok s \<Longrightarrow> unat i < words sec \<Longrightarrow> unat j < words sec' \<Longrightarrow> (sec', j) \<noteq> (sec, i) \<Longrightarrow>
         header_read drv sec' j (header_write drv sec i d s) = header_read drv sec' j s"
    and erase_ok: "ok s \<Longrightarrow> 0 < words sec \<Longrightarrow> ok (snd (sector_erase drv sec s))"
    and read_erase_same:
      "ok s \<Longrightarrow> unat i < words sec \<Longrightarrow>
         header_read drv sec i (snd (sector_erase drv sec s)) = NOT 0"
    and read_erase_other:
      "ok s \<Longrightarrow> 0 < words sec \<Longrightarrow> unat i < words sec' \<Longrightarrow> sec' \<noteq> sec \<Longrightarrow>
         header_read drv sec' i (snd (sector_erase drv sec s)) = header_read drv sec' i s"
    and size_write: "sector_size drv sec' (header_write drv sec i d s) = sector_size drv sec' s"
    and size_erase: "sector_size drv sec' (snd (sector_erase drv sec s)) = sector_size drv sec' s"
begin

lemma read_write_erased:
  "ok s \<Longrightarrow> unat i < words sec \<Longrightarrow> header_read drv sec i s = NOT 0 \<Longrightarrow>
     header_read drv sec i (header_write drv sec i d s) = d"
  by (rule read_write_same) simp_all

lemma read_write_zero:
  "ok s \<Longrightarrow> unat i < words sec \<Longrightarrow> header_read drv sec i (header_write drv sec i 0 s) = 0"
  by (rule read_write_same) simp_all

end

end
