(* ===== verification/Kved.thy ===== *)
theory Kved
  imports Kved_Driver
begin

text \<open>
  kved, the key/value database on flash (\<^verbatim>\<open>components/nvkvs/kved/kved.c\<close>): its control block,
  the key and value encodings, and every operation of the file, in the order of the file. The
  driver is a parameter (the record of Kved\_Driver); FreeRTOS is one too, as the two semaphore
  calls the file makes. The configuration is the one the examples build: \<^verbatim>\<open>CONFIG_FREERTOS\<close>
  defined, \<^verbatim>\<open>KVED_DEBUG\<close> not defined. Log output is not modelled.
\<close>

section \<open>Data\<close>

text \<open>
  \<^verbatim>\<open>kved_data_types_t\<close>: an enum that the code also fills from a 4-bit field of a stored word, so
  it can hold numbers that are no enumerator; it is kept as the number.
\<close>

definition KVED_DATA_TYPE_UINT8 :: u32 where "KVED_DATA_TYPE_UINT8 = 0"
definition KVED_DATA_TYPE_INT8 :: u32 where "KVED_DATA_TYPE_INT8 = 1"
definition KVED_DATA_TYPE_UINT16 :: u32 where "KVED_DATA_TYPE_UINT16 = 2"
definition KVED_DATA_TYPE_INT16 :: u32 where "KVED_DATA_TYPE_INT16 = 3"
definition KVED_DATA_TYPE_UINT32 :: u32 where "KVED_DATA_TYPE_UINT32 = 4"
definition KVED_DATA_TYPE_INT32 :: u32 where "KVED_DATA_TYPE_INT32 = 5"
definition KVED_DATA_TYPE_FLOAT :: u32 where "KVED_DATA_TYPE_FLOAT = 6"
definition KVED_DATA_TYPE_STRING :: u32 where "KVED_DATA_TYPE_STRING = 7"
definition KVED_DATA_TYPE_UINT64 :: u32 where "KVED_DATA_TYPE_UINT64 = 8"
definition KVED_DATA_TYPE_INT64 :: u32 where "KVED_DATA_TYPE_INT64 = 9"
definition KVED_DATA_TYPE_DOUBLE :: u32 where "KVED_DATA_TYPE_DOUBLE = 10"

lemmas kved_data_type_consts =
  KVED_DATA_TYPE_UINT8_def KVED_DATA_TYPE_INT8_def KVED_DATA_TYPE_UINT16_def
  KVED_DATA_TYPE_INT16_def KVED_DATA_TYPE_UINT32_def KVED_DATA_TYPE_INT32_def
  KVED_DATA_TYPE_FLOAT_def KVED_DATA_TYPE_STRING_def KVED_DATA_TYPE_UINT64_def
  KVED_DATA_TYPE_INT64_def KVED_DATA_TYPE_DOUBLE_def

text \<open>
  \<^verbatim>\<open>kved_data_t\<close>. The value is a union, so it is its bytes (\<^const>\<open>KVED_MAX_STRING_SIZE\<close> of them);
  the member \<^verbatim>\<open>u64\<close> is the first eight, little endian.
\<close>

record kved_data =
  kv_value :: bytes
  kv_key :: bytes
  kv_type :: u32

definition value_u64 :: "bytes \<Rightarrow> u64" where
  "value_u64 v = le_word (take 8 v)"

definition set_value_u64 :: "u64 \<Rightarrow> bytes \<Rightarrow> bytes" where
  "set_value_u64 w v = le_bytes 8 w @ drop 8 v"

datatype kved_error =
    KVED_OK
  | KVED_INVALID_HANDLE
  | KVED_NOT_INITIALIZED
  | KVED_INVALID_KEY
  | KVED_INVALID_INDEX
  | KVED_TABLE_FULL
  | KVED_CORRUPT_TABLE
  | KVED_ERROR

fun kved_error_code :: "kved_error \<Rightarrow> int" where
  "kved_error_code KVED_OK = 0"
| "kved_error_code KVED_INVALID_HANDLE = -1"
| "kved_error_code KVED_NOT_INITIALIZED = -2"
| "kved_error_code KVED_INVALID_KEY = -3"
| "kved_error_code KVED_INVALID_INDEX = -4"
| "kved_error_code KVED_TABLE_FULL = -5"
| "kved_error_code KVED_CORRUPT_TABLE = -6"
| "kved_error_code KVED_ERROR = -7"

record kved_sector_stat =
  num_free_entries :: u16
  num_deleted_entries :: u16
  num_used_entries :: u16
  num_total_entries :: u16

record kved_str_sector_ctrl =
  next_free_index :: u16
  next_free_sector :: u16

record kved_str_sector_stats =
  str_num_free_entries :: u16
  str_num_deleted_entries :: u16
  str_num_used_entries :: u16
  str_num_total_entries :: u16

record 'm kved_ctrl =
  first_index :: u16
  first_free_index :: u16
  last_index :: u16
  str_ctrl :: kved_str_sector_ctrl
  stats :: kved_sector_stat
  str_stats :: kved_str_sector_stats
  sector :: kved_flash_sector
  str_sector :: kved_flash_sector
  started :: bool
  drv_max_entries :: u16
  mutex :: 'm

text \<open>
  The table \<^verbatim>\<open>kved_key_type_size\<close>, indexed by the type; reading past its end is undefined.
\<close>

definition kved_key_type_size :: "u32 \<Rightarrow> u16 option" where
  "kved_key_type_size t =
     (let tab = [1, 1, 2, 2, 2, 2, 4, of_nat KVED_MAX_KEY_SIZE, 8, 8, 8]
      in if unat t < length tab then Some (tab ! unat t) else None)"

definition KVED_SIGNATURE_ENTRY :: "'m kved_ctrl \<Rightarrow> kved_word" where
  "KVED_SIGNATURE_ENTRY x =
     0xDEADBEEF00000000 + of_nat (KVED_MAX_STRING_SIZE * 2 ^ 16) + ucast (drv_max_entries x)"

definition KVED_STR_SIGNATURE_ENTRY :: "'m kved_ctrl \<Rightarrow> kved_word" where
  "KVED_STR_SIGNATURE_ENTRY x =
     0xBF00BF1B00000000 + of_nat (KVED_MAX_STRING_SIZE * 2 ^ 16) + ucast (drv_max_entries x)"

definition KVED_STR_SIGNATURE_END :: "'m kved_ctrl \<Rightarrow> kved_word" where
  "KVED_STR_SIGNATURE_END x =
     0xBEEFDEAD00000000 + of_nat (KVED_MAX_STRING_SIZE * 2 ^ 16) + ucast (drv_max_entries x)"

section \<open>Critical section\<close>

text \<open>
  The two FreeRTOS calls. \<open>xSemaphoreTake\<close> waits with \<^verbatim>\<open>portMAX_DELAY\<close>: \<^const>\<open>None\<close> is a wait that
  never ends. The Boolean is whether the call returned \<^verbatim>\<open>pdTRUE\<close>.
\<close>

record 'm semphr_api =
  xSemaphoreTake :: "'m \<Rightarrow> (bool \<times> 'm) option"
  xSemaphoreGive :: "'m \<Rightarrow> bool \<times> 'm"

definition kved_cpu_critical_section_enter ::
  "'m semphr_api \<Rightarrow> 'm kved_ctrl \<Rightarrow> (kved_error \<times> 'm kved_ctrl) option" where
  "kved_cpu_critical_section_enter api ctrl =
     do {
       (got, m) \<leftarrow> xSemaphoreTake api (mutex ctrl);
       Some (if got then KVED_OK else KVED_ERROR, ctrl\<lparr>mutex := m\<rparr>)
     }"

definition kved_cpu_critical_section_leave ::
  "'m semphr_api \<Rightarrow> 'm kved_ctrl \<Rightarrow> kved_error \<times> 'm kved_ctrl" where
  "kved_cpu_critical_section_leave api ctrl =
     (let (gave, m) = xSemaphoreGive api (mutex ctrl)
      in (if gave then KVED_OK else KVED_ERROR, ctrl\<lparr>mutex := m\<rparr>))"

text \<open>
  The frame that every public operation wraps around its internal one: enter, run, leave. A failed
  enter skips the body; a failed leave overrides the result. \<open>body\<close> maps the control block and the
  rest of the state to the error code, the control block and the rest.
\<close>

definition kved_locked ::
  "'m semphr_api \<Rightarrow> ('m kved_ctrl \<Rightarrow> 'x \<Rightarrow> (kved_error \<times> 'm kved_ctrl \<times> 'x) option) \<Rightarrow>
   'm kved_ctrl \<Rightarrow> 'x \<Rightarrow> (kved_error \<times> 'm kved_ctrl \<times> 'x) option" where
  "kved_locked api body ctrl x =
     do {
       (ret, ctrl) \<leftarrow> kved_cpu_critical_section_enter api ctrl;
       (ret, ctrl, x) \<leftarrow> (if ret = KVED_OK then body ctrl x else Some (ret, ctrl, x));
       let (lret, ctrl) = kved_cpu_critical_section_leave api ctrl;
       Some (if lret = KVED_OK then ret else lret, ctrl, x)
     }"

section \<open>String table addressing\<close>

definition nv_sector_stats_erase :: "kved_sector_stat \<Rightarrow> kved_sector_stat" where
  "nv_sector_stats_erase st =
     st\<lparr>num_deleted_entries := 0, num_free_entries := 0,
        num_total_entries := 0, num_used_entries := 0\<rparr>"

definition kved_string_entry_to_header :: "'m kved_ctrl \<Rightarrow> u16 \<Rightarrow> u16" where
  "kved_string_entry_to_header ctrl entry = 1 + entry"

definition kved_string_entry_to_start_sector :: "'m kved_ctrl \<Rightarrow> u16 \<Rightarrow> u16" where
  "kved_string_entry_to_start_sector ctrl offset = 1 + num_total_entries (stats ctrl) + 1 + offset"

text \<open>
  \<^verbatim>\<open>kved_internal_dump\<close> prints the two tables. The printed text is not modelled; what is modelled
  is what can go wrong or change the state: the loops over the two tables, the type label looked up
  in a table of eleven (undefined past its end), and one \<open>data_read\<close> of at most six bytes into a
  16 byte buffer for every occupied string entry.
\<close>

definition kved_data_type_label_len :: nat where
  "kved_data_type_label_len = 11"

definition kved_internal_dump_index ::
  "'s kved_flash_driver \<Rightarrow> 'm kved_ctrl \<Rightarrow> 's \<Rightarrow> u16 \<Rightarrow> bool \<Rightarrow> bool loop_step option" where
  "kved_internal_dump_index drv ctrl s index first_free_printed =
     (if first_free_printed then Some (Break first_free_printed)
      else
        let key = header_read drv (sector ctrl) index s;
            val = header_read drv (sector ctrl) (index + 1) s;
            printed = (key \<noteq> KVED_DELETED_ENTRY \<and> key = KVED_FREE_ENTRY \<and> val = KVED_FREE_ENTRY);
            type = (ucast (KVED_HDR_MASK_TYPE key) :: u8)
        in if (ucast type \<noteq> KVED_DATA_TYPE_UINT64 \<and> val = KVED_FREE_ENTRY) \<or> key = KVED_DELETED_ENTRY
           then Some (Continue printed)
           else if unat type < kved_data_type_label_len then Some (Continue printed) else None)"

definition kved_internal_dump_entry ::
  "'s kved_flash_driver \<Rightarrow> 'm kved_ctrl \<Rightarrow> u16 \<Rightarrow> bool \<times> 's \<Rightarrow> (bool \<times> 's) loop_step option" where
  "kved_internal_dump_entry drv ctrl index = (\<lambda>(first_free_printed, s).
     if first_free_printed then Some (Break (first_free_printed, s))
     else
       let idx = header_read drv (str_sector ctrl) (kved_string_entry_to_header ctrl index) s
       in if idx = KVED_STR_FREE_ENTRY then Some (Continue (True, s))
          else if idx = KVED_STR_DELETED_ENTRY then Some (Continue (False, s))
          else
            let start = drop_bit 32 (idx AND 0xFFFFFFFF00000000);
                datalen = (ucast (idx AND 0x00000000FFFFFFFF) :: u16);
                (_, s) = data_read drv (str_sector ctrl)
                   (kved_string_entry_to_start_sector ctrl (ucast start))
                   (replicate 16 0) (if datalen < 6 then datalen else 6) s
            in Some (Continue (False, s)))"

definition kved_internal_dump ::
  "'s kved_flash_driver \<Rightarrow> 'm kved_ctrl \<Rightarrow> 's \<Rightarrow> (kved_error \<times> 'm kved_ctrl \<times> 's) option" where
  "kved_internal_dump drv ctrl s =
     do {
       _ \<leftarrow> u16_for (last_index ctrl) KVED_ENTRY_SIZE_IN_WORDS
          (kved_internal_dump_index drv ctrl s) (first_index ctrl) False;
       (_, s) \<leftarrow> u16_for (str_num_total_entries (str_stats ctrl)) 1
          (kved_internal_dump_entry drv ctrl) 0 (False, s);
       Some (KVED_OK, ctrl, s)
     }"

definition kved_dump ::
  "'m semphr_api \<Rightarrow> 's kved_flash_driver \<Rightarrow> 'm kved_ctrl \<Rightarrow> 's \<Rightarrow>
   (kved_error \<times> 'm kved_ctrl \<times> 's) option" where
  "kved_dump api drv = kved_locked api (kved_internal_dump drv)"

section \<open>Reading the index\<close>

definition kved_last_index_of :: "u32 \<Rightarrow> u16" where
  "kved_last_index_of sz = ucast (sz div of_nat KVED_FLASH_WORD_SIZE - ucast KVED_HDR_SIZE_IN_WORDS)"

definition kved_stats_entry ::
  "kved_word \<Rightarrow> u16 \<Rightarrow> 'm kved_ctrl \<Rightarrow> 'm kved_ctrl" where
  "kved_stats_entry key index ctrl =
     (let ctrl =
        (if key = KVED_DELETED_ENTRY then
           ctrl\<lparr>stats := (stats ctrl)\<lparr>num_deleted_entries := num_deleted_entries (stats ctrl) + 1\<rparr>\<rparr>
         else if key = KVED_FREE_ENTRY then
           (let ctrl = ctrl\<lparr>stats := (stats ctrl)\<lparr>num_free_entries := num_free_entries (stats ctrl) + 1\<rparr>\<rparr>
            in if first_free_index ctrl = 0 then ctrl\<lparr>first_free_index := index\<rparr> else ctrl)
         else
           ctrl\<lparr>stats := (stats ctrl)\<lparr>num_used_entries := num_used_entries (stats ctrl) + 1\<rparr>\<rparr>)
      in ctrl\<lparr>stats := (stats ctrl)\<lparr>num_total_entries := num_total_entries (stats ctrl) + 1\<rparr>\<rparr>)"

definition kved_sector_stats_read ::
  "'s kved_flash_driver \<Rightarrow> 'm kved_ctrl \<Rightarrow> 's \<Rightarrow> 'm kved_ctrl option" where
  "kved_sector_stats_read drv ctrl s =
     (let ctrl = ctrl\<lparr>first_index := KVED_HDR_SIZE_IN_WORDS,
                      last_index := kved_last_index_of (sector_size drv (sector ctrl) s),
                      first_free_index := 0,
                      stats := nv_sector_stats_erase (stats ctrl)\<rparr>
      in u16_for (last_index ctrl) KVED_ENTRY_SIZE_IN_WORDS
           (\<lambda>index ctrl. Some (Continue
              (kved_stats_entry (header_read drv (sector ctrl) index s) index ctrl)))
           (first_index ctrl) ctrl)"

text \<open>
  Key words: byte 7 down to byte 1 hold the key, byte 0 the type and size nibbles.
\<close>

definition kved_key_decode :: "kved_data \<Rightarrow> kved_word \<Rightarrow> kved_data" where
  "kved_key_decode data key =
     data\<lparr>kv_type := ucast (KVED_HDR_MASK_TYPE key),
          kv_key := map (\<lambda>p. le_bytes 8 key ! (KVED_MAX_KEY_SIZE - p)) [0..<KVED_MAX_KEY_SIZE]\<rparr>"

definition kved_key_encode :: "kved_data \<Rightarrow> kved_word option" where
  "kved_key_encode data =
     do {
       let key = strncpy KVED_MAX_KEY_SIZE (kv_key data);
       size \<leftarrow> (if kv_type data = KVED_DATA_TYPE_STRING
                then Some (of_nat (strnlen KVED_MAX_KEY_SIZE (kv_key data)))
                else kved_key_type_size (kv_type data));
       let hdr = (ucast (push_bit 4 (kv_type data) OR ucast (ucast size :: u8)) :: u8);
       Some (le_word (hdr # rev key))
     }"

definition kved_is_valid_key :: "'m kved_ctrl \<Rightarrow> kved_word \<Rightarrow> bool" where
  "kved_is_valid_key ctrl key =
     (let key = KVED_HDR_MASK_KEY key
      in \<not> (key = KVED_HDR_MASK_KEY (KVED_SIGNATURE_ENTRY ctrl) \<or>
            key = KVED_HDR_MASK_KEY KVED_DELETED_ENTRY \<or>
            key = KVED_HDR_MASK_KEY KVED_FREE_ENTRY))"

definition kved_key_index_find ::
  "'s kved_flash_driver \<Rightarrow> 'm kved_ctrl \<Rightarrow> kved_word \<Rightarrow> 's \<Rightarrow> u16 option" where
  "kved_key_index_find drv ctrl key s =
     (let key = KVED_HDR_MASK_KEY key
      in u16_for (last_index ctrl) KVED_ENTRY_SIZE_IN_WORDS
           (\<lambda>index key_index.
              let key_entry = KVED_HDR_MASK_KEY (header_read drv (sector ctrl) index s)
              in Some (if key = key_entry then Break index else Continue key_index))
           (first_index ctrl) KVED_INDEX_NOT_FOUND)"

definition kved_value_encode :: "kved_data \<Rightarrow> kved_word" where
  "kved_value_encode data = value_u64 (kv_value data)"

definition kved_value_string_decode ::
  "'s kved_flash_driver \<Rightarrow> 'm kved_ctrl \<Rightarrow> kved_data \<Rightarrow> kved_word \<Rightarrow> 's \<Rightarrow> kved_data \<times> 's" where
  "kved_value_string_decode drv ctrl data val s =
     (if val > ucast (str_num_total_entries (str_stats ctrl)) then (data, s)
      else
        let index = header_read drv (str_sector ctrl) (kved_string_entry_to_header ctrl (ucast val)) s;
            offset = kved_string_entry_to_start_sector ctrl (ucast (drop_bit 32 index));
            len = (ucast (index AND 0xFFFFFFFF) :: u16)
        in if unat len > KVED_MAX_STRING_SIZE then (data, s)
           else
             let (buf, s) = data_read drv (str_sector ctrl) offset (kv_value data) len s
             in (data\<lparr>kv_value := buf\<rparr>, s))"

definition kved_value_decode ::
  "'s kved_flash_driver \<Rightarrow> 'm kved_ctrl \<Rightarrow> kved_data \<Rightarrow> kved_word \<Rightarrow> 's \<Rightarrow> kved_data \<times> 's" where
  "kved_value_decode drv ctrl data val s =
     (if kv_type data = KVED_DATA_TYPE_STRING then kved_value_string_decode drv ctrl data val s
      else (data\<lparr>kv_value := set_value_u64 val (kv_value data)\<rparr>, s))"

section \<open>Consistency checks\<close>

text \<open>
  The file declares these two before \<^verbatim>\<open>kved_sector_switch\<close>, which calls them.
\<close>

definition kved_string_check_entry ::
  "kved_word \<Rightarrow> u16 \<Rightarrow> bool \<times> 'm kved_ctrl \<Rightarrow> bool \<times> 'm kved_ctrl" where
  "kved_string_check_entry ptr i = (\<lambda>(free_entry_set, ctrl).
     if ptr = KVED_STR_FREE_ENTRY then
       (True,
        (if free_entry_set then ctrl
         else ctrl\<lparr>str_ctrl := (str_ctrl ctrl)\<lparr>next_free_index := i\<rparr>\<rparr>)
          \<lparr>str_stats := (str_stats ctrl)
             \<lparr>str_num_free_entries := str_num_free_entries (str_stats ctrl) + 1\<rparr>\<rparr>)
     else if ptr = KVED_STR_DELETED_ENTRY then
       (free_entry_set,
        ctrl\<lparr>str_stats := (str_stats ctrl)
          \<lparr>str_num_deleted_entries := str_num_deleted_entries (str_stats ctrl) + 1\<rparr>\<rparr>)
     else
       (free_entry_set,
        ctrl\<lparr>str_stats := (str_stats ctrl)
          \<lparr>str_num_used_entries := str_num_used_entries (str_stats ctrl) + 1\<rparr>\<rparr>))"

definition kved_string_consistency_check ::
  "'s kved_flash_driver \<Rightarrow> 'm kved_ctrl \<Rightarrow> 's \<Rightarrow> (kved_error \<times> 'm kved_ctrl) option" where
  "kved_string_consistency_check drv ctrl s =
     (if KVED_STR_SIGNATURE_ENTRY ctrl \<noteq> header_read drv (str_sector ctrl) 0 s then
        Some (KVED_CORRUPT_TABLE, ctrl)
      else if KVED_STR_SIGNATURE_END ctrl \<noteq>
          header_read drv (str_sector ctrl) (num_total_entries (stats ctrl) + 1) s then
        Some (KVED_CORRUPT_TABLE, ctrl)
      else
        do {
          let ctrl = ctrl\<lparr>str_stats :=
             \<lparr>str_num_free_entries = 0, str_num_deleted_entries = 0,
              str_num_used_entries = 0, str_num_total_entries = 0\<rparr>\<rparr>;
          (_, ctrl) \<leftarrow> u16_for_less (num_total_entries (stats ctrl))
            (\<lambda>i (set, c). Some (Continue (kved_string_check_entry
               (header_read drv (str_sector c) (kved_string_entry_to_header c i) s) i (set, c))))
            (False, ctrl);
          let ctrl = ctrl\<lparr>str_stats := (str_stats ctrl)\<lparr>str_num_total_entries :=
             str_num_free_entries (str_stats ctrl) + str_num_deleted_entries (str_stats ctrl) +
             str_num_used_entries (str_stats ctrl)\<rparr>\<rparr>;
          Some (if str_num_total_entries (str_stats ctrl) \<noteq> num_total_entries (stats ctrl)
                then KVED_CORRUPT_TABLE else KVED_OK, ctrl)
        })"

text \<open>
  One turn of the repair loop: a slot whose value was written and whose key was not is deleted; an
  entry whose key comes again further on is the old one of an interrupted update, and is deleted.
\<close>

definition kved_dup_check ::
  "'s kved_flash_driver \<Rightarrow> kved_word \<Rightarrow> u16 \<Rightarrow> u16 \<Rightarrow> 'm kved_ctrl \<times> 's \<Rightarrow>
   ('m kved_ctrl \<times> 's) loop_step option" where
  "kved_dup_check drv key index dup_key_index = (\<lambda>(ctrl, s).
     let dup_key = header_read drv (sector ctrl) dup_key_index s
     in Some
       (if kved_is_valid_key ctrl dup_key \<and> KVED_HDR_MASK_KEY dup_key = KVED_HDR_MASK_KEY key then
          Break (ctrl\<lparr>stats := (stats ctrl)
                   \<lparr>num_deleted_entries := num_deleted_entries (stats ctrl) + 1,
                    num_used_entries := num_used_entries (stats ctrl) - 1\<rparr>\<rparr>,
                 header_write drv (sector ctrl) index 0 s)
        else Continue (ctrl, s)))"

definition kved_check_entry ::
  "'s kved_flash_driver \<Rightarrow> u16 \<Rightarrow> 'm kved_ctrl \<times> 's \<Rightarrow> ('m kved_ctrl \<times> 's) loop_step option" where
  "kved_check_entry drv index = (\<lambda>(ctrl, s).
     let key = header_read drv (sector ctrl) index s;
         val = header_read drv (sector ctrl) (index + 1) s
     in if key = KVED_FLASH_UINT_MAX \<and> val \<noteq> KVED_FLASH_UINT_MAX then
          Some (Continue
            (ctrl\<lparr>stats := (stats ctrl)
               \<lparr>num_deleted_entries := num_deleted_entries (stats ctrl) + 1,
                num_free_entries := num_free_entries (stats ctrl) - 1\<rparr>\<rparr>,
             header_write drv (sector ctrl) index 0 s))
        else if kved_is_valid_key ctrl key then
          map_option Continue
            (u16_for (last_index ctrl) KVED_ENTRY_SIZE_IN_WORDS (kved_dup_check drv key index)
               (index + KVED_ENTRY_SIZE_IN_WORDS) (ctrl, s))
        else Some (Continue (ctrl, s)))"

definition kved_data_consistency_check ::
  "'s kved_flash_driver \<Rightarrow> 'm kved_ctrl \<Rightarrow> 's \<Rightarrow> (kved_error \<times> 'm kved_ctrl \<times> 's) option" where
  "kved_data_consistency_check drv ctrl s =
     do {
       (ret, ctrl) \<leftarrow> kved_string_consistency_check drv ctrl s;
       if ret \<noteq> KVED_OK then Some (KVED_CORRUPT_TABLE, ctrl, s)
       else do {
         (ctrl, s) \<leftarrow> u16_for (last_index ctrl) KVED_ENTRY_SIZE_IN_WORDS (kved_check_entry drv)
           (first_index ctrl) (ctrl, s);
         Some (KVED_OK, ctrl, s)
       }
     }"

section \<open>Sector switch\<close>

text \<open>The locals of \<^verbatim>\<open>kved_sector_switch\<close> that its loop changes, with the storage state.\<close>

record 's kved_switch =
  next_index :: u16
  total_items :: u16
  used_items :: u16
  str_next_free_sector :: u16
  str_next_index :: u16
  storage :: 's

text \<open>
  Copying a string: data, then its string index entry, then the value word of the main entry. The
  two branches of the source (the updated string, and the old one) only differ in the text.
\<close>

definition kved_switch_string ::
  "'s kved_flash_driver \<Rightarrow> 'm kved_ctrl \<Rightarrow> kved_flash_sector \<Rightarrow> kved_flash_sector \<Rightarrow> bytes \<Rightarrow>
   's kved_switch \<Rightarrow> 's kved_switch option" where
  "kved_switch_string drv ctrl next_sector next_str_sector str w =
     do {
       n \<leftarrow> strlen str;
       let len = (of_nat n + 1 :: kved_word);
       let offset = (ucast (str_next_free_sector w) :: kved_word);
       let ptr = push_bit 32 offset + len;
       let sectorlen = len div of_nat KVED_FLASH_WORD_SIZE + 1;
       let s = data_write drv next_str_sector
         (kved_string_entry_to_start_sector ctrl (ucast offset)) str (ucast len) (storage w);
       let s = header_write drv next_str_sector
         (kved_string_entry_to_header ctrl (str_next_index w)) ptr s;
       let s = header_write drv next_sector (next_index w) (ucast (str_next_index w)) s;
       Some (w\<lparr>next_index := next_index w + 1,
               str_next_index := str_next_index w + 1,
               str_next_free_sector := str_next_free_sector w + ucast (sectorlen + 1),
               storage := s\<rparr>)
     }"

text \<open>
  One turn of the copy loop. \<open>upd_data\<close> is a pointer (\<^const>\<open>None\<close> is null, undefined to follow);
  \<open>junk index\<close> is what the uninitialised local \<^verbatim>\<open>old_data\<close> holds in the turn at \<open>index\<close>.
\<close>

definition kved_switch_entry ::
  "(u16 \<Rightarrow> kved_data) \<Rightarrow> 's kved_flash_driver \<Rightarrow> 'm kved_ctrl \<Rightarrow> kved_flash_sector \<Rightarrow>
   kved_flash_sector \<Rightarrow> kved_word \<Rightarrow> kved_data option \<Rightarrow> u16 \<Rightarrow> 's kved_switch \<Rightarrow>
   's kved_switch loop_step option" where
  "kved_switch_entry junk drv ctrl next_sector next_str_sector upd_key upd_data index w =
     (let key = header_read drv (sector ctrl) index (storage w)
      in if kved_is_valid_key ctrl key then
           do {
             let val = header_read drv (sector ctrl) (index + 1) (storage w);
             let w = w\<lparr>next_index := next_index w + 1,
                       storage := header_write drv next_sector (next_index w) key (storage w)\<rparr>;
             w \<leftarrow>
               (if KVED_HDR_MASK_KEY key = upd_key then
                  do {
                    data \<leftarrow> upd_data;
                    if KVED_HDR_MASK_TYPE key = ucast KVED_DATA_TYPE_STRING
                    then kved_switch_string drv ctrl next_sector next_str_sector (kv_value data) w
                    else Some (w\<lparr>next_index := next_index w + 1,
                                 storage := header_write drv next_sector (next_index w)
                                   (kved_value_encode data) (storage w)\<rparr>)
                  }
                else if KVED_HDR_MASK_TYPE key = ucast KVED_DATA_TYPE_STRING then
                  (let (old_data, s) = kved_value_string_decode drv ctrl (junk index) val (storage w)
                   in kved_switch_string drv ctrl next_sector next_str_sector (kv_value old_data)
                        (w\<lparr>storage := s\<rparr>))
                else Some (w\<lparr>next_index := next_index w + 1,
                             storage := header_write drv next_sector (next_index w) val (storage w)\<rparr>));
             Some (Continue (w\<lparr>used_items := used_items w + 1, total_items := total_items w + 1\<rparr>))
           }
         else Some (Continue (w\<lparr>total_items := total_items w + 1\<rparr>)))"

definition kved_next_sector :: "kved_flash_sector \<Rightarrow> kved_flash_sector" where
  "kved_next_sector sec =
     (if sec = KVED_FLASH_SECTOR_A then KVED_FLASH_SECTOR_B else KVED_FLASH_SECTOR_A)"

definition kved_next_str_sector :: "kved_flash_sector \<Rightarrow> kved_flash_sector" where
  "kved_next_str_sector sec =
     (if sec = KVED_FLASH_STRING_SECTOR_A then KVED_FLASH_STRING_SECTOR_B
      else KVED_FLASH_STRING_SECTOR_A)"

definition kved_next_cnt :: "kved_word \<Rightarrow> kved_word" where
  "kved_next_cnt cnt = (if cnt + 1 = KVED_FLASH_UINT_MAX then 0 else cnt + 1)"

definition kved_switch_ctrl ::
  "'s kved_flash_driver \<Rightarrow> kved_flash_sector \<Rightarrow> kved_flash_sector \<Rightarrow> 's kved_switch \<Rightarrow>
   'm kved_ctrl \<Rightarrow> 'm kved_ctrl" where
  "kved_switch_ctrl drv next_sector next_str_sector w ctrl =
     ctrl\<lparr>sector := next_sector,
          first_index := KVED_HDR_SIZE_IN_WORDS,
          last_index := kved_last_index_of (sector_size drv next_sector (storage w)),
          first_free_index := next_index w,
          stats := \<lparr>num_free_entries = total_items w - used_items w,
                    num_deleted_entries = 0,
                    num_used_entries = used_items w,
                    num_total_entries = total_items w\<rparr>,
          str_ctrl := \<lparr>next_free_index = str_next_index w,
                       next_free_sector = str_next_free_sector w\<rparr>,
          str_sector := next_str_sector\<rparr>"

text \<open>The headers of the new sectors are written last, and the old one is invalidated after them.\<close>

definition kved_switch_headers ::
  "'s kved_flash_driver \<Rightarrow> kved_flash_sector \<Rightarrow> kved_word \<Rightarrow> 'm kved_ctrl \<Rightarrow> 's \<Rightarrow> 's" where
  "kved_switch_headers drv last_sector cnt ctrl s =
     (let s = header_write drv (sector ctrl) 1 (kved_next_cnt cnt) s;
          s = header_write drv (sector ctrl) 0 (KVED_SIGNATURE_ENTRY ctrl) s;
          s = header_write drv (str_sector ctrl) 0 (KVED_STR_SIGNATURE_ENTRY ctrl) s;
          s = header_write drv (str_sector ctrl) (num_total_entries (stats ctrl) + 1)
                (KVED_STR_SIGNATURE_END ctrl) s
      in header_write drv last_sector 0 0 s)"

definition kved_sector_switch ::
  "(u16 \<Rightarrow> kved_data) \<Rightarrow> 's kved_flash_driver \<Rightarrow> kved_word \<Rightarrow> kved_word \<Rightarrow> kved_data option \<Rightarrow>
   'm kved_ctrl \<Rightarrow> 's \<Rightarrow> (kved_error \<times> 'm kved_ctrl \<times> 's) option" where
  "kved_sector_switch junk drv cnt upd_key upd_data ctrl s =
     do {
       let next_sector = kved_next_sector (sector ctrl);
       let next_str_sector = kved_next_str_sector (str_sector ctrl);
       let s = snd (sector_erase drv next_sector s);
       let s = snd (sector_erase drv next_str_sector s);
       let upd_key = KVED_HDR_MASK_KEY upd_key;
       w \<leftarrow> u16_for (last_index ctrl) KVED_ENTRY_SIZE_IN_WORDS
         (kved_switch_entry junk drv ctrl next_sector next_str_sector upd_key upd_data)
         (first_index ctrl)
         \<lparr>next_index = KVED_HDR_SIZE_IN_WORDS, total_items = 0, used_items = 0,
          str_next_free_sector = 0, str_next_index = 0, storage = s\<rparr>;
       let last_sector = sector ctrl;
       let ctrl = kved_switch_ctrl drv next_sector next_str_sector w ctrl;
       let s = kved_switch_headers drv last_sector cnt ctrl (storage w);
       kved_data_consistency_check drv ctrl s
     }"

definition kved_compact_database ::
  "'m semphr_api \<Rightarrow> (u16 \<Rightarrow> kved_data) \<Rightarrow> 's kved_flash_driver \<Rightarrow> 'm kved_ctrl \<Rightarrow> 's \<Rightarrow>
   (kved_error \<times> 'm kved_ctrl \<times> 's) option" where
  "kved_compact_database api junk drv = kved_locked api (\<lambda>ctrl s.
     let cnt = header_read drv (sector ctrl) 1 s
     in kved_sector_switch junk drv cnt (KVED_SIGNATURE_ENTRY ctrl) None ctrl s)"

section \<open>Writing, reading, deleting\<close>

definition kved_internal_strdata_write ::
  "'s kved_flash_driver \<Rightarrow> 'm kved_ctrl \<Rightarrow> kved_data \<Rightarrow> 's \<Rightarrow>
   (kved_error \<times> 'm kved_ctrl \<times> kved_data \<times> 's) option" where
  "kved_internal_strdata_write drv ctrl data s =
     do {
       let idx = (ucast (next_free_index (str_ctrl ctrl)) :: kved_word);
       n \<leftarrow> strlen (kv_value data);
       let len = (of_nat n + 1 :: kved_word);
       let offset = (ucast (next_free_sector (str_ctrl ctrl)) :: kved_word);
       let ptr = push_bit 32 offset + len;
       let sectorlen = len div of_nat KVED_FLASH_WORD_SIZE + 1;
       let s = header_write drv (str_sector ctrl) (kved_string_entry_to_header ctrl (ucast idx)) ptr s;
       let s = data_write drv (str_sector ctrl)
         (kved_string_entry_to_start_sector ctrl (ucast offset)) (kv_value data) (ucast len) s;
       let ctrl = ctrl\<lparr>str_ctrl :=
          \<lparr>next_free_index = next_free_index (str_ctrl ctrl) + 1,
           next_free_sector = next_free_sector (str_ctrl ctrl) + ucast (sectorlen + 1)\<rparr>\<rparr>;
       Some (KVED_OK, ctrl, data\<lparr>kv_value := set_value_u64 idx (kv_value data)\<rparr>, s)
     }"

text \<open>The test for an unchanged value.\<close>

definition kved_value_unchanged ::
  "(u16 \<Rightarrow> kved_data) \<Rightarrow> 's kved_flash_driver \<Rightarrow> 'm kved_ctrl \<Rightarrow> u16 \<Rightarrow> kved_data \<Rightarrow> 's \<Rightarrow>
   (bool \<times> 's) option" where
  "kved_value_unchanged junk drv ctrl key_index data s =
     (let stored_value = header_read drv (sector ctrl) (key_index + 1) s
      in if kv_type data = KVED_DATA_TYPE_STRING then
           (let (stored_data, s) = kved_value_string_decode drv ctrl (junk key_index) stored_value s
            in map_option (\<lambda>same. (same, s)) (strcmp_eq (kv_value data) (kv_value stored_data)))
         else Some (stored_value = kved_value_encode data, s))"

text \<open>Writing the entry at the first free index, and deleting the one it replaces.\<close>

definition kved_entry_append ::
  "'s kved_flash_driver \<Rightarrow> kved_word \<Rightarrow> u16 \<Rightarrow> bool \<Rightarrow> 'm kved_ctrl \<Rightarrow> kved_data \<Rightarrow> 's \<Rightarrow>
   (kved_error \<times> 'm kved_ctrl \<times> kved_data \<times> 's) option" where
  "kved_entry_append drv key key_index replaces ctrl data s =
     do {
       (ret, ctrl, data, s) \<leftarrow>
         (if kv_type data = KVED_DATA_TYPE_STRING then kved_internal_strdata_write drv ctrl data s
          else Some (KVED_OK, ctrl, data, s));
       if ret \<noteq> KVED_OK then Some (KVED_CORRUPT_TABLE, ctrl, data, s)
       else do {
         let s = header_write drv (sector ctrl) (first_free_index ctrl + 1) (kved_value_encode data) s;
         let s = header_write drv (sector ctrl) (first_free_index ctrl) key s;
         let ctrl = ctrl\<lparr>stats := (stats ctrl)
                \<lparr>num_free_entries := num_free_entries (stats ctrl) - 1,
                 num_used_entries := num_used_entries (stats ctrl) + 1\<rparr>,
              first_free_index := first_free_index ctrl + KVED_ENTRY_SIZE_IN_WORDS\<rparr>;
         Some (if replaces then
                 (KVED_OK,
                  ctrl\<lparr>stats := (stats ctrl)
                     \<lparr>num_deleted_entries := num_deleted_entries (stats ctrl) + 1,
                      num_used_entries := num_used_entries (stats ctrl) - 1\<rparr>\<rparr>,
                  data, header_write drv (sector ctrl) key_index KVED_DELETED_ENTRY s)
               else (KVED_OK, ctrl, data, s))
       }
     }"

definition kved_internal_data_write ::
  "'m semphr_api \<Rightarrow> (u16 \<Rightarrow> kved_data) \<Rightarrow> 's kved_flash_driver \<Rightarrow> 'm kved_ctrl \<Rightarrow> kved_data \<times> 's \<Rightarrow>
   (kved_error \<times> 'm kved_ctrl \<times> kved_data \<times> 's) option" where
  "kved_internal_data_write api junk drv ctrl = (\<lambda>(data, s).
     if \<not> started ctrl then Some (KVED_NOT_INITIALIZED, ctrl, data, s)
     else do {
       key \<leftarrow> kved_key_encode data;
       if \<not> kved_is_valid_key ctrl key then Some (KVED_INVALID_KEY, ctrl, data, s)
       else do {
         key_index \<leftarrow> kved_key_index_find drv ctrl key s;
         let old_entry = (key_index \<noteq> KVED_INDEX_NOT_FOUND);
         (unchanged, s) \<leftarrow>
           (if old_entry then kved_value_unchanged junk drv ctrl key_index data s
            else Some (False, s));
         if unchanged then Some (KVED_OK, ctrl, data, s)
         else if num_total_entries (stats ctrl) = num_used_entries (stats ctrl) then
           do {
             (_, ctrl, s) \<leftarrow> kved_dump api drv ctrl s;
             Some (KVED_TABLE_FULL, ctrl, data, s)
           }
         else do {
           let sector_changed = (num_free_entries (stats ctrl) = 0);
           (ret, ctrl, s) \<leftarrow>
             (if sector_changed then
                kved_sector_switch junk drv (header_read drv (sector ctrl) 1 s) key (Some data) ctrl s
              else Some (KVED_OK, ctrl, s));
           if ret \<noteq> KVED_OK then Some (ret, ctrl, data, s)
           else
             let old_entry_updated_in_the_same_sector = (\<not> sector_changed \<and> old_entry)
             in if \<not> old_entry \<or> old_entry_updated_in_the_same_sector
                then kved_entry_append drv key key_index old_entry_updated_in_the_same_sector
                       ctrl data s
                else Some (KVED_OK, ctrl, data, s)
         }
       }
     })"

definition kved_data_write ::
  "'m semphr_api \<Rightarrow> (u16 \<Rightarrow> kved_data) \<Rightarrow> 's kved_flash_driver \<Rightarrow> 'm kved_ctrl \<Rightarrow> kved_data \<times> 's \<Rightarrow>
   (kved_error \<times> 'm kved_ctrl \<times> kved_data \<times> 's) option" where
  "kved_data_write api junk drv = kved_locked api (kved_internal_data_write api junk drv)"

text \<open>
  The index and statistics getters return \<^verbatim>\<open>int16_t\<close>, a count or an index or a negative error
  code, in one frame: the code of a failed leave, else that of a failed enter, else the result.
\<close>

definition kved_locked_int ::
  "'m semphr_api \<Rightarrow> ('m kved_ctrl \<Rightarrow> u16 option) \<Rightarrow> 'm kved_ctrl \<Rightarrow> (u16 \<times> 'm kved_ctrl) option" where
  "kved_locked_int api body ctrl =
     do {
       (ret, ctrl) \<leftarrow> kved_cpu_critical_section_enter api ctrl;
       result \<leftarrow> (if ret = KVED_OK then body ctrl else Some 0);
       let (lret, ctrl) = kved_cpu_critical_section_leave api ctrl;
       Some (if lret \<noteq> KVED_OK then of_int (kved_error_code lret)
             else if ret \<noteq> KVED_OK then of_int (kved_error_code ret) else result, ctrl)
     }"

definition kved_used_index_from ::
  "'s kved_flash_driver \<Rightarrow> u16 \<Rightarrow> 's \<Rightarrow> 'm kved_ctrl \<Rightarrow> u16 option" where
  "kved_used_index_from drv from s ctrl =
     u16_for (last_index ctrl) KVED_ENTRY_SIZE_IN_WORDS
       (\<lambda>index found. Some
          (if kved_is_valid_key ctrl (header_read drv (sector ctrl) index s)
           then Break index else Continue found))
       from KVED_INDEX_NOT_FOUND"

definition kved_internal_first_used_index_get ::
  "'s kved_flash_driver \<Rightarrow> 's \<Rightarrow> 'm kved_ctrl \<Rightarrow> u16 option" where
  "kved_internal_first_used_index_get drv s ctrl = kved_used_index_from drv (first_index ctrl) s ctrl"

definition kved_first_used_index_get ::
  "'m semphr_api \<Rightarrow> 's kved_flash_driver \<Rightarrow> 's \<Rightarrow> 'm kved_ctrl \<Rightarrow> (u16 \<times> 'm kved_ctrl) option" where
  "kved_first_used_index_get api drv s = kved_locked_int api (kved_internal_first_used_index_get drv s)"

definition kved_internal_next_used_index_get ::
  "'s kved_flash_driver \<Rightarrow> u16 \<Rightarrow> 's \<Rightarrow> 'm kved_ctrl \<Rightarrow> u16 option" where
  "kved_internal_next_used_index_get drv prev s ctrl =
     kved_used_index_from drv (prev + KVED_ENTRY_SIZE_IN_WORDS) s ctrl"

definition kved_next_used_index_get ::
  "'m semphr_api \<Rightarrow> 's kved_flash_driver \<Rightarrow> u16 \<Rightarrow> 's \<Rightarrow> 'm kved_ctrl \<Rightarrow>
   (u16 \<times> 'm kved_ctrl) option" where
  "kved_next_used_index_get api drv prev s =
     kved_locked_int api (kved_internal_next_used_index_get drv prev s)"

definition kved_internal_data_read_by_index ::
  "'s kved_flash_driver \<Rightarrow> u16 \<Rightarrow> 'm kved_ctrl \<Rightarrow> kved_data \<times> 's \<Rightarrow>
   (kved_error \<times> 'm kved_ctrl \<times> kved_data \<times> 's) option" where
  "kved_internal_data_read_by_index drv index ctrl = (\<lambda>(data, s).
     if index < first_index ctrl \<or> index > last_index ctrl then
       Some (KVED_INVALID_INDEX, ctrl, data, s)
     else
       let key = header_read drv (sector ctrl) index s
       in if \<not> kved_is_valid_key ctrl key then Some (KVED_INVALID_KEY, ctrl, data, s)
          else
            let val = header_read drv (sector ctrl) (index + 1) s;
                (data, s) = kved_value_decode drv ctrl (kved_key_decode data key) val s
            in Some (KVED_OK, ctrl, data, s))"

definition kved_data_read_by_index ::
  "'m semphr_api \<Rightarrow> 's kved_flash_driver \<Rightarrow> u16 \<Rightarrow> 'm kved_ctrl \<Rightarrow> kved_data \<times> 's \<Rightarrow>
   (kved_error \<times> 'm kved_ctrl \<times> kved_data \<times> 's) option" where
  "kved_data_read_by_index api drv index = kved_locked api (kved_internal_data_read_by_index drv index)"

definition kved_internal_free_entries_get :: "'m kved_ctrl \<Rightarrow> u16" where
  "kved_internal_free_entries_get ctrl =
     (if \<not> started ctrl then of_int (kved_error_code KVED_NOT_INITIALIZED)
      else num_total_entries (stats ctrl) - num_used_entries (stats ctrl))"

definition kved_free_entries_get :: "'m semphr_api \<Rightarrow> 'm kved_ctrl \<Rightarrow> (u16 \<times> 'm kved_ctrl) option" where
  "kved_free_entries_get api =
     kved_locked_int api (\<lambda>ctrl. Some (kved_internal_free_entries_get ctrl))"

definition kved_internal_total_entries_get :: "'m kved_ctrl \<Rightarrow> u16" where
  "kved_internal_total_entries_get ctrl =
     (if \<not> started ctrl then of_int (kved_error_code KVED_NOT_INITIALIZED)
      else num_total_entries (stats ctrl))"

definition kved_total_entries_get :: "'m semphr_api \<Rightarrow> 'm kved_ctrl \<Rightarrow> (u16 \<times> 'm kved_ctrl) option" where
  "kved_total_entries_get api =
     kved_locked_int api (\<lambda>ctrl. Some (kved_internal_total_entries_get ctrl))"

definition kved_internal_used_entries_get :: "'m kved_ctrl \<Rightarrow> u16" where
  "kved_internal_used_entries_get ctrl =
     (if \<not> started ctrl then of_int (kved_error_code KVED_NOT_INITIALIZED)
      else num_used_entries (stats ctrl))"

definition kved_used_entries_get :: "'m semphr_api \<Rightarrow> 'm kved_ctrl \<Rightarrow> (u16 \<times> 'm kved_ctrl) option" where
  "kved_used_entries_get api =
     kved_locked_int api (\<lambda>ctrl. Some (kved_internal_used_entries_get ctrl))"

definition kved_internal_deleted_entries_get :: "'m kved_ctrl \<Rightarrow> u16" where
  "kved_internal_deleted_entries_get ctrl =
     (if \<not> started ctrl then of_int (kved_error_code KVED_NOT_INITIALIZED)
      else num_deleted_entries (stats ctrl))"

definition kved_deleted_entries_get :: "'m semphr_api \<Rightarrow> 'm kved_ctrl \<Rightarrow> (u16 \<times> 'm kved_ctrl) option" where
  "kved_deleted_entries_get api =
     kved_locked_int api (\<lambda>ctrl. Some (kved_internal_deleted_entries_get ctrl))"

definition kved_internal_data_read ::
  "'s kved_flash_driver \<Rightarrow> 'm kved_ctrl \<Rightarrow> kved_data \<times> 's \<Rightarrow>
   (kved_error \<times> 'm kved_ctrl \<times> kved_data \<times> 's) option" where
  "kved_internal_data_read drv ctrl = (\<lambda>(data, s).
     if \<not> started ctrl then Some (KVED_NOT_INITIALIZED, ctrl, data, s)
     else do {
       key \<leftarrow> kved_key_encode data;
       if \<not> kved_is_valid_key ctrl key then Some (KVED_INVALID_KEY, ctrl, data, s)
       else do {
         key_index \<leftarrow> kved_key_index_find drv ctrl key s;
         if key_index = KVED_INDEX_NOT_FOUND then Some (KVED_INVALID_KEY, ctrl, data, s)
         else do {
           let data = data\<lparr>kv_type :=
             ucast (KVED_HDR_MASK_TYPE (header_read drv (sector ctrl) key_index s))\<rparr>;
           let val = header_read drv (sector ctrl) (key_index + 1) s;
           let (data, s) = kved_value_decode drv ctrl data val s;
           Some (KVED_OK, ctrl, data, s)
         }
       }
     })"

definition kved_data_read ::
  "'m semphr_api \<Rightarrow> 's kved_flash_driver \<Rightarrow> 'm kved_ctrl \<Rightarrow> kved_data \<times> 's \<Rightarrow>
   (kved_error \<times> 'm kved_ctrl \<times> kved_data \<times> 's) option" where
  "kved_data_read api drv = kved_locked api (kved_internal_data_read drv)"

definition kved_internal_data_delete ::
  "'s kved_flash_driver \<Rightarrow> 'm kved_ctrl \<Rightarrow> kved_data \<times> 's \<Rightarrow>
   (kved_error \<times> 'm kved_ctrl \<times> kved_data \<times> 's) option" where
  "kved_internal_data_delete drv ctrl = (\<lambda>(data, s).
     if \<not> started ctrl then Some (KVED_NOT_INITIALIZED, ctrl, data, s)
     else do {
       key \<leftarrow> kved_key_encode data;
       if \<not> kved_is_valid_key ctrl key then Some (KVED_INVALID_KEY, ctrl, data, s)
       else do {
         key_index \<leftarrow> kved_key_index_find drv ctrl key s;
         if key_index = KVED_INDEX_NOT_FOUND then Some (KVED_INVALID_KEY, ctrl, data, s)
         else Some (KVED_OK,
            ctrl\<lparr>stats := (stats ctrl)
               \<lparr>num_deleted_entries := num_deleted_entries (stats ctrl) + 1,
                num_used_entries := num_used_entries (stats ctrl) - 1\<rparr>\<rparr>,
            data, header_write drv (sector ctrl) key_index KVED_DELETED_ENTRY s)
       }
     })"

definition kved_data_delete ::
  "'m semphr_api \<Rightarrow> 's kved_flash_driver \<Rightarrow> 'm kved_ctrl \<Rightarrow> kved_data \<times> 's \<Rightarrow>
   (kved_error \<times> 'm kved_ctrl \<times> kved_data \<times> 's) option" where
  "kved_data_delete api drv = kved_locked api (kved_internal_data_delete drv)"

section \<open>Start up\<close>

text \<open>Which of two signed sectors to invalidate, from their counters.\<close>

definition kved_sectors_to_invalidate :: "kved_word \<Rightarrow> kved_word \<Rightarrow> bool \<times> bool" where
  "kved_sectors_to_invalidate cnt_a cnt_b =
     (let (a, b) =
        (if cnt_a = KVED_FLASH_UINT_MAX - 1 \<and> cnt_b = 0 then (True, False)
         else if cnt_b = KVED_FLASH_UINT_MAX - 1 \<and> cnt_a = 0 then (False, True)
         else if cnt_a = KVED_FLASH_UINT_MAX \<or> cnt_b = KVED_FLASH_UINT_MAX then
           (cnt_a = KVED_FLASH_UINT_MAX, cnt_b = KVED_FLASH_UINT_MAX)
         else (False, False))
      in if \<not> a \<and> \<not> b then (if cnt_a > cnt_b then (a, True) else (True, b)) else (a, b))"

definition kved_sector_consistency_check ::
  "'s kved_flash_driver \<Rightarrow> 'm kved_ctrl \<Rightarrow> 's \<Rightarrow> 's" where
  "kved_sector_consistency_check drv ctrl s =
     (if header_read drv KVED_FLASH_SECTOR_A 0 s = KVED_SIGNATURE_ENTRY ctrl \<and>
         header_read drv KVED_FLASH_SECTOR_B 0 s = KVED_SIGNATURE_ENTRY ctrl
      then
        let (invalidate_a, invalidate_b) =
              kved_sectors_to_invalidate (header_read drv KVED_FLASH_SECTOR_A 1 s)
                (header_read drv KVED_FLASH_SECTOR_B 1 s);
            s = (if invalidate_a then header_write drv KVED_FLASH_SECTOR_A 0 0 s else s)
        in if invalidate_b then header_write drv KVED_FLASH_SECTOR_B 0 0 s else s
      else s)"

definition kved_init_index_sector ::
  "'s kved_flash_driver \<Rightarrow> 'm kved_ctrl \<Rightarrow> 's \<Rightarrow> 'm kved_ctrl \<times> 's" where
  "kved_init_index_sector drv ctrl s =
     (if header_read drv KVED_FLASH_SECTOR_A 0 s = KVED_SIGNATURE_ENTRY ctrl then
        (ctrl\<lparr>sector := KVED_FLASH_SECTOR_A\<rparr>, s)
      else if header_read drv KVED_FLASH_SECTOR_B 0 s = KVED_SIGNATURE_ENTRY ctrl then
        (ctrl\<lparr>sector := KVED_FLASH_SECTOR_B\<rparr>, s)
      else
        let s = snd (sector_erase drv KVED_FLASH_SECTOR_A s);
            s = header_write drv KVED_FLASH_SECTOR_A 1 0 s;
            s = header_write drv KVED_FLASH_SECTOR_A 0 (KVED_SIGNATURE_ENTRY ctrl) s
        in (ctrl\<lparr>sector := KVED_FLASH_SECTOR_A\<rparr>, s))"

definition kved_str_sector_signed ::
  "'s kved_flash_driver \<Rightarrow> kved_flash_sector \<Rightarrow> 'm kved_ctrl \<Rightarrow> 's \<Rightarrow> bool" where
  "kved_str_sector_signed drv sec ctrl s =
     (header_read drv sec 0 s = KVED_STR_SIGNATURE_ENTRY ctrl \<and>
      header_read drv sec (num_total_entries (stats ctrl) + 1) s = KVED_STR_SIGNATURE_END ctrl)"

definition kved_init_str_sector ::
  "'s kved_flash_driver \<Rightarrow> 'm kved_ctrl \<Rightarrow> 's \<Rightarrow> 'm kved_ctrl \<times> 's" where
  "kved_init_str_sector drv ctrl s =
     (if kved_str_sector_signed drv KVED_FLASH_STRING_SECTOR_A ctrl s then
        (ctrl\<lparr>str_sector := KVED_FLASH_STRING_SECTOR_A\<rparr>, s)
      else if kved_str_sector_signed drv KVED_FLASH_STRING_SECTOR_B ctrl s then
        (ctrl\<lparr>str_sector := KVED_FLASH_STRING_SECTOR_B\<rparr>, s)
      else
        let s = snd (sector_erase drv KVED_FLASH_STRING_SECTOR_A s);
            s = header_write drv KVED_FLASH_STRING_SECTOR_A 0 (KVED_STR_SIGNATURE_ENTRY ctrl) s;
            s = header_write drv KVED_FLASH_STRING_SECTOR_A (num_total_entries (stats ctrl) + 1)
                  (KVED_STR_SIGNATURE_END ctrl) s
        in (ctrl\<lparr>str_sector := KVED_FLASH_STRING_SECTOR_A\<rparr>, s))"

text \<open>
  \<^verbatim>\<open>kved_init\<close>: \<^verbatim>\<open>malloc\<close> may fail (clearing a null block is undefined), \<open>m\<close> is the mutex that
  \<^verbatim>\<open>xSemaphoreCreateMutex\<close> returns. The result is the control block or \<^const>\<open>None\<close> for null.
\<close>

definition kved_ctrl_zero :: "'m \<Rightarrow> 'm kved_ctrl" where
  "kved_ctrl_zero m =
     \<lparr>first_index = 0, first_free_index = 0, last_index = 0,
      str_ctrl = \<lparr>next_free_index = 0, next_free_sector = 0\<rparr>,
      stats = \<lparr>num_free_entries = 0, num_deleted_entries = 0,
               num_used_entries = 0, num_total_entries = 0\<rparr>,
      str_stats = \<lparr>str_num_free_entries = 0, str_num_deleted_entries = 0,
                   str_num_used_entries = 0, str_num_total_entries = 0\<rparr>,
      sector = KVED_FLASH_SECTOR_A, str_sector = KVED_FLASH_SECTOR_A,
      started = False, drv_max_entries = 0, mutex = m\<rparr>"

definition kved_init ::
  "'m semphr_api \<Rightarrow> bool \<Rightarrow> 'm \<Rightarrow> 's kved_flash_driver \<Rightarrow> 's \<Rightarrow> ('m kved_ctrl option \<times> 's) option" where
  "kved_init api malloc_ok m drv s =
     (if \<not> malloc_ok then None
      else
        let ctrl = kved_ctrl_zero m;
            (up, s) = drv_init drv s
        in if \<not> up then Some (None, s)
           else
             let ctrl = ctrl\<lparr>drv_max_entries := max_entries drv s\<rparr>
             in if drv_max_entries ctrl = 0 then Some (None, s)
                else do {
                  let s = kved_sector_consistency_check drv ctrl s;
                  let (ctrl, s) = kved_init_index_sector drv ctrl s;
                  ctrl \<leftarrow> kved_sector_stats_read drv ctrl s;
                  let (ctrl, s) = kved_init_str_sector drv ctrl s;
                  (ret, ctrl, s) \<leftarrow> kved_data_consistency_check drv ctrl s;
                  if ret \<noteq> KVED_OK then Some (None, s)
                  else do {
                    (_, ctrl, s) \<leftarrow> kved_dump api drv (ctrl\<lparr>started := True\<rparr>) s;
                    Some (Some ctrl, s)
                  }
                })"

end
