(* ===== verification/Kved_Table.thy ===== *)
theory Kved_Table
  imports Kved
begin

text \<open>
  What a kved sector means: the list of its slots, the table invariant that the control block and
  the slots satisfy between two operations, and the finite map from keys to typed values that the
  table stands for. The lemmas of this theory are about slot lists only; Kved\_Correct connects
  them to the code.
\<close>

section \<open>Slots\<close>

type_synonym slot = "kved_word \<times> kved_word"

definition slot_index :: "nat \<Rightarrow> u16" where
  "slot_index k = 2 + 2 * of_nat k"

definition kved_slots :: "'s kved_flash_driver \<Rightarrow> kved_flash_sector \<Rightarrow> nat \<Rightarrow> 's \<Rightarrow> slot list" where
  "kved_slots drv sec n s =
     map (\<lambda>k. (header_read drv sec (slot_index k) s, header_read drv sec (slot_index k + 1) s)) [0..<n]"

definition free_slot :: slot where
  "free_slot = (KVED_FREE_ENTRY, KVED_FREE_ENTRY)"

lemma length_kved_slots [simp]: "length (kved_slots drv sec n s) = n"
  by (simp add: kved_slots_def)

lemma nth_kved_slots:
  "k < n \<Longrightarrow> kved_slots drv sec n s ! k =
     (header_read drv sec (slot_index k) s, header_read drv sec (slot_index k + 1) s)"
  by (simp add: kved_slots_def)

lemma unat_slot_index: "2 * k + 2 < 65536 \<Longrightarrow> unat (slot_index k) = 2 * k + 2"
  by (simp add: slot_index_def unat_word_ariths unat_of_nat)

lemma unat_slot_index_Suc: "2 * k + 3 < 65536 \<Longrightarrow> unat (slot_index k + 1) = 2 * k + 3"
  by (simp add: slot_index_def unat_word_ariths unat_of_nat)

lemma slot_index_Suc: "slot_index (Suc k) = slot_index k + 2"
  by (simp add: slot_index_def algebra_simps)

lemma slot_index_neq_0: "2 * k + 2 < 65536 \<Longrightarrow> slot_index k \<noteq> 0"
  by (metis unat_slot_index unat_0 add_is_0 zero_neq_numeral)

lemma slot_index_eq_iff:
  "2 * j + 3 < 65536 \<Longrightarrow> 2 * k + 3 < 65536 \<Longrightarrow> slot_index j = slot_index k \<longleftrightarrow> j = k"
  by (simp add: word_unat_eq_iff unat_slot_index)

lemma slot_index_Suc_eq_iff:
  "2 * j + 3 < 65536 \<Longrightarrow> 2 * k + 3 < 65536 \<Longrightarrow> slot_index j + 1 = slot_index k + 1 \<longleftrightarrow> j = k"
  by (simp add: slot_index_eq_iff)

lemma slot_index_neq_Suc:
  assumes "2 * j + 3 < 65536" "2 * k + 3 < 65536"
  shows "slot_index j \<noteq> slot_index k + 1"
proof
  assume "slot_index j = slot_index k + 1"
  then have "unat (slot_index j) = unat (slot_index k + 1)" by simp
  with assms have "2 * j + 2 = 2 * k + 3" by (simp add: unat_slot_index unat_slot_index_Suc)
  then show False by presburger
qed

lemma slot_index_neq_Suc' : 
  "2 * j + 3 < 65536 \<Longrightarrow> 2 * k + 3 < 65536 \<Longrightarrow> slot_index k + 1 \<noteq> slot_index j"
  using slot_index_neq_Suc by metis

lemmas slot_index_neq = slot_index_neq_Suc slot_index_neq_Suc' slot_index_eq_iff

section \<open>The table and the map it stands for\<close>

definition live :: "'m kved_ctrl \<Rightarrow> slot list \<Rightarrow> slot list" where
  "live ctrl sl = filter (\<lambda>e. kved_is_valid_key ctrl (fst e)) sl"

definition kved_entry :: "slot \<Rightarrow> kved_word \<times> kved_word \<times> kved_word" where
  "kved_entry e = (KVED_HDR_MASK_KEY (fst e), KVED_HDR_MASK_TYPE (fst e), snd e)"

text \<open>The abstract database: from the masked key to the type and the value word.\<close>

definition kved_map :: "'m kved_ctrl \<Rightarrow> slot list \<Rightarrow> kved_word \<rightharpoonup> kved_word \<times> kved_word" where
  "kved_map ctrl sl = map_of (map kved_entry (live ctrl sl))"

definition live_keys :: "'m kved_ctrl \<Rightarrow> slot list \<Rightarrow> kved_word list" where
  "live_keys ctrl sl = map (\<lambda>e. KVED_HDR_MASK_KEY (fst e)) (live ctrl sl)"

definition table_ok :: "'m kved_ctrl \<Rightarrow> slot list \<Rightarrow> nat \<Rightarrow> bool" where
  "table_ok ctrl sl f \<longleftrightarrow>
     f \<le> length sl \<and>
     (\<forall>e \<in> set (take f sl). fst e = KVED_DELETED_ENTRY \<or> kved_is_valid_key ctrl (fst e)) \<and>
     (\<forall>e \<in> set (drop f sl). e = free_slot) \<and>
     distinct (live_keys ctrl sl)"

text \<open>All entries are of a type of the enum, and none is a string.\<close>

definition numeric_type :: "kved_word \<Rightarrow> bool" where
  "numeric_type t \<longleftrightarrow> t \<noteq> ucast KVED_DATA_TYPE_STRING \<and> t < 11"

definition no_strings :: "'m kved_ctrl \<Rightarrow> slot list \<Rightarrow> bool" where
  "no_strings ctrl sl \<longleftrightarrow> (\<forall>e \<in> set (live ctrl sl). numeric_type (KVED_HDR_MASK_TYPE (fst e)))"

text \<open>The control block agrees with the slots.\<close>

definition ctrl_ok :: "nat \<Rightarrow> 'm kved_ctrl \<Rightarrow> slot list \<Rightarrow> nat \<Rightarrow> bool" where
  "ctrl_ok n ctrl sl f \<longleftrightarrow>
     first_index ctrl = slot_index 0 \<and>
     2 * n \<le> unat (last_index ctrl) \<and> unat (last_index ctrl) < 2 * n + 2 \<and>
     (f < n \<longrightarrow> first_free_index ctrl = slot_index f) \<and>
     num_total_entries (stats ctrl) = of_nat n \<and>
     num_used_entries (stats ctrl) = of_nat (length (live ctrl sl)) \<and>
     num_free_entries (stats ctrl) = of_nat (n - f) \<and>
     num_deleted_entries (stats ctrl) = of_nat (f - length (live ctrl sl))"

lemma valid_key_not_deleted [simp]: "\<not> kved_is_valid_key ctrl 0"
  by (simp add: kved_is_valid_key_def KVED_DELETED_ENTRY_def Let_def)

lemma valid_key_not_free [simp]: "\<not> kved_is_valid_key ctrl KVED_FREE_ENTRY"
  by (simp add: kved_is_valid_key_def Let_def)

lemma valid_key_mask: "kved_is_valid_key ctrl (KVED_HDR_MASK_KEY k) = kved_is_valid_key ctrl k"
  by (simp add: kved_is_valid_key_def Let_def)

lemma valid_key_mask_eq:
  "KVED_HDR_MASK_KEY k = KVED_HDR_MASK_KEY k' \<Longrightarrow> kved_is_valid_key ctrl k = kved_is_valid_key ctrl k'"
  by (metis valid_key_mask)

lemma valid_key_cong: "drv_max_entries c = drv_max_entries c' \<Longrightarrow> kved_is_valid_key c = kved_is_valid_key c'"
  by (simp add: kved_is_valid_key_def KVED_SIGNATURE_ENTRY_def fun_eq_iff)

text \<open>Of the control block, validity only looks at the number of entries of the driver.\<close>

lemma valid_key_update [simp]:
  "kved_is_valid_key (ctrl\<lparr>first_index := x0\<rparr>) = kved_is_valid_key ctrl"
  "kved_is_valid_key (ctrl\<lparr>first_free_index := x1\<rparr>) = kved_is_valid_key ctrl"
  "kved_is_valid_key (ctrl\<lparr>last_index := x2\<rparr>) = kved_is_valid_key ctrl"
  "kved_is_valid_key (ctrl\<lparr>str_ctrl := x3\<rparr>) = kved_is_valid_key ctrl"
  "kved_is_valid_key (ctrl\<lparr>stats := x4\<rparr>) = kved_is_valid_key ctrl"
  "kved_is_valid_key (ctrl\<lparr>str_stats := x5\<rparr>) = kved_is_valid_key ctrl"
  "kved_is_valid_key (ctrl\<lparr>sector := x6\<rparr>) = kved_is_valid_key ctrl"
  "kved_is_valid_key (ctrl\<lparr>str_sector := x7\<rparr>) = kved_is_valid_key ctrl"
  "kved_is_valid_key (ctrl\<lparr>started := x8\<rparr>) = kved_is_valid_key ctrl"
  "kved_is_valid_key (ctrl\<lparr>mutex := x9\<rparr>) = kved_is_valid_key ctrl"
  by (rule valid_key_cong; simp)+

lemma live_update [simp]:
  "live (ctrl\<lparr>first_index := x0\<rparr>) = live ctrl"
  "live (ctrl\<lparr>first_free_index := x1\<rparr>) = live ctrl"
  "live (ctrl\<lparr>last_index := x2\<rparr>) = live ctrl"
  "live (ctrl\<lparr>str_ctrl := x3\<rparr>) = live ctrl"
  "live (ctrl\<lparr>stats := x4\<rparr>) = live ctrl"
  "live (ctrl\<lparr>str_stats := x5\<rparr>) = live ctrl"
  "live (ctrl\<lparr>sector := x6\<rparr>) = live ctrl"
  "live (ctrl\<lparr>str_sector := x7\<rparr>) = live ctrl"
  "live (ctrl\<lparr>started := x8\<rparr>) = live ctrl"
  "live (ctrl\<lparr>mutex := x9\<rparr>) = live ctrl"
  by (simp_all add: live_def fun_eq_iff)

lemma live_simps [simp]:
  "live ctrl [] = []"
  "live ctrl (e # sl) = (if kved_is_valid_key ctrl (fst e) then e # live ctrl sl else live ctrl sl)"
  "live ctrl (sl @ sl') = live ctrl sl @ live ctrl sl'"
  by (simp_all add: live_def)

lemma live_free: "\<forall>e \<in> set sl. e = free_slot \<Longrightarrow> live ctrl sl = []"
  by (auto simp: live_def free_slot_def filter_empty_conv)

lemma live_replicate_free [simp]: "live ctrl (replicate m free_slot) = []"
  by (rule live_free) simp

lemma live_live [simp]: "live ctrl (live ctrl sl) = live ctrl sl"
  by (simp add: live_def)

lemma length_live_le: "length (live ctrl sl) \<le> length sl"
  by (simp add: live_def)

lemma live_take_eq:
  assumes "table_ok ctrl sl f"
  shows "live ctrl (take f sl) = live ctrl sl"
proof -
  have "live ctrl sl = live ctrl (take f sl @ drop f sl)" by simp
  also have "\<dots> = live ctrl (take f sl)"
    using assms live_free [of "drop f sl"] by (simp only: live_simps) (simp add: table_ok_def)
  finally show ?thesis ..
qed

lemma length_live_le_first_free: "table_ok ctrl sl f \<Longrightarrow> length (live ctrl sl) \<le> f"
  using live_take_eq [of ctrl sl f] length_live_le [of ctrl "take f sl"] by simp

section \<open>Looking up\<close>

lemma live_mem: "e \<in> set (live ctrl sl) \<longleftrightarrow> e \<in> set sl \<and> kved_is_valid_key ctrl (fst e)"
  by (simp add: live_def)

lemma map_of_entry_None:
  "map_of (map kved_entry es) x = None \<longleftrightarrow> x \<notin> set (map (\<lambda>e. KVED_HDR_MASK_KEY (fst e)) es)"
  by (induction es) (auto simp: kved_entry_def)

lemma kved_map_None_iff: "kved_map ctrl sl x = None \<longleftrightarrow> x \<notin> set (live_keys ctrl sl)"
  by (simp only: kved_map_def map_of_entry_None live_keys_def)

lemma kved_map_None:
  assumes "\<And>e. e \<in> set sl \<Longrightarrow> KVED_HDR_MASK_KEY (fst e) \<noteq> x"
  shows "kved_map ctrl sl x = None"
proof -
  have "x \<notin> set (live_keys ctrl sl)"
    unfolding live_keys_def set_map image_iff using assms live_mem by metis
  then show ?thesis by (simp only: kved_map_None_iff not_False_eq_True)
qed

lemma kved_map_Some:
  assumes "distinct (live_keys ctrl sl)" "e \<in> set sl" "kved_is_valid_key ctrl (fst e)"
  shows "kved_map ctrl sl (KVED_HDR_MASK_KEY (fst e)) = Some (KVED_HDR_MASK_TYPE (fst e), snd e)"
proof -
  have "distinct (map fst (map kved_entry (live ctrl sl)))"
    using assms(1) by (simp add: live_keys_def kved_entry_def comp_def)
  moreover have "kved_entry e \<in> set (map kved_entry (live ctrl sl))"
    using assms by (simp add: live_mem)
  ultimately show ?thesis
    unfolding kved_map_def kved_entry_def by (intro map_of_is_SomeI) auto
qed

lemma card_dom_kved_map:
  assumes "distinct (live_keys ctrl sl)"
  shows "card (dom (kved_map ctrl sl)) = length (live ctrl sl)"
proof -
  have "dom (kved_map ctrl sl) = set (live_keys ctrl sl)"
    using kved_map_None_iff [of ctrl sl] by (auto simp: dom_def simp flip: not_None_eq)
  then show ?thesis using assms by (simp add: distinct_card) (simp add: live_keys_def)
qed

section \<open>Updating\<close>

lemma map_upd_absent:
  "m x = None \<Longrightarrow> (\<lambda>y. map_option (\<lambda>(t, u). (t, if y = x then v else u)) (m y)) = m"
proof
  fix y assume "m x = None"
  then show "map_option (\<lambda>(t, u). (t, if y = x then v else u)) (m y) = m y"
    by (cases "m y") auto
qed

lemma map_upd_present:
  "m x = Some (t, u) \<Longrightarrow> (\<lambda>y. map_option (\<lambda>(t, u). (t, if y = x then v else u)) (m y)) = m(x \<mapsto> (t, v))"
proof
  fix y assume "m x = Some (t, u)"
  then show "map_option (\<lambda>(t, u). (t, if y = x then v else u)) (m y) = (m(x \<mapsto> (t, v))) y"
    by (cases "m y") auto
qed

text \<open>Deleting slot \<open>k\<close>, appending at the first free slot, and both.\<close>

lemma update_split: "k < length sl \<Longrightarrow> sl[k := e] = take k sl @ e # drop (Suc k) sl"
  by (simp add: upd_conv_take_nth_drop)

lemma split_at: "k < length sl \<Longrightarrow> sl = take k sl @ sl ! k # drop (Suc k) sl"
  by (simp add: id_take_nth_drop)

lemma live_delete:
  assumes "k < length sl" "kved_is_valid_key ctrl (fst (sl ! k))"
  shows "live ctrl sl = live ctrl (take k sl) @ sl ! k # live ctrl (drop (Suc k) sl)"
    and "live ctrl (sl[k := (KVED_DELETED_ENTRY, v)]) = live ctrl (take k sl) @ live ctrl (drop (Suc k) sl)"
proof -
  show "live ctrl sl = live ctrl (take k sl) @ sl ! k # live ctrl (drop (Suc k) sl)"
    by (subst split_at [OF assms(1)]) (simp only: live_simps assms(2) if_True)
  show "live ctrl (sl[k := (KVED_DELETED_ENTRY, v)]) = live ctrl (take k sl) @ live ctrl (drop (Suc k) sl)"
    by (subst update_split [OF assms(1)]) (simp add: KVED_DELETED_ENTRY_def)
qed

lemma drop_Suc_subset: "e \<in> set (drop (Suc f) sl) \<Longrightarrow> e \<in> set (drop f sl)"
  using set_drop_subset_set_drop [of f "Suc f" sl] by auto

lemma live_append:
  assumes "table_ok ctrl sl f" "f < length sl" "kved_is_valid_key ctrl (fst e)"
  shows "live ctrl (sl[f := e]) = live ctrl sl @ [e]"
proof -
  have "live ctrl (drop (Suc f) sl) = []"
    using assms(1) by (intro live_free) (metis table_ok_def drop_Suc_subset)
  then show ?thesis
    using assms by (simp add: update_split live_take_eq)
qed

lemma kved_map_delete:
  assumes "table_ok ctrl sl f" "k < length sl" "kved_is_valid_key ctrl (fst (sl ! k))"
  shows "kved_map ctrl (sl[k := (KVED_DELETED_ENTRY, v)]) =
    (kved_map ctrl sl)(KVED_HDR_MASK_KEY (fst (sl ! k)) := None)"
proof -
  let ?x = "KVED_HDR_MASK_KEY (fst (sl ! k))"
  let ?A = "map kved_entry (live ctrl (take k sl))"
  let ?B = "map kved_entry (live ctrl (drop (Suc k) sl))"
  have "distinct (map (\<lambda>e. KVED_HDR_MASK_KEY (fst e)) (live ctrl (take k sl) @ sl ! k # live ctrl (drop (Suc k) sl)))"
    using assms(1) unfolding table_ok_def live_keys_def live_delete(1) [OF assms(2,3)] by simp
  then have "map_of ?A ?x = None" "map_of ?B ?x = None"
    unfolding map_of_entry_None by simp_all
  then show ?thesis
    unfolding kved_map_def live_delete [OF assms(2,3)]
    by (auto simp: fun_eq_iff map_add_def kved_entry_def split: option.splits)
qed

lemma kved_map_append:
  assumes "table_ok ctrl sl f" "f < length sl" "kved_is_valid_key ctrl (fst e)"
    "KVED_HDR_MASK_KEY (fst e) \<notin> set (live_keys ctrl sl)"
  shows "kved_map ctrl (sl[f := e]) =
    (kved_map ctrl sl)(KVED_HDR_MASK_KEY (fst e) \<mapsto> (KVED_HDR_MASK_TYPE (fst e), snd e))"
proof -
  have "map_of (map kved_entry (live ctrl sl)) (KVED_HDR_MASK_KEY (fst e)) = None"
    using assms(4) by (simp only: map_of_entry_None live_keys_def not_False_eq_True)
  then show ?thesis
    unfolding kved_map_def live_append [OF assms(1-3)]
    by (auto simp: fun_eq_iff map_add_def kved_entry_def split: option.splits)
qed

lemma live_keys_delete:
  assumes "table_ok ctrl sl f" "k < length sl" "kved_is_valid_key ctrl (fst (sl ! k))"
  shows "set (live_keys ctrl (sl[k := (KVED_DELETED_ENTRY, v)])) =
      set (live_keys ctrl sl) - {KVED_HDR_MASK_KEY (fst (sl ! k))}"
    and "distinct (live_keys ctrl (sl[k := (KVED_DELETED_ENTRY, v)]))"
  using assms(1) unfolding table_ok_def live_keys_def live_delete [OF assms(2,3)] by auto

lemma table_ok_delete:
  assumes "table_ok ctrl sl f" "k < f" "kved_is_valid_key ctrl (fst (sl ! k))"
  shows "table_ok ctrl (sl[k := (KVED_DELETED_ENTRY, v)]) f"
proof -
  have k: "k < length sl" using assms(1,2) by (simp add: table_ok_def)
  show ?thesis
    using assms(1,2) live_keys_delete(2) [OF assms(1) k assms(3)]
    by (auto simp: table_ok_def take_update_swap dest!: subsetD [OF set_update_subset_insert])
qed

lemma table_ok_append:
  assumes "table_ok ctrl sl f" "f < length sl" "kved_is_valid_key ctrl (fst e)"
    "KVED_HDR_MASK_KEY (fst e) \<notin> set (live_keys ctrl sl)"
  shows "table_ok ctrl (sl[f := e]) (Suc f)"
proof -
  have "take (Suc f) (sl[f := e]) = take f sl @ [e]"
    using assms(2) by (simp add: take_Suc_conv_app_nth)
  moreover have "drop (Suc f) (sl[f := e]) = drop (Suc f) sl"
    by simp
  moreover have "distinct (live_keys ctrl (sl[f := e]))"
    using assms unfolding table_ok_def live_keys_def live_append [OF assms(1-3)] by simp
  ultimately show ?thesis
    using assms by (auto simp: table_ok_def dest: drop_Suc_subset)
qed

lemma table_ok_free:
  assumes "table_ok ctrl sl f" "f \<le> k" "k < length sl"
  shows "sl ! k = free_slot"
proof -
  have "sl ! k \<in> set (drop f sl)"
    using assms(2,3) by (auto simp: in_set_conv_nth intro!: exI [of _ "k - f"])
  then show ?thesis using assms(1) by (simp add: table_ok_def)
qed

lemma table_ok_used:
  assumes "table_ok ctrl sl f" "k < f"
  shows "fst (sl ! k) = KVED_DELETED_ENTRY \<or> kved_is_valid_key ctrl (fst (sl ! k))"
proof -
  have "sl ! k \<in> set (take f sl)"
    using assms by (auto simp: table_ok_def in_set_conv_nth intro!: exI [of _ k])
  then show ?thesis using assms(1) by (simp add: table_ok_def)
qed

lemma valid_slot_used:
  "table_ok ctrl sl f \<Longrightarrow> k < length sl \<Longrightarrow> kved_is_valid_key ctrl (fst (sl ! k)) \<Longrightarrow> k < f"
  using table_ok_free [of ctrl sl f k] by (force simp: free_slot_def)

text \<open>Two live slots never have the same key.\<close>

lemma live_keys_distinct_nth:
  assumes "distinct (live_keys ctrl sl)" "i < j" "j < length sl"
    "kved_is_valid_key ctrl (fst (sl ! i))" "kved_is_valid_key ctrl (fst (sl ! j))"
  shows "KVED_HDR_MASK_KEY (fst (sl ! i)) \<noteq> KVED_HDR_MASK_KEY (fst (sl ! j))"
proof -
  have i: "i < length sl" using assms by simp
  have "sl ! j \<in> set (drop (Suc i) sl)"
    using assms(2,3) by (auto simp: in_set_conv_nth intro!: exI [of _ "j - Suc i"])
  then have "sl ! j \<in> set (live ctrl (drop (Suc i) sl))"
    using assms(5) by (simp add: live_mem)
  then have "KVED_HDR_MASK_KEY (fst (sl ! j)) \<in>
      set (map (\<lambda>e. KVED_HDR_MASK_KEY (fst e)) (live ctrl (drop (Suc i) sl)))"
    by simp
  moreover have "KVED_HDR_MASK_KEY (fst (sl ! i)) \<notin>
      set (map (\<lambda>e. KVED_HDR_MASK_KEY (fst e)) (live ctrl (drop (Suc i) sl)))"
    using assms(1) unfolding live_keys_def live_delete(1) [OF i assms(4)] by simp
  ultimately show ?thesis by metis
qed

text \<open>The slot that the search for a key stops at.\<close>

definition find_slot :: "slot list \<Rightarrow> kved_word \<Rightarrow> nat option" where
  "find_slot sl key =
     find (\<lambda>k. KVED_HDR_MASK_KEY key = KVED_HDR_MASK_KEY (fst (sl ! k))) [0..<length sl]"

lemma find_slot_Some:
  "find_slot sl key = Some k \<Longrightarrow>
     k < length sl \<and> KVED_HDR_MASK_KEY (fst (sl ! k)) = KVED_HDR_MASK_KEY key"
  by (auto simp: find_slot_def find_Some_iff)

lemma find_slot_valid:
  "find_slot sl key = Some k \<Longrightarrow> kved_is_valid_key ctrl key \<Longrightarrow> kved_is_valid_key ctrl (fst (sl ! k))"
  by (metis find_slot_Some valid_key_mask_eq)

lemma find_slot_None:
  assumes "find_slot sl key = None"
  shows "KVED_HDR_MASK_KEY key \<notin> set (live_keys ctrl sl)"
proof
  assume "KVED_HDR_MASK_KEY key \<in> set (live_keys ctrl sl)"
  then obtain e where "e \<in> set sl" "KVED_HDR_MASK_KEY key = KVED_HDR_MASK_KEY (fst e)"
    by (auto simp: live_keys_def live_mem)
  then obtain k where "k < length sl" "KVED_HDR_MASK_KEY key = KVED_HDR_MASK_KEY (fst (sl ! k))"
    by (auto simp: in_set_conv_nth)
  with assms show False
    by (auto simp: find_slot_def find_None_iff)
qed

lemma find_slot_None_map: "find_slot sl key = None \<Longrightarrow> kved_map ctrl sl (KVED_HDR_MASK_KEY key) = None"
  by (simp add: kved_map_None_iff find_slot_None)

lemma find_slot_Some_map:
  assumes "find_slot sl key = Some k" "table_ok ctrl sl f" "kved_is_valid_key ctrl key"
  shows "kved_map ctrl sl (KVED_HDR_MASK_KEY key) = Some (KVED_HDR_MASK_TYPE (fst (sl ! k)), snd (sl ! k))"
proof -
  have k: "k < length sl" "KVED_HDR_MASK_KEY (fst (sl ! k)) = KVED_HDR_MASK_KEY key"
    using find_slot_Some [OF assms(1)] by simp_all
  show ?thesis
    using kved_map_Some [of ctrl sl "sl ! k"] find_slot_valid [OF assms(1,3)] assms(2) k
    by (simp add: table_ok_def)
qed

section \<open>The string index\<close>

text \<open>
  The check of the string sector, in closed form and for every content of the sector: it fails when
  one of the two signatures is not there, and otherwise counts the index entries and finds the first
  free one.
\<close>

definition str_index :: "'s kved_flash_driver \<Rightarrow> 'm kved_ctrl \<Rightarrow> 's \<Rightarrow> kved_word list" where
  "str_index drv ctrl s =
     map (\<lambda>i. header_read drv (str_sector ctrl) (1 + of_nat i) s)
       [0..<unat (num_total_entries (stats ctrl))]"

definition str_index_stats :: "kved_word list \<Rightarrow> u16 \<Rightarrow> kved_str_sector_stats" where
  "str_index_stats ps tot =
     \<lparr>str_num_free_entries = of_nat (count_list ps KVED_STR_FREE_ENTRY),
      str_num_deleted_entries = of_nat (count_list ps KVED_STR_DELETED_ENTRY),
      str_num_used_entries =
        of_nat (length (filter (\<lambda>p. p \<noteq> KVED_STR_FREE_ENTRY \<and> p \<noteq> KVED_STR_DELETED_ENTRY) ps)),
      str_num_total_entries = tot\<rparr>"

definition str_index_next :: "kved_word list \<Rightarrow> kved_str_sector_ctrl \<Rightarrow> kved_str_sector_ctrl" where
  "str_index_next ps sc =
     (if KVED_STR_FREE_ENTRY \<in> set ps
      then sc\<lparr>next_free_index := of_nat (length (takeWhile (\<lambda>p. p \<noteq> KVED_STR_FREE_ENTRY) ps))\<rparr>
      else sc)"

definition str_checked :: "'m kved_ctrl \<Rightarrow> kved_word list \<Rightarrow> u16 \<Rightarrow> 'm kved_ctrl" where
  "str_checked ctrl ps tot =
     ctrl\<lparr>str_stats := str_index_stats ps tot, str_ctrl := str_index_next ps (str_ctrl ctrl)\<rparr>"

lemma takeWhile_free_snoc:
  "takeWhile (\<lambda>p. p \<noteq> x) (ps @ [p]) =
     (if x \<in> set ps then takeWhile (\<lambda>p. p \<noteq> x) ps else if p = x then ps else ps @ [p])"
  by (induction ps) auto

lemma str_free_neq_deleted [simp]:
  "KVED_STR_FREE_ENTRY \<noteq> KVED_STR_DELETED_ENTRY" "KVED_STR_DELETED_ENTRY \<noteq> KVED_STR_FREE_ENTRY"
  by (simp_all add: kved_entry_consts)

lemma string_check_entry_step:
  "kved_string_check_entry p (of_nat (length ps)) (KVED_STR_FREE_ENTRY \<in> set ps, str_checked ctrl ps 0) =
     (KVED_STR_FREE_ENTRY \<in> set (ps @ [p]), str_checked ctrl (ps @ [p]) 0)"
  by (auto simp: kved_string_check_entry_def str_checked_def str_index_stats_def str_index_next_def
      takeWhile_free_snoc add.commute)

lemma string_check_loop:
  "for_list (\<lambda>i (set, c). Some (Continue (kved_string_check_entry
      (header_read drv (str_sector c) (kved_string_entry_to_header c i) s) i (set, c))))
      (map of_nat [0..<m]) (False, str_checked ctrl [] 0) =
    Some (KVED_STR_FREE_ENTRY \<in> set (map (\<lambda>i. header_read drv (str_sector ctrl) (1 + of_nat i) s) [0..<m]),
          str_checked ctrl (map (\<lambda>i. header_read drv (str_sector ctrl) (1 + of_nat i) s) [0..<m]) 0)"
    (is "for_list ?body _ _ = Some (_ \<in> set (?ps m), _)")
proof -
  have "\<exists>a'. for_list ?body (map of_nat [0..<m]) (False, str_checked ctrl [] 0) = Some a' \<and>
      a' = (KVED_STR_FREE_ENTRY \<in> set (?ps m), str_checked ctrl (?ps m) 0)"
  proof (rule for_list_inv, goal_cases)
    case (1 j a)
    have "str_sector (str_checked ctrl (?ps j) 0) = str_sector ctrl"
      by (simp add: str_checked_def)
    with 1 string_check_entry_step [of "header_read drv (str_sector ctrl) (1 + of_nat j) s" "?ps j" ctrl]
    show ?case by (simp add: kved_string_entry_to_header_def)
  qed simp
  then show ?thesis by simp
qed

lemma str_index_total:
  "str_num_free_entries (str_index_stats ps t) + str_num_deleted_entries (str_index_stats ps t) +
     str_num_used_entries (str_index_stats ps t) = of_nat (length ps)"
  by (induction ps) (auto simp: str_index_stats_def algebra_simps)

lemma string_check_eq:
  "kved_string_consistency_check drv ctrl s =
     Some (if header_read drv (str_sector ctrl) 0 s = KVED_STR_SIGNATURE_ENTRY ctrl \<and>
              header_read drv (str_sector ctrl) (num_total_entries (stats ctrl) + 1) s =
                KVED_STR_SIGNATURE_END ctrl
           then (KVED_OK, str_checked ctrl (str_index drv ctrl s) (num_total_entries (stats ctrl)))
           else (KVED_CORRUPT_TABLE, ctrl))"
proof -
  let ?t = "num_total_entries (stats ctrl)"
  let ?ps = "str_index drv ctrl s"
  have zero: "ctrl\<lparr>str_stats := \<lparr>str_num_free_entries = 0, str_num_deleted_entries = 0,
      str_num_used_entries = 0, str_num_total_entries = 0\<rparr>\<rparr> = str_checked ctrl [] 0"
    by (simp add: str_checked_def str_index_stats_def str_index_next_def)
  have len: "of_nat (length ?ps) = ?t"
    by (simp add: str_index_def)
  have "u16_for_less ?t (\<lambda>i (set, c). Some (Continue (kved_string_check_entry
      (header_read drv (str_sector c) (kved_string_entry_to_header c i) s) i (set, c))))
      (False, str_checked ctrl [] 0) = Some (KVED_STR_FREE_ENTRY \<in> set ?ps, str_checked ctrl ?ps 0)"
    unfolding u16_for_less_list string_check_loop by (simp add: str_index_def)
  moreover have "stats (str_checked ctrl [] 0) = stats ctrl" by (simp add: str_checked_def)
  ultimately show ?thesis
    unfolding kved_string_consistency_check_def zero
    using str_index_total [of ?ps 0] len
    by (auto simp: str_checked_def str_index_stats_def Let_def)
qed

end
