(* ===== verification/Kved_Encoding.thy ===== *)
theory Kved_Encoding
  imports Kved
begin

text \<open>
  The key words of kved: encoding and decoding are inverse up to the padding of \<^verbatim>\<open>strncpy\<close>, and
  the masked word that the index is searched for stands for the key text alone.
\<close>

lemma key_encode_cases:
  assumes "kved_key_encode data = Some w"
  obtains hdr where "w = le_word (hdr # rev (strncpy KVED_MAX_KEY_SIZE (kv_key data)))"
    "drop_bit 4 hdr = (ucast (kv_type data) :: u8)" "kv_type data < 11"
proof -
  obtain size :: u16 where size: "unat size < 16" "kv_type data < 11"
    and w: "w = le_word ((ucast (push_bit 4 (kv_type data) OR ucast (ucast size :: u8)) :: u8)
      # rev (strncpy KVED_MAX_KEY_SIZE (kv_key data)))"
  proof -
    have len: "length (takeWhile (\<lambda>b. b \<noteq> 0) (take KVED_MAX_KEY_SIZE (kv_key data))) < 16"
      using length_takeWhile_take [of "\<lambda>b. b \<noteq> 0" KVED_MAX_KEY_SIZE "kv_key data"]
      by (simp add: KVED_MAX_KEY_SIZE_def KVED_FLASH_WORD_SIZE_def)
    show thesis
    proof (cases "kv_type data = KVED_DATA_TYPE_STRING")
      case True
      with assms len show thesis
        by (intro that [of "of_nat (strnlen KVED_MAX_KEY_SIZE (kv_key data))"])
           (simp_all add: kved_key_encode_def strnlen_def unat_of_nat KVED_DATA_TYPE_STRING_def)
    next
      case False
      with assms obtain size where s: "kved_key_type_size (kv_type data) = Some size"
        "w = le_word ((ucast (push_bit 4 (kv_type data) OR ucast (ucast size :: u8)) :: u8)
          # rev (strncpy KVED_MAX_KEY_SIZE (kv_key data)))"
        by (auto simp: kved_key_encode_def bind_eq_Some_conv)
      then have t: "unat (kv_type data) < 11"
        and nth: "size = [1, 1, 2, 2, 2, 2, 4, of_nat KVED_MAX_KEY_SIZE, 8, 8, 8] ! unat (kv_type data)"
        by (simp_all add: kved_key_type_size_def Let_def split: if_splits)
      have "size \<in> set [1, 1, 2, 2, 2, 2, 4, of_nat KVED_MAX_KEY_SIZE, 8, 8, 8]"
        unfolding nth using t by (intro nth_mem) (simp add: numeral_eq_Suc)
      moreover have "\<forall>x \<in> set [1, 1, 2, 2, 2, 2, 4, of_nat KVED_MAX_KEY_SIZE, 8, 8, 8 :: u16]. unat x < 16"
        by (simp add: KVED_MAX_KEY_SIZE_def KVED_FLASH_WORD_SIZE_def)
      ultimately have "unat size < 16" by blast
      with s t show thesis
        by (intro that) (simp_all add: word_less_nat_alt)
    qed
  qed
  show thesis
  proof (rule that [OF w _ size(2)])
    have "\<not> bit size i" if "4 \<le> i" for i
      using size(1) that by (intro not_bit_small [of _ 4]) simp_all
    moreover have "\<not> bit (kv_type data) i" if "4 \<le> i" for i
      using size(2) that by (intro not_bit_small [of _ 4]) (simp_all add: word_less_nat_alt)
    ultimately show "drop_bit 4 (ucast (push_bit 4 (kv_type data) OR ucast (ucast size :: u8)) :: u8) = ucast (kv_type data)"
      by (intro bit_word_eqI) (auto simp: bit_simps not_le intro: ccontr)
  qed
qed

lemma le_word_Cons_type:
  "KVED_HDR_MASK_TYPE (le_word (hdr # ks)) = ucast (drop_bit 4 hdr)"
  unfolding KVED_HDR_MASK_TYPE_def
proof (rule bit_word_eqI)
  fix i assume "i < LENGTH(64)"
  have F0: "(0xF0 :: u64) = push_bit 4 (mask 4)"
    by (simp add: mask_eq_exp_minus_1 push_bit_eq_mult)
  show "bit (drop_bit 4 (le_word (hdr # ks) AND 0xF0 :: u64)) i \<longleftrightarrow>
      bit (ucast (drop_bit 4 hdr) :: u64) i"
    unfolding F0 using \<open>i < LENGTH(64)\<close> by (auto simp: bit_simps dest: bit_imp_le_length)
qed

lemma mask_key_le_word:
  "KVED_HDR_MASK_KEY (le_word (hdr # ks)) = push_bit 8 (le_word ks)"
  unfolding KVED_HDR_MASK_KEY_def
proof (rule bit_word_eqI)
  fix i assume "i < LENGTH(64)"
  have F0: "(0xFFFFFFFFFFFFFF00 :: u64) = push_bit 8 (NOT 0)"
    by (simp add: push_bit_eq_mult)
  show "bit (le_word (hdr # ks) AND 0xFFFFFFFFFFFFFF00 :: u64) i \<longleftrightarrow> bit (push_bit 8 (le_word ks) :: u64) i"
    unfolding F0 using \<open>i < LENGTH(64)\<close> by (auto simp: bit_simps dest: bit_imp_le_length)
qed

lemma key_encode_type:
  assumes "kved_key_encode data = Some w"
  shows "KVED_HDR_MASK_TYPE w = ucast (kv_type data)"
proof -
  obtain hdr where w: "w = le_word (hdr # rev (strncpy KVED_MAX_KEY_SIZE (kv_key data)))"
    and h: "drop_bit 4 hdr = (ucast (kv_type data) :: u8)" and t: "kv_type data < 11"
    using assms by (rule key_encode_cases)
  have "(ucast (ucast (kv_type data) :: u8) :: u64) = ucast (kv_type data)"
    using t by (simp add: word_unat_eq_iff unsigned_ucast_eq word_less_nat_alt take_bit_nat_eq_self
        unsigned_take_bit_eq)
  then show ?thesis
    unfolding w le_word_Cons_type h .
qed

lemma key_encode_decode:
  assumes "kved_key_encode data = Some w"
  shows "kved_key_decode d w = d\<lparr>kv_key := strncpy KVED_MAX_KEY_SIZE (kv_key data), kv_type := kv_type data\<rparr>"
proof -
  let ?k = "strncpy KVED_MAX_KEY_SIZE (kv_key data)"
  obtain hdr where w: "w = le_word (hdr # rev ?k)"
    using assms by (rule key_encode_cases)
  have len: "length (hdr # rev ?k) = 8"
    by (simp add: KVED_MAX_KEY_SIZE_def KVED_FLASH_WORD_SIZE_def)
  have "8 * length (hdr # rev ?k) \<le> LENGTH(64)"
    by (simp only: len) simp
  then have bytes: "le_bytes 8 w = hdr # rev ?k"
    using le_bytes_le_word [of "hdr # rev ?k", where 'a = 64] by (simp only: w len)
  have "map (\<lambda>p. (hdr # rev ?k) ! (KVED_MAX_KEY_SIZE - p)) [0..<KVED_MAX_KEY_SIZE] = ?k"
    by (rule nth_equalityI) (auto simp: nth_Cons' rev_nth Suc_diff_Suc)
  moreover have "(ucast (KVED_HDR_MASK_TYPE w) :: u32) = kv_type data"
    using key_encode_type [OF assms] by (simp add: mask_type_ucast)
  ultimately show ?thesis
    by (simp add: kved_key_decode_def bytes)
qed

lemma mask_key_eq_iff:
  assumes "kved_key_encode d1 = Some w1" "kved_key_encode d2 = Some w2"
  shows "KVED_HDR_MASK_KEY w1 = KVED_HDR_MASK_KEY w2 \<longleftrightarrow>
    strncpy KVED_MAX_KEY_SIZE (kv_key d1) = strncpy KVED_MAX_KEY_SIZE (kv_key d2)"
proof -
  let ?k = "\<lambda>d. strncpy KVED_MAX_KEY_SIZE (kv_key d)"
  obtain h1 h2 where w: "w1 = le_word (h1 # rev (?k d1))" "w2 = le_word (h2 # rev (?k d2))"
    using assms by (metis key_encode_cases)
  have bytes: "le_bytes 8 (push_bit 8 (le_word (rev (?k d))) :: u64) = 0 # rev (?k d)" for d
    using le_bytes_le_word [of "0 # rev (?k d)", where 'a = 64]
    by (simp add: KVED_MAX_KEY_SIZE_def KVED_FLASH_WORD_SIZE_def)
  show ?thesis
    unfolding w mask_key_le_word using bytes by (metis list.inject rev_is_rev_conv)
qed

end
