(* ===== verification/Kved_Store.thy ===== *)
theory Kved_Store
  imports Kved_Table Kved_Encoding
begin

text \<open>
  kved over any backend that keeps the contract of Kved\_Driver. The locale \<open>kved_store\<close> adds to the
  backend contract the geometry of the sectors: \<open>n\<close> slots in each index sector, and room for the
  string index in each string sector. This theory holds the invariant, the effect of single writes
  on the slots, and the correctness of search, read, delete and of the append of an entry.
\<close>

section \<open>Loops over the slots\<close>

lemma slot_loop:
  assumes "2 * n + 2 < 65536" "j \<le> n" "2 * n \<le> unat hi" "unat hi < 2 * n + 2"
  shows "u16_for hi KVED_ENTRY_SIZE_IN_WORDS body (slot_index j) a =
    for_list body (map slot_index [j..<n]) a"
proof -
  have "u16_for hi 2 body (slot_index j) a =
      for_list body (map (\<lambda>k. slot_index j + of_nat k * 2) [0..<n - j]) a"
    using assms by (intro u16_for_list) (auto simp: unat_slot_index)
  moreover have "map (\<lambda>k. slot_index j + of_nat k * 2) [0..<n - j] = map slot_index [j..<n]"
    using assms(2) by (intro nth_equalityI) (auto simp: slot_index_def algebra_simps)
  ultimately show ?thesis by (simp add: KVED_ENTRY_SIZE_IN_WORDS_def)
qed

section \<open>Invariant and abstraction\<close>

definition kved_abs ::
  "'s kved_flash_driver \<Rightarrow> nat \<Rightarrow> 'm kved_ctrl \<Rightarrow> 's \<Rightarrow> kved_word \<rightharpoonup> kved_word \<times> kved_word" where
  "kved_abs drv n ctrl s = kved_map ctrl (kved_slots drv (sector ctrl) n s)"

text \<open>
  The words outside the slots: the sector in use is signed and the other one is not; the string
  index in use is empty, and so is the other one if it is signed.
\<close>

definition kved_headers :: "'s kved_flash_driver \<Rightarrow> 'm kved_ctrl \<Rightarrow> 's \<Rightarrow> bool" where
  "kved_headers drv ctrl s \<longleftrightarrow>
     header_read drv (sector ctrl) 0 s = KVED_SIGNATURE_ENTRY ctrl \<and>
     header_read drv (kved_next_sector (sector ctrl)) 0 s \<noteq> KVED_SIGNATURE_ENTRY ctrl \<and>
     header_read drv (str_sector ctrl) 1 s = KVED_STR_FREE_ENTRY \<and>
     (kved_str_sector_signed drv (kved_next_str_sector (str_sector ctrl)) ctrl s \<longrightarrow>
        header_read drv (kved_next_str_sector (str_sector ctrl)) 1 s = KVED_STR_FREE_ENTRY)"

definition kved_inv ::
  "'s kved_flash_driver \<Rightarrow> ('s \<Rightarrow> bool) \<Rightarrow> nat \<Rightarrow> 'm kved_ctrl \<Rightarrow> 's \<Rightarrow> bool" where
  "kved_inv drv ok n ctrl s \<longleftrightarrow>
     ok s \<and> started ctrl \<and>
     (sector ctrl = KVED_FLASH_SECTOR_A \<or> sector ctrl = KVED_FLASH_SECTOR_B) \<and>
     (str_sector ctrl = KVED_FLASH_STRING_SECTOR_A \<or> str_sector ctrl = KVED_FLASH_STRING_SECTOR_B) \<and>
     (\<exists>f. table_ok ctrl (kved_slots drv (sector ctrl) n s) f \<and>
          ctrl_ok n ctrl (kved_slots drv (sector ctrl) n s) f) \<and>
     no_strings ctrl (kved_slots drv (sector ctrl) n s) \<and>
     kved_headers drv ctrl s"

text \<open>What the table depends on of the control block is only the number of entries of the driver.\<close>

lemma table_ctrl_cong:
  assumes "drv_max_entries c = drv_max_entries c'"
  shows "live c = live c'" "live_keys c = live_keys c'" "kved_map c = kved_map c'"
    "table_ok c = table_ok c'" "no_strings c = no_strings c'"
proof -
  show l: "live c = live c'"
    using valid_key_cong [OF assms] by (simp add: live_def fun_eq_iff)
  show "live_keys c = live_keys c'" "kved_map c = kved_map c'" "no_strings c = no_strings c'"
    using l by (simp_all add: live_keys_def kved_map_def no_strings_def fun_eq_iff)
  then show "table_ok c = table_ok c'"
    using valid_key_cong [OF assms] by (simp add: table_ok_def fun_eq_iff)
qed

lemma signature_nonzero: "KVED_SIGNATURE_ENTRY ctrl \<noteq> 0"
proof -
  have "unat (KVED_SIGNATURE_ENTRY ctrl) = 0xDEADBEEF00000000 + 64 * 2 ^ 16 + unat (drv_max_entries ctrl)"
    using unsigned_less [of "drv_max_entries ctrl", where 'a = nat]
    by (simp add: KVED_SIGNATURE_ENTRY_def KVED_MAX_STRING_SIZE_def unat_word_ariths unsigned_ucast_eq
        unsigned_take_bit_eq take_bit_nat_eq_self)
  then show ?thesis by (metis add_is_0 unat_0 zero_neq_numeral)
qed

section \<open>The store\<close>

locale kved_store = kved_backend drv ok words
  for drv :: "'s kved_flash_driver" and ok :: "'s \<Rightarrow> bool" and words :: "kved_flash_sector \<Rightarrow> nat" +
  fixes n :: nat
  assumes n_pos: "0 < n"
    and n_bound: "2 * n + 3 < 65536"
    and index_room: "sec = KVED_FLASH_SECTOR_A \<or> sec = KVED_FLASH_SECTOR_B \<Longrightarrow> 2 * n + 2 \<le> words sec"
    and string_room:
      "sec = KVED_FLASH_STRING_SECTOR_A \<or> sec = KVED_FLASH_STRING_SECTOR_B \<Longrightarrow> n + 2 \<le> words sec"
    and last_index_n:
      "ok s \<Longrightarrow> sec = KVED_FLASH_SECTOR_A \<or> sec = KVED_FLASH_SECTOR_B \<Longrightarrow>
         2 * n \<le> unat (kved_last_index_of (sector_size drv sec s)) \<and>
         unat (kved_last_index_of (sector_size drv sec s)) < 2 * n + 2"
begin

lemma slot_in_words:
  assumes "k < n" "sec = KVED_FLASH_SECTOR_A \<or> sec = KVED_FLASH_SECTOR_B"
  shows "unat (slot_index k) < words sec" "unat (slot_index k + 1) < words sec"
  using assms n_bound index_room [OF assms(2)] by (simp_all add: unat_slot_index unat_slot_index_Suc)

lemma slots_write_key:
  assumes "ok s" "k < n" "sec = KVED_FLASH_SECTOR_A \<or> sec = KVED_FLASH_SECTOR_B"
    "fst (kved_slots drv sec n s ! k) AND d = d"
  shows "kved_slots drv sec n (header_write drv sec (slot_index k) d s) =
    (kved_slots drv sec n s)[k := (d, snd (kved_slots drv sec n s ! k))]"
proof (rule nth_equalityI)
  fix j assume "j < length (kved_slots drv sec n (header_write drv sec (slot_index k) d s))"
  then have j: "j < n" by simp
  have val: "header_read drv sec (slot_index j + 1) (header_write drv sec (slot_index k) d s) =
      header_read drv sec (slot_index j + 1) s"
    using assms j n_bound slot_in_words
    by (intro read_write_other) (auto simp: slot_index_neq)
  have key: "header_read drv sec (slot_index j) (header_write drv sec (slot_index k) d s) =
      (if j = k then d else header_read drv sec (slot_index j) s)"
  proof (cases "j = k")
    case True
    with assms show ?thesis by (auto simp: nth_kved_slots slot_in_words intro: read_write_same)
  next
    case False
    with assms j n_bound slot_in_words show ?thesis
      by (auto simp: slot_index_neq intro!: read_write_other)
  qed
  show "kved_slots drv sec n (header_write drv sec (slot_index k) d s) ! j =
      (kved_slots drv sec n s)[k := (d, snd (kved_slots drv sec n s ! k))] ! j"
    using j assms(2) key val by (auto simp: nth_kved_slots nth_list_update)
qed simp

lemma slots_write_val:
  assumes "ok s" "k < n" "sec = KVED_FLASH_SECTOR_A \<or> sec = KVED_FLASH_SECTOR_B"
    "snd (kved_slots drv sec n s ! k) AND d = d"
  shows "kved_slots drv sec n (header_write drv sec (slot_index k + 1) d s) =
    (kved_slots drv sec n s)[k := (fst (kved_slots drv sec n s ! k), d)]"
proof (rule nth_equalityI)
  fix j assume "j < length (kved_slots drv sec n (header_write drv sec (slot_index k + 1) d s))"
  then have j: "j < n" by simp
  have key: "header_read drv sec (slot_index j) (header_write drv sec (slot_index k + 1) d s) =
      header_read drv sec (slot_index j) s"
    using assms j n_bound slot_in_words
    by (intro read_write_other) (auto simp: slot_index_neq)
  have val: "header_read drv sec (slot_index j + 1) (header_write drv sec (slot_index k + 1) d s) =
      (if j = k then d else header_read drv sec (slot_index j + 1) s)"
  proof (cases "j = k")
    case True
    with assms show ?thesis by (auto simp: nth_kved_slots slot_in_words intro: read_write_same)
  next
    case False
    with assms j n_bound slot_in_words show ?thesis
      by (auto simp: slot_index_neq intro!: read_write_other)
  qed
  show "kved_slots drv sec n (header_write drv sec (slot_index k + 1) d s) ! j =
      (kved_slots drv sec n s)[k := (fst (kved_slots drv sec n s ! k), d)] ! j"
    using j assms(2) key val by (auto simp: nth_kved_slots nth_list_update)
qed simp

lemma slots_write_other:
  assumes "ok s" "unat i < words sec'" "sec = KVED_FLASH_SECTOR_A \<or> sec = KVED_FLASH_SECTOR_B"
    "sec' \<noteq> sec \<or> unat i < 2"
  shows "kved_slots drv sec n (header_write drv sec' i d s) = kved_slots drv sec n s"
proof -
  have "(sec, slot_index k) \<noteq> (sec', i)" "(sec, slot_index k + 1) \<noteq> (sec', i)" if "k < n" for k
    using assms(4) that n_bound unat_slot_index [of k] unat_slot_index_Suc [of k] by auto
  then show ?thesis
    unfolding kved_slots_def
    using assms slot_in_words by (intro map_cong refl) (simp add: read_write_other)
qed

lemma slots_erase_same:
  assumes "ok s" "sec = KVED_FLASH_SECTOR_A \<or> sec = KVED_FLASH_SECTOR_B"
  shows "kved_slots drv sec n (snd (sector_erase drv sec s)) = replicate n free_slot"
  using assms slot_in_words
  by (intro nth_equalityI)
     (simp_all add: nth_kved_slots read_erase_same free_slot_def KVED_FREE_ENTRY_def)

lemma words_pos: "sec \<noteq> KVED_FLASH_NUM_SECTORS \<Longrightarrow> 0 < words sec"
  using index_room [of sec] string_room [of sec] by (cases sec) auto

lemma slots_erase_other:
  assumes "ok s" "sec = KVED_FLASH_SECTOR_A \<or> sec = KVED_FLASH_SECTOR_B" "sec' \<noteq> sec"
    "sec' \<noteq> KVED_FLASH_NUM_SECTORS"
  shows "kved_slots drv sec n (snd (sector_erase drv sec' s)) = kved_slots drv sec n s"
  unfolding kved_slots_def
  using assms slot_in_words words_pos by (intro map_cong refl) (simp add: read_erase_other)

lemma find_correct:
  assumes "ctrl_ok n ctrl sl f"
  shows "kved_key_index_find drv ctrl key s =
    Some (case find_slot (kved_slots drv (sector ctrl) n s) key of
            None \<Rightarrow> KVED_INDEX_NOT_FOUND | Some k \<Rightarrow> slot_index k)"
proof -
  let ?P = "\<lambda>index. KVED_HDR_MASK_KEY key = KVED_HDR_MASK_KEY (header_read drv (sector ctrl) index s)"
  have "kved_key_index_find drv ctrl key s =
      for_list (\<lambda>index a. Some (if ?P index then Break index else Continue a))
        (map slot_index [0..<n]) KVED_INDEX_NOT_FOUND"
    using assms n_bound
    by (simp add: kved_key_index_find_def ctrl_ok_def slot_loop Let_def)
  also have "\<dots> = Some (case find ?P (map slot_index [0..<n]) of
      None \<Rightarrow> KVED_INDEX_NOT_FOUND | Some i \<Rightarrow> i)"
    by (rule for_list_find)
  also have "find ?P (map slot_index [0..<n]) =
      map_option slot_index (find_slot (kved_slots drv (sector ctrl) n s) key)"
  proof -
    have "find ?P (map slot_index ks) = map_option slot_index (find (?P \<circ> slot_index) ks)" for ks
      by (induction ks) auto
    moreover have "find (?P \<circ> slot_index) [0..<n] = find_slot (kved_slots drv (sector ctrl) n s) key"
      unfolding find_slot_def by (auto simp: nth_kved_slots intro!: find_cong)
    ultimately show ?thesis by simp
  qed
  finally show ?thesis by (simp split: option.splits)
qed

text \<open>A write into a slot leaves everything else as it was.\<close>

lemma slot_write_frame:
  assumes "ok s" "k < n" "sec = KVED_FLASH_SECTOR_A \<or> sec = KVED_FLASH_SECTOR_B"
    "unat i < words sec'" "sec' \<noteq> sec \<or> unat i < 2"
  shows "header_read drv sec' i (header_write drv sec (slot_index k) d s) = header_read drv sec' i s"
    "header_read drv sec' i (header_write drv sec (slot_index k + 1) d s) = header_read drv sec' i s"
proof -
  have "(sec', i) \<noteq> (sec, slot_index k)" "(sec', i) \<noteq> (sec, slot_index k + 1)"
    using unat_slot_index [of k] unat_slot_index_Suc [of k] assms(2,5) n_bound by auto
  then show "header_read drv sec' i (header_write drv sec (slot_index k) d s) = header_read drv sec' i s"
    "header_read drv sec' i (header_write drv sec (slot_index k + 1) d s) = header_read drv sec' i s"
    using assms slot_in_words [OF assms(2,3)] by (simp_all add: read_write_other)
qed

lemma unat_of_nat_n: "unat (of_nat n :: u16) = n" "unat (of_nat n + 1 :: u16) = n + 1"
  using n_bound by (simp_all add: unat_of_nat unat_word_ariths)

lemma headers_frame:
  assumes "kved_headers drv ctrl s"
    and sec: "sector ctrl = KVED_FLASH_SECTOR_A \<or> sector ctrl = KVED_FLASH_SECTOR_B"
    and str: "str_sector ctrl = KVED_FLASH_STRING_SECTOR_A \<or> str_sector ctrl = KVED_FLASH_STRING_SECTOR_B"
    and c': "sector ctrl' = sector ctrl" "str_sector ctrl' = str_sector ctrl"
      "drv_max_entries ctrl' = drv_max_entries ctrl"
      "num_total_entries (stats ctrl) = of_nat n" "num_total_entries (stats ctrl') = of_nat n"
    and frame: "\<And>sec i. unat i < words sec \<Longrightarrow> sec \<noteq> sector ctrl \<or> unat i < 2 \<Longrightarrow>
      header_read drv sec i s' = header_read drv sec i s"
  shows "kved_headers drv ctrl' s'"
proof -
  let ?S = "str_sector ctrl" and ?S' = "kved_next_str_sector (str_sector ctrl)"
  let ?N = "kved_next_sector (sector ctrl)"
  have AB: "?N = KVED_FLASH_SECTOR_A \<or> ?N = KVED_FLASH_SECTOR_B"
    "?S' = KVED_FLASH_STRING_SECTOR_A \<or> ?S' = KVED_FLASH_STRING_SECTOR_B"
    by (auto simp: kved_next_sector_def kved_next_str_sector_def)
  have "header_read drv (sector ctrl) 0 s' = header_read drv (sector ctrl) 0 s"
    "header_read drv ?N 0 s' = header_read drv ?N 0 s"
    using index_room [OF sec] index_room [OF AB(1)] by (auto intro!: frame)
  moreover have "header_read drv ?S 1 s' = header_read drv ?S 1 s"
    "header_read drv ?S' 0 s' = header_read drv ?S' 0 s"
    "header_read drv ?S' 1 s' = header_read drv ?S' 1 s"
    "header_read drv ?S' (of_nat n + 1) s' = header_read drv ?S' (of_nat n + 1) s"
    using string_room [OF str] string_room [OF AB(2)] unat_of_nat_n n_pos sec str AB(2) by (auto intro!: frame)
  moreover have "KVED_SIGNATURE_ENTRY ctrl' = KVED_SIGNATURE_ENTRY ctrl"
    "KVED_STR_SIGNATURE_ENTRY ctrl' = KVED_STR_SIGNATURE_ENTRY ctrl"
    "KVED_STR_SIGNATURE_END ctrl' = KVED_STR_SIGNATURE_END ctrl"
    using c'(3) by (simp_all add: KVED_SIGNATURE_ENTRY_def KVED_STR_SIGNATURE_ENTRY_def KVED_STR_SIGNATURE_END_def)
  ultimately show ?thesis
    using assms(1) c' by (simp add: kved_headers_def kved_str_sector_signed_def)
qed

section \<open>Deleting and reading\<close>

lemma delete_correct:
  assumes inv: "kved_inv drv ok n ctrl s" and key: "kved_key_encode data = Some key"
    and valid: "kved_is_valid_key ctrl key" and present: "kved_abs drv n ctrl s (KVED_HDR_MASK_KEY key) \<noteq> None"
  shows "\<exists>ctrl' s'. kved_internal_data_delete drv ctrl (data, s) = Some (KVED_OK, ctrl', data, s') \<and>
    kved_inv drv ok n ctrl' s' \<and> mutex ctrl' = mutex ctrl \<and> drv_max_entries ctrl' = drv_max_entries ctrl \<and>
    kved_abs drv n ctrl' s' = (kved_abs drv n ctrl s)(KVED_HDR_MASK_KEY key := None)"
proof -
  let ?sl = "kved_slots drv (sector ctrl) n s"
  obtain f where ok: "ok s" and st: "started ctrl" and tab: "table_ok ctrl ?sl f" and
      co: "ctrl_ok n ctrl ?sl f" and sec: "sector ctrl = KVED_FLASH_SECTOR_A \<or> sector ctrl = KVED_FLASH_SECTOR_B"
    using inv by (auto simp: kved_inv_def)
  from present obtain k where k: "find_slot ?sl key = Some k"
    using find_slot_None_map [of ?sl key ctrl] by (cases "find_slot ?sl key") (auto simp: kved_abs_def)
  note kl = find_slot_Some [OF k] and vk = find_slot_valid [OF k valid]
  have kn: "k < n" using kl by simp
  define s' where "s' = header_write drv (sector ctrl) (slot_index k) KVED_DELETED_ENTRY s"
  define ctrl' where "ctrl' = ctrl\<lparr>stats := (stats ctrl)
               \<lparr>num_deleted_entries := num_deleted_entries (stats ctrl) + 1,
                num_used_entries := num_used_entries (stats ctrl) - 1\<rparr>\<rparr>"
  have sl': "kved_slots drv (sector ctrl) n s' = ?sl[k := (KVED_DELETED_ENTRY, snd (?sl ! k))]"
    unfolding s'_def using ok kn sec by (rule slots_write_key) (simp add: KVED_DELETED_ENTRY_def)
  have cong: "drv_max_entries ctrl' = drv_max_entries ctrl" by (simp add: ctrl'_def)
  have [simp]: "sector ctrl' = sector ctrl" by (simp add: ctrl'_def)
  note [simp] = table_ctrl_cong [OF cong]
  have len: "length (live ctrl ?sl) = Suc (length (live ctrl (?sl[k := (KVED_DELETED_ENTRY, v)])))" for v
    using live_delete [OF _ vk] kl by simp
  have kf: "k < f" using valid_slot_used [OF tab _ vk] kl by simp
  have lf: "length (live ctrl ?sl) \<le> f" using tab by (rule length_live_le_first_free)
  have "table_ok ctrl' (kved_slots drv (sector ctrl) n s') f"
    using table_ok_delete [OF tab kf vk] sl' by simp
  moreover have "ctrl_ok n ctrl' (kved_slots drv (sector ctrl) n s') f"
    using co lf unfolding ctrl_ok_def sl' len [of "snd (?sl ! k)"] by (simp add: ctrl'_def of_nat_diff)
  moreover have "no_strings ctrl' (kved_slots drv (sector ctrl) n s')"
    using inv live_delete [OF _ vk] kl unfolding kved_inv_def no_strings_def sl' by auto
  moreover have "ok s'"
    using write_ok [OF ok slot_in_words(1) [OF kn sec]] by (simp add: s'_def)
  moreover have "num_total_entries (stats ctrl) = of_nat n" using co by (simp add: ctrl_ok_def)
  then have "kved_headers drv ctrl' s'"
    using headers_frame [of ctrl s ctrl' s'] inv ok kn slot_write_frame [OF ok kn sec]
    by (simp add: kved_inv_def ctrl'_def s'_def)
  ultimately have "kved_inv drv ok n ctrl' s'"
    using inv unfolding kved_inv_def by (auto simp: ctrl'_def)
  moreover have "kved_abs drv n ctrl' s' = (kved_abs drv n ctrl s)(KVED_HDR_MASK_KEY key := None)"
    using kved_map_delete [OF tab _ vk] kl sl' by (simp add: kved_abs_def)
  moreover have "kved_internal_data_delete drv ctrl (data, s) = Some (KVED_OK, ctrl', data, s')"
    using st key valid k kn n_bound find_correct [OF co, of key s]
    by (simp add: kved_internal_data_delete_def KVED_INDEX_NOT_FOUND_def slot_index_neq_0 s'_def ctrl'_def)
  ultimately show ?thesis using cong by (intro exI conjI) (simp_all add: ctrl'_def)
qed

lemma read_correct:
  assumes inv: "kved_inv drv ok n ctrl s" and key: "kved_key_encode data = Some key"
    and valid: "kved_is_valid_key ctrl key"
  shows "kved_internal_data_read drv ctrl (data, s) =
    Some (case kved_abs drv n ctrl s (KVED_HDR_MASK_KEY key) of
        None \<Rightarrow> (KVED_INVALID_KEY, ctrl, data, s)
      | Some (t, v) \<Rightarrow>
          (KVED_OK, ctrl, data\<lparr>kv_type := ucast t, kv_value := set_value_u64 v (kv_value data)\<rparr>, s))"
proof -
  let ?sl = "kved_slots drv (sector ctrl) n s"
  obtain f where st: "started ctrl" and tab: "table_ok ctrl ?sl f" and co: "ctrl_ok n ctrl ?sl f"
    and ns: "no_strings ctrl ?sl"
    using inv by (auto simp: kved_inv_def)
  show ?thesis
  proof (cases "find_slot ?sl key")
    case None
    with find_slot_None_map [OF this, of ctrl] st key valid find_correct [OF co, of key s]
    show ?thesis by (simp add: kved_internal_data_read_def kved_abs_def)
  next
    case (Some k)
    note kl = find_slot_Some [OF Some] and vk = find_slot_valid [OF Some valid]
    have kn: "k < n" using kl by simp
    have "KVED_HDR_MASK_TYPE (fst (?sl ! k)) \<noteq> ucast KVED_DATA_TYPE_STRING"
      using ns vk kl by (auto simp: no_strings_def live_mem numeric_type_def)
    then have "ucast (KVED_HDR_MASK_TYPE (fst (?sl ! k))) \<noteq> KVED_DATA_TYPE_STRING"
      by (simp add: mask_type_ucast)
    with Some find_slot_Some_map [OF Some tab valid] st key valid kn n_bound find_correct [OF co, of key s]
    show ?thesis
      by (simp add: kved_internal_data_read_def kved_abs_def KVED_INDEX_NOT_FOUND_def slot_index_neq_0
          nth_kved_slots kved_value_decode_def)
  qed
qed

section \<open>Writing in the same sector\<close>

text \<open>What the write of a new entry does to the slots, whether or not it replaces slot \<open>k\<close>.\<close>

lemma append_slots:
  assumes tab: "table_ok ctrl (kved_slots drv (sector ctrl) n s) f"
    and co: "first_free_index ctrl = slot_index f"
    and ok: "ok s" and sec: "sector ctrl = KVED_FLASH_SECTOR_A \<or> sector ctrl = KVED_FLASH_SECTOR_B"
    and f: "f < n" and num: "kv_type data \<noteq> KVED_DATA_TYPE_STRING"
    and k: "replaces \<Longrightarrow> k < f \<and> key_index = slot_index k"
  shows "\<exists>s'. kved_entry_append drv key key_index replaces ctrl data s =
      Some (KVED_OK, ctrl\<lparr>first_free_index := slot_index (Suc f),
         stats := (stats ctrl)
           \<lparr>num_free_entries := num_free_entries (stats ctrl) - 1,
            num_used_entries := num_used_entries (stats ctrl) + (if replaces then 0 else 1),
            num_deleted_entries := num_deleted_entries (stats ctrl) + (if replaces then 1 else 0)\<rparr>\<rparr>,
         data, s') \<and> ok s' \<and>
      (\<forall>sec' i. unat i < words sec' \<longrightarrow> sec' \<noteq> sector ctrl \<or> unat i < 2 \<longrightarrow>
         header_read drv sec' i s' = header_read drv sec' i s) \<and>
      kved_slots drv (sector ctrl) n s' =
        (let sl = kved_slots drv (sector ctrl) n s
         in (if replaces then sl[k := (KVED_DELETED_ENTRY, snd (sl ! k))] else sl)
              [f := (key, kved_value_encode data)])"
proof -
  let ?sec = "sector ctrl" and ?v = "kved_value_encode data"
  let ?sl = "kved_slots drv ?sec n s"
  define s1 where "s1 = header_write drv ?sec (slot_index f + 1) ?v s"
  define s2 where "s2 = header_write drv ?sec (slot_index f) key s1"
  define s3 where "s3 = (if replaces then header_write drv ?sec key_index KVED_DELETED_ENTRY s2 else s2)"
  have free: "?sl ! f = free_slot"
    using table_ok_free [OF tab] f by simp
  have s1: "ok s1" "kved_slots drv ?sec n s1 = ?sl[f := (KVED_FREE_ENTRY, ?v)]"
    using write_ok [OF ok slot_in_words(2) [OF f sec]] slots_write_val [OF ok f sec, of ?v] free
    by (simp_all add: s1_def free_slot_def)
  have s2: "ok s2" "kved_slots drv ?sec n s2 = ?sl[f := (key, ?v)]"
    using write_ok [OF s1(1) slot_in_words(1) [OF f sec]] slots_write_key [OF s1(1) f sec, of key] f s1(2)
    by (simp_all add: s2_def)
  have s3: "ok s3 \<and> kved_slots drv ?sec n s3 =
      (if replaces then ?sl[k := (KVED_DELETED_ENTRY, snd (?sl ! k))] else ?sl)[f := (key, ?v)]"
  proof (cases replaces)
    case True
    then have kf: "k < f" "key_index = slot_index k" and kn: "k < n" using k f by auto
    have "kved_slots drv ?sec n s3 = ?sl[f := (key, ?v), k := (KVED_DELETED_ENTRY, snd (?sl ! k))]"
      using slots_write_key [OF s2(1) kn sec, of KVED_DELETED_ENTRY] s2(2) True kf
      by (simp add: s3_def KVED_DELETED_ENTRY_def)
    moreover have "ok s3"
      using write_ok [OF s2(1) slot_in_words(1) [OF kn sec]] True kf by (simp add: s3_def)
    ultimately show ?thesis
      using True kf by (simp add: list_update_swap)
  next
    case False
    then show ?thesis using s2 by (simp add: s3_def)
  qed
  have "kved_entry_append drv key key_index replaces ctrl data s =
      Some (KVED_OK, ctrl\<lparr>first_free_index := slot_index (Suc f),
         stats := (stats ctrl)
           \<lparr>num_free_entries := num_free_entries (stats ctrl) - 1,
            num_used_entries := num_used_entries (stats ctrl) + (if replaces then 0 else 1),
            num_deleted_entries := num_deleted_entries (stats ctrl) + (if replaces then 1 else 0)\<rparr>\<rparr>,
         data, s3)"
    using num co
    by (simp add: kved_entry_append_def slot_index_Suc KVED_ENTRY_SIZE_IN_WORDS_def s3_def s2_def s1_def)
  moreover have "header_read drv sec' i s3 = header_read drv sec' i s"
    if "unat i < words sec'" "sec' \<noteq> ?sec \<or> unat i < 2" for sec' i
  proof -
    have "header_read drv sec' i s2 = header_read drv sec' i s"
      using slot_write_frame [OF s1(1) f sec that] slot_write_frame [OF ok f sec that]
      by (simp add: s2_def) (simp add: s1_def)
    with k f slot_write_frame(1) [OF s2(1) _ sec that, of k] show ?thesis by (auto simp: s3_def)
  qed
  ultimately show ?thesis using s3 by (auto simp: Let_def)
qed

text \<open>The invariant and the map after the append.\<close>

lemma append_correct:
  assumes inv: "kved_inv drv ok n ctrl s"
    and tab: "table_ok ctrl (kved_slots drv (sector ctrl) n s) f"
    and co: "ctrl_ok n ctrl (kved_slots drv (sector ctrl) n s) f"
    and f: "f < n" and num: "kv_type data \<noteq> KVED_DATA_TYPE_STRING"
    and numk: "numeric_type (KVED_HDR_MASK_TYPE key)"
    and valid: "kved_is_valid_key ctrl key"
    and k: "replaces = (find_slot (kved_slots drv (sector ctrl) n s) key \<noteq> None)"
      "replaces \<Longrightarrow> find_slot (kved_slots drv (sector ctrl) n s) key = Some k \<and> key_index = slot_index k"
  shows "\<exists>ctrl' s'. kved_entry_append drv key key_index replaces ctrl data s =
      Some (KVED_OK, ctrl', data, s') \<and> kved_inv drv ok n ctrl' s' \<and>
      mutex ctrl' = mutex ctrl \<and> drv_max_entries ctrl' = drv_max_entries ctrl \<and>
      kved_abs drv n ctrl' s' =
        (kved_abs drv n ctrl s)(KVED_HDR_MASK_KEY key \<mapsto> (KVED_HDR_MASK_TYPE key, kved_value_encode data))"
proof -
  let ?sl = "kved_slots drv (sector ctrl) n s" and ?e = "(key, kved_value_encode data)"
  have ok: "ok s" and st: "started ctrl"
    and sec: "sector ctrl = KVED_FLASH_SECTOR_A \<or> sector ctrl = KVED_FLASH_SECTOR_B"
    and strsec: "str_sector ctrl = KVED_FLASH_STRING_SECTOR_A \<or> str_sector ctrl = KVED_FLASH_STRING_SECTOR_B"
    and ns: "no_strings ctrl ?sl" and hd: "kved_headers drv ctrl s"
    using inv by (simp_all add: kved_inv_def)
  define sl0 where "sl0 = (if replaces then ?sl[k := (KVED_DELETED_ENTRY, snd (?sl ! k))] else ?sl)"
  have kfacts: "k < f" "k < n" "kved_is_valid_key ctrl (fst (?sl ! k))"
    "KVED_HDR_MASK_KEY (fst (?sl ! k)) = KVED_HDR_MASK_KEY key" if replaces
    using k(2) [OF that] find_slot_Some [of ?sl key k] find_slot_valid [OF _ valid, of ?sl k]
      valid_slot_used [OF tab, of k] by auto
  have tab0: "table_ok ctrl sl0 f"
    using tab table_ok_delete [OF tab] kfacts by (simp add: sl0_def)
  have keys0: "KVED_HDR_MASK_KEY key \<notin> set (live_keys ctrl sl0)"
    using k(1) find_slot_None [of ?sl key ctrl] live_keys_delete(1) [OF tab] kfacts
    by (cases "find_slot ?sl key") (auto simp: sl0_def)
  have len0: "length sl0 = n" "length (live ctrl ?sl) = length (live ctrl sl0) + (if replaces then 1 else 0)"
    using live_delete [of k ?sl ctrl] kfacts by (auto simp: sl0_def)
  have map0: "(kved_map ctrl sl0)(KVED_HDR_MASK_KEY key \<mapsto> x) = (kved_map ctrl ?sl)(KVED_HDR_MASK_KEY key \<mapsto> x)" for x
    using kved_map_delete [OF tab, of k] kfacts by (simp add: sl0_def)
  have live0: "set (live ctrl sl0) \<subseteq> set (live ctrl ?sl)"
    using live_delete [of k ?sl ctrl] kfacts by (auto simp: sl0_def)
  have ff: "first_free_index ctrl = slot_index f" using co f by (simp add: ctrl_ok_def)
  obtain ctrl' s' where run: "kved_entry_append drv key key_index replaces ctrl data s = Some (KVED_OK, ctrl', data, s')"
    and ctrl': "ctrl' = ctrl\<lparr>first_free_index := slot_index (Suc f),
         stats := (stats ctrl)
           \<lparr>num_free_entries := num_free_entries (stats ctrl) - 1,
            num_used_entries := num_used_entries (stats ctrl) + (if replaces then 0 else 1),
            num_deleted_entries := num_deleted_entries (stats ctrl) + (if replaces then 1 else 0)\<rparr>\<rparr>"
    and ok': "ok s'" and sl': "kved_slots drv (sector ctrl) n s' = sl0[f := ?e]"
    and frame: "\<And>sec' i. unat i < words sec' \<Longrightarrow> sec' \<noteq> sector ctrl \<or> unat i < 2 \<Longrightarrow>
         header_read drv sec' i s' = header_read drv sec' i s"
    using append_slots [OF tab ff ok sec f num, of replaces k key_index key] k(2) kfacts
    unfolding sl0_def Let_def by blast
  have cong: "drv_max_entries ctrl' = drv_max_entries ctrl" by (simp add: ctrl')
  have [simp]: "sector ctrl' = sector ctrl" by (simp add: ctrl')
  note [simp] = table_ctrl_cong [OF cong]
  have live': "live ctrl (sl0[f := ?e]) = live ctrl sl0 @ [?e]"
    using live_append [OF tab0, of ?e] f len0 valid by simp
  have lf: "length (live ctrl sl0) \<le> f" using tab0 by (rule length_live_le_first_free)
  have "table_ok ctrl' (sl0[f := ?e]) (Suc f)"
    using table_ok_append [OF tab0, of ?e] f len0 valid keys0 by simp
  moreover have "ctrl_ok n ctrl' (sl0[f := ?e]) (Suc f)"
    using co f lf len0(2) length_live_le_first_free [OF tab]
    unfolding ctrl_ok_def by (auto simp: ctrl' live' of_nat_diff)
  moreover have "no_strings ctrl' (sl0[f := ?e])"
    using ns numk live0 live' by (auto simp: no_strings_def)
  moreover have "kved_headers drv ctrl' s'"
    using co by (intro headers_frame [OF hd sec strsec _ _ _ _ _ frame]) (simp_all add: ctrl' ctrl_ok_def)
  ultimately have "kved_inv drv ok n ctrl' s'"
    using ok' st sec strsec sl' unfolding kved_inv_def by (auto simp: ctrl')
  moreover have "kved_abs drv n ctrl' s' =
      (kved_abs drv n ctrl s)(KVED_HDR_MASK_KEY key \<mapsto> (KVED_HDR_MASK_TYPE key, kved_value_encode data))"
    using kved_map_append [OF tab0, of ?e] f len0 valid keys0 sl' map0 by (simp add: kved_abs_def)
  ultimately show ?thesis using run cong by (intro exI conjI) (simp_all add: ctrl')
qed

end

end
