(* ===== verification/Kved_Switch.thy ===== *)
theory Kved_Switch
  imports Kved_Store
begin

text \<open>
  The sector switch of kved: the copy loop leaves the live entries, compacted, in the other sector,
  the headers are written after them, and the consistency check that follows changes nothing.
\<close>

section \<open>Compacted tables\<close>

text \<open>What the sector switch makes of a live slot.\<close>

definition upd_slot :: "kved_word \<Rightarrow> kved_word \<Rightarrow> slot \<Rightarrow> slot" where
  "upd_slot upd_key v e = (fst e, if KVED_HDR_MASK_KEY (fst e) = upd_key then v else snd e)"

text \<open>State of the copy loop after \<open>j\<close> of the slots \<open>sl\<close>; \<open>new\<close> and \<open>news\<close> are the target sectors.\<close>

definition switch_inv ::
  "'s kved_flash_driver \<Rightarrow> ('s \<Rightarrow> bool) \<Rightarrow> (kved_flash_sector \<Rightarrow> nat) \<Rightarrow> nat \<Rightarrow> 'm kved_ctrl \<Rightarrow>
   kved_flash_sector \<Rightarrow> kved_flash_sector \<Rightarrow> slot list \<Rightarrow> (slot \<Rightarrow> slot) \<Rightarrow> nat \<Rightarrow> 's kved_switch \<Rightarrow> bool" where
  "switch_inv drv ok words n ctrl new news sl upd j w \<longleftrightarrow>
     (let L = map upd (live ctrl (take j sl))
      in next_index w = slot_index (length L) \<and> total_items w = of_nat j \<and>
         used_items w = of_nat (length L) \<and>
         ok (storage w) \<and>
         kved_slots drv (sector ctrl) n (storage w) = sl \<and>
         kved_slots drv new n (storage w) = L @ replicate (n - length L) free_slot \<and>
         header_read drv new 0 (storage w) = KVED_FREE_ENTRY \<and>
         header_read drv new 1 (storage w) = KVED_FREE_ENTRY \<and>
         header_read drv (str_sector ctrl) 1 (storage w) = KVED_STR_FREE_ENTRY \<and>
         (\<forall>i. unat i < words news \<longrightarrow> header_read drv news i (storage w) = KVED_FREE_ENTRY))"

lemma fst_upd_slot [simp]: "fst (upd_slot x v e) = fst e"
  by (simp add: upd_slot_def)

lemma live_map_upd_slot: "live ctrl (map (upd_slot x v) sl) = map (upd_slot x v) (live ctrl sl)"
  by (induction sl) auto

lemma live_keys_upd_slot [simp]: "live_keys ctrl (map (upd_slot x v) sl) = live_keys ctrl sl"
  by (simp add: live_keys_def live_map_upd_slot comp_def)

text \<open>The compacted table: the live slots, updated, and then free ones.\<close>

definition compacted :: "'m kved_ctrl \<Rightarrow> kved_word \<Rightarrow> kved_word \<Rightarrow> slot list \<Rightarrow> slot list" where
  "compacted ctrl x v sl =
     map (upd_slot x v) (live ctrl sl) @ replicate (length sl - length (live ctrl sl)) free_slot"

lemma live_compacted [simp]: "live ctrl (compacted ctrl x v sl) = map (upd_slot x v) (live ctrl sl)"
  by (simp add: compacted_def live_map_upd_slot)

lemma length_compacted [simp]: "length (compacted ctrl x v sl) = length sl"
  using length_live_le [of ctrl sl] by (simp add: compacted_def)

lemma table_ok_compacted:
  assumes "table_ok ctrl sl f"
  shows "table_ok ctrl (compacted ctrl x v sl) (length (live ctrl sl))"
proof -
  have "live_keys ctrl (compacted ctrl x v sl) = live_keys ctrl sl"
    by (simp add: live_keys_def comp_def)
  with assms show ?thesis
    using length_live_le [of ctrl sl] by (auto simp: table_ok_def compacted_def live_mem)
qed

lemma no_strings_compacted: "no_strings ctrl sl \<Longrightarrow> no_strings ctrl (compacted ctrl x v sl)"
  by (auto simp: no_strings_def)

lemma kved_map_compacted:
  "kved_map ctrl (compacted ctrl x v sl) =
     (\<lambda>y. map_option (\<lambda>(t, u). (t, if y = x then v else u)) (kved_map ctrl sl y))"
proof -
  have "map_of (map kved_entry (map (upd_slot x v) es)) y =
      map_option (\<lambda>(t, u). (t, if y = x then v else u)) (map_of (map kved_entry es) y)" for es y
    by (induction es) (auto simp: kved_entry_def upd_slot_def)
  then show ?thesis by (simp add: kved_map_def fun_eq_iff)
qed

context kved_store
begin

section \<open>The consistency checks on a sound table\<close>

lemma check_entry_noop:
  assumes tab: "table_ok ctrl (kved_slots drv (sector ctrl) n s) f"
    and hi: "2 * n \<le> unat (last_index ctrl)" "unat (last_index ctrl) < 2 * n + 2"
    and k: "k < n"
  shows "kved_check_entry drv (slot_index k) (ctrl, s) = Some (Continue (ctrl, s))"
proof -
  let ?sl = "kved_slots drv (sector ctrl) n s"
  have key: "header_read drv (sector ctrl) (slot_index k) s = fst (?sl ! k)"
    "header_read drv (sector ctrl) (slot_index k + 1) s = snd (?sl ! k)"
    using k by (simp_all add: nth_kved_slots)
  have half: "\<not> (fst (?sl ! k) = KVED_FLASH_UINT_MAX \<and> snd (?sl ! k) \<noteq> KVED_FLASH_UINT_MAX)"
  proof (cases "k < f")
    case True
    then show ?thesis
      using table_ok_used [OF tab True] by (auto simp: uint_max_free)
  next
    case False
    then show ?thesis
      using table_ok_free [OF tab, of k] k
      by (simp add: free_slot_def uint_max_free)
  qed
  have dup: "u16_for (last_index ctrl) KVED_ENTRY_SIZE_IN_WORDS
      (kved_dup_check drv (fst (?sl ! k)) (slot_index k)) (slot_index k + KVED_ENTRY_SIZE_IN_WORDS) (ctrl, s) =
      Some (ctrl, s)" if v: "kved_is_valid_key ctrl (fst (?sl ! k))"
  proof -
    have "\<exists>a'. for_list (kved_dup_check drv (fst (?sl ! k)) (slot_index k))
        (map (\<lambda>j. slot_index (Suc k + j)) [0..<n - Suc k]) (ctrl, s) = Some a' \<and> a' = (ctrl, s)"
    proof (rule for_list_inv, goal_cases)
      case (1 j a)
      have "KVED_HDR_MASK_KEY (fst (?sl ! k)) \<noteq> KVED_HDR_MASK_KEY (fst (?sl ! (Suc k + j)))"
        if "kved_is_valid_key ctrl (fst (?sl ! (Suc k + j)))"
        using live_keys_distinct_nth [of ctrl ?sl k "Suc k + j"] tab v that 1 by (simp add: table_ok_def)
      with 1 show ?case
        by (auto simp: kved_dup_check_def Let_def nth_kved_slots)
    qed simp
    moreover have "map (\<lambda>j. slot_index (Suc k + j)) [0..<n - Suc k] = map slot_index [Suc k..<n]"
      by (rule nth_equalityI) auto
    ultimately show ?thesis
      using n_bound hi k slot_index_Suc [of k]
      by (simp add: slot_loop [of n "Suc k", unfolded slot_index_Suc KVED_ENTRY_SIZE_IN_WORDS_def]
          KVED_ENTRY_SIZE_IN_WORDS_def)
  qed
  show ?thesis
    using half dup by (auto simp: kved_check_entry_def Let_def key)
qed

lemma data_check_noop:
  assumes tab: "table_ok ctrl (kved_slots drv (sector ctrl) n s) f"
    and hi: "2 * n \<le> unat (last_index ctrl)" "unat (last_index ctrl) < 2 * n + 2"
    and fi: "first_index ctrl = slot_index 0"
  shows "u16_for (last_index ctrl) KVED_ENTRY_SIZE_IN_WORDS (kved_check_entry drv)
    (first_index ctrl) (ctrl, s) = Some (ctrl, s)"
proof -
  have "\<exists>a'. for_list (kved_check_entry drv) (map slot_index [0..<n]) (ctrl, s) = Some a' \<and> a' = (ctrl, s)"
    using check_entry_noop [OF tab hi] by (intro for_list_inv) auto
  then show ?thesis
    using n_bound hi fi by (simp add: slot_loop [of n 0])
qed

section \<open>The sector switch\<close>

lemma next_sector_cases:
  assumes "sec = KVED_FLASH_SECTOR_A \<or> sec = KVED_FLASH_SECTOR_B"
  shows "kved_next_sector sec \<noteq> sec"
    "kved_next_sector sec = KVED_FLASH_SECTOR_A \<or> kved_next_sector sec = KVED_FLASH_SECTOR_B"
  using assms by (auto simp: kved_next_sector_def)

lemma next_str_sector_cases:
  "kved_next_str_sector sec = KVED_FLASH_STRING_SECTOR_A \<or>
   kved_next_str_sector sec = KVED_FLASH_STRING_SECTOR_B"
  by (auto simp: kved_next_str_sector_def)

text \<open>Writing a key word and then a value word into the first free slot of the new sector.\<close>

lemma copy_slot:
  assumes ok: "ok s" and new: "new = KVED_FLASH_SECTOR_A \<or> new = KVED_FLASH_SECTOR_B"
    and sl: "kved_slots drv new n s = L @ replicate (n - length L) free_slot" and m: "length L < n"
    and s': "s' = header_write drv new (slot_index (length L) + 1) v
        (header_write drv new (slot_index (length L)) key s)"
  shows "ok s'" "kved_slots drv new n s' = (L @ [(key, v)]) @ replicate (n - Suc (length L)) free_slot"
    and "\<And>sec i. unat i < words sec \<Longrightarrow> sec \<noteq> new \<or> unat i < 2 \<Longrightarrow>
      header_read drv sec i s' = header_read drv sec i s"
proof -
  let ?k = "length L"
  define s1 where "s1 = header_write drv new (slot_index ?k) key s"
  note bnd = slot_in_words [OF m new]
  have nth: "(L @ replicate (n - ?k) free_slot) ! ?k = free_slot"
    using m by (simp add: nth_append)
  have repl: "replicate (n - ?k) free_slot = free_slot # replicate (n - Suc ?k) free_slot"
    using m by (simp add: Suc_diff_Suc flip: replicate_Suc)
  have s1: "ok s1" "kved_slots drv new n s1 = L @ (key, KVED_FREE_ENTRY) # replicate (n - Suc ?k) free_slot"
    using write_ok [OF ok bnd(1)] slots_write_key [OF ok m new, of key] sl nth repl
    by (simp_all add: s1_def free_slot_def list_update_append)
  show "ok s'"
    using write_ok [OF s1(1) bnd(2)] s' by (simp add: s1_def)
  show "kved_slots drv new n s' = (L @ [(key, v)]) @ replicate (n - Suc ?k) free_slot"
    using slots_write_val [OF s1(1) m new, of v] s1(2) s' by (simp add: s1_def list_update_append)
  fix sec and i :: u16 assume i: "unat i < words sec" "sec \<noteq> new \<or> unat i < 2"
  then have "(sec, i) \<noteq> (new, slot_index ?k)" "(sec, i) \<noteq> (new, slot_index ?k + 1)"
    using unat_slot_index [of ?k] unat_slot_index_Suc [of ?k] m n_bound by auto
  with ok s1(1) bnd i show "header_read drv sec i s' = header_read drv sec i s"
    by (simp add: s' read_write_other flip: s1_def) (simp add: s1_def read_write_other)
qed

lemma slots_cong:
  assumes "\<And>i. unat i < words sec \<Longrightarrow> header_read drv sec i s' = header_read drv sec i s"
    "sec = KVED_FLASH_SECTOR_A \<or> sec = KVED_FLASH_SECTOR_B"
  shows "kved_slots drv sec n s' = kved_slots drv sec n s"
  unfolding kved_slots_def using assms slot_in_words by (intro map_cong refl) simp

lemma live_take_Suc:
  "j < length sl \<Longrightarrow> live ctrl (take (Suc j) sl) =
     live ctrl (take j sl) @ (if kved_is_valid_key ctrl (fst (sl ! j)) then [sl ! j] else [])"
  by (simp add: take_Suc_conv_app_nth)

lemma switch_entry_step:
  assumes sec: "sector ctrl = KVED_FLASH_SECTOR_A \<or> sector ctrl = KVED_FLASH_SECTOR_B"
    and new: "new = kved_next_sector (sector ctrl)"
    and news: "news = KVED_FLASH_STRING_SECTOR_A \<or> news = KVED_FLASH_STRING_SECTOR_B"
    and str: "str_sector ctrl = KVED_FLASH_STRING_SECTOR_A \<or> str_sector ctrl = KVED_FLASH_STRING_SECTOR_B"
    and ns: "no_strings ctrl sl" and len: "length sl = n"
    and upd: "\<forall>e \<in> set (live ctrl sl). KVED_HDR_MASK_KEY (fst e) = upd_key \<longrightarrow> upd_data = Some d"
    and j: "j < n" and inv: "switch_inv drv ok words n ctrl new news sl (upd_slot upd_key (kved_value_encode d)) j w"
  shows "\<exists>w'. kved_switch_entry junk drv ctrl new news upd_key upd_data (slot_index j) w = Some (Continue w') \<and>
    switch_inv drv ok words n ctrl new news sl (upd_slot upd_key (kved_value_encode d)) (Suc j) w'"
proof -
  let ?upd = "upd_slot upd_key (kved_value_encode d)"
  let ?L = "map ?upd (live ctrl (take j sl))"
  have newAB: "new = KVED_FLASH_SECTOR_A \<or> new = KVED_FLASH_SECTOR_B" and neq: "sector ctrl \<noteq> new"
    using next_sector_cases [OF sec] new by simp_all
  have I: "next_index w = slot_index (length ?L)" "total_items w = of_nat j"
    "used_items w = of_nat (length ?L)" "ok (storage w)"
    "kved_slots drv (sector ctrl) n (storage w) = sl"
    "kved_slots drv new n (storage w) = ?L @ replicate (n - length ?L) free_slot"
    "header_read drv new 0 (storage w) = KVED_FREE_ENTRY" "header_read drv new 1 (storage w) = KVED_FREE_ENTRY"
    "header_read drv (str_sector ctrl) 1 (storage w) = KVED_STR_FREE_ENTRY"
    "\<And>i. unat i < words news \<Longrightarrow> header_read drv news i (storage w) = KVED_FREE_ENTRY"
    using inv unfolding switch_inv_def Let_def by blast+
  have rd: "header_read drv (sector ctrl) (slot_index j) (storage w) = fst (sl ! j)"
    "header_read drv (sector ctrl) (slot_index j + 1) (storage w) = snd (sl ! j)"
    using I(5) j by (metis fst_conv snd_conv nth_kved_slots)+
  have m: "length ?L < n"
    using length_live_le [of ctrl "take j sl"] j len by simp
  show ?thesis
  proof (cases "kved_is_valid_key ctrl (fst (sl ! j))")
    case False
    then show ?thesis
      using inv j len rd by (simp add: kved_switch_entry_def switch_inv_def live_take_Suc Let_def)
  next
    case True
    have mem: "sl ! j \<in> set (live ctrl sl)"
      using True j len by (simp add: live_mem)
    then have num: "KVED_HDR_MASK_TYPE (fst (sl ! j)) \<noteq> ucast KVED_DATA_TYPE_STRING"
      using ns by (simp add: no_strings_def numeric_type_def)
    define s' where "s' = header_write drv new (slot_index (length ?L) + 1) (snd (?upd (sl ! j)))
        (header_write drv new (slot_index (length ?L)) (fst (sl ! j)) (storage w))"
    note cp = copy_slot [OF I(4) newAB I(6) m s'_def]
    have sl': "kved_slots drv (sector ctrl) n s' = sl"
      using slots_cong [of "sector ctrl" s' "storage w"] cp(3) neq sec I(5) by simp
    have hdr: "header_read drv new 0 s' = KVED_FREE_ENTRY" "header_read drv new 1 s' = KVED_FREE_ENTRY"
      "header_read drv (str_sector ctrl) 1 s' = KVED_STR_FREE_ENTRY"
      "\<And>i. unat i < words news \<Longrightarrow> header_read drv news i s' = KVED_FREE_ENTRY"
      using cp(3) I(7-10) newAB news str index_room [OF newAB] string_room [OF str] n_pos by auto
    define w' where "w' = w\<lparr>next_index := slot_index (length ?L) + 2, storage := s',
       used_items := used_items w + 1, total_items := total_items w + 1\<rparr>"
    have "kved_switch_entry junk drv ctrl new news upd_key upd_data (slot_index j) w = Some (Continue w')"
      using True num rd upd mem I(1)
      by (auto simp: kved_switch_entry_def Let_def w'_def s'_def upd_slot_def)
    moreover have "switch_inv drv ok words n ctrl new news sl ?upd (Suc j) w'"
      using True j len I cp(1,2) sl' hdr
      by (simp add: switch_inv_def w'_def live_take_Suc slot_index_Suc Let_def upd_slot_def)
    ultimately show ?thesis by blast
  qed
qed

lemma switch_start:
  assumes ok: "ok s" and sec: "sector ctrl = KVED_FLASH_SECTOR_A \<or> sector ctrl = KVED_FLASH_SECTOR_B"
    and news: "news = KVED_FLASH_STRING_SECTOR_A \<or> news = KVED_FLASH_STRING_SECTOR_B"
    and str: "str_sector ctrl = KVED_FLASH_STRING_SECTOR_A \<or> str_sector ctrl = KVED_FLASH_STRING_SECTOR_B"
      "news \<noteq> str_sector ctrl" "header_read drv (str_sector ctrl) 1 s = KVED_STR_FREE_ENTRY"
  shows "switch_inv drv ok words n ctrl (kved_next_sector (sector ctrl)) news
    (kved_slots drv (sector ctrl) n s) upd 0
    \<lparr>next_index = KVED_HDR_SIZE_IN_WORDS, total_items = 0, used_items = 0, str_next_free_sector = 0,
     str_next_index = 0,
     storage = snd (sector_erase drv news (snd (sector_erase drv (kved_next_sector (sector ctrl)) s)))\<rparr>"
proof -
  let ?new = "kved_next_sector (sector ctrl)"
  let ?s1 = "snd (sector_erase drv ?new s)"
  let ?s2 = "snd (sector_erase drv news ?s1)"
  note new = next_sector_cases [OF sec]
  have neq: "news \<noteq> ?new" "news \<noteq> sector ctrl" using new(2) sec news by auto
  have wpos: "0 < words ?new" "0 < words news"
    using new(2) news by (auto intro: words_pos)
  have ok1: "ok ?s1" "ok ?s2"
    using ok wpos by (auto intro: erase_ok)
  have ones: "header_read drv ?new i ?s2 = KVED_FREE_ENTRY" if "unat i < words ?new" for i
    using that ok ok1 wpos neq by (simp add: read_erase_other read_erase_same free_entry_ones)
  have "kved_slots drv ?new n ?s2 = replicate n free_slot"
    using slots_erase_other [OF ok1(1) new(2) neq(1)] slots_erase_same [OF ok new(2)] news by auto
  moreover have "kved_slots drv (sector ctrl) n ?s2 = kved_slots drv (sector ctrl) n s"
    using slots_erase_other [OF ok1(1) sec neq(2)] slots_erase_other [OF ok sec new(1)] news new(2) by auto
  moreover have "1 < words ?new"
    using index_room [OF new(2)] by simp
  moreover have "header_read drv (str_sector ctrl) 1 ?s2 = KVED_STR_FREE_ENTRY"
    using string_room [OF str(1)] n_pos str new(2) ok ok1 wpos
    by (subst read_erase_other; (subst read_erase_other)?) auto
  ultimately show ?thesis
    using ok1 ones wpos news read_erase_same [OF ok1(1)]
    by (simp add: switch_inv_def Let_def slot_index_def KVED_HDR_SIZE_IN_WORDS_def free_entry_ones)
qed

text \<open>Header words after the final writes of the switch.\<close>

lemma switch_headers:
  assumes ok: "ok s" and new: "sector ctrl = KVED_FLASH_SECTOR_A \<or> sector ctrl = KVED_FLASH_SECTOR_B"
    and old: "old = KVED_FLASH_SECTOR_A \<or> old = KVED_FLASH_SECTOR_B" "old \<noteq> sector ctrl"
    and news: "str_sector ctrl = KVED_FLASH_STRING_SECTOR_A \<or> str_sector ctrl = KVED_FLASH_STRING_SECTOR_B"
    and free: "header_read drv (sector ctrl) 0 s = KVED_FREE_ENTRY" "header_read drv (sector ctrl) 1 s = KVED_FREE_ENTRY"
      "\<And>i. unat i < words (str_sector ctrl) \<Longrightarrow> header_read drv (str_sector ctrl) i s = KVED_FREE_ENTRY"
    and total: "num_total_entries (stats ctrl) = of_nat n"
    and s': "s' = kved_switch_headers drv old cnt ctrl s"
  shows "ok s'" "kved_slots drv (sector ctrl) n s' = kved_slots drv (sector ctrl) n s"
    "header_read drv (sector ctrl) 0 s' = KVED_SIGNATURE_ENTRY ctrl"
    "header_read drv (sector ctrl) 1 s' = kved_next_cnt cnt"
    "header_read drv old 0 s' = 0"
    "header_read drv (str_sector ctrl) 0 s' = KVED_STR_SIGNATURE_ENTRY ctrl"
    "header_read drv (str_sector ctrl) (of_nat n + 1) s' = KVED_STR_SIGNATURE_END ctrl"
    "header_read drv (str_sector ctrl) 1 s' = KVED_FREE_ENTRY"
    "\<And>olds. olds \<noteq> str_sector ctrl \<Longrightarrow>
       olds = KVED_FLASH_STRING_SECTOR_A \<or> olds = KVED_FLASH_STRING_SECTOR_B \<Longrightarrow>
       header_read drv olds 1 s' = header_read drv olds 1 s"
proof -
  let ?A = "sector ctrl" and ?S = "str_sector ctrl" and ?e = "of_nat n + 1 :: u16"
  have neq: "?S \<noteq> ?A" "?S \<noteq> old" "?A \<noteq> ?S" "old \<noteq> ?S" using new old(1) news by auto
  have b: "0 < words ?A" "1 < words ?A" "0 < words old" "0 < words ?S" "unat ?e < words ?S"
    using index_room [OF new] index_room [OF old(1)] string_room [OF news] unat_of_nat_n by auto
  have e0: "?e \<noteq> 0" using unat_of_nat_n(2) by (metis unat_0 add_is_0 one_neq_zero)
  define s1 where "s1 = header_write drv ?A 1 (kved_next_cnt cnt) s"
  define s2 where "s2 = header_write drv ?A 0 (KVED_SIGNATURE_ENTRY ctrl) s1"
  define s3 where "s3 = header_write drv ?S 0 (KVED_STR_SIGNATURE_ENTRY ctrl) s2"
  define s4 where "s4 = header_write drv ?S ?e (KVED_STR_SIGNATURE_END ctrl) s3"
  have s'4: "s' = header_write drv old 0 0 s4"
    by (simp add: s' kved_switch_headers_def s1_def s2_def s3_def s4_def total Let_def)
  have oks: "ok s1" "ok s2" "ok s3" "ok s4" "ok s'"
    using ok b by (simp_all add: s1_def s2_def s3_def s4_def s'4 write_ok)
  show "ok s'" by (rule oks)
  note defs = s1_def s2_def s3_def s4_def s'4
  show "kved_slots drv ?A n s' = kved_slots drv ?A n s"
    using ok oks b neq old new
    by (simp add: s'4 slots_write_other) (simp add: s4_def s3_def s2_def s1_def oks slots_write_other write_ok)
  show "header_read drv ?A 0 s' = KVED_SIGNATURE_ENTRY ctrl"
    using ok oks b neq old(2) free read_write_same [of s1 0 ?A "KVED_SIGNATURE_ENTRY ctrl"]
    by (simp add: s'4 s4_def s3_def read_write_other s2_def) (simp add: s1_def read_write_other)
  show "header_read drv ?A 1 s' = kved_next_cnt cnt"
    using ok oks b neq old(2) free read_write_same [of s 1 ?A "kved_next_cnt cnt"]
    by (simp add: s'4 s4_def s3_def s2_def read_write_other s1_def)
  show "header_read drv old 0 s' = 0"
    using oks b by (simp add: s'4 read_write_zero)
  show "header_read drv ?S 0 s' = KVED_STR_SIGNATURE_ENTRY ctrl"
    using ok oks b neq e0 free(3) read_write_same [of s2 0 ?S "KVED_STR_SIGNATURE_ENTRY ctrl"]
    by (simp add: s'4 s4_def read_write_other s3_def) (simp add: s2_def s1_def read_write_other write_ok)
  show "header_read drv ?S ?e s' = KVED_STR_SIGNATURE_END ctrl"
    using ok oks b neq e0 free(3) read_write_same [of s3 ?e ?S "KVED_STR_SIGNATURE_END ctrl"]
    by (simp add: s'4 read_write_other s4_def) (simp add: s3_def s2_def s1_def read_write_other write_ok)
  have e1: "?e \<noteq> 1" and w1: "1 < words ?S"
    using unat_of_nat_n(2) n_pos string_room [OF news] by auto
  show "header_read drv ?S 1 s' = KVED_FREE_ENTRY"
    using ok oks b neq e1 w1 free(3) by (simp add: s'4 s4_def s3_def s2_def s1_def read_write_other write_ok)
  fix olds assume "olds \<noteq> ?S" and o: "olds = KVED_FLASH_STRING_SECTOR_A \<or> olds = KVED_FLASH_STRING_SECTOR_B"
  moreover have "1 < words olds" "olds \<noteq> ?A" "olds \<noteq> old"
    using string_room [OF o] n_pos o new old(1) by auto
  ultimately show "header_read drv olds 1 s' = header_read drv olds 1 s"
    using ok oks b by (simp add: s'4 s4_def s3_def s2_def s1_def read_write_other write_ok)
qed

text \<open>The switch ends, with the compacted table in the other sector.\<close>

lemma switch_loop:
  assumes inv: "kved_inv drv ok n ctrl s"
    and upd: "\<forall>e \<in> set (live ctrl (kved_slots drv (sector ctrl) n s)).
        KVED_HDR_MASK_KEY (fst e) = KVED_HDR_MASK_KEY upd_key \<longrightarrow> upd_data = Some d"
    and news: "news = kved_next_str_sector (str_sector ctrl)"
  shows "\<exists>w. u16_for (last_index ctrl) KVED_ENTRY_SIZE_IN_WORDS
      (kved_switch_entry junk drv ctrl (kved_next_sector (sector ctrl)) news (KVED_HDR_MASK_KEY upd_key) upd_data)
      (first_index ctrl)
      \<lparr>next_index = KVED_HDR_SIZE_IN_WORDS, total_items = 0, used_items = 0, str_next_free_sector = 0,
       str_next_index = 0,
       storage = snd (sector_erase drv news (snd (sector_erase drv (kved_next_sector (sector ctrl)) s)))\<rparr> = Some w \<and>
    switch_inv drv ok words n ctrl (kved_next_sector (sector ctrl)) news (kved_slots drv (sector ctrl) n s)
      (upd_slot (KVED_HDR_MASK_KEY upd_key) (kved_value_encode d)) n w"
proof -
  let ?sl = "kved_slots drv (sector ctrl) n s"
  obtain f where ok: "ok s" and co: "ctrl_ok n ctrl ?sl f" and ns: "no_strings ctrl ?sl"
    and sec: "sector ctrl = KVED_FLASH_SECTOR_A \<or> sector ctrl = KVED_FLASH_SECTOR_B"
    and str: "str_sector ctrl = KVED_FLASH_STRING_SECTOR_A \<or> str_sector ctrl = KVED_FLASH_STRING_SECTOR_B"
    and free: "header_read drv (str_sector ctrl) 1 s = KVED_STR_FREE_ENTRY"
    using inv by (auto simp: kved_inv_def kved_headers_def)
  have neq: "news \<noteq> str_sector ctrl" and newsAB: "news = KVED_FLASH_STRING_SECTOR_A \<or> news = KVED_FLASH_STRING_SECTOR_B"
    using str news by (auto simp: kved_next_str_sector_def)
  have loop: "u16_for (last_index ctrl) KVED_ENTRY_SIZE_IN_WORDS body (first_index ctrl) a =
      for_list body (map slot_index [0..<n]) a" for body and a :: "'s kved_switch"
    using co n_bound by (simp add: ctrl_ok_def slot_loop)
  show ?thesis
    unfolding loop
    by (rule for_list_inv [where f = slot_index, OF switch_entry_step [OF sec refl newsAB str ns length_kved_slots upd]
          switch_start [OF ok sec newsAB str neq free]])
qed

lemma switch_correct:
  assumes inv: "kved_inv drv ok n ctrl s"
    and upd: "\<forall>e \<in> set (live ctrl (kved_slots drv (sector ctrl) n s)).
        KVED_HDR_MASK_KEY (fst e) = KVED_HDR_MASK_KEY upd_key \<longrightarrow> upd_data = Some d"
  shows "\<exists>ctrl' s'. kved_sector_switch junk drv cnt upd_key upd_data ctrl s = Some (KVED_OK, ctrl', s') \<and>
    ok s' \<and> sector ctrl' = kved_next_sector (sector ctrl) \<and>
    str_sector ctrl' = kved_next_str_sector (str_sector ctrl) \<and>
    kved_slots drv (sector ctrl') n s' =
      compacted ctrl (KVED_HDR_MASK_KEY upd_key) (kved_value_encode d) (kved_slots drv (sector ctrl) n s) \<and>
    ctrl_ok n ctrl' (kved_slots drv (sector ctrl') n s') (length (live ctrl (kved_slots drv (sector ctrl) n s))) \<and>
    started ctrl' = started ctrl \<and> mutex ctrl' = mutex ctrl \<and> drv_max_entries ctrl' = drv_max_entries ctrl \<and>
    kved_headers drv ctrl' s' \<and>
    header_read drv (sector ctrl') 1 s' = kved_next_cnt cnt \<and> header_read drv (sector ctrl) 0 s' = 0"
proof -
  let ?sl = "kved_slots drv (sector ctrl) n s" and ?x = "KVED_HDR_MASK_KEY upd_key" and ?v = "kved_value_encode d"
  let ?new = "kved_next_sector (sector ctrl)" and ?news = "kved_next_str_sector (str_sector ctrl)"
  let ?C = "compacted ctrl ?x ?v ?sl" and ?m = "length (live ctrl ?sl)"
  obtain f where ok: "ok s" and tab: "table_ok ctrl ?sl f" and ns: "no_strings ctrl ?sl"
    and sec: "sector ctrl = KVED_FLASH_SECTOR_A \<or> sector ctrl = KVED_FLASH_SECTOR_B"
    and str: "str_sector ctrl = KVED_FLASH_STRING_SECTOR_A \<or> str_sector ctrl = KVED_FLASH_STRING_SECTOR_B"
    using inv by (auto simp: kved_inv_def)
  note new = next_sector_cases [OF sec] and news = next_str_sector_cases [of "str_sector ctrl"]
  have nn: "kved_next_sector ?new = sector ctrl" "kved_next_str_sector ?news = str_sector ctrl" "str_sector ctrl \<noteq> ?news"
    using sec str by (auto simp: kved_next_sector_def kved_next_str_sector_def)
  obtain w where run: "u16_for (last_index ctrl) KVED_ENTRY_SIZE_IN_WORDS
      (kved_switch_entry junk drv ctrl ?new ?news ?x upd_data) (first_index ctrl)
      \<lparr>next_index = KVED_HDR_SIZE_IN_WORDS, total_items = 0, used_items = 0, str_next_free_sector = 0,
       str_next_index = 0, storage = snd (sector_erase drv ?news (snd (sector_erase drv ?new s)))\<rparr> = Some w"
    and I: "switch_inv drv ok words n ctrl ?new ?news ?sl (upd_slot ?x ?v) n w"
    using switch_loop [where upd_key = upd_key and upd_data = upd_data and d = d and junk = junk, OF inv upd refl]
    by blast
  have w: "next_index w = slot_index ?m" "total_items w = of_nat n" "used_items w = of_nat ?m" "ok (storage w)"
    "kved_slots drv ?new n (storage w) = ?C"
    "header_read drv ?new 0 (storage w) = KVED_FREE_ENTRY" "header_read drv ?new 1 (storage w) = KVED_FREE_ENTRY"
    "\<And>i. unat i < words ?news \<Longrightarrow> header_read drv ?news i (storage w) = KVED_FREE_ENTRY"
    "header_read drv (str_sector ctrl) 1 (storage w) = KVED_STR_FREE_ENTRY"
    using I by (simp_all add: switch_inv_def Let_def compacted_def)
  define c1 where "c1 = kved_switch_ctrl drv ?new ?news w ctrl"
  define s' where "s' = kved_switch_headers drv (sector ctrl) cnt c1 (storage w)"
  have c1: "sector c1 = ?new" "str_sector c1 = ?news" "num_total_entries (stats c1) = of_nat n"
    "drv_max_entries c1 = drv_max_entries ctrl"
    by (simp_all add: c1_def kved_switch_ctrl_def w)
  note [simp] = c1(1-3)
  have H: "ok s'" "kved_slots drv ?new n s' = ?C" "header_read drv ?new 0 s' = KVED_SIGNATURE_ENTRY c1"
    "header_read drv ?new 1 s' = kved_next_cnt cnt" "header_read drv (sector ctrl) 0 s' = 0"
    "header_read drv ?news 0 s' = KVED_STR_SIGNATURE_ENTRY c1"
    "header_read drv ?news (of_nat n + 1) s' = KVED_STR_SIGNATURE_END c1"
    "header_read drv ?news 1 s' = KVED_FREE_ENTRY" "header_read drv (str_sector ctrl) 1 s' = KVED_STR_FREE_ENTRY"
    using switch_headers [of "storage w" c1 "sector ctrl" s' cnt] w sec str nn(3) new news s'_def by auto
  define c2 where "c2 = str_checked c1 (str_index drv c1 s') (of_nat n)"
  have c2: "sector c2 = ?new" "last_index c2 = last_index c1" "first_index c2 = first_index c1"
    "drv_max_entries c2 = drv_max_entries ctrl"
    using c1 by (simp_all add: c2_def str_checked_def)
  have c2': "str_sector c2 = ?news" "started c2 = started ctrl" "mutex c2 = mutex ctrl"
    by (simp_all add: c2_def str_checked_def c1_def kved_switch_ctrl_def)
  have chk: "kved_string_consistency_check drv c1 s' = Some (KVED_OK, c2)"
    using string_check_eq [of drv c1 s'] H c1 by (simp add: c2_def)
  have li: "2 * n \<le> unat (last_index c2) \<and> unat (last_index c2) < 2 * n + 2"
    using last_index_n [OF w(4) new(2)] c2 by (simp add: c1_def kved_switch_ctrl_def)
  have fi: "first_index c2 = slot_index 0"
    using c2 by (simp add: c1_def kved_switch_ctrl_def KVED_HDR_SIZE_IN_WORDS_def slot_index_def)
  have "table_ok c2 ?C ?m"
    using table_ok_compacted [OF tab] table_ctrl_cong(4) [OF c2(4)] by simp
  then have "u16_for (last_index c2) KVED_ENTRY_SIZE_IN_WORDS (kved_check_entry drv) (first_index c2) (c2, s') = Some (c2, s')"
    using data_check_noop [of c2 s' ?m] H(2) c2(1) li fi by simp
  then have "kved_sector_switch junk drv cnt upd_key upd_data ctrl s = Some (KVED_OK, c2, s')"
    using chk by (simp add: kved_sector_switch_def run kved_data_consistency_check_def s'_def c1_def)
  moreover have "ctrl_ok n c2 ?C ?m"
    unfolding ctrl_ok_def table_ctrl_cong(1) [OF c2(4)] live_compacted
    using li fi w length_live_le [of ctrl ?sl]
    by (simp add: c2_def str_checked_def c1_def kved_switch_ctrl_def of_nat_diff)
  moreover have "kved_headers drv c2 s'"
    using H nn c2 c2' c1(4) signature_nonzero [of c1]
    by (simp add: kved_headers_def KVED_SIGNATURE_ENTRY_def KVED_FREE_ENTRY_def KVED_STR_FREE_ENTRY_def)
  ultimately show ?thesis
    using H c2 c2' by (intro exI [of _ c2] exI [of _ s'] conjI) simp_all
qed

end

end
