(* ===== verification/Kved_Correct.thy ===== *)
theory Kved_Correct
  imports Kved_Switch
begin

text \<open>
  kved on numeric entries refines a finite map: the public write, read and delete operations, with
  their critical section, over any backend that keeps the contract.
\<close>

context kved_store
begin

section \<open>Writing\<close>

text \<open>The switch keeps the invariant; of the map it changes at most the value of the updated key.\<close>

lemma switch_inv_map:
  assumes inv: "kved_inv drv ok n ctrl s"
    and upd: "\<forall>e \<in> set (live ctrl (kved_slots drv (sector ctrl) n s)).
        KVED_HDR_MASK_KEY (fst e) = KVED_HDR_MASK_KEY upd_key \<longrightarrow> upd_data = Some d"
  shows "\<exists>ctrl' s'. kved_sector_switch junk drv cnt upd_key upd_data ctrl s = Some (KVED_OK, ctrl', s') \<and>
    kved_inv drv ok n ctrl' s' \<and> mutex ctrl' = mutex ctrl \<and> drv_max_entries ctrl' = drv_max_entries ctrl \<and>
    table_ok ctrl' (kved_slots drv (sector ctrl') n s') (length (live ctrl (kved_slots drv (sector ctrl) n s))) \<and>
    ctrl_ok n ctrl' (kved_slots drv (sector ctrl') n s') (length (live ctrl (kved_slots drv (sector ctrl) n s))) \<and>
    kved_abs drv n ctrl' s' = (\<lambda>y. map_option
      (\<lambda>(t, u). (t, if y = KVED_HDR_MASK_KEY upd_key then kved_value_encode d else u)) (kved_abs drv n ctrl s y))"
proof -
  let ?sl = "kved_slots drv (sector ctrl) n s" and ?x = "KVED_HDR_MASK_KEY upd_key"
  obtain f where tab: "table_ok ctrl ?sl f" and ns: "no_strings ctrl ?sl" and st: "started ctrl"
    and sec: "sector ctrl = KVED_FLASH_SECTOR_A \<or> sector ctrl = KVED_FLASH_SECTOR_B"
    using inv by (auto simp: kved_inv_def)
  obtain ctrl' s' where run: "kved_sector_switch junk drv cnt upd_key upd_data ctrl s = Some (KVED_OK, ctrl', s')"
    and ok: "ok s'" and sec': "sector ctrl' = kved_next_sector (sector ctrl)"
    and str': "str_sector ctrl' = kved_next_str_sector (str_sector ctrl)"
    and sl': "kved_slots drv (sector ctrl') n s' = compacted ctrl ?x (kved_value_encode d) ?sl"
    and co: "ctrl_ok n ctrl' (kved_slots drv (sector ctrl') n s') (length (live ctrl ?sl))"
    and c': "started ctrl' = started ctrl" "mutex ctrl' = mutex ctrl" "drv_max_entries ctrl' = drv_max_entries ctrl"
    and hd: "kved_headers drv ctrl' s'"
    using switch_correct [where upd_key = upd_key and upd_data = upd_data and d = d and junk = junk and cnt = cnt, OF inv upd]
    by blast
  have tab': "table_ok ctrl' (kved_slots drv (sector ctrl') n s') (length (live ctrl ?sl))"
    unfolding sl' table_ctrl_cong(4) [OF c'(3)] using tab by (rule table_ok_compacted)
  have "no_strings ctrl' (kved_slots drv (sector ctrl') n s')"
    unfolding sl' table_ctrl_cong(5) [OF c'(3)] using ns by (rule no_strings_compacted)
  then have "kved_inv drv ok n ctrl' s'"
    unfolding kved_inv_def using ok st c' tab' co hd next_sector_cases(2) [OF sec] next_str_sector_cases sec' str' by metis
  moreover have "kved_abs drv n ctrl' s' = (\<lambda>y. map_option
      (\<lambda>(t, u). (t, if y = ?x then kved_value_encode d else u)) (kved_abs drv n ctrl s y))"
    unfolding kved_abs_def sl' table_ctrl_cong(3) [OF c'(3)] by (rule kved_map_compacted)
  ultimately show ?thesis using run c' tab' co by blast
qed

lemma ctrl_ok_free_iff:
  assumes "ctrl_ok n ctrl sl f" "table_ok ctrl sl f" "length sl = n"
  shows "f \<le> n" "num_free_entries (stats ctrl) = 0 \<longleftrightarrow> f = n"
proof -
  show "f \<le> n" using assms by (simp add: table_ok_def)
  have "unat (of_nat (n - f) :: u16) = n - f" using n_bound by (simp add: unat_of_nat)
  then have "(of_nat (n - f) :: u16) = 0 \<longleftrightarrow> n - f = 0"
    using unat_eq_zero [of "of_nat (n - f) :: u16"] by simp
  with \<open>f \<le> n\<close> assms(1) show "num_free_entries (stats ctrl) = 0 \<longleftrightarrow> f = n"
    by (auto simp: ctrl_ok_def)
qed

lemma ctrl_ok_live_less:
  assumes "ctrl_ok n ctrl sl f" "length sl = n" "num_used_entries (stats ctrl) \<noteq> num_total_entries (stats ctrl)"
  shows "length (live ctrl sl) < n"
  using assms length_live_le [of ctrl sl] by (auto simp: ctrl_ok_def le_less)

lemma key_not_string:
  assumes "kved_key_encode data = Some key" "kv_type data \<noteq> KVED_DATA_TYPE_STRING"
  shows "numeric_type (KVED_HDR_MASK_TYPE key)"
proof -
  have "kv_type data < 11" using assms(1) by (rule key_encode_cases)
  then have "(ucast (kv_type data) :: u64) < 11"
    by (simp add: word_less_nat_alt unsigned_ucast_eq take_bit_nat_eq_self unsigned_take_bit_eq)
  then show ?thesis
    using assms by (simp add: key_encode_type numeric_type_def)
qed

lemma write_new_entry:
  assumes inv: "kved_inv drv ok n ctrl s" and key: "kved_key_encode data = Some key"
    and valid: "kved_is_valid_key ctrl key" and num: "kv_type data \<noteq> KVED_DATA_TYPE_STRING"
    and room: "num_used_entries (stats ctrl) \<noteq> num_total_entries (stats ctrl)"
    and new: "find_slot (kved_slots drv (sector ctrl) n s) key = None"
  shows "\<exists>ctrl' s'. kved_internal_data_write api junk drv ctrl (data, s) = Some (KVED_OK, ctrl', data, s') \<and>
    kved_inv drv ok n ctrl' s' \<and> mutex ctrl' = mutex ctrl \<and> drv_max_entries ctrl' = drv_max_entries ctrl \<and>
    kved_abs drv n ctrl' s' =
      (kved_abs drv n ctrl s)(KVED_HDR_MASK_KEY key \<mapsto> (ucast (kv_type data), value_u64 (kv_value data)))"
proof -
  let ?sl = "kved_slots drv (sector ctrl) n s" and ?x = "KVED_HDR_MASK_KEY key"
  obtain f where tab: "table_ok ctrl ?sl f" and st: "started ctrl" and co: "ctrl_ok n ctrl ?sl f"
    using inv by (auto simp: kved_inv_def)
  note ty = key_encode_type [OF key] and numk = key_not_string [OF key num]
  note fn = ctrl_ok_free_iff [OF co tab length_kved_slots]
  note livn = ctrl_ok_live_less [OF co length_kved_slots room]
  note find = find_correct [OF co, of key s] and none = find_slot_None_map [OF new, of ctrl]
  show ?thesis
  proof (cases "f = n")
    case True
    have upd: "\<forall>e \<in> set (live ctrl ?sl). KVED_HDR_MASK_KEY (fst e) = ?x \<longrightarrow> Some data = Some data" by simp
    obtain c1 s1 where sw: "kved_sector_switch junk drv (header_read drv (sector ctrl) 1 s) key (Some data) ctrl s = Some (KVED_OK, c1, s1)"
      and i1: "kved_inv drv ok n c1 s1" and m1: "mutex c1 = mutex ctrl" "drv_max_entries c1 = drv_max_entries ctrl"
      and t1: "table_ok c1 (kved_slots drv (sector c1) n s1) (length (live ctrl ?sl))"
      and o1: "ctrl_ok n c1 (kved_slots drv (sector c1) n s1) (length (live ctrl ?sl))"
      and abs1: "kved_abs drv n c1 s1 = (\<lambda>y. map_option
        (\<lambda>(t, u). (t, if y = ?x then kved_value_encode data else u)) (kved_abs drv n ctrl s y))"
      using switch_inv_map [where junk = junk and cnt = "header_read drv (sector ctrl) 1 s", OF inv upd] by blast
    have abs1': "kved_abs drv n c1 s1 = kved_abs drv n ctrl s"
      using none map_upd_absent [of "kved_abs drv n ctrl s" ?x "kved_value_encode data"]
      unfolding abs1 by (simp add: kved_abs_def)
    have v1: "kved_is_valid_key c1 key" using valid valid_key_cong [OF m1(2)] by simp
    have none1: "find_slot (kved_slots drv (sector c1) n s1) key = None"
      using find_slot_Some_map [OF _ t1 v1] none abs1'
      by (cases "find_slot (kved_slots drv (sector c1) n s1) key") (auto simp: kved_abs_def)
    obtain c2 s2 where "kved_entry_append drv key KVED_INDEX_NOT_FOUND False c1 data s1 = Some (KVED_OK, c2, data, s2)"
      "kved_inv drv ok n c2 s2" "mutex c2 = mutex c1" "drv_max_entries c2 = drv_max_entries c1"
      "kved_abs drv n c2 s2 = (kved_abs drv n c1 s1)(?x \<mapsto> (KVED_HDR_MASK_TYPE key, kved_value_encode data))"
      using append_correct [where replaces = False, OF i1 t1 o1 livn num numk v1] none1 by blast
    then show ?thesis
      using new True find st key valid room fn sw m1 abs1' ty
      by (simp add: kved_internal_data_write_def kved_value_encode_def)
  next
    case False
    then have "f < n" using fn by simp
    then obtain c2 s2 where "kved_entry_append drv key KVED_INDEX_NOT_FOUND False ctrl data s = Some (KVED_OK, c2, data, s2)"
      "kved_inv drv ok n c2 s2" "mutex c2 = mutex ctrl" "drv_max_entries c2 = drv_max_entries ctrl"
      "kved_abs drv n c2 s2 = (kved_abs drv n ctrl s)(?x \<mapsto> (KVED_HDR_MASK_TYPE key, kved_value_encode data))"
      using append_correct [where replaces = False, OF inv tab co _ num numk valid] new by blast
    then show ?thesis
      using new False find st key valid room fn ty
      by (simp add: kved_internal_data_write_def kved_value_encode_def)
  qed
qed

lemma write_old_entry:
  assumes inv: "kved_inv drv ok n ctrl s" and key: "kved_key_encode data = Some key"
    and valid: "kved_is_valid_key ctrl key" and num: "kv_type data \<noteq> KVED_DATA_TYPE_STRING"
    and same: "\<forall>t v. kved_abs drv n ctrl s (KVED_HDR_MASK_KEY key) = Some (t, v) \<longrightarrow> t = ucast (kv_type data)"
    and room: "num_used_entries (stats ctrl) \<noteq> num_total_entries (stats ctrl)"
    and old: "find_slot (kved_slots drv (sector ctrl) n s) key = Some k"
  shows "\<exists>ctrl' s'. kved_internal_data_write api junk drv ctrl (data, s) = Some (KVED_OK, ctrl', data, s') \<and>
    kved_inv drv ok n ctrl' s' \<and> mutex ctrl' = mutex ctrl \<and> drv_max_entries ctrl' = drv_max_entries ctrl \<and>
    kved_abs drv n ctrl' s' =
      (kved_abs drv n ctrl s)(KVED_HDR_MASK_KEY key \<mapsto> (ucast (kv_type data), value_u64 (kv_value data)))"
proof -
  let ?sl = "kved_slots drv (sector ctrl) n s" and ?x = "KVED_HDR_MASK_KEY key"
  obtain f where tab: "table_ok ctrl ?sl f" and st: "started ctrl" and co: "ctrl_ok n ctrl ?sl f"
    using inv by (auto simp: kved_inv_def)
  note ty = key_encode_type [OF key] and numk = key_not_string [OF key num]
  note fn = ctrl_ok_free_iff [OF co tab length_kved_slots]
  have kn: "k < n" using find_slot_Some [OF old] by simp
  then have k0: "slot_index k \<noteq> 0" using n_bound slot_index_neq_0 [of k] by simp
  have abs: "kved_abs drv n ctrl s ?x = Some (ucast (kv_type data), snd (?sl ! k))"
    using find_slot_Some_map [OF old tab valid] same by (auto simp: kved_abs_def)
  have rd: "header_read drv (sector ctrl) (slot_index k + 1) s = snd (?sl ! k)"
    using kn by (simp add: nth_kved_slots)
  note run = find_correct [OF co, of key s] old st key valid num k0 rd fn
  note unfolds = kved_internal_data_write_def kved_value_unchanged_def kved_value_encode_def KVED_INDEX_NOT_FOUND_def
  show ?thesis
  proof (cases "snd (?sl ! k) = value_u64 (kv_value data)")
    case True
    then have "(kved_abs drv n ctrl s)(?x \<mapsto> (ucast (kv_type data), value_u64 (kv_value data))) = kved_abs drv n ctrl s"
      using abs by (simp add: fun_upd_idem)
    then show ?thesis using run inv True by (simp add: unfolds)
  next
    case changed: False
    show ?thesis
    proof (cases "f = n")
      case True
      have upd: "\<forall>e \<in> set (live ctrl ?sl). KVED_HDR_MASK_KEY (fst e) = ?x \<longrightarrow> Some data = Some data" by simp
      obtain c1 s1 where "kved_sector_switch junk drv (header_read drv (sector ctrl) 1 s) key (Some data) ctrl s = Some (KVED_OK, c1, s1)"
        and "kved_inv drv ok n c1 s1" "mutex c1 = mutex ctrl" "drv_max_entries c1 = drv_max_entries ctrl"
        and abs1: "kved_abs drv n c1 s1 = (\<lambda>y. map_option
          (\<lambda>(t, u). (t, if y = ?x then kved_value_encode data else u)) (kved_abs drv n ctrl s y))"
        using switch_inv_map [where junk = junk and cnt = "header_read drv (sector ctrl) 1 s", OF inv upd] by blast
      moreover have "kved_abs drv n c1 s1 = (kved_abs drv n ctrl s)(?x \<mapsto> (ucast (kv_type data), value_u64 (kv_value data)))"
        using map_upd_present [of "kved_abs drv n ctrl s" ?x, OF abs, of "kved_value_encode data"]
        unfolding abs1 by (simp add: kved_value_encode_def)
      ultimately show ?thesis
        using run room changed True by (simp add: unfolds)
    next
      case False
      then have "f < n" using fn by simp
      then obtain c2 s2 where "kved_entry_append drv key (slot_index k) True ctrl data s = Some (KVED_OK, c2, data, s2)"
        "kved_inv drv ok n c2 s2" "mutex c2 = mutex ctrl" "drv_max_entries c2 = drv_max_entries ctrl"
        "kved_abs drv n c2 s2 = (kved_abs drv n ctrl s)(?x \<mapsto> (KVED_HDR_MASK_TYPE key, kved_value_encode data))"
        using append_correct [where replaces = True, OF inv tab co _ num numk valid] old by blast
      then show ?thesis
        using run room changed False ty by (simp add: unfolds)
    qed
  qed
qed

lemmas write_entry = write_new_entry write_old_entry

lemma write_correct:
  assumes "kved_inv drv ok n ctrl s" "kved_key_encode data = Some key"
    "kved_is_valid_key ctrl key" "kv_type data \<noteq> KVED_DATA_TYPE_STRING"
    "\<forall>t v. kved_abs drv n ctrl s (KVED_HDR_MASK_KEY key) = Some (t, v) \<longrightarrow> t = ucast (kv_type data)"
    "num_used_entries (stats ctrl) \<noteq> num_total_entries (stats ctrl)"
  shows "\<exists>ctrl' s'. kved_internal_data_write api junk drv ctrl (data, s) = Some (KVED_OK, ctrl', data, s') \<and>
    kved_inv drv ok n ctrl' s' \<and> mutex ctrl' = mutex ctrl \<and> drv_max_entries ctrl' = drv_max_entries ctrl \<and>
    kved_abs drv n ctrl' s' =
      (kved_abs drv n ctrl s)(KVED_HDR_MASK_KEY key \<mapsto> (ucast (kv_type data), value_u64 (kv_value data)))"
  using write_entry [OF assms(1-4)] assms(5,6)
  by (cases "find_slot (kved_slots drv (sector ctrl) n s) key") blast+

end

section \<open>The critical section\<close>

text \<open>
  What kved relies on of a FreeRTOS mutex that nobody else holds: taking it with an endless timeout
  succeeds, and giving it back succeeds and leaves it as it was.
\<close>

definition mutex_cycles :: "'m semphr_api \<Rightarrow> 'm \<Rightarrow> bool" where
  "mutex_cycles api m \<longleftrightarrow>
     (case xSemaphoreTake api m of
        Some (True, m') \<Rightarrow> xSemaphoreGive api m' = (True, m)
      | _ \<Rightarrow> False)"

text \<open>
  A mutex as FreeRTOS documents it, its state whether it is taken: taking a taken one with
  \<^verbatim>\<open>portMAX_DELAY\<close> waits for ever (nobody else will give it), giving a free one fails.
\<close>

definition freertos_mutex :: "bool semphr_api" where
  "freertos_mutex =
     \<lparr>xSemaphoreTake = (\<lambda>taken. if taken then None else Some (True, True)),
      xSemaphoreGive = (\<lambda>taken. (taken, False))\<rparr>"

lemma freertos_mutex_cycles: "mutex_cycles freertos_mutex False"
  by (simp add: mutex_cycles_def freertos_mutex_def)

lemma mutex_cyclesE:
  assumes "mutex_cycles api m"
  obtains m' where "xSemaphoreTake api m = Some (True, m')" "xSemaphoreGive api m' = (True, m)"
  using assms by (auto simp: mutex_cycles_def split: option.splits prod.splits bool.splits)

lemma locked_run:
  assumes "mutex_cycles api (mutex ctrl)"
    and "\<And>m. \<exists>c' x'. body (ctrl\<lparr>mutex := m\<rparr>) x = Some (r, c', x') \<and> mutex c' = m \<and>
        P (c'\<lparr>mutex := mutex ctrl\<rparr>) x'"
  shows "\<exists>c' x'. kved_locked api body ctrl x = Some (r, c', x') \<and> mutex c' = mutex ctrl \<and> P c' x'"
proof -
  obtain m' where m': "xSemaphoreTake api (mutex ctrl) = Some (True, m')"
    "xSemaphoreGive api m' = (True, mutex ctrl)"
    using assms(1) by (rule mutex_cyclesE)
  obtain c' x' where c': "body (ctrl\<lparr>mutex := m'\<rparr>) x = Some (r, c', x')" "mutex c' = m'"
    "P (c'\<lparr>mutex := mutex ctrl\<rparr>) x'"
    using assms(2) by blast
  have "kved_locked api body ctrl x = Some (r, c'\<lparr>mutex := mutex ctrl\<rparr>, x')"
    using m' c' by (simp add: kved_locked_def kved_cpu_critical_section_enter_def
        kved_cpu_critical_section_leave_def Let_def)
  with c'(3) show ?thesis by (intro exI [of _ "c'\<lparr>mutex := mutex ctrl\<rparr>"] exI [of _ x']) simp
qed

lemma inv_mutex [simp]:
  "kved_inv drv ok n (ctrl\<lparr>mutex := m\<rparr>) s = kved_inv drv ok n ctrl s"
  "kved_abs drv n (ctrl\<lparr>mutex := m\<rparr>) s = kved_abs drv n ctrl s"
  by (simp_all add: kved_inv_def kved_abs_def ctrl_ok_def kved_headers_def kved_str_sector_signed_def
      KVED_SIGNATURE_ENTRY_def KVED_STR_SIGNATURE_ENTRY_def KVED_STR_SIGNATURE_END_def table_ctrl_cong [of "ctrl\<lparr>mutex := m\<rparr>" ctrl])

context kved_store
begin

text \<open>The number of used entries is the number of keys of the map.\<close>

lemma inv_card:
  assumes "kved_inv drv ok n ctrl s"
  shows "card (dom (kved_abs drv n ctrl s)) \<le> n"
    "num_used_entries (stats ctrl) = of_nat (card (dom (kved_abs drv n ctrl s)))"
    "num_total_entries (stats ctrl) = of_nat n"
    "num_used_entries (stats ctrl) = num_total_entries (stats ctrl) \<longleftrightarrow> card (dom (kved_abs drv n ctrl s)) = n"
proof -
  let ?sl = "kved_slots drv (sector ctrl) n s"
  obtain f where tab: "table_ok ctrl ?sl f" and co: "ctrl_ok n ctrl ?sl f"
    using assms by (auto simp: kved_inv_def)
  have c: "card (dom (kved_abs drv n ctrl s)) = length (live ctrl ?sl)"
    using card_dom_kved_map [of ctrl ?sl] tab by (simp add: kved_abs_def table_ok_def)
  then show le: "card (dom (kved_abs drv n ctrl s)) \<le> n"
    using length_live_le [of ctrl ?sl] by simp
  show u: "num_used_entries (stats ctrl) = of_nat (card (dom (kved_abs drv n ctrl s)))"
    and t: "num_total_entries (stats ctrl) = of_nat n"
    using co c by (simp_all add: ctrl_ok_def)
  have "unat (of_nat (card (dom (kved_abs drv n ctrl s))) :: u16) = card (dom (kved_abs drv n ctrl s))"
    using le n_bound by (simp add: unat_of_nat)
  with u t show "num_used_entries (stats ctrl) = num_total_entries (stats ctrl) \<longleftrightarrow> card (dom (kved_abs drv n ctrl s)) = n"
    using unat_of_nat_n(1) by auto
qed

lemma data_write_correct:
  assumes "kved_inv drv ok n ctrl s" "mutex_cycles api (mutex ctrl)" "kved_key_encode data = Some key"
    "kved_is_valid_key ctrl key" "kv_type data \<noteq> KVED_DATA_TYPE_STRING"
    "\<forall>t v. kved_abs drv n ctrl s (KVED_HDR_MASK_KEY key) = Some (t, v) \<longrightarrow> t = ucast (kv_type data)"
    "card (dom (kved_abs drv n ctrl s)) < n"
  shows "\<exists>ctrl' s'. kved_data_write api junk drv ctrl (data, s) = Some (KVED_OK, ctrl', data, s') \<and>
    mutex ctrl' = mutex ctrl \<and> kved_inv drv ok n ctrl' s' \<and>
    drv_max_entries ctrl' = drv_max_entries ctrl \<and>
    kved_abs drv n ctrl' s' =
      (kved_abs drv n ctrl s)(KVED_HDR_MASK_KEY key \<mapsto> (ucast (kv_type data), value_u64 (kv_value data)))"
proof -
  let ?P = "\<lambda>c (d, s'). d = data \<and> kved_inv drv ok n c s' \<and> drv_max_entries c = drv_max_entries ctrl \<and>
    kved_abs drv n c s' =
      (kved_abs drv n ctrl s)(KVED_HDR_MASK_KEY key \<mapsto> (ucast (kv_type data), value_u64 (kv_value data)))"
  have "\<exists>c' x'. kved_data_write api junk drv ctrl (data, s) = Some (KVED_OK, c', x') \<and>
      mutex c' = mutex ctrl \<and> ?P c' x'"
    unfolding kved_data_write_def
  proof (rule locked_run [OF assms(2)])
    fix m
    obtain c' s' where "kved_internal_data_write api junk drv (ctrl\<lparr>mutex := m\<rparr>) (data, s) = Some (KVED_OK, c', data, s')"
      "kved_inv drv ok n c' s'" "mutex c' = m" "drv_max_entries c' = drv_max_entries ctrl"
      "kved_abs drv n c' s' =
        (kved_abs drv n ctrl s)(KVED_HDR_MASK_KEY key \<mapsto> (ucast (kv_type data), value_u64 (kv_value data)))"
      using write_correct [of "ctrl\<lparr>mutex := m\<rparr>" s data key api junk] assms inv_card(4) [OF assms(1)] by auto
    then show "\<exists>c' x'. kved_internal_data_write api junk drv (ctrl\<lparr>mutex := m\<rparr>) (data, s) =
        Some (KVED_OK, c', x') \<and> mutex c' = m \<and> ?P (c'\<lparr>mutex := mutex ctrl\<rparr>) x'"
      by auto
  qed
  then show ?thesis by auto
qed

lemma data_delete_correct:
  assumes "kved_inv drv ok n ctrl s" "mutex_cycles api (mutex ctrl)" "kved_key_encode data = Some key"
    "kved_is_valid_key ctrl key" "kved_abs drv n ctrl s (KVED_HDR_MASK_KEY key) \<noteq> None"
  shows "\<exists>ctrl' s'. kved_data_delete api drv ctrl (data, s) = Some (KVED_OK, ctrl', data, s') \<and>
    mutex ctrl' = mutex ctrl \<and> kved_inv drv ok n ctrl' s' \<and>
    drv_max_entries ctrl' = drv_max_entries ctrl \<and>
    kved_abs drv n ctrl' s' = (kved_abs drv n ctrl s)(KVED_HDR_MASK_KEY key := None)"
proof -
  let ?P = "\<lambda>c (d, s'). d = data \<and> kved_inv drv ok n c s' \<and> drv_max_entries c = drv_max_entries ctrl \<and>
    kved_abs drv n c s' = (kved_abs drv n ctrl s)(KVED_HDR_MASK_KEY key := None)"
  have "\<exists>c' x'. kved_data_delete api drv ctrl (data, s) = Some (KVED_OK, c', x') \<and>
      mutex c' = mutex ctrl \<and> ?P c' x'"
    unfolding kved_data_delete_def
  proof (rule locked_run [OF assms(2)])
    fix m
    obtain c' s' where "kved_internal_data_delete drv (ctrl\<lparr>mutex := m\<rparr>) (data, s) = Some (KVED_OK, c', data, s')"
      "kved_inv drv ok n c' s'" "mutex c' = m" "drv_max_entries c' = drv_max_entries ctrl"
      "kved_abs drv n c' s' = (kved_abs drv n ctrl s)(KVED_HDR_MASK_KEY key := None)"
      using delete_correct [of "ctrl\<lparr>mutex := m\<rparr>" s data key] assms by auto
    then show "\<exists>c' x'. kved_internal_data_delete drv (ctrl\<lparr>mutex := m\<rparr>) (data, s) =
        Some (KVED_OK, c', x') \<and> mutex c' = m \<and> ?P (c'\<lparr>mutex := mutex ctrl\<rparr>) x'"
      by auto
  qed
  then show ?thesis by auto
qed

lemma data_read_correct:
  assumes "kved_inv drv ok n ctrl s" "mutex_cycles api (mutex ctrl)" "kved_key_encode data = Some key"
    "kved_is_valid_key ctrl key"
  shows "kved_data_read api drv ctrl (data, s) =
    Some (case kved_abs drv n ctrl s (KVED_HDR_MASK_KEY key) of
        None \<Rightarrow> (KVED_INVALID_KEY, ctrl, data, s)
      | Some (t, v) \<Rightarrow>
          (KVED_OK, ctrl, data\<lparr>kv_type := ucast t, kv_value := set_value_u64 v (kv_value data)\<rparr>, s))"
proof -
  obtain m where m: "xSemaphoreTake api (mutex ctrl) = Some (True, m)" "xSemaphoreGive api m = (True, mutex ctrl)"
    using assms(2) by (rule mutex_cyclesE)
  then show ?thesis
    using read_correct [of "ctrl\<lparr>mutex := m\<rparr>" s data key] assms
    by (auto simp: kved_data_read_def kved_locked_def kved_cpu_critical_section_enter_def
        kved_cpu_critical_section_leave_def Let_def split: option.splits)
qed

end

end
