(* ===== verification/Kved_Init.thy ===== *)
theory Kved_Init
  imports Kved_Correct
begin

text \<open>
  Start up of kved: the statistics scan, the choice of the sectors, and \<^verbatim>\<open>kved_init\<close> as a whole. On
  a fresh storage it formats an empty database; on the storage of a running one it finds the same
  map again.
\<close>

lemma for_list_total:
  assumes "\<And>i a. i \<in> set is \<Longrightarrow> body i a \<noteq> None"
  shows "\<exists>a'. for_list body is a = Some a'"
  using assms
proof (induction "is" arbitrary: a)
  case Nil
  then show ?case by simp
next
  case (Cons i "is")
  then obtain r where r: "body i a = Some r" by fastforce
  from Cons.prems have tl: "\<And>j b. j \<in> set is \<Longrightarrow> body j b \<noteq> None" by simp
  show ?case using r Cons.IH [OF tl] by (cases r) auto
qed

section \<open>The statistics scan\<close>

definition scanned :: "'m kved_ctrl \<Rightarrow> u16 \<Rightarrow> slot list \<Rightarrow> nat \<Rightarrow> nat \<Rightarrow> 'm kved_ctrl" where
  "scanned ctrl hi sl f j =
     ctrl\<lparr>first_index := slot_index 0, last_index := hi,
          first_free_index := (if f < j then slot_index f else 0),
          stats := \<lparr>num_free_entries = of_nat (j - f),
                    num_deleted_entries = of_nat (length (filter (\<lambda>e. fst e = KVED_DELETED_ENTRY) (take j sl))),
                    num_used_entries = of_nat (length (live ctrl (take j sl))),
                    num_total_entries = of_nat j\<rparr>\<rparr>"

lemma count_deleted_live:
  assumes "\<forall>e \<in> set es. fst e = KVED_DELETED_ENTRY \<or> kved_is_valid_key ctrl (fst e)"
  shows "length (filter (\<lambda>e. fst e = KVED_DELETED_ENTRY) es) + length (live ctrl es) = length es"
  using assms by (induction es) (auto simp: KVED_DELETED_ENTRY_def)

lemma deleted_drop_free:
  "\<forall>e \<in> set es. e = free_slot \<Longrightarrow> filter (\<lambda>e. fst e = KVED_DELETED_ENTRY) es = []"
  by (induction es) (auto simp: free_slot_def)

lemma stats_entry_step:
  assumes tab: "table_ok ctrl sl f" and j: "j < length sl" and f: "2 * f + 2 < 65536"
  shows "kved_stats_entry (fst (sl ! j)) (slot_index j) (scanned ctrl hi sl f j) = scanned ctrl hi sl f (Suc j)"
proof (cases "j < f")
  case True
  then show ?thesis
    using table_ok_used [OF tab True] j
    by (auto simp: kved_stats_entry_def scanned_def take_Suc_conv_app_nth KVED_DELETED_ENTRY_def Let_def)
next
  case False
  then have "sl ! j = free_slot" using table_ok_free [OF tab _ j] by simp
  with False j slot_index_neq_0 [OF f] show ?thesis
    by (auto simp: kved_stats_entry_def scanned_def take_Suc_conv_app_nth free_slot_def Suc_diff_le
        not_less_less_Suc_eq Let_def)
qed

text \<open>No signature looks like an erased word.\<close>

lemma signature_not_free:
  "KVED_SIGNATURE_ENTRY ctrl \<noteq> NOT 0" "KVED_STR_SIGNATURE_ENTRY ctrl \<noteq> NOT 0"
proof -
  have b: "unat (drv_max_entries ctrl) < 65536"
    using unsigned_less [of "drv_max_entries ctrl", where 'a = nat] by simp
  have "unat (KVED_SIGNATURE_ENTRY ctrl) = 0xDEADBEEF00000000 + 64 * 2 ^ 16 + unat (drv_max_entries ctrl)"
    "unat (KVED_STR_SIGNATURE_ENTRY ctrl) = 0xBF00BF1B00000000 + 64 * 2 ^ 16 + unat (drv_max_entries ctrl)"
    using b
    by (simp_all add: KVED_SIGNATURE_ENTRY_def KVED_STR_SIGNATURE_ENTRY_def KVED_MAX_STRING_SIZE_def
        unat_word_ariths unsigned_ucast_eq unsigned_take_bit_eq take_bit_nat_eq_self)
  moreover have "unat (NOT 0 :: u64) = unat KVED_FREE_ENTRY" by (simp only: free_entry_ones)
  then have "unat (NOT 0 :: u64) = 2 ^ 64 - 1" by (simp add: KVED_FREE_ENTRY_def)
  ultimately show "KVED_SIGNATURE_ENTRY ctrl \<noteq> NOT 0" "KVED_STR_SIGNATURE_ENTRY ctrl \<noteq> NOT 0"
    using b by (auto dest!: arg_cong [where f = unat])
qed

context kved_store
begin

lemma stats_read_correct:
  assumes ok: "ok s" and sec: "sector ctrl = KVED_FLASH_SECTOR_A \<or> sector ctrl = KVED_FLASH_SECTOR_B"
    and tab: "table_ok ctrl (kved_slots drv (sector ctrl) n s) f"
  defines "sl \<equiv> kved_slots drv (sector ctrl) n s"
  shows "\<exists>hi. kved_sector_stats_read drv ctrl s = Some (scanned ctrl hi sl f n) \<and> ctrl_ok n (scanned ctrl hi sl f n) sl f"
proof -
  define hi where "hi = kved_last_index_of (sector_size drv (sector ctrl) s)"
  have bnd: "2 * n \<le> unat hi" "unat hi < 2 * n + 2" using last_index_n [OF ok sec] by (simp_all add: hi_def)
  have fn: "f \<le> n" using tab by (simp add: table_ok_def)
  let ?body = "\<lambda>index c. Some (Continue (kved_stats_entry (header_read drv (sector c) index s) index c))"
  have start: "ctrl\<lparr>first_index := KVED_HDR_SIZE_IN_WORDS, last_index := hi, first_free_index := 0,
      stats := nv_sector_stats_erase (stats ctrl)\<rparr> = scanned ctrl hi sl f 0"
    by (simp add: scanned_def KVED_HDR_SIZE_IN_WORDS_def slot_index_def nv_sector_stats_erase_def)
  have "\<exists>a'. for_list ?body (map slot_index [0..<n]) (scanned ctrl hi sl f 0) = Some a' \<and> a' = scanned ctrl hi sl f n"
  proof (rule for_list_inv, goal_cases)
    case (1 j a)
    then have "sector a = sector ctrl" "header_read drv (sector ctrl) (slot_index j) s = fst (sl ! j)"
      by (simp_all add: scanned_def sl_def nth_kved_slots)
    with 1 stats_entry_step [of ctrl sl f j hi] tab fn n_bound show ?case by (simp add: sl_def)
  qed simp
  then have "kved_sector_stats_read drv ctrl s = Some (scanned ctrl hi sl f n)"
    unfolding kved_sector_stats_read_def hi_def [symmetric] start Let_def
    using slot_loop [of n 0 hi ?body "scanned ctrl hi sl f 0"] bnd n_bound by (simp add: scanned_def)
  moreover have "length (filter (\<lambda>e. fst e = KVED_DELETED_ENTRY) sl) = f - length (live ctrl sl)"
  proof -
    have "filter (\<lambda>e. fst e = KVED_DELETED_ENTRY) (drop f sl) = []"
      using tab by (intro deleted_drop_free) (simp add: table_ok_def sl_def)
    then have "filter (\<lambda>e. fst e = KVED_DELETED_ENTRY) (take f sl) = filter (\<lambda>e. fst e = KVED_DELETED_ENTRY) sl"
      by (metis append_Nil2 append_take_drop_id filter_append)
    moreover have "length (live ctrl (take f sl)) = length (live ctrl sl)"
      using live_take_eq [OF tab] by (simp add: sl_def)
    ultimately show ?thesis
      using count_deleted_live [of "take f sl" ctrl] tab fn by (simp add: table_ok_def sl_def)
  qed
  then have "ctrl_ok n (scanned ctrl hi sl f n) sl f"
    using bnd by (simp add: ctrl_ok_def scanned_def sl_def)
  ultimately show ?thesis by blast
qed

section \<open>The dump at the end of start up\<close>

lemma dump_index_total:
  assumes tab: "table_ok ctrl (kved_slots drv (sector ctrl) n s) f"
    and ns: "no_strings ctrl (kved_slots drv (sector ctrl) n s)" and k: "k < n"
  shows "kved_internal_dump_index drv ctrl s (slot_index k) b \<noteq> None"
proof -
  let ?sl = "kved_slots drv (sector ctrl) n s"
  have rd: "header_read drv (sector ctrl) (slot_index k) s = fst (?sl ! k)"
    "header_read drv (sector ctrl) (slot_index k + 1) s = snd (?sl ! k)"
    using k by (simp_all add: nth_kved_slots)
  consider "?sl ! k = free_slot" | "fst (?sl ! k) = KVED_DELETED_ENTRY" | "kved_is_valid_key ctrl (fst (?sl ! k))"
    using table_ok_free [OF tab, of k] table_ok_used [OF tab, of k] k by fastforce
  then show ?thesis
  proof cases
    case 1
    have "(ucast (ucast (KVED_HDR_MASK_TYPE KVED_FREE_ENTRY) :: u8) :: u32) \<noteq> KVED_DATA_TYPE_UINT64"
      by (simp add: KVED_HDR_MASK_TYPE_def KVED_FREE_ENTRY_def KVED_DATA_TYPE_UINT64_def drop_bit_eq_div)
    with 1 show ?thesis
      by (simp add: kved_internal_dump_index_def rd free_slot_def Let_def)
  next
    case 2
    then show ?thesis by (simp add: kved_internal_dump_index_def rd Let_def)
  next
    case 3
    then have "KVED_HDR_MASK_TYPE (fst (?sl ! k)) < 11"
      using ns k by (auto simp: no_strings_def numeric_type_def live_mem)
    then have "unat (ucast (KVED_HDR_MASK_TYPE (fst (?sl ! k))) :: u8) < 11"
      by (simp add: word_less_nat_alt unsigned_ucast_eq unsigned_take_bit_eq take_bit_nat_eq_self)
    then show ?thesis
      by (simp add: kved_internal_dump_index_def rd Let_def kved_data_type_label_len_def)
  qed
qed

lemma dump_correct:
  assumes tab: "table_ok ctrl (kved_slots drv (sector ctrl) n s) f"
    and ns: "no_strings ctrl (kved_slots drv (sector ctrl) n s)"
    and fi: "first_index ctrl = slot_index 0"
    and hi: "2 * n \<le> unat (last_index ctrl)" "unat (last_index ctrl) < 2 * n + 2"
    and str: "str_num_total_entries (str_stats ctrl) = of_nat n"
      "header_read drv (str_sector ctrl) 1 s = KVED_STR_FREE_ENTRY"
  shows "kved_internal_dump drv ctrl s = Some (KVED_OK, ctrl, s)"
proof -
  have "kved_internal_dump_index drv ctrl s i a \<noteq> None" if "i \<in> set (map slot_index [0..<n])" for i a
    using that dump_index_total [OF tab ns] by auto
  then have "\<exists>b. for_list (kved_internal_dump_index drv ctrl s) (map slot_index [0..<n]) False = Some b"
    by (rule for_list_total)
  then obtain b where "for_list (kved_internal_dump_index drv ctrl s) (map slot_index [0..<n]) False = Some b" ..
  then have "u16_for (last_index ctrl) KVED_ENTRY_SIZE_IN_WORDS
      (kved_internal_dump_index drv ctrl s) (first_index ctrl) False = Some b"
    using fi hi n_bound by (simp add: slot_loop [of n 0])
  moreover have "1 \<le> (of_nat n :: u16)"
    using unat_of_nat_n n_pos by (simp add: word_le_nat_alt)
  then have "u16_for (of_nat n) 1 (kved_internal_dump_entry drv ctrl) 0 (False, s) = Some (True, s)"
    using str(2) by (simp add: u16_for.simps kved_internal_dump_entry_def kved_string_entry_to_header_def)
  ultimately show ?thesis
    using str(1) by (simp add: kved_internal_dump_def)
qed

section \<open>Start up\<close>

text \<open>The string sector that start up settles on is signed and has an empty index.\<close>

lemma init_str_sector_correct:
  assumes ok: "ok s" and total: "num_total_entries (stats ctrl) = of_nat n"
    and empty: "\<And>ss. ss = KVED_FLASH_STRING_SECTOR_A \<or> ss = KVED_FLASH_STRING_SECTOR_B \<Longrightarrow>
      kved_str_sector_signed drv ss ctrl s \<Longrightarrow> header_read drv ss 1 s = KVED_STR_FREE_ENTRY"
  shows "\<exists>ss s'. kved_init_str_sector drv ctrl s = (ctrl\<lparr>str_sector := ss\<rparr>, s') \<and> ok s' \<and>
    (ss = KVED_FLASH_STRING_SECTOR_A \<or> ss = KVED_FLASH_STRING_SECTOR_B) \<and>
    kved_str_sector_signed drv ss ctrl s' \<and> header_read drv ss 1 s' = KVED_STR_FREE_ENTRY \<and>
    (kved_str_sector_signed drv (kved_next_str_sector ss) ctrl s' \<longrightarrow>
       header_read drv (kved_next_str_sector ss) 1 s' = KVED_STR_FREE_ENTRY) \<and>
    (\<forall>sec i. (sec = KVED_FLASH_SECTOR_A \<or> sec = KVED_FLASH_SECTOR_B) \<longrightarrow> unat i < words sec \<longrightarrow>
       header_read drv sec i s' = header_read drv sec i s)"
proof -
  let ?A = KVED_FLASH_STRING_SECTOR_A and ?B = KVED_FLASH_STRING_SECTOR_B
  have e: "unat (of_nat n + 1 :: u16) = n + 1" by (rule unat_of_nat_n)
  have e01: "(of_nat n + 1 :: u16) \<noteq> 0" "(of_nat n + 1 :: u16) \<noteq> 1"
    using e n_pos by (metis unat_0 add_is_0 one_neq_zero, metis unat_1 add_cancel_left_left less_irrefl)
  have room: "n + 2 \<le> words ?A" "n + 2 \<le> words ?B" using string_room by simp_all
  consider (A) "kved_str_sector_signed drv ?A ctrl s"
    | (B) "\<not> kved_str_sector_signed drv ?A ctrl s" "kved_str_sector_signed drv ?B ctrl s"
    | (none) "\<not> kved_str_sector_signed drv ?A ctrl s" "\<not> kved_str_sector_signed drv ?B ctrl s"
    by blast
  then show ?thesis
  proof cases
    case A
    then show ?thesis using ok empty by (auto simp: kved_init_str_sector_def kved_next_str_sector_def)
  next
    case B
    then show ?thesis using ok empty by (auto simp: kved_init_str_sector_def kved_next_str_sector_def)
  next
    case none
    define s1 where "s1 = snd (sector_erase drv ?A s)"
    define s2 where "s2 = header_write drv ?A 0 (KVED_STR_SIGNATURE_ENTRY ctrl) s1"
    define s3 where "s3 = header_write drv ?A (of_nat n + 1) (KVED_STR_SIGNATURE_END ctrl) s2"
    have oks: "ok s1" "ok s2" "ok s3"
      using ok room e by (simp_all add: s1_def s2_def s3_def erase_ok write_ok)
    have ones: "header_read drv ?A i s1 = NOT 0" if "unat i < words ?A" for i
      using that ok by (simp add: s1_def read_erase_same)
    have A0: "header_read drv ?A 0 s3 = KVED_STR_SIGNATURE_ENTRY ctrl"
      using oks room e e01 ones by (simp add: s3_def read_write_other) (simp add: s2_def read_write_erased)
    have A1: "header_read drv ?A 1 s3 = KVED_STR_FREE_ENTRY"
      using oks room e e01 ones n_pos
      by (simp add: s3_def read_write_other) (simp add: s2_def read_write_other KVED_STR_FREE_ENTRY_def)
    have "header_read drv ?A (of_nat n + 1) s2 = NOT 0"
      using oks room e e01 ones by (simp add: s2_def read_write_other)
    then have An: "header_read drv ?A (of_nat n + 1) s3 = KVED_STR_SIGNATURE_END ctrl"
      using oks room e by (simp add: s3_def read_write_erased)
    have frame: "header_read drv sec i s3 = header_read drv sec i s" if "sec \<noteq> ?A" "unat i < words sec" for sec i
      using that ok oks room e
      by (simp add: s3_def read_write_other) (simp add: s2_def read_write_other, simp add: s1_def read_erase_other)
    have "kved_init_str_sector drv ctrl s = (ctrl\<lparr>str_sector := ?A\<rparr>, s3)"
      using none total by (simp add: kved_init_str_sector_def s1_def s2_def s3_def Let_def)
    moreover have "\<not> kved_str_sector_signed drv ?B ctrl s3"
      using none(2) frame [of ?B] room e total by (simp add: kved_str_sector_signed_def)
    ultimately show ?thesis
      using oks A0 A1 An frame total by (auto simp: kved_str_sector_signed_def kved_next_str_sector_def)
  qed
qed

text \<open>Everything after the index sector has been chosen.\<close>

lemma init_tail:
  assumes ok: "ok s" and sec: "sector ctrl = KVED_FLASH_SECTOR_A \<or> sector ctrl = KVED_FLASH_SECTOR_B"
    and tab: "table_ok ctrl (kved_slots drv (sector ctrl) n s) f"
    and ns: "no_strings ctrl (kved_slots drv (sector ctrl) n s)"
    and sig: "header_read drv (sector ctrl) 0 s = KVED_SIGNATURE_ENTRY ctrl"
      "header_read drv (kved_next_sector (sector ctrl)) 0 s \<noteq> KVED_SIGNATURE_ENTRY ctrl"
    and empty: "\<And>ss. ss = KVED_FLASH_STRING_SECTOR_A \<or> ss = KVED_FLASH_STRING_SECTOR_B \<Longrightarrow>
      header_read drv ss 0 s = KVED_STR_SIGNATURE_ENTRY ctrl \<Longrightarrow>
      header_read drv ss (of_nat n + 1) s = KVED_STR_SIGNATURE_END ctrl \<Longrightarrow>
      header_read drv ss 1 s = KVED_STR_FREE_ENTRY"
    and mut: "mutex_cycles api (mutex ctrl)"
  shows "\<exists>c1 c2 c3 c4 s'. kved_sector_stats_read drv ctrl s = Some c1 \<and>
    kved_init_str_sector drv c1 s = (c2, s') \<and>
    kved_data_consistency_check drv c2 s' = Some (KVED_OK, c3, s') \<and>
    kved_dump api drv (c3\<lparr>started := True\<rparr>) s' = Some (KVED_OK, c4, s') \<and>
    kved_inv drv ok n c4 s' \<and> mutex c4 = mutex ctrl \<and> drv_max_entries c4 = drv_max_entries ctrl \<and>
    kved_abs drv n c4 s' = kved_map ctrl (kved_slots drv (sector ctrl) n s)"
proof -
  let ?sl = "kved_slots drv (sector ctrl) n s"
  obtain hi where c1: "kved_sector_stats_read drv ctrl s = Some (scanned ctrl hi ?sl f n)"
    "ctrl_ok n (scanned ctrl hi ?sl f n) ?sl f"
    using stats_read_correct [OF ok sec tab] by blast
  define c where "c = scanned ctrl hi ?sl f n"
  have cf: "sector c = sector ctrl" "mutex c = mutex ctrl" "drv_max_entries c = drv_max_entries ctrl"
    "num_total_entries (stats c) = of_nat n"
    by (simp_all add: c_def scanned_def)
  have empty': "header_read drv ss 1 s = KVED_STR_FREE_ENTRY"
    if "ss = KVED_FLASH_STRING_SECTOR_A \<or> ss = KVED_FLASH_STRING_SECTOR_B" "kved_str_sector_signed drv ss c s" for ss
    using empty [OF that(1)] that(2) cf
    by (simp add: kved_str_sector_signed_def KVED_STR_SIGNATURE_ENTRY_def KVED_STR_SIGNATURE_END_def)
  obtain ss s' where str: "kved_init_str_sector drv c s = (c\<lparr>str_sector := ss\<rparr>, s')" "ok s'"
    "ss = KVED_FLASH_STRING_SECTOR_A \<or> ss = KVED_FLASH_STRING_SECTOR_B"
    "kved_str_sector_signed drv ss c s'" "header_read drv ss 1 s' = KVED_STR_FREE_ENTRY"
    "kved_str_sector_signed drv (kved_next_str_sector ss) c s' \<longrightarrow>
       header_read drv (kved_next_str_sector ss) 1 s' = KVED_STR_FREE_ENTRY"
    and frame: "\<And>sec i. sec = KVED_FLASH_SECTOR_A \<or> sec = KVED_FLASH_SECTOR_B \<Longrightarrow> unat i < words sec \<Longrightarrow>
       header_read drv sec i s' = header_read drv sec i s"
    using init_str_sector_correct [OF ok cf(4) empty'] by blast
  have sl': "kved_slots drv (sector ctrl) n s' = ?sl"
    using slots_cong [of "sector ctrl" s' s] frame sec by simp
  define c2 where "c2 = c\<lparr>str_sector := ss\<rparr>"
  define c3 where "c3 = str_checked c2 (str_index drv c2 s') (num_total_entries (stats c2))"
  define c4 where "c4 = c3\<lparr>started := True\<rparr>"
  note simps = c4_def c3_def c2_def str_checked_def str_index_stats_def
  have c4f: "sector c4 = sector ctrl" "str_sector c4 = ss" "mutex c4 = mutex ctrl" "started c4"
    "drv_max_entries c4 = drv_max_entries ctrl" "num_total_entries (stats c4) = of_nat n"
    "str_num_total_entries (str_stats c4) = of_nat n"
    by (simp_all add: simps cf)
  note [simp] = table_ctrl_cong [OF c4f(5)]
  have co: "ctrl_ok n c4 ?sl f"
    using c1(2) by (simp add: simps c_def [symmetric] ctrl_ok_def)
  then have rng: "first_index c4 = slot_index 0" "2 * n \<le> unat (last_index c4)" "unat (last_index c4) < 2 * n + 2"
    by (simp_all add: ctrl_ok_def)
  have same: "first_index c3 = first_index c4" "last_index c3 = last_index c4" "sector c3 = sector ctrl"
    "drv_max_entries c3 = drv_max_entries ctrl"
    by (simp_all add: simps cf)
  have "kved_string_consistency_check drv c2 s' = Some (KVED_OK, c3)"
    using string_check_eq [of drv c2 s'] str(4) cf
    by (simp add: c2_def c3_def kved_str_sector_signed_def KVED_STR_SIGNATURE_ENTRY_def KVED_STR_SIGNATURE_END_def)
  moreover have "u16_for (last_index c3) KVED_ENTRY_SIZE_IN_WORDS (kved_check_entry drv) (first_index c3) (c3, s') = Some (c3, s')"
    using data_check_noop [of c3 s' f] tab sl' same rng table_ctrl_cong(4) [OF same(4)] by simp
  ultimately have chk: "kved_data_consistency_check drv c2 s' = Some (KVED_OK, c3, s')"
    by (simp add: kved_data_consistency_check_def)
  have tabs: "table_ok c4 (kved_slots drv (sector c4) n s') f" "no_strings c4 (kved_slots drv (sector c4) n s')"
    using tab ns sl' c4f by simp_all
  have dump: "kved_internal_dump drv (c4\<lparr>mutex := m\<rparr>) s' = Some (KVED_OK, c4\<lparr>mutex := m\<rparr>, s')" for m
    using dump_correct [of "c4\<lparr>mutex := m\<rparr>" s' f] tabs rng c4f str(5) table_ctrl_cong [of "c4\<lparr>mutex := m\<rparr>" c4]
    by simp
  have "kved_dump api drv c4 s' = Some (KVED_OK, c4, s')"
    using mut dump c4f(3)
    by (auto elim!: mutex_cyclesE simp: kved_dump_def kved_locked_def kved_cpu_critical_section_enter_def
        kved_cpu_critical_section_leave_def)
  moreover have "kved_headers drv c4 s'"
    using sig str(5,6) frame sec index_room c4f cf next_sector_cases(2) [OF sec] words_pos
    by (auto simp: kved_headers_def kved_str_sector_signed_def KVED_SIGNATURE_ENTRY_def
        KVED_STR_SIGNATURE_ENTRY_def KVED_STR_SIGNATURE_END_def)
  then have "kved_inv drv ok n c4 s'"
    using str(2,3) sec c4f tabs co sl' by (auto simp: kved_inv_def)
  moreover have "kved_abs drv n c4 s' = kved_map ctrl ?sl"
    using sl' c4f by (simp add: kved_abs_def)
  ultimately show ?thesis
    using c1(1) str(1) chk c4f by (intro exI conjI) (simp_all add: c_def c2_def c4_def)
qed

text \<open>From the storage of a running database, whatever state the control block was in.\<close>

lemma init_reboot:
  assumes inv: "kved_inv drv ok n ctrl s" and up: "drv_init drv s = (True, s)"
    and me: "max_entries drv s = drv_max_entries ctrl" "drv_max_entries ctrl \<noteq> 0"
    and mut: "mutex_cycles api m"
  shows "\<exists>ctrl' s'. kved_init api True m drv s = Some (Some ctrl', s') \<and> kved_inv drv ok n ctrl' s' \<and>
    mutex ctrl' = m \<and> drv_max_entries ctrl' = drv_max_entries ctrl \<and>
    kved_abs drv n ctrl' s' = kved_abs drv n ctrl s"
proof -
  let ?sl = "kved_slots drv (sector ctrl) n s"
  define c0 where "c0 = (kved_ctrl_zero m)\<lparr>drv_max_entries := drv_max_entries ctrl\<rparr>"
  define c1 where "c1 = c0\<lparr>sector := sector ctrl\<rparr>"
  obtain f where ok: "ok s" and tab: "table_ok ctrl ?sl f" and ns: "no_strings ctrl ?sl" and co: "ctrl_ok n ctrl ?sl f"
    and sec: "sector ctrl = KVED_FLASH_SECTOR_A \<or> sector ctrl = KVED_FLASH_SECTOR_B"
    and str: "str_sector ctrl = KVED_FLASH_STRING_SECTOR_A \<or> str_sector ctrl = KVED_FLASH_STRING_SECTOR_B"
    and hd: "kved_headers drv ctrl s"
    using inv by (auto simp: kved_inv_def)
  have cong: "drv_max_entries c1 = drv_max_entries ctrl" and sec1: "sector c1 = sector ctrl"
    by (simp_all add: c1_def c0_def)
  have sigs: "KVED_SIGNATURE_ENTRY c0 = KVED_SIGNATURE_ENTRY ctrl" "KVED_SIGNATURE_ENTRY c1 = KVED_SIGNATURE_ENTRY ctrl"
    "KVED_STR_SIGNATURE_ENTRY c1 = KVED_STR_SIGNATURE_ENTRY ctrl" "KVED_STR_SIGNATURE_END c1 = KVED_STR_SIGNATURE_END ctrl"
    by (simp_all add: c1_def c0_def KVED_SIGNATURE_ENTRY_def KVED_STR_SIGNATURE_ENTRY_def KVED_STR_SIGNATURE_END_def)
  have sig: "header_read drv (sector ctrl) 0 s = KVED_SIGNATURE_ENTRY ctrl"
    "header_read drv (kved_next_sector (sector ctrl)) 0 s \<noteq> KVED_SIGNATURE_ENTRY ctrl"
    using hd by (simp_all add: kved_headers_def)
  have pre: "kved_sector_consistency_check drv c0 s = s" "kved_init_index_sector drv c0 s = (c1, s)"
    using sec sig sigs
    by (auto simp: kved_sector_consistency_check_def kved_init_index_sector_def kved_next_sector_def c1_def)
  have empty: "header_read drv ss 1 s = KVED_STR_FREE_ENTRY"
    if "ss = KVED_FLASH_STRING_SECTOR_A \<or> ss = KVED_FLASH_STRING_SECTOR_B"
      "header_read drv ss 0 s = KVED_STR_SIGNATURE_ENTRY c1"
      "header_read drv ss (of_nat n + 1) s = KVED_STR_SIGNATURE_END c1" for ss
    using hd that str co sigs
    by (auto simp: kved_headers_def kved_next_str_sector_def kved_str_sector_signed_def ctrl_ok_def split: if_splits)
  obtain c2 c3 c4 c5 s' where "kved_sector_stats_read drv c1 s = Some c2"
    "kved_init_str_sector drv c2 s = (c3, s')" "kved_data_consistency_check drv c3 s' = Some (KVED_OK, c4, s')"
    "kved_dump api drv (c4\<lparr>started := True\<rparr>) s' = Some (KVED_OK, c5, s')"
    "kved_inv drv ok n c5 s'" "mutex c5 = mutex c1" "drv_max_entries c5 = drv_max_entries c1"
    "kved_abs drv n c5 s' = kved_map c1 (kved_slots drv (sector c1) n s)"
    using init_tail [of s c1 f api, OF ok _ _ _ _ _ empty] sec tab ns sig sec1 sigs mut table_ctrl_cong [OF cong]
    by (auto simp: c1_def c0_def kved_ctrl_zero_def)
  moreover have "mutex c1 = m" by (simp add: c1_def c0_def kved_ctrl_zero_def)
  moreover have "drv_max_entries c0 \<noteq> 0" using me by (simp add: c0_def)
  ultimately show ?thesis
    using pre up me table_ctrl_cong(3) [OF cong] cong sec1
    by (simp add: kved_init_def c0_def [symmetric] kved_abs_def)
qed

text \<open>From a storage that is erased all over.\<close>

lemma init_fresh:
  assumes ok: "ok s" and up: "drv_init drv s = (True, s)" and me: "max_entries drv s \<noteq> 0"
    and erased: "\<And>sec i. unat i < words sec \<Longrightarrow> header_read drv sec i s = NOT 0"
    and mut: "mutex_cycles api m"
  shows "\<exists>ctrl' s'. kved_init api True m drv s = Some (Some ctrl', s') \<and> kved_inv drv ok n ctrl' s' \<and>
    mutex ctrl' = m \<and> drv_max_entries ctrl' = max_entries drv s \<and> kved_abs drv n ctrl' s' = Map.empty"
proof -
  let ?A = KVED_FLASH_SECTOR_A and ?B = KVED_FLASH_SECTOR_B
  define c0 where "c0 = (kved_ctrl_zero m)\<lparr>drv_max_entries := max_entries drv s\<rparr>"
  define c1 where "c1 = c0\<lparr>sector := ?A\<rparr>"
  define s1 where "s1 = snd (sector_erase drv ?A s)"
  define s2 where "s2 = header_write drv ?A 1 0 s1"
  define s3 where "s3 = header_write drv ?A 0 (KVED_SIGNATURE_ENTRY c0) s2"
  have room: "2 * n + 2 \<le> words ?A" "2 * n + 2 \<le> words ?B" using index_room by simp_all
  have oks: "ok s1" "ok s2" "ok s3" using ok room by (simp_all add: s1_def s2_def s3_def erase_ok write_ok)
  have pre: "kved_sector_consistency_check drv c0 s = s" "kved_init_index_sector drv c0 s = (c1, s3)"
    using erased room signature_not_free(1) [of c0]
    by (simp_all add: kved_sector_consistency_check_def kved_init_index_sector_def s1_def s2_def s3_def c1_def Let_def)
  have frame: "header_read drv sec i s3 = header_read drv sec i s" if "sec \<noteq> ?A" "unat i < words sec" for sec i
    using that ok oks room
    by (simp add: s3_def read_write_other) (simp add: s2_def read_write_other, simp add: s1_def read_erase_other)
  have sl: "kved_slots drv ?A n s3 = replicate n free_slot"
    using slots_erase_same [OF ok, of ?A] oks room
    by (simp add: s3_def slots_write_other) (simp add: s2_def slots_write_other, simp add: s1_def)
  have "header_read drv ?A 0 s2 = NOT 0"
    using ok oks room by (simp add: s2_def read_write_other) (simp add: s1_def read_erase_same)
  then have sigA: "header_read drv ?A 0 s3 = KVED_SIGNATURE_ENTRY c1"
    using oks room by (simp add: s3_def read_write_erased c1_def KVED_SIGNATURE_ENTRY_def)
  have sigB: "header_read drv ?B 0 s3 \<noteq> KVED_SIGNATURE_ENTRY c1"
    using frame [of ?B 0] erased [of 0 ?B] room signature_not_free(1) [of c1] by simp
  have tab: "table_ok c1 (replicate n free_slot) 0" "no_strings c1 (replicate n free_slot)"
    by (simp_all add: table_ok_def live_keys_def no_strings_def)
  have empty: "header_read drv ss 1 s3 = KVED_STR_FREE_ENTRY"
    if "ss = KVED_FLASH_STRING_SECTOR_A \<or> ss = KVED_FLASH_STRING_SECTOR_B"
      "header_read drv ss 0 s3 = KVED_STR_SIGNATURE_ENTRY c1" for ss
    using that frame [of ss 0] erased [of 0 ss] string_room [OF that(1)] signature_not_free(2) [of c1] by auto
  obtain c2 c3 c4 c5 s' where "kved_sector_stats_read drv c1 s3 = Some c2"
    "kved_init_str_sector drv c2 s3 = (c3, s')" "kved_data_consistency_check drv c3 s' = Some (KVED_OK, c4, s')"
    "kved_dump api drv (c4\<lparr>started := True\<rparr>) s' = Some (KVED_OK, c5, s')"
    "kved_inv drv ok n c5 s'" "mutex c5 = mutex c1" "drv_max_entries c5 = drv_max_entries c1"
    "kved_abs drv n c5 s' = kved_map c1 (kved_slots drv (sector c1) n s3)"
    using init_tail [of s3 c1 0 api, OF oks(3) _ _ _ _ _ empty] sl tab sigA sigB mut
    by (auto simp: c1_def c0_def kved_ctrl_zero_def kved_next_sector_def)
  moreover have "mutex c1 = m" "drv_max_entries c1 = max_entries drv s" "sector c1 = ?A"
    by (simp_all add: c1_def c0_def kved_ctrl_zero_def)
  moreover have "kved_map c1 (replicate n free_slot) = Map.empty" by (simp add: kved_map_def)
  moreover have "drv_max_entries c0 \<noteq> 0" using me by (simp add: c0_def)
  ultimately show ?thesis
    using pre up me sl by (simp add: kved_init_def c0_def [symmetric])
qed

end

end
