(* ===== verification/Kved_Memory.thy ===== *)
theory Kved_Memory
  imports Kved_Init
begin

text \<open>
  The RAM backend of kved (\<^verbatim>\<open>components/nvkvs/src/oblfr_kved_memory.c\<close>): four malloc'd banks of
  \<^verbatim>\<open>uint32_t\<close>, and the driver functions over them. The backend keeps the contract
  \<open>kved_backend\<close> for header words; its data transfers copy four times the bytes asked for.
\<close>

section \<open>Banks\<close>

definition FLASH_NUM_ENTRIES :: nat where
  "FLASH_NUM_ENTRIES = 48"

definition FLASH_SECTOR_SIZE :: nat where
  "FLASH_SECTOR_SIZE = FLASH_NUM_ENTRIES * KVED_FLASH_WORD_SIZE"

definition FLASH_STR_SECTOR_SIZE :: nat where
  "FLASH_STR_SECTOR_SIZE =
     FLASH_NUM_ENTRIES * KVED_MAX_STRING_SIZE + FLASH_NUM_ENTRIES * KVED_FLASH_WORD_SIZE +
     FLASH_NUM_ENTRIES * 2"

lemmas memory_consts = FLASH_NUM_ENTRIES_def FLASH_SECTOR_SIZE_def FLASH_STR_SECTOR_SIZE_def
  KVED_FLASH_WORD_SIZE_def KVED_MAX_STRING_SIZE_def

text \<open>
  \<open>sector_address sec\<close> is the bank of a sector as an array of \<^verbatim>\<open>uint32_t\<close>. An access outside an
  array is undefined in C: \<open>mem_fault\<close> records that one has written, and \<open>beyond\<close> is what a read
  outside a bank happens to find.
\<close>

record kved_memory =
  sector_address :: "kved_flash_sector \<Rightarrow> u32 list"
  beyond :: "kved_flash_sector \<Rightarrow> nat \<Rightarrow> u32"
  mem_fault :: bool

definition get_index_address :: "u16 \<Rightarrow> u16" where
  "get_index_address index = index * 2"

definition bank_read :: "kved_memory \<Rightarrow> kved_flash_sector \<Rightarrow> nat \<Rightarrow> u32" where
  "bank_read s sec i =
     (if i < length (sector_address s sec) then sector_address s sec ! i else beyond s sec i)"

definition bank_write :: "kved_flash_sector \<Rightarrow> nat \<Rightarrow> u32 \<Rightarrow> kved_memory \<Rightarrow> kved_memory" where
  "bank_write sec i v s =
     (if i < length (sector_address s sec)
      then s\<lparr>sector_address := (sector_address s)(sec := (sector_address s sec)[i := v])\<rparr>
      else s\<lparr>mem_fault := True\<rparr>)"

section \<open>Driver functions\<close>

text \<open>\<^verbatim>\<open>memset(bank, 0xFF, n)\<close> on a bank.\<close>

definition bank_fill :: "kved_flash_sector \<Rightarrow> nat \<Rightarrow> kved_memory \<Rightarrow> kved_memory" where
  "bank_fill sec n s =
     (let k = n div 4
      in if k \<le> length (sector_address s sec)
         then s\<lparr>sector_address := (sector_address s)
                  (sec := replicate k 0xFFFFFFFF @ drop k (sector_address s sec))\<rparr>
         else s\<lparr>mem_fault := True\<rparr>)"

fun oblfr_kved_memory_sector_size :: "kved_flash_sector \<Rightarrow> kved_memory \<Rightarrow> u32" where
  "oblfr_kved_memory_sector_size KVED_FLASH_STRING_SECTOR_A s = of_nat FLASH_STR_SECTOR_SIZE"
| "oblfr_kved_memory_sector_size KVED_FLASH_STRING_SECTOR_B s = of_nat FLASH_STR_SECTOR_SIZE"
| "oblfr_kved_memory_sector_size KVED_FLASH_SECTOR_A s = of_nat FLASH_SECTOR_SIZE"
| "oblfr_kved_memory_sector_size KVED_FLASH_SECTOR_B s = of_nat FLASH_SECTOR_SIZE"
| "oblfr_kved_memory_sector_size KVED_FLASH_NUM_SECTORS s = 0"

definition oblfr_kved_memory_sector_erase ::
  "kved_flash_sector \<Rightarrow> kved_memory \<Rightarrow> bool \<times> kved_memory" where
  "oblfr_kved_memory_sector_erase sec s =
     (if sec = KVED_FLASH_SECTOR_A \<or> sec = KVED_FLASH_SECTOR_B then
        (True, bank_fill sec FLASH_SECTOR_SIZE s)
      else if sec = KVED_FLASH_STRING_SECTOR_A \<or> sec = KVED_FLASH_STRING_SECTOR_B then
        (True, bank_fill sec FLASH_STR_SECTOR_SIZE s)
      else (False, s))"

text \<open>The high word is stored first.\<close>

definition oblfr_kved_memory_header_write ::
  "kved_flash_sector \<Rightarrow> u16 \<Rightarrow> kved_word \<Rightarrow> kved_memory \<Rightarrow> kved_memory" where
  "oblfr_kved_memory_header_write sec index data s =
     bank_write sec (unat (get_index_address index) + 1) (ucast data)
       (bank_write sec (unat (get_index_address index)) (ucast (drop_bit 32 data)) s)"

definition oblfr_kved_memory_header_read ::
  "kved_flash_sector \<Rightarrow> u16 \<Rightarrow> kved_memory \<Rightarrow> kved_word" where
  "oblfr_kved_memory_header_read sec index s =
     push_bit 32 (ucast (bank_read s sec (unat (get_index_address index)))) OR
     ucast (bank_read s sec (unat (get_index_address index) + 1))"

text \<open>
  The data transfers go through \<^verbatim>\<open>(uint32_t *)data\<close>: turn \<open>i\<close> moves the four bytes at \<open>4 i\<close>.
\<close>

fun memory_data_write ::
  "kved_flash_sector \<Rightarrow> nat \<Rightarrow> bytes \<Rightarrow> nat \<Rightarrow> nat \<Rightarrow> kved_memory \<Rightarrow> kved_memory" where
  "memory_data_write sec base data i 0 s = s"
| "memory_data_write sec base data i (Suc n) s =
     (if 4 * i + 4 \<le> length data
      then memory_data_write sec base data (Suc i) n
             (bank_write sec (base + i) (le_word (take 4 (drop (4 * i) data))) s)
      else s\<lparr>mem_fault := True\<rparr>)"

definition oblfr_kved_memory_data_write ::
  "kved_flash_sector \<Rightarrow> u16 \<Rightarrow> bytes \<Rightarrow> u16 \<Rightarrow> kved_memory \<Rightarrow> kved_memory" where
  "oblfr_kved_memory_data_write sec index data len s =
     memory_data_write sec (unat (get_index_address index)) data 0 (unat len) s"

fun memory_data_read ::
  "kved_flash_sector \<Rightarrow> nat \<Rightarrow> bytes \<Rightarrow> nat \<Rightarrow> nat \<Rightarrow> kved_memory \<Rightarrow> bytes \<times> kved_memory" where
  "memory_data_read sec base data i 0 s = (data, s)"
| "memory_data_read sec base data i (Suc n) s =
     (if 4 * i + 4 \<le> length data
      then memory_data_read sec base
             (take (4 * i) data @ le_bytes 4 (bank_read s sec (base + i)) @ drop (4 * i + 4) data)
             (Suc i) n s
      else (data, s\<lparr>mem_fault := True\<rparr>))"

definition oblfr_kved_memory_data_read ::
  "kved_flash_sector \<Rightarrow> u16 \<Rightarrow> bytes \<Rightarrow> u16 \<Rightarrow> kved_memory \<Rightarrow> bytes \<times> kved_memory" where
  "oblfr_kved_memory_data_read sec index data len s =
     memory_data_read sec (unat (get_index_address index)) data 0 (unat len) s"

definition oblfr_kved_memory_init :: "kved_memory \<Rightarrow> bool \<times> kved_memory" where
  "oblfr_kved_memory_init s = (True, s)"

definition oblfr_kved_memory_max_entries :: "kved_memory \<Rightarrow> u16" where
  "oblfr_kved_memory_max_entries s = of_nat FLASH_NUM_ENTRIES"

definition oblfr_kved_memory_driver :: "kved_memory kved_flash_driver" where
  "oblfr_kved_memory_driver =
     \<lparr>sector_erase = oblfr_kved_memory_sector_erase,
      header_write = oblfr_kved_memory_header_write,
      header_read = oblfr_kved_memory_header_read,
      data_write = oblfr_kved_memory_data_write,
      data_read = oblfr_kved_memory_data_read,
      sector_size = oblfr_kved_memory_sector_size,
      drv_init = oblfr_kved_memory_init,
      max_entries = oblfr_kved_memory_max_entries\<rparr>"

text \<open>
  \<^verbatim>\<open>oblfr_kved_memory_configure\<close>: \<open>heap sec\<close> is the content of the fresh block for a sector,
  empty when \<^verbatim>\<open>malloc\<close> returned null.
\<close>

definition oblfr_kved_memory_configure ::
  "(kved_flash_sector \<Rightarrow> u32 list) \<Rightarrow> (kved_flash_sector \<Rightarrow> nat \<Rightarrow> u32) \<Rightarrow> kved_memory" where
  "oblfr_kved_memory_configure heap outside =
     (let s = \<lparr>sector_address = heap, beyond = outside, mem_fault = False\<rparr>;
          s = snd (oblfr_kved_memory_sector_erase KVED_FLASH_SECTOR_A s);
          s = snd (oblfr_kved_memory_sector_erase KVED_FLASH_SECTOR_B s);
          s = snd (oblfr_kved_memory_sector_erase KVED_FLASH_STRING_SECTOR_A s)
      in snd (oblfr_kved_memory_sector_erase KVED_FLASH_STRING_SECTOR_B s))"

section \<open>The backend contract\<close>

fun memory_words :: "kved_flash_sector \<Rightarrow> nat" where
  "memory_words KVED_FLASH_SECTOR_A = FLASH_SECTOR_SIZE div 8"
| "memory_words KVED_FLASH_SECTOR_B = FLASH_SECTOR_SIZE div 8"
| "memory_words KVED_FLASH_STRING_SECTOR_A = FLASH_STR_SECTOR_SIZE div 8"
| "memory_words KVED_FLASH_STRING_SECTOR_B = FLASH_STR_SECTOR_SIZE div 8"
| "memory_words KVED_FLASH_NUM_SECTORS = 0"

definition memory_ok :: "kved_memory \<Rightarrow> bool" where
  "memory_ok s \<longleftrightarrow> \<not> mem_fault s \<and> (\<forall>sec. length (sector_address s sec) = 2 * memory_words sec)"

lemma memory_words_le: "memory_words sec \<le> 444"
  by (cases sec) (simp_all add: memory_consts)

lemma unat_get_index_address:
  assumes "unat i < memory_words sec"
  shows "unat (get_index_address i) = 2 * unat i"
proof -
  have "unat i < 444"
    using assms memory_words_le [of sec] by simp
  then show ?thesis
    by (simp add: get_index_address_def unat_word_ariths)
qed

lemma bank_write_in:
  "i < length (sector_address s sec) \<Longrightarrow>
     bank_write sec i v s = s\<lparr>sector_address := (sector_address s)(sec := (sector_address s sec)[i := v])\<rparr>"
  by (simp add: bank_write_def)

text \<open>Joining and splitting a 64-bit word at bit 32.\<close>

lemma join_halves [word_bits]:
  "push_bit 32 (ucast (ucast (drop_bit 32 (d :: u64)) :: u32)) OR ucast (ucast d :: u32) = d"
  by (rule bit_word_eqI) (auto simp: bit_simps)

lemma join_ones [word_bits]:
  "push_bit 32 (ucast (0xFFFFFFFF :: u32)) OR ucast (0xFFFFFFFF :: u32) = (NOT 0 :: u64)"
  by (simp add: push_bit_eq_mult)

lemma memory_header_write:
  assumes "memory_ok s" "unat i < memory_words sec"
  shows "oblfr_kved_memory_header_write sec i d s =
    s\<lparr>sector_address := (sector_address s)
        (sec := (sector_address s sec)
           [2 * unat i := ucast (drop_bit 32 d), 2 * unat i + 1 := ucast d])\<rparr>"
  using assms
  by (simp add: oblfr_kved_memory_header_write_def unat_get_index_address memory_ok_def bank_write_in)

lemma memory_header_read:
  assumes "memory_ok s" "unat i < memory_words sec"
  shows "oblfr_kved_memory_header_read sec i s =
    push_bit 32 (ucast (sector_address s sec ! (2 * unat i))) OR
    ucast (sector_address s sec ! (2 * unat i + 1))"
  using assms
  by (simp add: oblfr_kved_memory_header_read_def unat_get_index_address memory_ok_def bank_read_def)

lemma memory_write_ok:
  "memory_ok s \<Longrightarrow> unat i < memory_words sec \<Longrightarrow> memory_ok (oblfr_kved_memory_header_write sec i d s)"
  by (simp add: memory_header_write) (simp add: memory_ok_def)

lemma memory_read_write_same:
  assumes "memory_ok s" "unat i < memory_words sec"
  shows "oblfr_kved_memory_header_read sec i (oblfr_kved_memory_header_write sec i d s) = d"
proof -
  have "2 * unat i + 1 < length (sector_address s sec)"
    using assms by (simp add: memory_ok_def)
  then show ?thesis
    using assms
    by (simp add: memory_header_read memory_write_ok) (simp add: memory_header_write join_halves)
qed

lemma memory_read_write_other:
  assumes "memory_ok s" "unat i < memory_words sec" "unat j < memory_words sec'" "(sec', j) \<noteq> (sec, i)"
  shows "oblfr_kved_memory_header_read sec' j (oblfr_kved_memory_header_write sec i d s) =
    oblfr_kved_memory_header_read sec' j s"
proof (cases "sec' = sec")
  case True
  with assms(4) have "unat j \<noteq> unat i" by (simp add: word_unat_eq_iff)
  then have "2 * unat j \<noteq> 2 * unat i + 1" "2 * unat j + 1 \<noteq> 2 * unat i" "unat j \<noteq> unat i"
    by presburger+
  with True assms show ?thesis
    by (simp add: memory_header_read memory_write_ok) (simp add: memory_header_write)
next
  case False
  with assms show ?thesis
    by (simp add: memory_header_read memory_write_ok) (simp add: memory_header_write)
qed

lemma memory_erase:
  assumes "memory_ok s" "0 < memory_words sec"
  shows "snd (oblfr_kved_memory_sector_erase sec s) =
    s\<lparr>sector_address := (sector_address s)(sec := replicate (2 * memory_words sec) 0xFFFFFFFF)\<rparr>"
  using assms
  by (cases sec)
     (simp_all add: oblfr_kved_memory_sector_erase_def bank_fill_def memory_ok_def memory_consts)

lemma memory_erase_ok:
  "memory_ok s \<Longrightarrow> 0 < memory_words sec \<Longrightarrow> memory_ok (snd (oblfr_kved_memory_sector_erase sec s))"
  by (simp add: memory_erase) (simp add: memory_ok_def)

lemma memory_read_erase:
  assumes "memory_ok s" "0 < memory_words sec" "unat i < memory_words sec'"
  shows "oblfr_kved_memory_header_read sec' i (snd (oblfr_kved_memory_sector_erase sec s)) =
    (if sec' = sec then NOT 0 else oblfr_kved_memory_header_read sec' i s)"
  using assms
  by (cases "sec' = sec"; simp add: memory_header_read memory_erase_ok; simp add: memory_erase join_ones)

interpretation ram: kved_backend oblfr_kved_memory_driver memory_ok memory_words
proof (unfold_locales, goal_cases)
  case (1 sec)
  then show ?case using memory_words_le [of sec] by simp
next
  case (2 s i sec d)
  then show ?case by (simp add: oblfr_kved_memory_driver_def memory_write_ok)
next
  case (3 s i sec d)
  then show ?case by (simp add: oblfr_kved_memory_driver_def memory_read_write_same)
next
  case (4 s i sec j sec' d)
  then show ?case by (simp add: oblfr_kved_memory_driver_def memory_read_write_other)
next
  case (5 s sec)
  then show ?case by (simp add: oblfr_kved_memory_driver_def memory_erase_ok)
next
  case (6 s i sec)
  then show ?case by (simp add: oblfr_kved_memory_driver_def memory_read_erase)
next
  case (7 s sec i sec')
  then show ?case by (simp add: oblfr_kved_memory_driver_def memory_read_erase)
next
  case (8 sec' sec i d s)
  then show ?case by (cases sec') (simp_all add: oblfr_kved_memory_driver_def)
next
  case (9 sec' sec s)
  then show ?case by (cases sec') (simp_all add: oblfr_kved_memory_driver_def)
qed

lemma memory_configure_ok:
  assumes "\<And>sec. length (heap sec) = 2 * memory_words sec"
  shows "memory_ok (oblfr_kved_memory_configure heap outside)"
proof -
  have "memory_ok \<lparr>sector_address = heap, beyond = outside, mem_fault = False\<rparr>"
    using assms by (simp add: memory_ok_def)
  then show ?thesis
    unfolding oblfr_kved_memory_configure_def Let_def
    by (intro memory_erase_ok) (simp_all add: memory_consts)
qed

lemma memory_configure_erased:
  assumes "\<And>sec. length (heap sec) = 2 * memory_words sec" "unat i < memory_words sec"
  shows "oblfr_kved_memory_header_read sec i (oblfr_kved_memory_configure heap outside) = NOT 0"
proof -
  have "memory_ok \<lparr>sector_address = heap, beyond = outside, mem_fault = False\<rparr>"
    using assms(1) by (simp add: memory_ok_def)
  moreover have "0 < FLASH_SECTOR_SIZE div 8" "0 < FLASH_STR_SECTOR_SIZE div 8"
    by (simp_all add: memory_consts)
  ultimately show ?thesis
    using assms(2)
    by (cases sec) (simp_all add: oblfr_kved_memory_configure_def Let_def memory_read_erase memory_erase_ok)
qed

section \<open>kved on the RAM backend\<close>

interpretation ram: kved_store oblfr_kved_memory_driver memory_ok memory_words 23
proof (unfold_locales, goal_cases)
  case (5 s sec)
  then show ?case
    by (auto simp: oblfr_kved_memory_driver_def kved_last_index_of_def memory_consts KVED_HDR_SIZE_IN_WORDS_def)
qed (auto simp: memory_consts)

text \<open>
  C1. On the RAM backend, \<^verbatim>\<open>kved_data_write\<close> of a numeric value refines the update of a finite map:
  while the database holds fewer than 23 keys and the key is not stored with another type, the call
  returns \<^verbatim>\<open>KVED_OK\<close>, releases the mutex, keeps the invariant, and the map afterwards is the map
  before with the key bound to the type and the value. This covers the append, the replacement of an
  old entry, the unchanged value, and the sector switch when no free slot is left.
\<close>

theorem ram_data_write:
  assumes "kved_inv oblfr_kved_memory_driver memory_ok 23 ctrl s" "mutex_cycles api (mutex ctrl)"
    "kved_key_encode data = Some key" "kved_is_valid_key ctrl key" "kv_type data \<noteq> KVED_DATA_TYPE_STRING"
    "\<forall>t v. kved_abs oblfr_kved_memory_driver 23 ctrl s (KVED_HDR_MASK_KEY key) = Some (t, v) \<longrightarrow>
       t = ucast (kv_type data)"
    "card (dom (kved_abs oblfr_kved_memory_driver 23 ctrl s)) < 23"
  shows "\<exists>ctrl' s'. kved_data_write api junk oblfr_kved_memory_driver ctrl (data, s) =
      Some (KVED_OK, ctrl', data, s') \<and>
    mutex ctrl' = mutex ctrl \<and> kved_inv oblfr_kved_memory_driver memory_ok 23 ctrl' s' \<and>
    drv_max_entries ctrl' = drv_max_entries ctrl \<and>
    kved_abs oblfr_kved_memory_driver 23 ctrl' s' =
      (kved_abs oblfr_kved_memory_driver 23 ctrl s)
        (KVED_HDR_MASK_KEY key \<mapsto> (ucast (kv_type data), value_u64 (kv_value data)))"
  using assms by (rule ram.data_write_correct)

text \<open>
  C2. On the RAM backend, \<^verbatim>\<open>kved_data_read\<close> returns exactly what the map holds for the key: the
  stored type and the value in the first eight bytes of the caller's union, the rest of the
  caller's structure untouched, or \<^verbatim>\<open>KVED_INVALID_KEY\<close> when the map has no such key. Control block
  and storage do not change.
\<close>

theorem ram_data_read:
  assumes "kved_inv oblfr_kved_memory_driver memory_ok 23 ctrl s" "mutex_cycles api (mutex ctrl)"
    "kved_key_encode data = Some key" "kved_is_valid_key ctrl key"
  shows "kved_data_read api oblfr_kved_memory_driver ctrl (data, s) =
    Some (case kved_abs oblfr_kved_memory_driver 23 ctrl s (KVED_HDR_MASK_KEY key) of
        None \<Rightarrow> (KVED_INVALID_KEY, ctrl, data, s)
      | Some (t, v) \<Rightarrow>
          (KVED_OK, ctrl, data\<lparr>kv_type := ucast t, kv_value := set_value_u64 v (kv_value data)\<rparr>, s))"
  using assms by (rule ram.data_read_correct)

text \<open>
  C3. On the RAM backend, \<^verbatim>\<open>kved_data_delete\<close> of a stored key removes it from the map and leaves
  every other key as it was.
\<close>

theorem ram_data_delete:
  assumes "kved_inv oblfr_kved_memory_driver memory_ok 23 ctrl s" "mutex_cycles api (mutex ctrl)"
    "kved_key_encode data = Some key" "kved_is_valid_key ctrl key"
    "kved_abs oblfr_kved_memory_driver 23 ctrl s (KVED_HDR_MASK_KEY key) \<noteq> None"
  shows "\<exists>ctrl' s'. kved_data_delete api oblfr_kved_memory_driver ctrl (data, s) =
      Some (KVED_OK, ctrl', data, s') \<and>
    mutex ctrl' = mutex ctrl \<and> kved_inv oblfr_kved_memory_driver memory_ok 23 ctrl' s' \<and>
    drv_max_entries ctrl' = drv_max_entries ctrl \<and>
    kved_abs oblfr_kved_memory_driver 23 ctrl' s' =
      (kved_abs oblfr_kved_memory_driver 23 ctrl s)(KVED_HDR_MASK_KEY key := None)"
  using assms by (rule ram.data_delete_correct)

lemma ram_fresh:
  assumes "\<And>sec. length (heap sec) = 2 * memory_words sec" "mutex_cycles api m"
  shows "\<exists>ctrl s. kved_init api True m oblfr_kved_memory_driver (oblfr_kved_memory_configure heap outside) =
      Some (Some ctrl, s) \<and>
    kved_inv oblfr_kved_memory_driver memory_ok 23 ctrl s \<and> mutex ctrl = m \<and> drv_max_entries ctrl = 48 \<and>
    kved_abs oblfr_kved_memory_driver 23 ctrl s = Map.empty"
proof -
  let ?s = "oblfr_kved_memory_configure heap outside"
  have up: "drv_init oblfr_kved_memory_driver ?s = (True, ?s)" "max_entries oblfr_kved_memory_driver ?s = 48"
    by (simp_all add: oblfr_kved_memory_driver_def oblfr_kved_memory_init_def
        oblfr_kved_memory_max_entries_def memory_consts)
  then show ?thesis
    using ram.init_fresh [OF memory_configure_ok up(1) _ _ assms(2)] memory_configure_erased [OF assms(1)] assms(1)
    by (simp add: oblfr_kved_memory_driver_def)
qed

text \<open>
  \<^verbatim>\<open>kved_init\<close> on a freshly configured RAM backend (the four allocations succeeded) ends, formats
  the storage, and returns a control block that satisfies the invariant for the empty map.
\<close>

theorem ram_init_fresh:
  assumes "\<And>sec. length (heap sec) = 2 * memory_words sec" "mutex_cycles api m"
  shows "\<exists>ctrl s. kved_init api True m oblfr_kved_memory_driver (oblfr_kved_memory_configure heap outside) =
      Some (Some ctrl, s) \<and>
    kved_inv oblfr_kved_memory_driver memory_ok 23 ctrl s \<and> mutex ctrl = m \<and> drv_max_entries ctrl = 48 \<and>
    kved_abs oblfr_kved_memory_driver 23 ctrl s = Map.empty"
  using assms by (rule ram_fresh)

text \<open>
  C4. Restart: \<^verbatim>\<open>kved_init\<close> on the storage that a running database left behind, whatever was written
  and deleted and whichever sector is in use, returns a control block for the same map.
\<close>

theorem ram_init_restart:
  assumes "kved_inv oblfr_kved_memory_driver memory_ok 23 ctrl s" "drv_max_entries ctrl = 48"
    "mutex_cycles api m"
  shows "\<exists>ctrl' s'. kved_init api True m oblfr_kved_memory_driver s = Some (Some ctrl', s') \<and>
    kved_inv oblfr_kved_memory_driver memory_ok 23 ctrl' s' \<and> mutex ctrl' = m \<and>
    drv_max_entries ctrl' = drv_max_entries ctrl \<and>
    kved_abs oblfr_kved_memory_driver 23 ctrl' s' = kved_abs oblfr_kved_memory_driver 23 ctrl s"
proof (rule ram.init_reboot [OF assms(1) _ _ _ assms(3)])
  show "drv_init oblfr_kved_memory_driver s = (True, s)"
    by (simp add: oblfr_kved_memory_driver_def oblfr_kved_memory_init_def)
  show "max_entries oblfr_kved_memory_driver s = drv_max_entries ctrl" "drv_max_entries ctrl \<noteq> 0"
    using assms(2)
    by (simp_all add: oblfr_kved_memory_driver_def oblfr_kved_memory_max_entries_def memory_consts)
qed

section \<open>Concrete runs\<close>

definition ram_heap :: "kved_flash_sector \<Rightarrow> u32 list" where
  "ram_heap sec = replicate (2 * memory_words sec) 0"

definition ram_start :: kved_memory where
  "ram_start = oblfr_kved_memory_configure ram_heap (\<lambda>_ _. 0)"

text \<open>The key \<^verbatim>\<open>"a"\<close>, of type U32, with the value 7.\<close>

definition sample :: kved_data where
  "sample = \<lparr>kv_value = 7 # replicate 63 0, kv_key = [97, 0, 0, 0, 0, 0, 0], kv_type = KVED_DATA_TYPE_UINT32\<rparr>"

definition sample_key :: kved_word where
  "sample_key = 0x6100000000000042"

lemma sample_encode: "kved_key_encode sample = Some sample_key"
  by code_simp

lemma sample_valid: "drv_max_entries ctrl = 48 \<Longrightarrow> kved_is_valid_key ctrl sample_key"
  by (simp add: kved_is_valid_key_def KVED_SIGNATURE_ENTRY_def KVED_HDR_MASK_KEY_def sample_key_def
      kved_entry_consts KVED_MAX_STRING_SIZE_def Let_def)

lemma sample_numeric: "kv_type sample \<noteq> KVED_DATA_TYPE_STRING"
  by (simp add: sample_def kved_data_type_consts)

text \<open>A running database with no key, and one with one key.\<close>

lemma ram_run0:
  obtains ctrl s where "kved_init freertos_mutex True False oblfr_kved_memory_driver ram_start = Some (Some ctrl, s)"
    "kved_inv oblfr_kved_memory_driver memory_ok 23 ctrl s" "mutex ctrl = False" "drv_max_entries ctrl = 48"
    "kved_abs oblfr_kved_memory_driver 23 ctrl s = Map.empty"
  using ram_fresh [of ram_heap freertos_mutex False "\<lambda>_ _. 0"] freertos_mutex_cycles
  by (auto simp: ram_start_def ram_heap_def)

lemma ram_run1:
  obtains ctrl s where "kved_inv oblfr_kved_memory_driver memory_ok 23 ctrl s" "mutex ctrl = False"
    "drv_max_entries ctrl = 48"
    "kved_abs oblfr_kved_memory_driver 23 ctrl s = [KVED_HDR_MASK_KEY sample_key \<mapsto> (4, 7)]"
proof -
  obtain c s where c: "kved_inv oblfr_kved_memory_driver memory_ok 23 c s" "mutex c = False"
    "drv_max_entries c = 48" "kved_abs oblfr_kved_memory_driver 23 c s = Map.empty"
    by (rule ram_run0)
  have "value_u64 (kv_value sample) = 7" by code_simp
  moreover have "(ucast (kv_type sample) :: u64) = 4" by code_simp
  ultimately show thesis
    using ram.data_write_correct [OF c(1) _ sample_encode sample_valid sample_numeric, of freertos_mutex] c
      freertos_mutex_cycles that by auto
qed

theorem ram_data_write_witness:
  "\<exists>ctrl s ctrl' s'. kved_init freertos_mutex True False oblfr_kved_memory_driver ram_start = Some (Some ctrl, s) \<and>
     kved_data_write freertos_mutex (\<lambda>_. sample) oblfr_kved_memory_driver ctrl (sample, s) =
       Some (KVED_OK, ctrl', sample, s') \<and>
     kved_abs oblfr_kved_memory_driver 23 ctrl' s' = [KVED_HDR_MASK_KEY sample_key \<mapsto> (4, 7)]"
proof -
  obtain c s where c: "kved_init freertos_mutex True False oblfr_kved_memory_driver ram_start = Some (Some c, s)"
    "kved_inv oblfr_kved_memory_driver memory_ok 23 c s" "mutex c = False"
    "drv_max_entries c = 48" "kved_abs oblfr_kved_memory_driver 23 c s = Map.empty"
    by (rule ram_run0)
  have "value_u64 (kv_value sample) = 7" "(ucast (kv_type sample) :: u64) = 4" by code_simp+
  then show ?thesis
    using ram_data_write [OF c(2) _ sample_encode sample_valid sample_numeric, of freertos_mutex "\<lambda>_. sample"] c
      freertos_mutex_cycles by auto
qed

theorem ram_data_read_witness:
  "\<exists>ctrl s. kved_abs oblfr_kved_memory_driver 23 ctrl s = [KVED_HDR_MASK_KEY sample_key \<mapsto> (4, 7)] \<and>
     kved_data_read freertos_mutex oblfr_kved_memory_driver ctrl (sample\<lparr>kv_value := replicate 64 1\<rparr>, s) =
       Some (KVED_OK, ctrl, sample\<lparr>kv_value := [7, 0, 0, 0, 0, 0, 0, 0] @ replicate 56 1\<rparr>, s)"
proof -
  obtain c s where c: "kved_inv oblfr_kved_memory_driver memory_ok 23 c s" "mutex c = False"
    "drv_max_entries c = 48" "kved_abs oblfr_kved_memory_driver 23 c s = [KVED_HDR_MASK_KEY sample_key \<mapsto> (4, 7)]"
    by (rule ram_run1)
  have e: "kved_key_encode (sample\<lparr>kv_value := replicate 64 1\<rparr>) = Some sample_key" by code_simp
  have v: "set_value_u64 7 (replicate 64 1) = [7, 0, 0, 0, 0, 0, 0, 0] @ replicate 56 1" by code_simp
  have "kved_data_read freertos_mutex oblfr_kved_memory_driver c (sample\<lparr>kv_value := replicate 64 1\<rparr>, s) =
      Some (KVED_OK, c, sample\<lparr>kv_value := [7, 0, 0, 0, 0, 0, 0, 0] @ replicate 56 1\<rparr>, s)"
    using ram_data_read [OF c(1) _ e sample_valid, of freertos_mutex] c freertos_mutex_cycles v
    by (simp add: sample_def KVED_DATA_TYPE_UINT32_def)
  with c show ?thesis by blast
qed

theorem ram_data_delete_witness:
  "\<exists>ctrl s ctrl' s'. kved_abs oblfr_kved_memory_driver 23 ctrl s = [KVED_HDR_MASK_KEY sample_key \<mapsto> (4, 7)] \<and>
     kved_data_delete freertos_mutex oblfr_kved_memory_driver ctrl (sample, s) = Some (KVED_OK, ctrl', sample, s') \<and>
     kved_abs oblfr_kved_memory_driver 23 ctrl' s' = Map.empty"
proof -
  obtain c s where c: "kved_inv oblfr_kved_memory_driver memory_ok 23 c s" "mutex c = False"
    "drv_max_entries c = 48" "kved_abs oblfr_kved_memory_driver 23 c s = [KVED_HDR_MASK_KEY sample_key \<mapsto> (4, 7)]"
    by (rule ram_run1)
  then show ?thesis
    using ram_data_delete [OF c(1) _ sample_encode sample_valid, of freertos_mutex] freertos_mutex_cycles by auto
qed

theorem ram_init_fresh_witness:
  "\<exists>ctrl s. kved_init freertos_mutex True False oblfr_kved_memory_driver
       (oblfr_kved_memory_configure ram_heap (\<lambda>_ _. 0)) = Some (Some ctrl, s) \<and>
     kved_abs oblfr_kved_memory_driver 23 ctrl s = Map.empty"
  using ram_init_fresh [of ram_heap freertos_mutex False "\<lambda>_ _. 0"] freertos_mutex_cycles
  by (auto simp: ram_heap_def)

theorem ram_init_restart_witness:
  "\<exists>(ctrl :: bool kved_ctrl) s ctrl' s'.
     kved_abs oblfr_kved_memory_driver 23 ctrl s = [KVED_HDR_MASK_KEY sample_key \<mapsto> (4, 7)] \<and>
     kved_init freertos_mutex True False oblfr_kved_memory_driver s = Some (Some ctrl', s') \<and>
     kved_abs oblfr_kved_memory_driver 23 ctrl' s' = [KVED_HDR_MASK_KEY sample_key \<mapsto> (4, 7)]"
proof -
  obtain c s where c: "kved_inv oblfr_kved_memory_driver memory_ok 23 c s" "mutex c = False"
    "drv_max_entries c = 48" "kved_abs oblfr_kved_memory_driver 23 c s = [KVED_HDR_MASK_KEY sample_key \<mapsto> (4, 7)]"
    by (rule ram_run1)
  then show ?thesis
    using ram_init_restart [OF c(1,3) freertos_mutex_cycles] by auto
qed

end
