(* ===== verification/Nvkvs.thy ===== *)
theory Nvkvs
  imports Kved_Memory
begin

text \<open>
  The key/value API of the firmware (\<^verbatim>\<open>components/nvkvs/src/oblfr_nvkvs.c\<close>): typed setters and
  getters, strings, deletion, counters and the iterator, over kved. A \<^verbatim>\<open>const char *\<close> key is the
  list of the bytes before its terminator. Values are the bytes of the C object; floats are their
  bit patterns.
\<close>

section \<open>Handle\<close>

datatype oblfr_nvkvs_storage = OBLFR_NVKVS_STORAGE_FLASH | OBLFR_NVKVS_STORAGE_RAM

text \<open>
  \<^verbatim>\<open>oblfr_nvkvs_handle_t\<close>: the driver with the state behind its \<^verbatim>\<open>drv_arg\<close>, and the control block.
\<close>

record ('m, 's) oblfr_nvkvs_handle =
  storage_driver :: "'s kved_flash_driver"
  drv_arg :: 's
  nv_storage :: oblfr_nvkvs_storage
  nv_ctrl :: "'m kved_ctrl"

text \<open>
  \<open>configure\<close> stands for the configure function of the selected backend, \<^const>\<open>None\<close> for a storage
  type that is not compiled in. \<open>handle_mem\<close> and \<open>ctrl_mem\<close> are whether the two allocations succeed.
\<close>

definition oblfr_nvkvs_init ::
  "'m semphr_api \<Rightarrow> bool \<Rightarrow> bool \<Rightarrow> 'm \<Rightarrow>
   (oblfr_nvkvs_storage \<Rightarrow> ('s kved_flash_driver \<times> 's) option) \<Rightarrow> oblfr_nvkvs_storage option \<Rightarrow>
   ('m, 's) oblfr_nvkvs_handle option option" where
  "oblfr_nvkvs_init api handle_mem ctrl_mem m configure cfg =
     (case cfg of
        None \<Rightarrow> Some None
      | Some st \<Rightarrow>
          if \<not> handle_mem then Some None
          else
            case configure st of
              None \<Rightarrow> Some None
            | Some (drv, s) \<Rightarrow>
                (case kved_init api ctrl_mem m drv s of
                   None \<Rightarrow> None
                 | Some (None, s) \<Rightarrow> Some None
                 | Some (Some c, s) \<Rightarrow>
                     Some (Some \<lparr>storage_driver = drv, drv_arg = s, nv_storage = st, nv_ctrl = c\<rparr>)))"

definition oblfr_nvkvs_deinit :: "('m, 's) oblfr_nvkvs_handle option \<Rightarrow> oblfr_err" where
  "oblfr_nvkvs_deinit handle =
     (case handle of
        None \<Rightarrow> OBLFR_ERR_INVALID
      | Some h \<Rightarrow>
          (case nv_storage h of OBLFR_NVKVS_STORAGE_FLASH \<Rightarrow> OBLFR_OK | OBLFR_NVKVS_STORAGE_RAM \<Rightarrow> OBLFR_OK))"

definition oblfr_nvkvs_dump ::
  "'m semphr_api \<Rightarrow> ('m, 's) oblfr_nvkvs_handle option \<Rightarrow>
   (oblfr_err \<times> ('m, 's) oblfr_nvkvs_handle option) option" where
  "oblfr_nvkvs_dump api handle =
     (case handle of
        None \<Rightarrow> Some (OBLFR_ERR_INVALID, None)
      | Some h \<Rightarrow>
          do {
            (_, c, s) \<leftarrow> kved_dump api (storage_driver h) (nv_ctrl h) (drv_arg h);
            Some (OBLFR_OK, Some (h\<lparr>nv_ctrl := c, drv_arg := s\<rparr>))
          })"

definition oblfr_nvkvs_compact ::
  "'m semphr_api \<Rightarrow> (u16 \<Rightarrow> kved_data) \<Rightarrow> ('m, 's) oblfr_nvkvs_handle option \<Rightarrow>
   (oblfr_err \<times> ('m, 's) oblfr_nvkvs_handle option) option" where
  "oblfr_nvkvs_compact api junk handle =
     (case handle of
        None \<Rightarrow> Some (OBLFR_ERR_INVALID, None)
      | Some h \<Rightarrow>
          do {
            (ret, c, s) \<leftarrow> kved_compact_database api junk (storage_driver h) (nv_ctrl h) (drv_arg h);
            Some (if ret \<noteq> KVED_OK then OBLFR_ERR_ERROR else OBLFR_OK,
                  Some (h\<lparr>nv_ctrl := c, drv_arg := s\<rparr>))
          })"

section \<open>Typed values\<close>

text \<open>
  The body that all the setters share: the length check, the structure, the write. \<open>pad\<close> is what the
  bytes of the union beyond the initialised member hold (they are unspecified in C).
\<close>

definition nvkvs_set ::
  "'m semphr_api \<Rightarrow> (u16 \<Rightarrow> kved_data) \<Rightarrow> u32 \<Rightarrow> bytes \<Rightarrow> bytes \<Rightarrow> bytes \<Rightarrow>
   ('m, 's) oblfr_nvkvs_handle \<Rightarrow> (oblfr_err \<times> ('m, 's) oblfr_nvkvs_handle) option" where
  "nvkvs_set api junk type val pad key h =
     (if length key > KVED_MAX_KEY_SIZE then Some (OBLFR_ERR_INVALID, h)
      else
        do {
          let kv1 = \<lparr>kv_value = val @ drop (length val) pad,
                     kv_key = strncpy KVED_MAX_KEY_SIZE key, kv_type = type\<rparr>;
          (err, c, _, s) \<leftarrow> kved_data_write api junk (storage_driver h) (nv_ctrl h) (kv1, drv_arg h);
          Some (if err \<noteq> KVED_OK then OBLFR_ERR_ERROR else OBLFR_OK, h\<lparr>nv_ctrl := c, drv_arg := s\<rparr>)
        })"

text \<open>
  The body that all the getters share; \<open>out\<close> is the caller's variable, as bytes. The structure is
  initialised without a value, so the union starts as zeros.
\<close>

definition nvkvs_get ::
  "'m semphr_api \<Rightarrow> u32 \<Rightarrow> bytes \<Rightarrow> bytes \<Rightarrow> ('m, 's) oblfr_nvkvs_handle \<Rightarrow>
   (oblfr_err \<times> bytes \<times> ('m, 's) oblfr_nvkvs_handle) option" where
  "nvkvs_get api type out key h =
     (if length key > KVED_MAX_KEY_SIZE then Some (OBLFR_ERR_INVALID, out, h)
      else
        do {
          let kv1 = \<lparr>kv_value = replicate KVED_MAX_STRING_SIZE 0,
                     kv_key = strncpy KVED_MAX_KEY_SIZE key, kv_type = type\<rparr>;
          (err, c, kv1, s) \<leftarrow> kved_data_read api (storage_driver h) (nv_ctrl h) (kv1, drv_arg h);
          let h = h\<lparr>nv_ctrl := c, drv_arg := s\<rparr>;
          Some (if err \<noteq> KVED_OK then (OBLFR_ERR_ERROR, out, h)
                else (OBLFR_OK, take (length out) (kv_value kv1), h))
        })"

definition oblfr_nvkvs_set_u8 ::
  "'m semphr_api \<Rightarrow> (u16 \<Rightarrow> kved_data) \<Rightarrow> bytes \<Rightarrow> bytes \<Rightarrow> u8 \<Rightarrow>
   ('m, 's) oblfr_nvkvs_handle \<Rightarrow> (oblfr_err \<times> ('m, 's) oblfr_nvkvs_handle) option" where
  "oblfr_nvkvs_set_u8 api junk pad key val h =
     nvkvs_set api junk KVED_DATA_TYPE_UINT8 (le_bytes 1 val) pad key h"

definition oblfr_nvkvs_get_u8 ::
  "'m semphr_api \<Rightarrow> bytes \<Rightarrow> u8 \<Rightarrow> ('m, 's) oblfr_nvkvs_handle \<Rightarrow>
   (oblfr_err \<times> u8 \<times> ('m, 's) oblfr_nvkvs_handle) option" where
  "oblfr_nvkvs_get_u8 api key out h =
     map_option (\<lambda>(err, bs, h). (err, le_word bs, h))
       (nvkvs_get api KVED_DATA_TYPE_UINT8 (le_bytes 1 out) key h)"

definition oblfr_nvkvs_set_i8 ::
  "'m semphr_api \<Rightarrow> (u16 \<Rightarrow> kved_data) \<Rightarrow> bytes \<Rightarrow> bytes \<Rightarrow> u8 \<Rightarrow>
   ('m, 's) oblfr_nvkvs_handle \<Rightarrow> (oblfr_err \<times> ('m, 's) oblfr_nvkvs_handle) option" where
  "oblfr_nvkvs_set_i8 api junk pad key val h =
     nvkvs_set api junk KVED_DATA_TYPE_INT8 (le_bytes 1 val) pad key h"

definition oblfr_nvkvs_get_i8 ::
  "'m semphr_api \<Rightarrow> bytes \<Rightarrow> u8 \<Rightarrow> ('m, 's) oblfr_nvkvs_handle \<Rightarrow>
   (oblfr_err \<times> u8 \<times> ('m, 's) oblfr_nvkvs_handle) option" where
  "oblfr_nvkvs_get_i8 api key out h =
     map_option (\<lambda>(err, bs, h). (err, le_word bs, h))
       (nvkvs_get api KVED_DATA_TYPE_INT8 (le_bytes 1 out) key h)"

definition oblfr_nvkvs_set_u16 ::
  "'m semphr_api \<Rightarrow> (u16 \<Rightarrow> kved_data) \<Rightarrow> bytes \<Rightarrow> bytes \<Rightarrow> u16 \<Rightarrow>
   ('m, 's) oblfr_nvkvs_handle \<Rightarrow> (oblfr_err \<times> ('m, 's) oblfr_nvkvs_handle) option" where
  "oblfr_nvkvs_set_u16 api junk pad key val h =
     nvkvs_set api junk KVED_DATA_TYPE_UINT16 (le_bytes 2 val) pad key h"

definition oblfr_nvkvs_get_u16 ::
  "'m semphr_api \<Rightarrow> bytes \<Rightarrow> u16 \<Rightarrow> ('m, 's) oblfr_nvkvs_handle \<Rightarrow>
   (oblfr_err \<times> u16 \<times> ('m, 's) oblfr_nvkvs_handle) option" where
  "oblfr_nvkvs_get_u16 api key out h =
     map_option (\<lambda>(err, bs, h). (err, le_word bs, h))
       (nvkvs_get api KVED_DATA_TYPE_UINT16 (le_bytes 2 out) key h)"

definition oblfr_nvkvs_set_i16 ::
  "'m semphr_api \<Rightarrow> (u16 \<Rightarrow> kved_data) \<Rightarrow> bytes \<Rightarrow> bytes \<Rightarrow> u16 \<Rightarrow>
   ('m, 's) oblfr_nvkvs_handle \<Rightarrow> (oblfr_err \<times> ('m, 's) oblfr_nvkvs_handle) option" where
  "oblfr_nvkvs_set_i16 api junk pad key val h =
     nvkvs_set api junk KVED_DATA_TYPE_INT16 (le_bytes 2 val) pad key h"

definition oblfr_nvkvs_get_i16 ::
  "'m semphr_api \<Rightarrow> bytes \<Rightarrow> u16 \<Rightarrow> ('m, 's) oblfr_nvkvs_handle \<Rightarrow>
   (oblfr_err \<times> u16 \<times> ('m, 's) oblfr_nvkvs_handle) option" where
  "oblfr_nvkvs_get_i16 api key out h =
     map_option (\<lambda>(err, bs, h). (err, le_word bs, h))
       (nvkvs_get api KVED_DATA_TYPE_INT16 (le_bytes 2 out) key h)"

definition oblfr_nvkvs_set_u32 ::
  "'m semphr_api \<Rightarrow> (u16 \<Rightarrow> kved_data) \<Rightarrow> bytes \<Rightarrow> bytes \<Rightarrow> u32 \<Rightarrow>
   ('m, 's) oblfr_nvkvs_handle \<Rightarrow> (oblfr_err \<times> ('m, 's) oblfr_nvkvs_handle) option" where
  "oblfr_nvkvs_set_u32 api junk pad key val h =
     nvkvs_set api junk KVED_DATA_TYPE_UINT32 (le_bytes 4 val) pad key h"

definition oblfr_nvkvs_get_u32 ::
  "'m semphr_api \<Rightarrow> bytes \<Rightarrow> u32 \<Rightarrow> ('m, 's) oblfr_nvkvs_handle \<Rightarrow>
   (oblfr_err \<times> u32 \<times> ('m, 's) oblfr_nvkvs_handle) option" where
  "oblfr_nvkvs_get_u32 api key out h =
     map_option (\<lambda>(err, bs, h). (err, le_word bs, h))
       (nvkvs_get api KVED_DATA_TYPE_UINT32 (le_bytes 4 out) key h)"

definition oblfr_nvkvs_set_i32 ::
  "'m semphr_api \<Rightarrow> (u16 \<Rightarrow> kved_data) \<Rightarrow> bytes \<Rightarrow> bytes \<Rightarrow> u32 \<Rightarrow>
   ('m, 's) oblfr_nvkvs_handle \<Rightarrow> (oblfr_err \<times> ('m, 's) oblfr_nvkvs_handle) option" where
  "oblfr_nvkvs_set_i32 api junk pad key val h =
     nvkvs_set api junk KVED_DATA_TYPE_INT32 (le_bytes 4 val) pad key h"

definition oblfr_nvkvs_get_i32 ::
  "'m semphr_api \<Rightarrow> bytes \<Rightarrow> u32 \<Rightarrow> ('m, 's) oblfr_nvkvs_handle \<Rightarrow>
   (oblfr_err \<times> u32 \<times> ('m, 's) oblfr_nvkvs_handle) option" where
  "oblfr_nvkvs_get_i32 api key out h =
     map_option (\<lambda>(err, bs, h). (err, le_word bs, h))
       (nvkvs_get api KVED_DATA_TYPE_INT32 (le_bytes 4 out) key h)"

definition oblfr_nvkvs_set_u64 ::
  "'m semphr_api \<Rightarrow> (u16 \<Rightarrow> kved_data) \<Rightarrow> bytes \<Rightarrow> bytes \<Rightarrow> u64 \<Rightarrow>
   ('m, 's) oblfr_nvkvs_handle \<Rightarrow> (oblfr_err \<times> ('m, 's) oblfr_nvkvs_handle) option" where
  "oblfr_nvkvs_set_u64 api junk pad key val h =
     nvkvs_set api junk KVED_DATA_TYPE_UINT64 (le_bytes 8 val) pad key h"

definition oblfr_nvkvs_get_u64 ::
  "'m semphr_api \<Rightarrow> bytes \<Rightarrow> u64 \<Rightarrow> ('m, 's) oblfr_nvkvs_handle \<Rightarrow>
   (oblfr_err \<times> u64 \<times> ('m, 's) oblfr_nvkvs_handle) option" where
  "oblfr_nvkvs_get_u64 api key out h =
     map_option (\<lambda>(err, bs, h). (err, le_word bs, h))
       (nvkvs_get api KVED_DATA_TYPE_UINT64 (le_bytes 8 out) key h)"

definition oblfr_nvkvs_set_i64 ::
  "'m semphr_api \<Rightarrow> (u16 \<Rightarrow> kved_data) \<Rightarrow> bytes \<Rightarrow> bytes \<Rightarrow> u64 \<Rightarrow>
   ('m, 's) oblfr_nvkvs_handle \<Rightarrow> (oblfr_err \<times> ('m, 's) oblfr_nvkvs_handle) option" where
  "oblfr_nvkvs_set_i64 api junk pad key val h =
     nvkvs_set api junk KVED_DATA_TYPE_INT64 (le_bytes 8 val) pad key h"

definition oblfr_nvkvs_get_i64 ::
  "'m semphr_api \<Rightarrow> bytes \<Rightarrow> u64 \<Rightarrow> ('m, 's) oblfr_nvkvs_handle \<Rightarrow>
   (oblfr_err \<times> u64 \<times> ('m, 's) oblfr_nvkvs_handle) option" where
  "oblfr_nvkvs_get_i64 api key out h =
     map_option (\<lambda>(err, bs, h). (err, le_word bs, h))
       (nvkvs_get api KVED_DATA_TYPE_INT64 (le_bytes 8 out) key h)"

definition oblfr_nvkvs_set_float ::
  "'m semphr_api \<Rightarrow> (u16 \<Rightarrow> kved_data) \<Rightarrow> bytes \<Rightarrow> bytes \<Rightarrow> u32 \<Rightarrow>
   ('m, 's) oblfr_nvkvs_handle \<Rightarrow> (oblfr_err \<times> ('m, 's) oblfr_nvkvs_handle) option" where
  "oblfr_nvkvs_set_float api junk pad key val h =
     nvkvs_set api junk KVED_DATA_TYPE_FLOAT (le_bytes 4 val) pad key h"

definition oblfr_nvkvs_get_float ::
  "'m semphr_api \<Rightarrow> bytes \<Rightarrow> u32 \<Rightarrow> ('m, 's) oblfr_nvkvs_handle \<Rightarrow>
   (oblfr_err \<times> u32 \<times> ('m, 's) oblfr_nvkvs_handle) option" where
  "oblfr_nvkvs_get_float api key out h =
     map_option (\<lambda>(err, bs, h). (err, le_word bs, h))
       (nvkvs_get api KVED_DATA_TYPE_FLOAT (le_bytes 4 out) key h)"

definition oblfr_nvkvs_set_double ::
  "'m semphr_api \<Rightarrow> (u16 \<Rightarrow> kved_data) \<Rightarrow> bytes \<Rightarrow> bytes \<Rightarrow> u64 \<Rightarrow>
   ('m, 's) oblfr_nvkvs_handle \<Rightarrow> (oblfr_err \<times> ('m, 's) oblfr_nvkvs_handle) option" where
  "oblfr_nvkvs_set_double api junk pad key val h =
     nvkvs_set api junk KVED_DATA_TYPE_DOUBLE (le_bytes 8 val) pad key h"

definition oblfr_nvkvs_get_double ::
  "'m semphr_api \<Rightarrow> bytes \<Rightarrow> u64 \<Rightarrow> ('m, 's) oblfr_nvkvs_handle \<Rightarrow>
   (oblfr_err \<times> u64 \<times> ('m, 's) oblfr_nvkvs_handle) option" where
  "oblfr_nvkvs_get_double api key out h =
     map_option (\<lambda>(err, bs, h). (err, le_word bs, h))
       (nvkvs_get api KVED_DATA_TYPE_DOUBLE (le_bytes 8 out) key h)"

section \<open>Strings, deletion, counters, iterator\<close>

definition oblfr_nvkvs_set_string ::
  "'m semphr_api \<Rightarrow> (u16 \<Rightarrow> kved_data) \<Rightarrow> bytes \<Rightarrow> bytes \<Rightarrow>
   ('m, 's) oblfr_nvkvs_handle \<Rightarrow> (oblfr_err \<times> ('m, 's) oblfr_nvkvs_handle) option" where
  "oblfr_nvkvs_set_string api junk key val h =
     (if length key > KVED_MAX_KEY_SIZE then Some (OBLFR_ERR_INVALID, h)
      else if length val > KVED_MAX_STRING_SIZE then Some (OBLFR_ERR_INVALID, h)
      else
        do {
          let kv1 = \<lparr>kv_value = strncpy KVED_MAX_STRING_SIZE val,
                     kv_key = strncpy KVED_MAX_KEY_SIZE key, kv_type = KVED_DATA_TYPE_STRING\<rparr>;
          (err, c, _, s) \<leftarrow> kved_data_write api junk (storage_driver h) (nv_ctrl h) (kv1, drv_arg h);
          Some (if err \<noteq> KVED_OK then OBLFR_ERR_ERROR else OBLFR_OK, h\<lparr>nv_ctrl := c, drv_arg := s\<rparr>)
        })"

text \<open>\<open>out\<close> is the caller's buffer of at least \<^const>\<open>KVED_MAX_STRING_SIZE\<close> bytes.\<close>

definition oblfr_nvkvs_get_string ::
  "'m semphr_api \<Rightarrow> bytes \<Rightarrow> bytes \<Rightarrow> ('m, 's) oblfr_nvkvs_handle \<Rightarrow>
   (oblfr_err \<times> bytes \<times> ('m, 's) oblfr_nvkvs_handle) option" where
  "oblfr_nvkvs_get_string api key out h =
     (if length key > KVED_MAX_KEY_SIZE then Some (OBLFR_ERR_INVALID, out, h)
      else
        do {
          let kv1 = \<lparr>kv_value = replicate KVED_MAX_STRING_SIZE 0,
                     kv_key = strncpy KVED_MAX_KEY_SIZE key, kv_type = KVED_DATA_TYPE_STRING\<rparr>;
          (err, c, kv1, s) \<leftarrow> kved_data_read api (storage_driver h) (nv_ctrl h) (kv1, drv_arg h);
          let h = h\<lparr>nv_ctrl := c, drv_arg := s\<rparr>;
          Some (if err \<noteq> KVED_OK then (OBLFR_ERR_ERROR, out, h)
                else (OBLFR_OK, strncpy KVED_MAX_STRING_SIZE (kv_value kv1) @
                                drop KVED_MAX_STRING_SIZE out, h))
        })"

definition oblfr_nvkvs_delete ::
  "'m semphr_api \<Rightarrow> bytes \<Rightarrow> ('m, 's) oblfr_nvkvs_handle \<Rightarrow>
   (oblfr_err \<times> ('m, 's) oblfr_nvkvs_handle) option" where
  "oblfr_nvkvs_delete api key h =
     (if length key > KVED_MAX_KEY_SIZE then Some (OBLFR_ERR_INVALID, h)
      else
        do {
          let kv1 = \<lparr>kv_value = replicate KVED_MAX_STRING_SIZE 0,
                     kv_key = strncpy KVED_MAX_KEY_SIZE key, kv_type = 0\<rparr>;
          (err, c, _, s) \<leftarrow> kved_data_delete api (storage_driver h) (nv_ctrl h) (kv1, drv_arg h);
          Some (if err \<noteq> KVED_OK then OBLFR_ERR_ERROR else OBLFR_OK, h\<lparr>nv_ctrl := c, drv_arg := s\<rparr>)
        })"

text \<open>The calls that only read a number through the control block.\<close>

definition nvkvs_number ::
  "('m kved_ctrl \<Rightarrow> (u16 \<times> 'm kved_ctrl) option) \<Rightarrow> ('m, 's) oblfr_nvkvs_handle \<Rightarrow>
   (u16 \<times> ('m, 's) oblfr_nvkvs_handle) option" where
  "nvkvs_number get h = map_option (\<lambda>(r, c). (r, h\<lparr>nv_ctrl := c\<rparr>)) (get (nv_ctrl h))"

definition oblfr_nvkvs_get_size ::
  "'m semphr_api \<Rightarrow> ('m, 's) oblfr_nvkvs_handle \<Rightarrow> (u16 \<times> ('m, 's) oblfr_nvkvs_handle) option" where
  "oblfr_nvkvs_get_size api = nvkvs_number (kved_total_entries_get api)"

definition oblfr_nvkvs_used_entries ::
  "'m semphr_api \<Rightarrow> ('m, 's) oblfr_nvkvs_handle \<Rightarrow> (u16 \<times> ('m, 's) oblfr_nvkvs_handle) option" where
  "oblfr_nvkvs_used_entries api = nvkvs_number (kved_used_entries_get api)"

definition oblfr_nvkvs_free_entries ::
  "'m semphr_api \<Rightarrow> ('m, 's) oblfr_nvkvs_handle \<Rightarrow> (u16 \<times> ('m, 's) oblfr_nvkvs_handle) option" where
  "oblfr_nvkvs_free_entries api = nvkvs_number (kved_free_entries_get api)"

definition oblfr_nvkvs_deleted_entries ::
  "'m semphr_api \<Rightarrow> ('m, 's) oblfr_nvkvs_handle \<Rightarrow> (u16 \<times> ('m, 's) oblfr_nvkvs_handle) option" where
  "oblfr_nvkvs_deleted_entries api = nvkvs_number (kved_deleted_entries_get api)"

definition oblfr_nvkvs_iter_init ::
  "'m semphr_api \<Rightarrow> ('m, 's) oblfr_nvkvs_handle \<Rightarrow> (u16 \<times> ('m, 's) oblfr_nvkvs_handle) option" where
  "oblfr_nvkvs_iter_init api h =
     nvkvs_number (kved_first_used_index_get api (storage_driver h) (drv_arg h)) h"

definition oblfr_nvkvs_iter_next ::
  "'m semphr_api \<Rightarrow> u16 \<Rightarrow> ('m, 's) oblfr_nvkvs_handle \<Rightarrow>
   (u16 \<times> ('m, 's) oblfr_nvkvs_handle) option" where
  "oblfr_nvkvs_iter_next api iter h =
     nvkvs_number (kved_next_used_index_get api (storage_driver h) iter (drv_arg h)) h"

record oblfr_nvkvs_data =
  nv_key :: bytes
  nv_type :: u32
  nv_value :: bytes

text \<open>The number of bytes of the union member that a type selects.\<close>

definition nvkvs_member_size :: "u32 \<Rightarrow> nat option" where
  "nvkvs_member_size t =
     (if t = KVED_DATA_TYPE_INT8 \<or> t = KVED_DATA_TYPE_UINT8 then Some 1
      else if t = KVED_DATA_TYPE_INT16 \<or> t = KVED_DATA_TYPE_UINT16 then Some 2
      else if t = KVED_DATA_TYPE_INT32 \<or> t = KVED_DATA_TYPE_UINT32 \<or> t = KVED_DATA_TYPE_FLOAT then Some 4
      else if t = KVED_DATA_TYPE_INT64 \<or> t = KVED_DATA_TYPE_UINT64 \<or> t = KVED_DATA_TYPE_DOUBLE then Some 8
      else None)"

text \<open>
  \<open>kv1\<close> is the uninitialised local, \<open>pad\<close> what the union of the caller holds beyond the member that
  is assigned.
\<close>

definition oblfr_nvkvs_get_item ::
  "'m semphr_api \<Rightarrow> kved_data \<Rightarrow> bytes \<Rightarrow> u16 \<Rightarrow> oblfr_nvkvs_data \<Rightarrow> ('m, 's) oblfr_nvkvs_handle \<Rightarrow>
   (oblfr_err \<times> oblfr_nvkvs_data \<times> ('m, 's) oblfr_nvkvs_handle) option" where
  "oblfr_nvkvs_get_item api kv1 pad index data h =
     do {
       (err, c, kv1, s) \<leftarrow> kved_data_read_by_index api (storage_driver h) index (nv_ctrl h) (kv1, drv_arg h);
       let h = h\<lparr>nv_ctrl := c, drv_arg := s\<rparr>;
       if err \<noteq> KVED_OK then Some (OBLFR_ERR_ERROR, data, h)
       else do {
         let data = data\<lparr>nv_type := kv_type kv1,
           nv_key := strncpy KVED_MAX_KEY_SIZE (kv_key kv1) @ drop KVED_MAX_KEY_SIZE (nv_key data)\<rparr>;
         let data =
           (if kv_type kv1 = KVED_DATA_TYPE_STRING
            then data\<lparr>nv_value := strncpy KVED_MAX_STRING_SIZE (kv_value kv1)\<rparr>
            else case nvkvs_member_size (kv_type kv1) of
                None \<Rightarrow> data
              | Some n \<Rightarrow> data\<lparr>nv_value := take n (kv_value kv1) @ drop n pad\<rparr>);
         Some (OBLFR_OK, data, h)
       }
     }"

section \<open>Keys\<close>

text \<open>
  The word that the index is searched for, as a function of the key text. A key of one to seven
  nonzero bytes, other than seven times 0xFF, is always accepted: the signature words are no keys.
\<close>

definition nv_key_word :: "bytes \<Rightarrow> kved_word" where
  "nv_key_word key = push_bit 8 (le_word (rev (strncpy KVED_MAX_KEY_SIZE key)))"

definition nv_key_ok :: "bytes \<Rightarrow> bool" where
  "nv_key_ok key \<longleftrightarrow>
     key \<noteq> [] \<and> 0 \<notin> set key \<and> length key \<le> KVED_MAX_KEY_SIZE \<and> key \<noteq> replicate KVED_MAX_KEY_SIZE 0xFF"

lemma key_encode_Some:
  assumes "kv_type data < 11"
  obtains w where "kved_key_encode data = Some w"
proof -
  have "unat (kv_type data) < 11" using assms by (simp add: word_less_nat_alt)
  then show thesis
    using that by (cases "kv_type data = KVED_DATA_TYPE_STRING")
      (auto simp: kved_key_encode_def kved_key_type_size_def)
qed

lemma mask_key_encode:
  "kved_key_encode data = Some w \<Longrightarrow> KVED_HDR_MASK_KEY w = nv_key_word (kv_key data)"
  by (erule key_encode_cases) (simp only: mask_key_le_word nv_key_word_def)

lemma nv_key_word_strncpy [simp]: "nv_key_word (strncpy KVED_MAX_KEY_SIZE key) = nv_key_word key"
  by (simp add: nv_key_word_def)

lemma le_bytes_nv_key_word: "le_bytes 8 (nv_key_word key) = 0 # rev (strncpy KVED_MAX_KEY_SIZE key)"
  using le_bytes_le_word [of "0 # rev (strncpy KVED_MAX_KEY_SIZE key)", where 'a = 64]
  by (simp add: nv_key_word_def KVED_MAX_KEY_SIZE_def KVED_FLASH_WORD_SIZE_def)

lemma nv_key_word_inj: "nv_key_word k1 = nv_key_word k2 \<longleftrightarrow> strncpy KVED_MAX_KEY_SIZE k1 = strncpy KVED_MAX_KEY_SIZE k2"
  by (metis le_bytes_nv_key_word list.inject nv_key_word_strncpy rev_is_rev_conv)

lemma bit_add_low16:
  "bit (push_bit 16 c + ucast (m :: u16) :: u64) i \<longleftrightarrow> 16 \<le> i \<and> i < 64 \<and> bit c (i - 16) \<or> i < 16 \<and> bit m i"
proof -
  have "push_bit 16 c + ucast m = push_bit 16 c OR (ucast m :: u64)"
    by (rule disjunctive_add) (auto simp: bit_simps dest: bit_imp_le_length)
  then show ?thesis by (auto simp: bit_simps dest: bit_imp_le_length)
qed

lemma signature_bits:
  "bit (KVED_SIGNATURE_ENTRY ctrl) i \<longleftrightarrow>
     16 \<le> i \<and> i < 64 \<and> bit (0xDEADBEEF0040 :: u64) (i - 16) \<or> i < 16 \<and> bit (drv_max_entries ctrl) i"
proof -
  have "KVED_SIGNATURE_ENTRY ctrl = push_bit 16 0xDEADBEEF0040 + ucast (drv_max_entries ctrl)"
    by (simp add: KVED_SIGNATURE_ENTRY_def KVED_MAX_STRING_SIZE_def push_bit_eq_mult)
  then show ?thesis by (simp only: bit_add_low16)
qed

lemma mask_key_shift: "KVED_HDR_MASK_KEY x = push_bit 8 (drop_bit 8 x)"
proof -
  have F0: "(0xFFFFFFFFFFFFFF00 :: u64) = push_bit 8 (NOT 0)" by (simp add: push_bit_eq_mult)
  show ?thesis
    unfolding KVED_HDR_MASK_KEY_def F0 by (rule bit_word_eqI) (auto simp: bit_simps)
qed

lemma strncpy_zero_stays:
  assumes "strncpy n key ! i = 0" "i \<le> j" "j < n"
  shows "strncpy n key ! j = 0"
proof -
  let ?t = "takeWhile (\<lambda>b. b \<noteq> 0) (take n key)"
  have "length ?t \<le> i"
    using assms zero_notin_takeWhile [of "take n key"]
    by (auto simp: strncpy_def Let_def nth_append not_le split: if_splits) (metis nth_mem)
  with assms(2,3) show ?thesis
    by (simp add: strncpy_def Let_def nth_append)
qed

lemma nv_key_valid:
  assumes "nv_key_ok key" "KVED_HDR_MASK_KEY w = nv_key_word key"
  shows "kved_is_valid_key ctrl w"
proof -
  let ?k = "strncpy KVED_MAX_KEY_SIZE key"
  have k: "?k = key @ replicate (KVED_MAX_KEY_SIZE - length key) 0"
    using assms(1) by (simp add: nv_key_ok_def strncpy_short)
  have len: "length ?k = 7" by (simp add: KVED_MAX_KEY_SIZE_def KVED_FLASH_WORD_SIZE_def)
  have sig: "nv_key_word key \<noteq> KVED_HDR_MASK_KEY (KVED_SIGNATURE_ENTRY ctrl)"
  proof
    assume eq: "nv_key_word key = KVED_HDR_MASK_KEY (KVED_SIGNATURE_ENTRY ctrl)"
    have nth: "?k ! (7 - i) = ucast (drop_bit (8 * i) (KVED_HDR_MASK_KEY (KVED_SIGNATURE_ENTRY ctrl)))"
      if "0 < i" "i < 8" for i
    proof -
      have "le_bytes 8 (nv_key_word key) ! i = rev ?k ! (i - 1)"
        using that by (simp add: le_bytes_nv_key_word nth_Cons')
      also have "\<dots> = ?k ! (7 - i)" using that len by (simp add: rev_nth)
      finally show ?thesis using that nth_le_bytes [of i 8 "nv_key_word key"] eq by simp
    qed
    have zeros: "\<forall>i \<in> set [0..<8]. \<not> bit (0xDEADBEEF0040 :: u64) (8 + i)" by code_simp
    have "\<not> bit (?k ! 4) i" if "i < 8" for i
      using nth [of 3] zeros that by (simp add: mask_key_shift bit_simps signature_bits)
    then have "?k ! 4 = 0" by (intro bit_word_eqI) simp
    then have "?k ! 5 = 0"
      using strncpy_zero_stays [of KVED_MAX_KEY_SIZE key 4 5] len by simp
    then have "\<not> bit (?k ! 5) 6" by simp
    moreover have "bit (?k ! 5) 6"
      using nth [of 2] by (simp add: mask_key_shift bit_simps signature_bits)
    ultimately show False ..
  qed
  have del: "nv_key_word key \<noteq> KVED_HDR_MASK_KEY KVED_DELETED_ENTRY"
  proof
    assume "nv_key_word key = KVED_HDR_MASK_KEY KVED_DELETED_ENTRY"
    then have "0 # rev ?k = le_bytes 8 (0 :: u64)"
      using le_bytes_nv_key_word [of key] by (simp add: KVED_DELETED_ENTRY_def)
    then have "set ?k \<subseteq> {0}" by (simp add: numeral_eq_Suc)
    with k assms(1) show False by (cases key) (auto simp: nv_key_ok_def)
  qed
  have free: "nv_key_word key \<noteq> KVED_HDR_MASK_KEY KVED_FREE_ENTRY"
  proof
    assume "nv_key_word key = KVED_HDR_MASK_KEY KVED_FREE_ENTRY"
    then have "0 # rev ?k = le_bytes 8 (0xFFFFFFFFFFFFFF00 :: u64)"
      using le_bytes_nv_key_word [of key] by (simp add: KVED_FREE_ENTRY_def KVED_HDR_MASK_KEY_def)
    also have "\<dots> = 0 # replicate 7 0xFF" by code_simp
    finally have "rev ?k = replicate 7 0xFF" by simp
    then have "?k = replicate 7 0xFF" by (metis rev_replicate rev_rev_ident)
    with k have eq: "key @ replicate (KVED_MAX_KEY_SIZE - length key) 0 = replicate 7 0xFF" by simp
    then have "0 \<notin> set (key @ replicate (KVED_MAX_KEY_SIZE - length key) 0)" by simp
    then have "KVED_MAX_KEY_SIZE - length key = 0" by simp
    with eq assms(1) show False
      by (simp add: nv_key_ok_def KVED_MAX_KEY_SIZE_def KVED_FLASH_WORD_SIZE_def)
  qed
  show ?thesis
    using sig del free assms(2) by (simp add: kved_is_valid_key_def Let_def)
qed

lemma padded_inj:
  assumes "xs @ replicate a 0 = ys @ replicate b (0 :: u8)" "0 \<notin> set xs" "0 \<notin> set ys"
  shows "xs = ys"
  using takeWhile_nonzero_append_zeros [OF assms(2), of a] takeWhile_nonzero_append_zeros [OF assms(3), of b]
    assms(1) by metis

section \<open>Correctness over a backend\<close>

definition nv_inv ::
  "'s kved_flash_driver \<Rightarrow> ('s \<Rightarrow> bool) \<Rightarrow> nat \<Rightarrow> ('m, 's) oblfr_nvkvs_handle \<Rightarrow> bool" where
  "nv_inv drv ok n h \<longleftrightarrow> storage_driver h = drv \<and> kved_inv drv ok n (nv_ctrl h) (drv_arg h)"

definition nv_map ::
  "'s kved_flash_driver \<Rightarrow> nat \<Rightarrow> ('m, 's) oblfr_nvkvs_handle \<Rightarrow> kved_word \<rightharpoonup> kved_word \<times> kved_word" where
  "nv_map drv n h = kved_abs drv n (nv_ctrl h) (drv_arg h)"

lemma le_bytes_value:
  assumes "length val \<le> 8" "length pad = 64"
  shows "take (length val) (le_bytes 8 (value_u64 (val @ drop (length val) pad))) = val"
proof -
  let ?b = "take 8 (val @ drop (length val) pad)"
  have len: "length ?b = 8" using assms by simp
  have "8 * length ?b \<le> LENGTH(64)" unfolding len by simp
  from le_bytes_le_word [OF this] have "le_bytes 8 (value_u64 (val @ drop (length val) pad)) = ?b"
    unfolding len value_u64_def .
  then show ?thesis using assms by simp
qed

context kved_store
begin

lemma nvkvs_set_correct:
  assumes h: "nv_inv drv ok n h" and mut: "mutex_cycles api (mutex (nv_ctrl h))" and key: "nv_key_ok key"
    and type: "type < 11" "type \<noteq> KVED_DATA_TYPE_STRING"
    and same: "\<forall>t v. nv_map drv n h (nv_key_word key) = Some (t, v) \<longrightarrow> t = ucast type"
    and room: "card (dom (nv_map drv n h)) < n"
  shows "\<exists>h'. nvkvs_set api junk type val pad key h = Some (OBLFR_OK, h') \<and> nv_inv drv ok n h' \<and>
    mutex (nv_ctrl h') = mutex (nv_ctrl h) \<and>
    nv_map drv n h' = (nv_map drv n h)(nv_key_word key \<mapsto> (ucast type, value_u64 (val @ drop (length val) pad)))"
proof -
  let ?kv = "\<lparr>kv_value = val @ drop (length val) pad, kv_key = strncpy KVED_MAX_KEY_SIZE key, kv_type = type\<rparr>"
  obtain w where w: "kved_key_encode ?kv = Some w" using key_encode_Some [of ?kv] type by auto
  have mw: "KVED_HDR_MASK_KEY w = nv_key_word key" using mask_key_encode [OF w] by simp
  have "kved_is_valid_key (nv_ctrl h) w" using nv_key_valid [OF key mw] .
  then obtain c s where run: "kved_data_write api junk drv (nv_ctrl h) (?kv, drv_arg h) = Some (KVED_OK, c, ?kv, s)"
    "mutex c = mutex (nv_ctrl h)" "kved_inv drv ok n c s"
    "kved_abs drv n c s = (kved_abs drv n (nv_ctrl h) (drv_arg h))
       (nv_key_word key \<mapsto> (ucast type, value_u64 (val @ drop (length val) pad)))"
    using data_write_correct [of "nv_ctrl h" "drv_arg h" api ?kv w junk] h mut w mw type same room
    by (auto simp: nv_inv_def nv_map_def)
  then show ?thesis
    using h key by (auto simp: nvkvs_set_def nv_inv_def nv_map_def nv_key_ok_def Let_def)
qed

lemma nvkvs_get_correct:
  assumes h: "nv_inv drv ok n h" and mut: "mutex_cycles api (mutex (nv_ctrl h))" and key: "nv_key_ok key"
    and type: "type < 11" and out: "length out \<le> 8"
  shows "nvkvs_get api type out key h =
    Some (case nv_map drv n h (nv_key_word key) of
        None \<Rightarrow> (OBLFR_ERR_ERROR, out, h)
      | Some (t, v) \<Rightarrow> (OBLFR_OK, take (length out) (le_bytes 8 v), h))"
proof -
  let ?kv = "\<lparr>kv_value = replicate KVED_MAX_STRING_SIZE 0, kv_key = strncpy KVED_MAX_KEY_SIZE key, kv_type = type\<rparr>"
  obtain w where w: "kved_key_encode ?kv = Some w" using key_encode_Some [of ?kv] type by auto
  have mw: "KVED_HDR_MASK_KEY w = nv_key_word key" using mask_key_encode [OF w] by simp
  have v: "kved_is_valid_key (nv_ctrl h) w" using nv_key_valid [OF key mw] .
  show ?thesis
    using data_read_correct [of "nv_ctrl h" "drv_arg h" api ?kv w] h mut w mw v key out
    by (auto simp: nvkvs_get_def nv_inv_def nv_map_def nv_key_ok_def set_value_u64_def Let_def split: option.splits)
qed

lemma nvkvs_set_get:
  assumes h: "nv_inv drv ok n h" and mut: "mutex_cycles api (mutex (nv_ctrl h))" and key: "nv_key_ok key"
    and type: "type < 11" "type \<noteq> KVED_DATA_TYPE_STRING"
    and same: "\<forall>t v. nv_map drv n h (nv_key_word key) = Some (t, v) \<longrightarrow> t = ucast type"
    and room: "card (dom (nv_map drv n h)) < n" and val: "length val \<le> 8" "length pad = 64"
  shows "\<exists>h'. nvkvs_set api junk type val pad key h = Some (OBLFR_OK, h') \<and> nv_inv drv ok n h' \<and>
    mutex (nv_ctrl h') = mutex (nv_ctrl h) \<and>
    (\<forall>out. length out = length val \<longrightarrow> nvkvs_get api type out key h' = Some (OBLFR_OK, val, h')) \<and>
    (\<forall>key' type' out. nv_key_ok key' \<and> key' \<noteq> key \<and> type' < 11 \<and> length out \<le> 8 \<longrightarrow>
       map_option (\<lambda>(e, out, _). (e, out)) (nvkvs_get api type' out key' h') =
       map_option (\<lambda>(e, out, _). (e, out)) (nvkvs_get api type' out key' h))"
proof -
  obtain h' where h': "nvkvs_set api junk type val pad key h = Some (OBLFR_OK, h')" "nv_inv drv ok n h'"
    "mutex (nv_ctrl h') = mutex (nv_ctrl h)"
    "nv_map drv n h' = (nv_map drv n h)(nv_key_word key \<mapsto> (ucast type, value_u64 (val @ drop (length val) pad)))"
    using nvkvs_set_correct [OF h mut key type same room] by blast
  have mut': "mutex_cycles api (mutex (nv_ctrl h'))" using mut h'(3) by simp
  have "nvkvs_get api type out key h' = Some (OBLFR_OK, val, h')" if "length out = length val" for out
    using nvkvs_get_correct [OF h'(2) mut' key type(1), of out] that val le_bytes_value [OF val] h'(4) by simp
  moreover have "map_option (\<lambda>(e, out, _). (e, out)) (nvkvs_get api type' out key' h') =
       map_option (\<lambda>(e, out, _). (e, out)) (nvkvs_get api type' out key' h)"
    if k': "nv_key_ok key'" "key' \<noteq> key" and "type' < 11" "length out \<le> 8" for key' type' out
  proof -
    have "nv_key_word key' \<noteq> nv_key_word key"
      using k' key nv_key_word_inj [of key' key] by (auto simp: nv_key_ok_def strncpy_short dest: padded_inj)
    with that h'(4) show ?thesis
      using nvkvs_get_correct [OF h'(2) mut' k'(1), of type' out] nvkvs_get_correct [OF h mut k'(1), of type' out]
      by (simp split: option.splits)
  qed
  ultimately show ?thesis using h' by blast
qed

end

section \<open>On the RAM backend\<close>

lemma ram_set_get:
  fixes v v0 :: "'w::len word"
  assumes "nv_inv oblfr_kved_memory_driver memory_ok 23 h" "mutex_cycles api (mutex (nv_ctrl h))"
    "nv_key_ok key" "nv_map oblfr_kved_memory_driver 23 h (nv_key_word key) = None"
    "card (dom (nv_map oblfr_kved_memory_driver 23 h)) < 23" "length pad = 64"
    and type: "type < 11" "type \<noteq> KVED_DATA_TYPE_STRING" and sz: "sz \<le> 8" "LENGTH('w) \<le> 8 * sz"
  shows "\<exists>h'. nvkvs_set api junk type (le_bytes sz v) pad key h = Some (OBLFR_OK, h') \<and>
    map_option (\<lambda>(err, bs, h). (err, le_word bs, h)) (nvkvs_get api type (le_bytes sz v0) key h') =
      Some (OBLFR_OK, v, h')"
proof -
  obtain h' where "nvkvs_set api junk type (le_bytes sz v) pad key h = Some (OBLFR_OK, h')"
    "\<forall>out. length out = length (le_bytes sz v) \<longrightarrow> nvkvs_get api type out key h' = Some (OBLFR_OK, le_bytes sz v, h')"
    using ram.nvkvs_set_get [of h api key type "le_bytes sz v" pad junk] assms by auto
  then show ?thesis using le_word_le_bytes [OF sz(2), of v] by simp
qed

lemma numeric_types:
  "KVED_DATA_TYPE_UINT8 < 11" "KVED_DATA_TYPE_INT8 < 11" "KVED_DATA_TYPE_UINT16 < 11" "KVED_DATA_TYPE_INT16 < 11"
  "KVED_DATA_TYPE_UINT32 < 11" "KVED_DATA_TYPE_INT32 < 11" "KVED_DATA_TYPE_FLOAT < 11" "KVED_DATA_TYPE_UINT64 < 11"
  "KVED_DATA_TYPE_INT64 < 11" "KVED_DATA_TYPE_DOUBLE < 11"
  "KVED_DATA_TYPE_UINT8 \<noteq> KVED_DATA_TYPE_STRING" "KVED_DATA_TYPE_INT8 \<noteq> KVED_DATA_TYPE_STRING"
  "KVED_DATA_TYPE_UINT16 \<noteq> KVED_DATA_TYPE_STRING" "KVED_DATA_TYPE_INT16 \<noteq> KVED_DATA_TYPE_STRING"
  "KVED_DATA_TYPE_UINT32 \<noteq> KVED_DATA_TYPE_STRING" "KVED_DATA_TYPE_INT32 \<noteq> KVED_DATA_TYPE_STRING"
  "KVED_DATA_TYPE_FLOAT \<noteq> KVED_DATA_TYPE_STRING" "KVED_DATA_TYPE_UINT64 \<noteq> KVED_DATA_TYPE_STRING"
  "KVED_DATA_TYPE_INT64 \<noteq> KVED_DATA_TYPE_STRING" "KVED_DATA_TYPE_DOUBLE \<noteq> KVED_DATA_TYPE_STRING"
  by (simp_all add: kved_data_type_consts)

lemmas nvkvs_typed_defs =
  oblfr_nvkvs_set_u8_def oblfr_nvkvs_get_u8_def oblfr_nvkvs_set_i8_def oblfr_nvkvs_get_i8_def
  oblfr_nvkvs_set_u16_def oblfr_nvkvs_get_u16_def oblfr_nvkvs_set_i16_def oblfr_nvkvs_get_i16_def
  oblfr_nvkvs_set_u32_def oblfr_nvkvs_get_u32_def oblfr_nvkvs_set_i32_def oblfr_nvkvs_get_i32_def
  oblfr_nvkvs_set_u64_def oblfr_nvkvs_get_u64_def oblfr_nvkvs_set_i64_def oblfr_nvkvs_get_i64_def
  oblfr_nvkvs_set_float_def oblfr_nvkvs_get_float_def oblfr_nvkvs_set_double_def oblfr_nvkvs_get_double_def

text \<open>
  C5. Round trip of the typed API on the RAM backend: with a valid key that is not stored yet, fewer
  than 23 keys stored and the mutex free, every setter returns \<^verbatim>\<open>OBLFR_OK\<close>, and the getter of the
  same type then returns \<^verbatim>\<open>OBLFR_OK\<close> and the value that was set, for all ten value types, whatever
  the unspecified bytes of the union were.
\<close>

theorem ram_set_get_all_types:
  assumes "nv_inv oblfr_kved_memory_driver memory_ok 23 h" "mutex_cycles api (mutex (nv_ctrl h))"
    "nv_key_ok key" "nv_map oblfr_kved_memory_driver 23 h (nv_key_word key) = None"
    "card (dom (nv_map oblfr_kved_memory_driver 23 h)) < 23" "length pad = 64"
  shows
    "(\<exists>h'. oblfr_nvkvs_set_u8 api junk pad key a h = Some (OBLFR_OK, h') \<and>
       oblfr_nvkvs_get_u8 api key a0 h' = Some (OBLFR_OK, a, h')) \<and>
     (\<exists>h'. oblfr_nvkvs_set_i8 api junk pad key a h = Some (OBLFR_OK, h') \<and>
       oblfr_nvkvs_get_i8 api key a0 h' = Some (OBLFR_OK, a, h')) \<and>
     (\<exists>h'. oblfr_nvkvs_set_u16 api junk pad key b h = Some (OBLFR_OK, h') \<and>
       oblfr_nvkvs_get_u16 api key b0 h' = Some (OBLFR_OK, b, h')) \<and>
     (\<exists>h'. oblfr_nvkvs_set_i16 api junk pad key b h = Some (OBLFR_OK, h') \<and>
       oblfr_nvkvs_get_i16 api key b0 h' = Some (OBLFR_OK, b, h')) \<and>
     (\<exists>h'. oblfr_nvkvs_set_u32 api junk pad key c h = Some (OBLFR_OK, h') \<and>
       oblfr_nvkvs_get_u32 api key c0 h' = Some (OBLFR_OK, c, h')) \<and>
     (\<exists>h'. oblfr_nvkvs_set_i32 api junk pad key c h = Some (OBLFR_OK, h') \<and>
       oblfr_nvkvs_get_i32 api key c0 h' = Some (OBLFR_OK, c, h')) \<and>
     (\<exists>h'. oblfr_nvkvs_set_u64 api junk pad key d h = Some (OBLFR_OK, h') \<and>
       oblfr_nvkvs_get_u64 api key d0 h' = Some (OBLFR_OK, d, h')) \<and>
     (\<exists>h'. oblfr_nvkvs_set_i64 api junk pad key d h = Some (OBLFR_OK, h') \<and>
       oblfr_nvkvs_get_i64 api key d0 h' = Some (OBLFR_OK, d, h')) \<and>
     (\<exists>h'. oblfr_nvkvs_set_float api junk pad key c h = Some (OBLFR_OK, h') \<and>
       oblfr_nvkvs_get_float api key c0 h' = Some (OBLFR_OK, c, h')) \<and>
     (\<exists>h'. oblfr_nvkvs_set_double api junk pad key d h = Some (OBLFR_OK, h') \<and>
       oblfr_nvkvs_get_double api key d0 h' = Some (OBLFR_OK, d, h'))"
  unfolding nvkvs_typed_defs by (intro conjI ram_set_get assms numeric_types) simp_all

text \<open>A handle with no key stored.\<close>

definition ram_configure :: "oblfr_nvkvs_storage \<Rightarrow> (kved_memory kved_flash_driver \<times> kved_memory) option" where
  "ram_configure st =
     (case st of OBLFR_NVKVS_STORAGE_RAM \<Rightarrow> Some (oblfr_kved_memory_driver, ram_start)
      | OBLFR_NVKVS_STORAGE_FLASH \<Rightarrow> None)"

lemma ram_handle:
  obtains h where
    "oblfr_nvkvs_init freertos_mutex True True False ram_configure (Some OBLFR_NVKVS_STORAGE_RAM) = Some (Some h)"
    "nv_inv oblfr_kved_memory_driver memory_ok 23 h" "mutex (nv_ctrl h) = False"
    "nv_map oblfr_kved_memory_driver 23 h = Map.empty"
proof -
  obtain c s where "kved_init freertos_mutex True False oblfr_kved_memory_driver ram_start = Some (Some c, s)"
    "kved_inv oblfr_kved_memory_driver memory_ok 23 c s" "mutex c = False"
    "kved_abs oblfr_kved_memory_driver 23 c s = Map.empty"
    by (rule ram_run0)
  then show thesis
    by (intro that [of "\<lparr>storage_driver = oblfr_kved_memory_driver, drv_arg = s,
          nv_storage = OBLFR_NVKVS_STORAGE_RAM, nv_ctrl = c\<rparr>"])
       (simp_all add: oblfr_nvkvs_init_def ram_configure_def nv_inv_def nv_map_def)
qed

theorem ram_set_get_all_types_witness:
  "\<exists>h h'. oblfr_nvkvs_init freertos_mutex True True False ram_configure (Some OBLFR_NVKVS_STORAGE_RAM) = Some (Some h) \<and>
     oblfr_nvkvs_set_u32 freertos_mutex (\<lambda>_. sample) (replicate 64 9) [97, 98] 123456 h = Some (OBLFR_OK, h') \<and>
     oblfr_nvkvs_get_u32 freertos_mutex [97, 98] 0 h' = Some (OBLFR_OK, 123456, h')"
proof -
  obtain h where h: "oblfr_nvkvs_init freertos_mutex True True False ram_configure (Some OBLFR_NVKVS_STORAGE_RAM) = Some (Some h)"
    "nv_inv oblfr_kved_memory_driver memory_ok 23 h" "mutex (nv_ctrl h) = False"
    "nv_map oblfr_kved_memory_driver 23 h = Map.empty"
    by (rule ram_handle)
  have "nv_key_ok [97, 98]" by code_simp
  then show ?thesis
    using ram_set_get_all_types [of h freertos_mutex "[97, 98]" "replicate 64 9"] h freertos_mutex_cycles by auto
qed
section \<open>The iterator\<close>

text \<open>
  The loop a client runs: start with \<^verbatim>\<open>iter_init\<close>, go on with \<^verbatim>\<open>iter_next\<close> until it returns 0. The
  fuel bounds the number of calls; running out of it is \<^const>\<open>None\<close>.
\<close>

fun nv_visit ::
  "'m semphr_api \<Rightarrow> nat \<Rightarrow> u16 \<Rightarrow> ('m, 's) oblfr_nvkvs_handle \<Rightarrow>
   (u16 list \<times> ('m, 's) oblfr_nvkvs_handle) option" where
  "nv_visit api 0 iter h = None"
| "nv_visit api (Suc fuel) iter h =
     (if iter = 0 then Some ([], h)
      else
        do {
          (nxt, h) \<leftarrow> oblfr_nvkvs_iter_next api iter h;
          (rest, h) \<leftarrow> nv_visit api fuel nxt h;
          Some (iter # rest, h)
        })"

definition nv_iterate ::
  "'m semphr_api \<Rightarrow> nat \<Rightarrow> ('m, 's) oblfr_nvkvs_handle \<Rightarrow>
   (u16 list \<times> ('m, 's) oblfr_nvkvs_handle) option" where
  "nv_iterate api fuel h =
     do {
       (iter, h) \<leftarrow> oblfr_nvkvs_iter_init api h;
       nv_visit api fuel iter h
     }"

text \<open>The indices of the live slots, in order.\<close>

definition live_indices :: "'m kved_ctrl \<Rightarrow> slot list \<Rightarrow> u16 list" where
  "live_indices ctrl sl = map slot_index (filter (\<lambda>k. kved_is_valid_key ctrl (fst (sl ! k))) [0..<length sl])"

lemma length_live_indices: "length (live_indices ctrl sl) = length (live ctrl sl)"
proof -
  have "live ctrl sl = filter (\<lambda>e. kved_is_valid_key ctrl (fst e)) (map (nth sl) [0..<length sl])"
    by (simp add: live_def map_nth)
  then show ?thesis by (simp add: live_indices_def filter_map comp_def)
qed

lemma find_filter_upt:
  "find P [j..<n] = Some k \<Longrightarrow> j \<le> k \<and> k < n \<and> P k \<and> filter P [j..<n] = k # filter P [Suc k..<n]"
proof (induction "n - j" arbitrary: j)
  case 0
  then show ?case by simp
next
  case (Suc d)
  then have "j < n" by simp
  then have upt: "[j..<n] = j # [Suc j..<n]" by (simp add: upt_conv_Cons)
  show ?case
  proof (cases "P j")
    case True
    with Suc.prems \<open>j < n\<close> upt show ?thesis by simp
  next
    case False
    with Suc.prems upt have "find P [Suc j..<n] = Some k" by simp
    with Suc.hyps \<open>j < n\<close> False upt show ?thesis by (metis Suc_diff_Suc Suc_leD diff_Suc_1 filter.simps(2))
  qed
qed

context kved_store
begin

lemma used_index_correct:
  assumes "ctrl_ok n ctrl sl f" "j \<le> n"
  shows "kved_used_index_from drv (slot_index j) s ctrl =
    Some (case find (\<lambda>k. kved_is_valid_key ctrl (fst (kved_slots drv (sector ctrl) n s ! k))) [j..<n] of
        None \<Rightarrow> KVED_INDEX_NOT_FOUND | Some k \<Rightarrow> slot_index k)"
proof -
  let ?P = "\<lambda>index. kved_is_valid_key ctrl (header_read drv (sector ctrl) index s)"
  have "kved_used_index_from drv (slot_index j) s ctrl =
      for_list (\<lambda>index a. Some (if ?P index then Break index else Continue a)) (map slot_index [j..<n]) KVED_INDEX_NOT_FOUND"
    using assms n_bound by (simp add: kved_used_index_from_def slot_loop ctrl_ok_def)
  also have "\<dots> = Some (case find ?P (map slot_index [j..<n]) of None \<Rightarrow> KVED_INDEX_NOT_FOUND | Some i \<Rightarrow> i)"
    by (rule for_list_find)
  also have "find ?P (map slot_index [j..<n]) = map_option slot_index
      (find (\<lambda>k. kved_is_valid_key ctrl (fst (kved_slots drv (sector ctrl) n s ! k))) [j..<n])"
  proof -
    have "find ?P (map slot_index ks) = map_option slot_index (find (?P \<circ> slot_index) ks)" for ks
      by (induction ks) auto
    moreover have "find (?P \<circ> slot_index) [j..<n] =
        find (\<lambda>k. kved_is_valid_key ctrl (fst (kved_slots drv (sector ctrl) n s ! k))) [j..<n]"
      by (auto simp: nth_kved_slots intro!: find_cong)
    ultimately show ?thesis by simp
  qed
  finally show ?thesis by (simp split: option.splits)
qed

lemma locked_int_run:
  assumes "mutex_cycles api (mutex ctrl)" "\<And>m. body (ctrl\<lparr>mutex := m\<rparr>) = Some r"
  shows "kved_locked_int api body ctrl = Some (r, ctrl)"
  using assms by (auto elim!: mutex_cyclesE simp: kved_locked_int_def kved_cpu_critical_section_enter_def
      kved_cpu_critical_section_leave_def)

text \<open>One step of the iterator, from the slot before \<open>j\<close>.\<close>

lemma iter_step:
  assumes h: "nv_inv drv ok n h" and mut: "mutex_cycles api (mutex (nv_ctrl h))" and j: "j \<le> n"
  defines "P \<equiv> \<lambda>k. kved_is_valid_key (nv_ctrl h) (fst (kved_slots drv (sector (nv_ctrl h)) n (drv_arg h) ! k))"
  shows "kved_locked_int api (kved_used_index_from drv (slot_index j) (drv_arg h)) (nv_ctrl h) =
    Some (case find P [j..<n] of None \<Rightarrow> 0 | Some k \<Rightarrow> slot_index k, nv_ctrl h)"
proof (rule locked_int_run [OF mut])
  fix m
  obtain f where "ctrl_ok n (nv_ctrl h) (kved_slots drv (sector (nv_ctrl h)) n (drv_arg h)) f"
    using h by (auto simp: nv_inv_def kved_inv_def)
  then have "ctrl_ok n (nv_ctrl h\<lparr>mutex := m\<rparr>) (kved_slots drv (sector (nv_ctrl h)) n (drv_arg h)) f"
    by (simp add: ctrl_ok_def)
  from used_index_correct [OF this j, of "drv_arg h"]
  show "kved_used_index_from drv (slot_index j) (drv_arg h) (nv_ctrl h\<lparr>mutex := m\<rparr>) =
      Some (case find P [j..<n] of None \<Rightarrow> 0 | Some k \<Rightarrow> slot_index k)"
    by (simp add: P_def KVED_INDEX_NOT_FOUND_def cong: option.case_cong)
qed

lemma visit_correct:
  assumes h: "nv_inv drv ok n h" and mut: "mutex_cycles api (mutex (nv_ctrl h))"
  defines "P \<equiv> \<lambda>k. kved_is_valid_key (nv_ctrl h) (fst (kved_slots drv (sector (nv_ctrl h)) n (drv_arg h) ! k))"
  assumes "j \<le> n" "n - j < fuel"
  shows "nv_visit api fuel (case find P [j..<n] of None \<Rightarrow> 0 | Some k \<Rightarrow> slot_index k) h =
    Some (map slot_index (filter P [j..<n]), h)"
  using assms(4,5)
proof (induction fuel arbitrary: j)
  case 0
  then show ?case by simp
next
  case (Suc fuel)
  show ?case
  proof (cases "find P [j..<n]")
    case None
    then have "filter P [j..<n] = []" by (auto simp: find_None_iff filter_empty_conv)
    with None show ?thesis by simp
  next
    case (Some k)
    note k = find_filter_upt [OF Some]
    then have nz: "slot_index k \<noteq> 0" using n_bound by (intro slot_index_neq_0) simp
    have "oblfr_nvkvs_iter_next api (slot_index k) h =
        Some (case find P [Suc k..<n] of None \<Rightarrow> 0 | Some k \<Rightarrow> slot_index k, h)"
      using iter_step [OF h mut, of "Suc k"] k h
      by (simp add: oblfr_nvkvs_iter_next_def nvkvs_number_def kved_next_used_index_get_def nv_inv_def
          kved_internal_next_used_index_get_def [abs_def] slot_index_Suc KVED_ENTRY_SIZE_IN_WORDS_def P_def)
    moreover have "nv_visit api fuel (case find P [Suc k..<n] of None \<Rightarrow> 0 | Some k \<Rightarrow> slot_index k) h =
        Some (map slot_index (filter P [Suc k..<n]), h)"
      using Suc.prems k by (intro Suc.IH) arith+
    ultimately show ?thesis using Some nz k by simp
  qed
qed

lemma iterate_correct:
  assumes h: "nv_inv drv ok n h" and mut: "mutex_cycles api (mutex (nv_ctrl h))" and "n < fuel"
  shows "nv_iterate api fuel h =
    Some (live_indices (nv_ctrl h) (kved_slots drv (sector (nv_ctrl h)) n (drv_arg h)), h)"
proof -
  let ?P = "\<lambda>k. kved_is_valid_key (nv_ctrl h) (fst (kved_slots drv (sector (nv_ctrl h)) n (drv_arg h) ! k))"
  obtain f where co: "ctrl_ok n (nv_ctrl h) (kved_slots drv (sector (nv_ctrl h)) n (drv_arg h)) f"
    using h by (auto simp: nv_inv_def kved_inv_def)
  have "oblfr_nvkvs_iter_init api h = Some (case find ?P [0..<n] of None \<Rightarrow> 0 | Some k \<Rightarrow> slot_index k, h)"
  proof -
    have "kved_locked_int api (kved_internal_first_used_index_get drv (drv_arg h)) (nv_ctrl h) =
        Some (case find ?P [0..<n] of None \<Rightarrow> 0 | Some k \<Rightarrow> slot_index k, nv_ctrl h)"
    proof (rule locked_int_run [OF mut])
      fix m
      have "first_index (nv_ctrl h) = slot_index 0" using co by (simp add: ctrl_ok_def)
      moreover have "ctrl_ok n (nv_ctrl h\<lparr>mutex := m\<rparr>) (kved_slots drv (sector (nv_ctrl h)) n (drv_arg h)) f"
        using co by (simp add: ctrl_ok_def)
      from used_index_correct [OF this, of 0 "drv_arg h"]
      have "kved_used_index_from drv (slot_index 0) (drv_arg h) (nv_ctrl h\<lparr>mutex := m\<rparr>) =
          Some (case find ?P [0..<n] of None \<Rightarrow> 0 | Some k \<Rightarrow> slot_index k)"
        by (simp add: KVED_INDEX_NOT_FOUND_def cong: option.case_cong)
      ultimately show "kved_internal_first_used_index_get drv (drv_arg h) (nv_ctrl h\<lparr>mutex := m\<rparr>) =
          Some (case find ?P [0..<n] of None \<Rightarrow> 0 | Some k \<Rightarrow> slot_index k)"
        by (simp add: kved_internal_first_used_index_get_def)
    qed
    then show ?thesis
      using h by (simp add: oblfr_nvkvs_iter_init_def nvkvs_number_def kved_first_used_index_get_def nv_inv_def)
  qed
  with visit_correct [OF h mut, of 0 fuel] assms(3) show ?thesis
    by (simp add: nv_iterate_def live_indices_def)
qed

end

text \<open>
  C6. The iterator on the RAM backend: the loop over \<^verbatim>\<open>oblfr_nvkvs_iter_init\<close> and
  \<^verbatim>\<open>oblfr_nvkvs_iter_next\<close> ends after at most 23 entries, and visits every stored entry exactly
  once, in the order of the table.
\<close>

theorem ram_iterate:
  assumes "nv_inv oblfr_kved_memory_driver memory_ok 23 h" "mutex_cycles api (mutex (nv_ctrl h))"
  shows "nv_iterate api 24 h =
    Some (live_indices (nv_ctrl h) (kved_slots oblfr_kved_memory_driver (sector (nv_ctrl h)) 23 (drv_arg h)), h)"
  using assms by (intro ram.iterate_correct) simp_all

theorem ram_iterate_witness:
  "\<exists>h l. nv_inv oblfr_kved_memory_driver memory_ok 23 h \<and>
     nv_map oblfr_kved_memory_driver 23 h = [nv_key_word [97, 98] \<mapsto> (4, 5)] \<and>
     nv_iterate freertos_mutex 24 h = Some (l, h) \<and> length l = 1"
proof -
  obtain h where h: "nv_inv oblfr_kved_memory_driver memory_ok 23 h" "mutex (nv_ctrl h) = False"
    "nv_map oblfr_kved_memory_driver 23 h = Map.empty"
    by (rule ram_handle)
  have k: "nv_key_ok [97, 98]" by code_simp
  have v: "value_u64 ([5, 0, 0, 0] @ drop (length [5, 0, 0, 0 :: u8]) (replicate 64 0)) = 5" by code_simp
  obtain h' where h': "nv_inv oblfr_kved_memory_driver memory_ok 23 h'" "mutex (nv_ctrl h') = False"
    "nv_map oblfr_kved_memory_driver 23 h' = [nv_key_word [97, 98] \<mapsto> (4, 5)]"
    using ram.nvkvs_set_correct [of h freertos_mutex "[97, 98]" 4 "\<lambda>_. sample" "[5, 0, 0, 0]" "replicate 64 0"]
      h k v freertos_mutex_cycles by (auto simp: KVED_DATA_TYPE_STRING_def)
  let ?sl = "kved_slots oblfr_kved_memory_driver (sector (nv_ctrl h')) 23 (drv_arg h')"
  obtain f where "table_ok (nv_ctrl h') ?sl f" using h'(1) by (auto simp: nv_inv_def kved_inv_def)
  then have "card (dom (nv_map oblfr_kved_memory_driver 23 h')) = length (live (nv_ctrl h') ?sl)"
    using card_dom_kved_map [of "nv_ctrl h'" ?sl] by (simp add: nv_map_def kved_abs_def table_ok_def)
  then have "length (live_indices (nv_ctrl h') ?sl) = 1"
    using h'(3) by (simp add: length_live_indices)
  with ram_iterate [OF h'(1), of freertos_mutex] h' freertos_mutex_cycles show ?thesis by auto
qed

end
