(* ===== verification/Kved_Flash_Run.thy ===== *)
theory Kved_Flash_Run
  imports Kved_Flash
begin

text \<open>
  kved on NOR flash: the laws of the chip (locale \<open>nor_flash\<close>), the layout of the four sectors on it, and the proof that the
  flash backend keeps the contract of kved, from which the theorems of the database follow on flash.
\<close>

section \<open>NOR flash\<close>

text \<open>
  The driver configuration after its initialisation: flash sectors of \<open>2 ^ k\<close> bytes, \<open>me\<close> entries, and the start of the
  partition. \<open>cell f i\<close> is the byte at address \<open>i\<close> of a chip. A write clears the bits that are 0 in the data; an erase sets
  all bits of the range and touches at most the flash sectors that the range reaches into.
\<close>

locale nor_flash =
  fixes api :: "'f flash_api"
    and cell :: "'f \<Rightarrow> nat \<Rightarrow> u8"
    and good :: "'f \<Rightarrow> bool"
    and cfg :: oblfr_kved_flash_driver_t
    and k :: nat
  assumes k_range: "10 \<le> k" "k \<le> 16"
    and cfg_size: "flash_sector_size cfg = 2 ^ k"
    and entries_fit: "unat (flash_max_entries cfg) \<le> 2 ^ k div 16"
    and entries_strings: "2 ^ k div 16 - 1 \<le> 9 * unat (flash_max_entries cfg)"
    and base_pos: "0 < unat (flash_addr cfg AND NOT (2 ^ k - 1))"
    and partition_fits: "unat (flash_addr cfg AND NOT (2 ^ k - 1)) + 14 * 2 ^ k \<le> 2 ^ 32"
    and erase_law: "good f \<Longrightarrow> 2 ^ k dvd unat a \<Longrightarrow> unat (flash_addr cfg AND NOT (2 ^ k - 1)) \<le> unat a \<Longrightarrow>
      unat a + unat len \<le> unat (flash_addr cfg AND NOT (2 ^ k - 1)) + 14 * 2 ^ k \<Longrightarrow>
      fst (bflb_flash_erase api a len f) = 0 \<and> good (snd (bflb_flash_erase api a len f)) \<and>
      (\<forall>i. (unat a \<le> i \<and> i < unat a + unat len \<longrightarrow> cell (snd (bflb_flash_erase api a len f)) i = 0xFF) \<and>
        (i < unat a \<or> unat a + (unat len + 2 ^ k - 1) div 2 ^ k * 2 ^ k \<le> i \<longrightarrow>
          cell (snd (bflb_flash_erase api a len f)) i = cell f i))"
    and write_law: "good f \<Longrightarrow> unat (flash_addr cfg AND NOT (2 ^ k - 1)) \<le> unat a \<Longrightarrow>
      unat a + length bs \<le> unat (flash_addr cfg AND NOT (2 ^ k - 1)) + 14 * 2 ^ k \<Longrightarrow>
      fst (bflb_flash_write api a bs f) = 0 \<and> good (snd (bflb_flash_write api a bs f)) \<and>
      (\<forall>i. cell (snd (bflb_flash_write api a bs f)) i =
        (if unat a \<le> i \<and> i < unat a + length bs then cell f i AND bs ! (i - unat a) else cell f i))"
    and read_law: "good f \<Longrightarrow> unat (flash_addr cfg AND NOT (2 ^ k - 1)) \<le> unat a \<Longrightarrow>
      unat a + len' \<le> unat (flash_addr cfg AND NOT (2 ^ k - 1)) + 14 * 2 ^ k \<Longrightarrow>
      bflb_flash_read api a len' f = (0, map (cell f) [unat a..<unat a + len'])"
    and cfg_law: "good f \<Longrightarrow> flash_cfg_sector_size api f = of_nat (2 ^ k div 1024)"

text \<open>The layout: where a sector of the database starts, in flash sectors, and how many words it has.\<close>

fun flash_sectors_before :: "nat \<Rightarrow> nat \<Rightarrow> kved_flash_sector \<Rightarrow> nat" where
  "flash_sectors_before k me KVED_FLASH_SECTOR_A = 0"
| "flash_sectors_before k me KVED_FLASH_SECTOR_B = 2"
| "flash_sectors_before k me KVED_FLASH_STRING_SECTOR_A = 4"
| "flash_sectors_before k me KVED_FLASH_STRING_SECTOR_B = 5 + (72 * me + 16) div 2 ^ k"
| "flash_sectors_before k me KVED_FLASH_NUM_SECTORS = 0"

fun flash_words :: "nat \<Rightarrow> nat \<Rightarrow> kved_flash_sector \<Rightarrow> nat" where
  "flash_words k me KVED_FLASH_SECTOR_A = 2 ^ k div 8"
| "flash_words k me KVED_FLASH_SECTOR_B = 2 ^ k div 8"
| "flash_words k me KVED_FLASH_STRING_SECTOR_A = 9 * me + 2"
| "flash_words k me KVED_FLASH_STRING_SECTOR_B = 9 * me + 2"
| "flash_words k me KVED_FLASH_NUM_SECTORS = 0"

text \<open>The flash sectors that erasing a sector of the database may touch.\<close>

definition flash_span :: "nat \<Rightarrow> nat \<Rightarrow> kved_flash_sector \<Rightarrow> nat" where
  "flash_span k me sec = (8 * flash_words k me sec + 2 ^ k - 1) div 2 ^ k"

definition flash_ok :: "('f \<Rightarrow> bool) \<Rightarrow> oblfr_kved_flash_driver_t \<Rightarrow> 'f kved_flash \<Rightarrow> bool" where
  "flash_ok good cfg s \<longleftrightarrow> flash_drv s = cfg \<and> good (flash_chip s) \<and> \<not> flash_fault s"

lemma aligned_base: "(2 :: nat) ^ k dvd unat (a AND NOT (2 ^ k - 1 :: u32))"
proof -
  have "take_bit k (a AND NOT (2 ^ k - 1)) = 0"
    by (rule bit_word_eqI) (auto simp: bit_simps simp flip: mask_eq_exp_minus_1)
  then have "take_bit k (unat (a AND NOT (2 ^ k - 1))) = 0"
    by (metis unsigned_0 unsigned_take_bit_eq)
  then show ?thesis by (simp add: take_bit_eq_mod dvd_eq_mod_eq_0)
qed

lemma ceil_div: "(x + d - 1) div d \<le> x div d + (1 :: nat)" "0 < d \<Longrightarrow> x \<le> (x + d - 1) div d * d"
proof -
  show "(x + d - 1) div d \<le> x div d + (1 :: nat)"
  proof (cases "d = 0")
    case False
    then have "(x + d - 1) div d \<le> (x + d) div d" by (intro div_le_mono) simp
    with False show ?thesis by (simp add: div_add_self2)
  qed simp
  show "x \<le> (x + d - 1) div d * d" if "0 < d"
  proof -
    have "x + d - 1 < ((x + d - 1) div d + 1) * d" using that by (metis Suc_eq_plus1 dividend_less_div_times mult.commute add.commute mult_Suc_right)
    with that show ?thesis by (simp add: algebra_simps)
  qed
qed

text \<open>Sectors do not overlap, not even in the flash sectors that are erased with them.\<close>

lemma flash_layout:
  assumes k: "10 \<le> k" and me: "me \<le> 2 ^ k div 16" and neq: "sec \<noteq> sec'" and w: "0 < flash_words k me sec" "0 < flash_words k me sec'"
  shows "flash_sectors_before k me sec + flash_span k me sec \<le> flash_sectors_before k me sec' \<or>
    flash_sectors_before k me sec' + flash_span k me sec' \<le> flash_sectors_before k me sec"
proof -
  have "8 dvd (2 :: nat) ^ k" using k le_imp_power_dvd [of 3 k "2 :: nat"] by simp
  then have "8 * (2 ^ k div 8) = (2 :: nat) ^ k" by simp
  then have one: "flash_span k me KVED_FLASH_SECTOR_A \<le> 2" "flash_span k me KVED_FLASH_SECTOR_B \<le> 2"
    using ceil_div(1) [of "2 ^ k" "2 ^ k"] by (simp_all add: flash_span_def)
  have str: "flash_span k me KVED_FLASH_STRING_SECTOR_A \<le> 1 + (72 * me + 16) div 2 ^ k"
    using ceil_div(1) [of "72 * me + 16" "2 ^ k"] by (simp add: flash_span_def algebra_simps)
  show ?thesis using one str neq w by (cases sec; cases sec') auto
qed

lemma flash_span_end:
  assumes k: "10 \<le> k" and me: "me \<le> 2 ^ k div 16" and w: "0 < flash_words k me sec"
  shows "flash_sectors_before k me sec + flash_span k me sec \<le> 14"
proof -
  have p: "(2 :: nat) ^ 10 \<le> 2 ^ k" using k by (intro power_increasing) auto
  then have "72 * me + 16 < 5 * 2 ^ k" using me by auto
  then have "(72 * me + 16) div 2 ^ k < 5" by (simp add: less_mult_imp_div_less)
  moreover have "8 dvd (2 :: nat) ^ k" using k le_imp_power_dvd [of 3 k "2 :: nat"] by simp
  then have "8 * (2 ^ k div 8) = (2 :: nat) ^ k" by simp
  then have "flash_span k me KVED_FLASH_SECTOR_A \<le> 2" "flash_span k me KVED_FLASH_SECTOR_B \<le> 2"
    using ceil_div(1) [of "2 ^ k" "2 ^ k"] by (simp_all add: flash_span_def)
  moreover have "flash_span k me KVED_FLASH_STRING_SECTOR_A \<le> 1 + (72 * me + 16) div 2 ^ k"
    "flash_span k me KVED_FLASH_STRING_SECTOR_B \<le> 1 + (72 * me + 16) div 2 ^ k"
    using ceil_div(1) [of "72 * me + 16" "2 ^ k"] by (simp_all add: flash_span_def algebra_simps)
  ultimately show ?thesis using w by (cases sec) auto
qed
context nor_flash
begin

definition me :: nat where "me = unat (flash_max_entries cfg)"

definition base :: nat where "base = unat (flash_addr cfg AND NOT (2 ^ k - 1))"

definition start :: "kved_flash_sector \<Rightarrow> nat" where "start sec = base + flash_sectors_before k me sec * 2 ^ k"

lemma size_nat: "(2 :: nat) ^ 10 \<le> 2 ^ k" "(2 :: nat) ^ k \<le> 65536" "8 dvd (2 :: nat) ^ k"
  using k_range power_increasing [of 10 k "2 :: nat"] power_increasing [of k 16 "2 :: nat"] le_imp_power_dvd [of 3 k "2 :: nat"]
  by simp_all

lemma unat_size: "unat (2 ^ k :: u32) = 2 ^ k"
proof -
  have "unat (of_nat (2 ^ k) :: u32) = 2 ^ k" using size_nat(2) by (simp only: unat_of_nat) simp
  then show ?thesis by simp
qed

lemma me_bounds: "me \<le> 2 ^ k div 16" "me \<le> 4096" "2 ^ k div 16 - 1 \<le> 9 * me" "0 < me"
proof -
  show e: "me \<le> 2 ^ k div 16" "2 ^ k div 16 - 1 \<le> 9 * me" using entries_fit entries_strings by (simp_all add: me_def)
  then show "me \<le> 4096" using size_nat(2) by linarith
  show "0 < me" using e(2) size_nat(1) by (cases me) auto
qed

lemma sector_bytes:
  assumes "flash_ok good cfg s" "0 < flash_words k me sec"
  shows "unat (oblfr_kved_flash_sector_size sec s) = 8 * flash_words k me sec"
proof -
  have "unat (flash_max_entries cfg * 64 + (flash_max_entries cfg + 2) * 8) = 8 * (9 * me + 2)"
    using me_bounds(2) by (simp add: me_def unat_word_ariths)
  moreover have "unat (2 ^ k :: u32) = 8 * (2 ^ k div 8)" using unat_size size_nat(3) by simp
  ultimately show ?thesis
    using assms by (cases sec) (simp_all add: oblfr_kved_flash_sector_size_def flash_ok_def cfg_size KVED_MAX_STRING_SIZE_def KVED_FLASH_WORD_SIZE_def)
qed

lemma unat_sectors_for:
  assumes "flash_ok good cfg s" "0 < flash_words k me sec"
  shows "unat (sectors_for sec s) = 8 * flash_words k me sec div 2 ^ k + 1"
proof -
  have "8 * flash_words k me sec < 5 * 2 ^ k"
    using me_bounds(1) size_nat by (cases sec) auto
  then have q: "8 * flash_words k me sec div 2 ^ k < 5" by (simp add: less_mult_imp_div_less)
  have "unat (oblfr_kved_flash_sector_size sec s div flash_sector_size (flash_drv s)) = 8 * flash_words k me sec div 2 ^ k"
    using assms sector_bytes [OF assms] unat_size by (simp add: unat_div flash_ok_def cfg_size)
  with q show ?thesis by (simp add: sectors_for_def unat_word_ariths unsigned_ucast_eq unsigned_take_bit_eq take_bit_nat_eq_self)
qed

lemma unat_sectors_required:
  assumes "flash_ok good cfg s"
  shows "unat (sectors_required sec s) = flash_sectors_before k me sec"
proof -
  have w: "0 < flash_words k me KVED_FLASH_SECTOR_A" "0 < flash_words k me KVED_FLASH_SECTOR_B"
    "0 < flash_words k me KVED_FLASH_STRING_SECTOR_A"
    using size_nat(1) by simp_all
  have one: "unat (sectors_for KVED_FLASH_SECTOR_A s) = 2" "unat (sectors_for KVED_FLASH_SECTOR_B s) = 2"
    using unat_sectors_for [OF assms] w size_nat(3) by simp_all
  have str: "unat (sectors_for KVED_FLASH_STRING_SECTOR_A s) = (72 * me + 16) div 2 ^ k + 1"
    using unat_sectors_for [OF assms w(3)] by (simp add: algebra_simps)
  have "72 * me + 16 < 5 * 2 ^ k" using me_bounds(1) size_nat by auto
  then have "(72 * me + 16) div 2 ^ k < 5" by (simp add: less_mult_imp_div_less)
  with one str show ?thesis by (cases sec) (simp_all add: unat_word_ariths)
qed

lemma region:
  assumes "0 < flash_words k me sec"
  shows "start sec + flash_span k me sec * 2 ^ k \<le> base + 14 * 2 ^ k" "8 * flash_words k me sec \<le> flash_span k me sec * 2 ^ k"
    "base + 14 * 2 ^ k \<le> 2 ^ 32"
proof -
  have "(flash_sectors_before k me sec + flash_span k me sec) * 2 ^ k \<le> 14 * 2 ^ k"
    using flash_span_end [OF k_range(1) me_bounds(1) assms] by (intro mult_right_mono) simp_all
  then show "start sec + flash_span k me sec * 2 ^ k \<le> base + 14 * 2 ^ k" by (simp add: start_def algebra_simps)
  show "8 * flash_words k me sec \<le> flash_span k me sec * 2 ^ k" unfolding flash_span_def by (rule ceil_div) simp
  show "base + 14 * 2 ^ k \<le> 2 ^ 32" using partition_fits by (simp add: base_def)
qed

lemma unat_sector_addr:
  assumes "flash_ok good cfg s" "unat i < flash_words k me sec"
  shows "unat (get_sector_addr sec i s) = start sec + 8 * unat i"
proof -
  have w: "0 < flash_words k me sec" using assms(2) by simp
  have lim: "start sec + 8 * unat i < 2 ^ 32" using region [OF w] assms(2) by simp
  have r: "unat (ucast (sectors_required sec s) :: u32) = flash_sectors_before k me sec" "unat (ucast i :: u32) = unat i"
    using unat_sectors_required [OF assms(1), of sec] unsigned_less [of i, where 'a = nat]
      unsigned_less [of "sectors_required sec s", where 'a = nat]
    by (simp_all add: unsigned_ucast_eq unsigned_take_bit_eq take_bit_nat_eq_self)
  have "unat (get_sector_addr sec i s) = (base + flash_sectors_before k me sec * 2 ^ k + 8 * unat i) mod 2 ^ 32"
    using assms(1) r unat_size
    by (simp add: get_sector_addr_def flash_ok_def cfg_size KVED_FLASH_WORD_SIZE_def unat_word_ariths base_def mod_simps)
  with lim show ?thesis by (simp add: start_def)
qed

lemma sector_addr_nonzero:
  assumes "flash_ok good cfg s" "unat i < flash_words k me sec"
  shows "get_sector_addr sec i s \<noteq> 0"
  using unat_sector_addr [OF assms] base_pos by (auto simp: start_def base_def)

lemma disjoint:
  assumes "unat i < flash_words k me sec" "unat j < flash_words k me sec'" "sec \<noteq> sec'"
  shows "start sec + flash_span k me sec * 2 ^ k \<le> start sec' \<or> start sec' + flash_span k me sec' * 2 ^ k \<le> start sec"
proof -
  have "flash_sectors_before k me sec + flash_span k me sec \<le> flash_sectors_before k me sec' \<or>
      flash_sectors_before k me sec' + flash_span k me sec' \<le> flash_sectors_before k me sec"
    using assms by (intro flash_layout k_range(1) me_bounds(1)) auto
  then have "(flash_sectors_before k me sec + flash_span k me sec) * 2 ^ k \<le> flash_sectors_before k me sec' * 2 ^ k \<or>
      (flash_sectors_before k me sec' + flash_span k me sec') * 2 ^ k \<le> flash_sectors_before k me sec * 2 ^ k"
    by auto
  then show ?thesis by (simp add: start_def algebra_simps)
qed

end
lemma le_word_and:
  assumes "length bs = length cs"
  shows "(le_word (map2 (AND) bs cs) :: 'a :: len word) = le_word bs AND le_word cs"
  using assms
proof (induction bs cs rule: list_induct2)
  case (Cons b bs c cs)
  have "le_word (map2 (AND) (b # bs) (c # cs)) = (ucast (b AND c) OR push_bit 8 (le_word bs AND le_word cs) :: 'a word)"
    by (simp add: Cons.IH)
  also have "\<dots> = le_word (b # bs) AND le_word (c # cs)"
    by (rule bit_word_eqI) (auto simp: bit_simps dest: bit_imp_le_length)
  finally show ?case .
qed simp

lemma le_word_ones: "le_word (replicate 8 0xFF) = (NOT 0 :: u64)"
  by code_simp

context nor_flash
begin

lemma read_word:
  assumes "flash_ok good cfg s" "unat i < flash_words k me sec"
  shows "oblfr_kved_flash_header_read api sec i s = le_word (map (cell (flash_chip s)) [start sec + 8 * unat i..<start sec + 8 * unat i + 8])"
proof -
  have w: "0 < flash_words k me sec" using assms(2) by simp
  have "bflb_flash_read api (get_sector_addr sec i s) 8 (flash_chip s) =
      (0, map (cell (flash_chip s)) [start sec + 8 * unat i..<start sec + 8 * unat i + 8])"
    using read_law [of "flash_chip s" "get_sector_addr sec i s" 8] assms region [OF w] unat_sector_addr [OF assms]
    by (simp add: flash_ok_def start_def base_def)
  then show ?thesis by (simp add: oblfr_kved_flash_header_read_def KVED_FLASH_WORD_SIZE_def)
qed

lemma write_word:
  assumes "flash_ok good cfg s" "unat i < flash_words k me sec"
  shows "flash_ok good cfg (oblfr_kved_flash_header_write api sec i d s) \<and>
    (\<forall>x. cell (flash_chip (oblfr_kved_flash_header_write api sec i d s)) x =
      (if start sec + 8 * unat i \<le> x \<and> x < start sec + 8 * unat i + 8
       then cell (flash_chip s) x AND le_bytes 8 d ! (x - (start sec + 8 * unat i)) else cell (flash_chip s) x))"
proof -
  have w: "0 < flash_words k me sec" using assms(2) by simp
  have len: "length (le_bytes 8 d) = 8" by simp
  show ?thesis
    using write_law [of "flash_chip s" "get_sector_addr sec i s" "le_bytes 8 d"] assms region [OF w] unat_sector_addr [OF assms] len
    by (simp add: flash_ok_def start_def base_def oblfr_kved_flash_header_write_def KVED_FLASH_WORD_SIZE_def del: le_bytes.simps)
qed

lemma read_written:
  assumes "flash_ok good cfg s" "unat i < flash_words k me sec"
  shows "oblfr_kved_flash_header_read api sec i (oblfr_kved_flash_header_write api sec i d s) =
    oblfr_kved_flash_header_read api sec i s AND d"
proof -
  let ?a = "start sec + 8 * unat i"
  have "map (cell (flash_chip (oblfr_kved_flash_header_write api sec i d s))) [?a..<?a + 8] =
      map2 (AND) (map (cell (flash_chip s)) [?a..<?a + 8]) (le_bytes 8 d)"
    using write_word [OF assms] by (intro nth_equalityI) (simp_all del: le_bytes.simps upt_Suc)
  then show ?thesis
    using read_word [OF assms] read_word [OF conjunct1 [OF write_word [OF assms]] assms(2)]
    by (simp add: le_word_and le_word_le_bytes del: le_bytes.simps upt_Suc)
qed

lemma apart:
  assumes "unat i < flash_words k me sec" "unat j < flash_words k me sec'" "(sec', j) \<noteq> (sec, i)"
  shows "start sec' + 8 * unat j + 8 \<le> start sec + 8 * unat i \<or> start sec + 8 * unat i + 8 \<le> start sec' + 8 * unat j"
proof (cases "sec' = sec")
  case True
  with assms(3) have "unat j \<noteq> unat i" by (simp add: word_unat_eq_iff)
  with True show ?thesis by (cases "unat i < unat j") auto
next
  case False
  then have "start sec + flash_span k me sec * 2 ^ k \<le> start sec' \<or> start sec' + flash_span k me sec' * 2 ^ k \<le> start sec"
    using disjoint [OF assms(1,2)] by simp
  moreover have "8 * unat i + 8 \<le> flash_span k me sec * 2 ^ k" "8 * unat j + 8 \<le> flash_span k me sec' * 2 ^ k"
    using region(2) [of sec] region(2) [of sec'] assms(1,2) by linarith+
  ultimately show ?thesis by linarith
qed

lemma read_other:
  assumes "flash_ok good cfg s" "unat i < flash_words k me sec" "unat j < flash_words k me sec'" "(sec', j) \<noteq> (sec, i)"
  shows "oblfr_kved_flash_header_read api sec' j (oblfr_kved_flash_header_write api sec i d s) =
    oblfr_kved_flash_header_read api sec' j s"
proof -
  have "map (cell (flash_chip (oblfr_kved_flash_header_write api sec i d s))) [start sec' + 8 * unat j..<start sec' + 8 * unat j + 8] =
      map (cell (flash_chip s)) [start sec' + 8 * unat j..<start sec' + 8 * unat j + 8]"
    using write_word [OF assms(1,2)] apart [OF assms(2-4)] by auto
  then show ?thesis
    unfolding read_word [OF assms(1,3)] read_word [OF conjunct1 [OF write_word [OF assms(1,2)]] assms(3)] by (rule arg_cong)
qed

lemma erase_cells:
  assumes "flash_ok good cfg s" "0 < flash_words k me sec"
  shows "flash_ok good cfg (snd (oblfr_kved_flash_sector_erase api sec s)) \<and> fst (oblfr_kved_flash_sector_erase api sec s) \<and>
    (\<forall>x. (start sec \<le> x \<and> x < start sec + 8 * flash_words k me sec \<longrightarrow>
        cell (flash_chip (snd (oblfr_kved_flash_sector_erase api sec s))) x = 0xFF) \<and>
      (x < start sec \<or> start sec + flash_span k me sec * 2 ^ k \<le> x \<longrightarrow>
        cell (flash_chip (snd (oblfr_kved_flash_sector_erase api sec s))) x = cell (flash_chip s) x))"
proof -
  have a: "unat (get_sector_addr sec 0 s) = start sec" using unat_sector_addr [OF assms(1), of 0 sec] assms(2) by simp
  have dvd: "2 ^ k dvd start sec"
    using aligned_base [of k "flash_addr cfg"] by (simp add: start_def base_def)
  have len: "unat (oblfr_kved_flash_sector_size sec s) = 8 * flash_words k me sec" by (rule sector_bytes [OF assms])
  have lim: "start sec + 8 * flash_words k me sec \<le> base + 14 * 2 ^ k" "base \<le> start sec"
    using region [OF assms(2)] by (simp_all add: start_def)
  show ?thesis
    using erase_law [of "flash_chip s" "get_sector_addr sec 0 s" "oblfr_kved_flash_sector_size sec s"] assms(1) dvd lim
    unfolding a len flash_span_def
    by (simp add: flash_ok_def oblfr_kved_flash_sector_erase_def base_def case_prod_beta)
qed

lemma read_erased:
  assumes "flash_ok good cfg s" "unat i < flash_words k me sec"
  shows "oblfr_kved_flash_header_read api sec i (snd (oblfr_kved_flash_sector_erase api sec s)) = NOT 0"
proof -
  have w: "0 < flash_words k me sec" using assms(2) by simp
  note e = erase_cells [OF assms(1) w]
  have "map (cell (flash_chip (snd (oblfr_kved_flash_sector_erase api sec s)))) [start sec + 8 * unat i..<start sec + 8 * unat i + 8] =
      replicate 8 0xFF"
    using e assms(2) by (intro nth_equalityI) (simp_all del: upt_Suc replicate_Suc)
  then show ?thesis using read_word [OF conjunct1 [OF e] assms(2)] le_word_ones by simp
qed

lemma read_erased_other:
  assumes "flash_ok good cfg s" "0 < flash_words k me sec" "unat j < flash_words k me sec'" "sec' \<noteq> sec"
  shows "oblfr_kved_flash_header_read api sec' j (snd (oblfr_kved_flash_sector_erase api sec s)) = oblfr_kved_flash_header_read api sec' j s"
proof -
  note e = erase_cells [OF assms(1,2)]
  have z: "unat (0 :: u16) < flash_words k me sec" using assms(2) by simp
  have "start sec' + 8 * unat j + 8 \<le> start sec \<or> start sec + flash_span k me sec * 2 ^ k \<le> start sec' + 8 * unat j"
    using disjoint [OF z assms(3)] assms(4) region(2) [of sec'] assms(3) by force
  then have "map (cell (flash_chip (snd (oblfr_kved_flash_sector_erase api sec s)))) [start sec' + 8 * unat j..<start sec' + 8 * unat j + 8] =
      map (cell (flash_chip s)) [start sec' + 8 * unat j..<start sec' + 8 * unat j + 8]"
    using e by auto
  then show ?thesis unfolding read_word [OF conjunct1 [OF e] assms(3)] read_word [OF assms(1,3)] by (rule arg_cong)
qed

end
sublocale nor_flash \<subseteq> flash: kved_store "oblfr_kved_flash_driver api" "flash_ok good cfg" "flash_words k me" "2 ^ k div 16 - 1"
proof (unfold_locales, goal_cases)
  case (1 sec)
  then show ?case using size_nat me_bounds by (cases sec) auto
next
  case (2 s i sec d)
  then show ?case using write_word by (simp add: oblfr_kved_flash_driver_def)
next
  case (3 s i sec d)
  then show ?case by (simp add: oblfr_kved_flash_driver_def read_written)
next
  case (4 s i sec j sec' d)
  then show ?case by (simp add: oblfr_kved_flash_driver_def read_other)
next
  case (5 s sec)
  then show ?case using erase_cells by (simp add: oblfr_kved_flash_driver_def)
next
  case (6 s i sec)
  then show ?case by (simp add: oblfr_kved_flash_driver_def read_erased)
next
  case (7 s sec i sec')
  then show ?case by (simp add: oblfr_kved_flash_driver_def read_erased_other)
next
  case (8 sec' sec i d s)
  then show ?case by (simp add: oblfr_kved_flash_driver_def oblfr_kved_flash_sector_size_def oblfr_kved_flash_header_write_def)
next
  case (9 sec' sec s)
  then show ?case by (simp add: oblfr_kved_flash_driver_def oblfr_kved_flash_sector_size_def oblfr_kved_flash_sector_erase_def case_prod_beta)
next
  case 10
  then show ?case using size_nat(1) by simp
next
  case 11
  then show ?case using size_nat(2) by auto
next
  case (12 sec)
  then show ?case using size_nat(1) by auto
next
  case (13 sec)
  then show ?case using me_bounds(3) by auto
next
  case (14 s sec)
  have "unat (2 ^ k div 8 - 2 :: u32) = 2 ^ k div 8 - 2"
    using size_nat(1) unat_size by (simp add: unat_sub word_le_nat_alt unat_div)
  moreover have "2 ^ k div 8 - 2 < (65536 :: nat)" using size_nat(2) by auto
  ultimately have "unat (kved_last_index_of (2 ^ k)) = 2 ^ k div 8 - 2"
    by (simp add: kved_last_index_of_def KVED_FLASH_WORD_SIZE_def KVED_HDR_SIZE_IN_WORDS_def unsigned_ucast_eq unsigned_take_bit_eq take_bit_nat_eq_self)
  moreover have "2 * (2 ^ k div 16 - 1) \<le> 2 ^ k div 8 - (2 :: nat)" "2 ^ k div 8 - 2 < 2 * (2 ^ k div 16 - 1) + (2 :: nat)"
    using size_nat(1) by auto
  moreover have "sector_size (oblfr_kved_flash_driver api) sec s = 2 ^ k"
    using 14 by (auto simp: oblfr_kved_flash_driver_def oblfr_kved_flash_sector_size_def flash_ok_def cfg_size)
  ultimately show ?case by simp
qed

lemma kved_init_again:
  assumes "drv_init drv s = (True, s1)" "drv_init drv s1 = (True, s1)"
  shows "kved_init api True m drv s = kved_init api True m drv s1"
  using assms by (simp add: kved_init_def)

context nor_flash
begin

text \<open>The initialisation of the driver leads to the configuration of the locale, and keeps it.\<close>

lemma cfg_sector_size: "good f \<Longrightarrow> ucast (flash_cfg_sector_size api f) * 1024 = (2 ^ k :: u32)"
proof -
  assume "good f"
  then have c: "flash_cfg_sector_size api f = of_nat (2 ^ k div 1024)" by (rule cfg_law)
  have "(2 :: nat) ^ 10 dvd 2 ^ k" using k_range(1) by (rule le_imp_power_dvd)
  then have d: "2 ^ k div 1024 * 1024 = (2 :: nat) ^ k" by simp
  have "unat (of_nat (2 ^ k div 1024) :: u8) = 2 ^ k div 1024" using size_nat(2) by (simp only: unat_of_nat) simp
  then have "unat (ucast (flash_cfg_sector_size api f) :: u32) = 2 ^ k div 1024"
    using size_nat(2) unfolding c by (simp add: unsigned_ucast_eq unsigned_take_bit_eq take_bit_nat_eq_self)
  then have "unat (ucast (flash_cfg_sector_size api f) * 1024 :: u32) = 2 ^ k"
    using d size_nat(2) by (simp add: unat_word_ariths)
  then show ?thesis using unat_size by (simp add: word_unat_eq_iff)
qed

lemma unat_fit: "unat ((2 ^ k :: u32) div 16) = 2 ^ k div 16"
  using unat_size by (simp add: unat_div)

lemma boot_init:
  assumes "flash_ok good cfg s" "flash_addr c = flash_addr cfg"
    and "flash_max_entries c = flash_max_entries cfg \<or> flash_max_entries c = 0 \<and> me = 2 ^ k div 16"
  shows "oblfr_kved_flash_init api (oblfr_kved_flash_configure c (flash_chip s)) = (True, s)"
proof -
  have g: "good (flash_chip s)" and d: "flash_drv s = cfg" "\<not> flash_fault s" using assms(1) by (simp_all add: flash_ok_def)
  have nz: "flash_max_entries cfg \<noteq> 0" using me_bounds(4) by (auto simp: me_def)
  have le: "\<not> (2 ^ k :: u32) div 16 < flash_max_entries cfg"
    using entries_fit unat_fit by (simp add: word_less_nat_alt)
  have full: "(2 ^ k :: u32) div 16 = flash_max_entries cfg" if "me = 2 ^ k div 16"
    using that unat_fit by (simp add: word_unat_eq_iff me_def)
  have same: "c\<lparr>flash_sector_size := 2 ^ k, flash_max_entries := flash_max_entries cfg\<rparr> = cfg"
    "flash_max_entries c = flash_max_entries cfg \<Longrightarrow> c\<lparr>flash_sector_size := 2 ^ k\<rparr> = cfg"
    using assms(2) cfg_size by (cases c; cases cfg; simp)+
  have "\<lparr>flash_drv = cfg, flash_chip = flash_chip s, flash_fault = False\<rparr> = s" using d by (cases s) simp
  with assms(3) nz le full same cfg_sector_size [OF g] show ?thesis
    by (auto simp: oblfr_kved_flash_init_def oblfr_kved_flash_configure_def KVED_FLASH_WORD_SIZE_def Let_def)
qed

lemma init_same: "flash_ok good cfg s \<Longrightarrow> oblfr_kved_flash_init api s = (True, s)"
  using boot_init [of s cfg] by (cases s) (simp add: oblfr_kved_flash_configure_def flash_ok_def)

lemma kved_boot:
  assumes "flash_ok good cfg s" "flash_addr c = flash_addr cfg"
    and "flash_max_entries c = flash_max_entries cfg \<or> flash_max_entries c = 0 \<and> me = 2 ^ k div 16"
  shows "kved_init mapi True m (oblfr_kved_flash_driver api) (oblfr_kved_flash_configure c (flash_chip s)) =
    kved_init mapi True m (oblfr_kved_flash_driver api) s"
  by (rule kved_init_again) (simp_all add: oblfr_kved_flash_driver_def boot_init [OF assms] init_same [OF assms(1)])

lemma max_entries_nonzero: "(ucast (flash_max_entries cfg) :: u16) \<noteq> 0"
proof -
  have "unat (ucast (flash_max_entries cfg) :: u16) = me"
    using me_bounds(2) by (simp add: me_def unsigned_ucast_eq unsigned_take_bit_eq take_bit_nat_eq_self)
  then show ?thesis using me_bounds(4) by auto
qed

lemma data_write_flash:
  assumes "kved_inv (oblfr_kved_flash_driver api) (flash_ok good cfg) (2 ^ k div 16 - 1) ctrl s" "mutex_cycles mapi (mutex ctrl)"
    "kved_key_encode data = Some key" "kved_is_valid_key ctrl key" "kv_type data \<noteq> KVED_DATA_TYPE_STRING"
    "\<forall>t v. kved_abs (oblfr_kved_flash_driver api) (2 ^ k div 16 - 1) ctrl s (KVED_HDR_MASK_KEY key) = Some (t, v) \<longrightarrow>
       t = ucast (kv_type data)"
    "card (dom (kved_abs (oblfr_kved_flash_driver api) (2 ^ k div 16 - 1) ctrl s)) < 2 ^ k div 16 - 1"
  shows "\<exists>ctrl' s'. kved_data_write mapi junk (oblfr_kved_flash_driver api) ctrl (data, s) = Some (KVED_OK, ctrl', data, s') \<and>
    mutex ctrl' = mutex ctrl \<and> kved_inv (oblfr_kved_flash_driver api) (flash_ok good cfg) (2 ^ k div 16 - 1) ctrl' s' \<and>
    drv_max_entries ctrl' = drv_max_entries ctrl \<and>
    kved_abs (oblfr_kved_flash_driver api) (2 ^ k div 16 - 1) ctrl' s' =
      (kved_abs (oblfr_kved_flash_driver api) (2 ^ k div 16 - 1) ctrl s)
        (KVED_HDR_MASK_KEY key \<mapsto> (ucast (kv_type data), value_u64 (kv_value data)))"
  using assms by (rule flash.data_write_correct)

lemma restart_flash:
  assumes inv: "kved_inv (oblfr_kved_flash_driver api) (flash_ok good cfg) (2 ^ k div 16 - 1) ctrl s"
    and me: "drv_max_entries ctrl = ucast (flash_max_entries cfg)" and mut: "mutex_cycles mapi m"
    and c: "flash_addr c = flash_addr cfg"
      "flash_max_entries c = flash_max_entries cfg \<or> flash_max_entries c = 0 \<and> me = 2 ^ k div 16"
  shows "\<exists>ctrl' s'. kved_init mapi True m (oblfr_kved_flash_driver api) (oblfr_kved_flash_configure c (flash_chip s)) = Some (Some ctrl', s') \<and>
    kved_inv (oblfr_kved_flash_driver api) (flash_ok good cfg) (2 ^ k div 16 - 1) ctrl' s' \<and> mutex ctrl' = m \<and>
    drv_max_entries ctrl' = drv_max_entries ctrl \<and>
    kved_abs (oblfr_kved_flash_driver api) (2 ^ k div 16 - 1) ctrl' s' = kved_abs (oblfr_kved_flash_driver api) (2 ^ k div 16 - 1) ctrl s"
proof -
  have ok: "flash_ok good cfg s" using inv by (auto simp: kved_inv_def)
  show ?thesis
    unfolding kved_boot [OF ok c]
  proof (rule flash.init_reboot [OF inv _ _ _ mut])
    show "drv_init (oblfr_kved_flash_driver api) s = (True, s)" by (simp add: oblfr_kved_flash_driver_def init_same ok)
    show "max_entries (oblfr_kved_flash_driver api) s = drv_max_entries ctrl" "drv_max_entries ctrl \<noteq> 0"
      using ok me max_entries_nonzero by (simp_all add: oblfr_kved_flash_driver_def oblfr_kved_flash_max_entries_def flash_ok_def)
  qed
qed

lemma fresh_flash:
  assumes ok: "flash_ok good cfg s" and erased: "\<And>i. base \<le> i \<Longrightarrow> i < base + 14 * 2 ^ k \<Longrightarrow> cell (flash_chip s) i = 0xFF"
    and mut: "mutex_cycles mapi m"
  shows "\<exists>ctrl' s'. kved_init mapi True m (oblfr_kved_flash_driver api) s = Some (Some ctrl', s') \<and>
    kved_inv (oblfr_kved_flash_driver api) (flash_ok good cfg) (2 ^ k div 16 - 1) ctrl' s' \<and> mutex ctrl' = m \<and>
    drv_max_entries ctrl' = ucast (flash_max_entries cfg) \<and>
    kved_abs (oblfr_kved_flash_driver api) (2 ^ k div 16 - 1) ctrl' s' = Map.empty"
proof -
  have me: "max_entries (oblfr_kved_flash_driver api) s = ucast (flash_max_entries cfg)"
    using ok by (simp add: oblfr_kved_flash_driver_def oblfr_kved_flash_max_entries_def flash_ok_def)
  have "header_read (oblfr_kved_flash_driver api) sec i s = NOT 0" if i: "unat i < flash_words k me sec" for sec i
  proof -
    have w: "0 < flash_words k me sec" using i by simp
    have "map (cell (flash_chip s)) [start sec + 8 * unat i..<start sec + 8 * unat i + 8] = replicate 8 0xFF"
      using region [OF w] i by (intro nth_equalityI) (simp_all add: erased start_def del: upt_Suc replicate_Suc)
    then show ?thesis using read_word [OF ok i] le_word_ones by (simp add: oblfr_kved_flash_driver_def)
  qed
  then show ?thesis
    using flash.init_fresh [OF ok _ _ _ mut] max_entries_nonzero init_same [OF ok] me by (simp add: oblfr_kved_flash_driver_def)
qed

end

end
