(* ===== verification/Kved_Flash_Correct.thy ===== *)
theory Kved_Flash_Correct
  imports Kved_Flash_Run
begin

text \<open>
  The properties of the database on flash, and the simulated NOR chip they are tried on, which meets the
  laws of the locale \<open>nor_flash\<close>.
\<close>

section \<open>A simulated chip\<close>

text \<open>16 MB and more of NOR flash in sectors of 4 KB, and the partition of the default configuration.\<close>

definition nor_api :: "(nat \<Rightarrow> u8) flash_api" where
  "nor_api = \<lparr>
     bflb_flash_erase = (\<lambda>a len f. (0, \<lambda>i. if unat a \<le> i \<and> i < unat a + (unat len + 4095) div 4096 * 4096 then 0xFF else f i)),
     bflb_flash_write = (\<lambda>a bs f. (0, \<lambda>i. if unat a \<le> i \<and> i < unat a + length bs then f i AND bs ! (i - unat a) else f i)),
     bflb_flash_read = (\<lambda>a n f. (0, map f [unat a..<unat a + n])),
     flash_cfg_sector_size = (\<lambda>_. 4)\<rparr>"

definition nor_cfg :: oblfr_kved_flash_driver_t where
  "nor_cfg = \<lparr>flash_addr = 0x378000, flash_sector_size = 4096, flash_max_entries = 256\<rparr>"

lemma nor_base: "unat (flash_addr nor_cfg AND NOT (2 ^ 12 - 1)) = 0x378000"
  by (simp add: nor_cfg_def)

interpretation nor: nor_flash nor_api "\<lambda>f. f" "\<lambda>_. True" nor_cfg 12
proof (unfold_locales, goal_cases)
  case (8 f a len)
  have "i < unat a + (unat len + 4095) div 4096 * 4096" if "i < unat a + unat len" for i
    using that ceil_div(2) [of 4096 "unat len"] by simp
  then show ?case by (auto simp: nor_api_def add.commute)
qed (auto simp: nor_base nor_api_def nor_cfg_def)

definition nor_erased :: "(nat \<Rightarrow> u8) kved_flash" where
  "nor_erased = \<lparr>flash_drv = nor_cfg, flash_chip = (\<lambda>_. 0xFF), flash_fault = False\<rparr>"

lemma sample_valid_flash: "drv_max_entries ctrl = 256 \<Longrightarrow> kved_is_valid_key ctrl sample_key"
  by (simp add: kved_is_valid_key_def KVED_SIGNATURE_ENTRY_def KVED_HDR_MASK_KEY_def sample_key_def
      kved_entry_consts KVED_MAX_STRING_SIZE_def Let_def)

text \<open>A running database on the erased chip, and one with one key.\<close>

lemma nor_run0:
  obtains ctrl s where "kved_inv (oblfr_kved_flash_driver nor_api) (flash_ok (\<lambda>_. True) nor_cfg) 255 ctrl s"
    "mutex ctrl = False" "drv_max_entries ctrl = 256" "kved_abs (oblfr_kved_flash_driver nor_api) 255 ctrl s = Map.empty"
proof -
  have ok: "flash_ok (\<lambda>_. True) nor_cfg nor_erased" by (simp add: flash_ok_def nor_erased_def)
  have "\<And>i. flash_chip nor_erased i = 0xFF" by (simp add: nor_erased_def)
  from nor.fresh_flash [OF ok this freertos_mutex_cycles] show thesis
    using that by (auto simp: nor_cfg_def)
qed

section \<open>Properties of the database on flash\<close>

text \<open>
  C7. On NOR flash, where a write can only clear bits, \<^verbatim>\<open>kved_data_write\<close> of a numeric value refines the update of a finite
  map as it does on RAM: while the index sector has room for another key, the call succeeds, keeps the invariant and
  changes the map at exactly the written key, through append, replacement, unchanged value and sector switch.
\<close>

theorem flash_data_write:
  assumes "nor_flash api cell good cfg k"
    and "kved_inv (oblfr_kved_flash_driver api) (flash_ok good cfg) (2 ^ k div 16 - 1) ctrl s" "mutex_cycles mapi (mutex ctrl)"
    "kved_key_encode data = Some key" "kved_is_valid_key ctrl key" "kv_type data \<noteq> KVED_DATA_TYPE_STRING"
    "\<forall>t v. kved_abs (oblfr_kved_flash_driver api) (2 ^ k div 16 - 1) ctrl s (KVED_HDR_MASK_KEY key) = Some (t, v) \<longrightarrow>
       t = ucast (kv_type data)"
    "card (dom (kved_abs (oblfr_kved_flash_driver api) (2 ^ k div 16 - 1) ctrl s)) < 2 ^ k div 16 - 1"
  shows "\<exists>ctrl' s'. kved_data_write mapi junk (oblfr_kved_flash_driver api) ctrl (data, s) = Some (KVED_OK, ctrl', data, s') \<and>
    mutex ctrl' = mutex ctrl \<and> kved_inv (oblfr_kved_flash_driver api) (flash_ok good cfg) (2 ^ k div 16 - 1) ctrl' s' \<and>
    drv_max_entries ctrl' = drv_max_entries ctrl \<and>
    kved_abs (oblfr_kved_flash_driver api) (2 ^ k div 16 - 1) ctrl' s' =
      (kved_abs (oblfr_kved_flash_driver api) (2 ^ k div 16 - 1) ctrl s)
        (KVED_HDR_MASK_KEY key \<mapsto> (ucast (kv_type data), value_u64 (kv_value data)))"
  using nor_flash.data_write_flash [OF assms(1) assms(2-)] .

theorem flash_data_write_witness:
  "\<exists>(ctrl :: bool kved_ctrl) s ctrl' s'. kved_abs (oblfr_kved_flash_driver nor_api) 255 ctrl s = Map.empty \<and>
     kved_data_write freertos_mutex (\<lambda>_. sample) (oblfr_kved_flash_driver nor_api) ctrl (sample, s) = Some (KVED_OK, ctrl', sample, s') \<and>
     kved_abs (oblfr_kved_flash_driver nor_api) 255 ctrl' s' = [KVED_HDR_MASK_KEY sample_key \<mapsto> (4, 7)]"
proof -
  obtain c s where c: "kved_inv (oblfr_kved_flash_driver nor_api) (flash_ok (\<lambda>_. True) nor_cfg) 255 c s"
    "mutex c = False" "drv_max_entries c = 256" "kved_abs (oblfr_kved_flash_driver nor_api) 255 c s = Map.empty"
    by (rule nor_run0)
  have "value_u64 (kv_value sample) = 7" "(ucast (kv_type sample) :: u64) = 4" by code_simp+
  then show ?thesis
    using flash_data_write [OF nor.nor_flash_axioms, of c s freertos_mutex sample sample_key "\<lambda>_. sample"] c
      freertos_mutex_cycles sample_encode sample_valid_flash [OF c(3)] sample_numeric by auto
qed

text \<open>
  C8. A power cycle on NOR flash: only the chip survives. The application configures the backend again with its partition
  and the same number of entries, or 0 when the number was the default of the sector size, and \<^verbatim>\<open>kved_init\<close>
  returns a control block for the map that was there before.
\<close>

theorem flash_power_cycle:
  assumes "nor_flash api cell good cfg k"
    and "kved_inv (oblfr_kved_flash_driver api) (flash_ok good cfg) (2 ^ k div 16 - 1) ctrl s"
    and "drv_max_entries ctrl = ucast (flash_max_entries cfg)" "mutex_cycles mapi m" "flash_addr c = flash_addr cfg"
    and "flash_max_entries c = flash_max_entries cfg \<or> flash_max_entries c = 0 \<and> unat (flash_max_entries cfg) = 2 ^ k div 16"
  shows "\<exists>ctrl' s'. kved_init mapi True m (oblfr_kved_flash_driver api) (oblfr_kved_flash_configure c (flash_chip s)) = Some (Some ctrl', s') \<and>
    kved_inv (oblfr_kved_flash_driver api) (flash_ok good cfg) (2 ^ k div 16 - 1) ctrl' s' \<and> mutex ctrl' = m \<and>
    drv_max_entries ctrl' = drv_max_entries ctrl \<and>
    kved_abs (oblfr_kved_flash_driver api) (2 ^ k div 16 - 1) ctrl' s' = kved_abs (oblfr_kved_flash_driver api) (2 ^ k div 16 - 1) ctrl s"
proof -
  have "flash_max_entries c = flash_max_entries cfg \<or> flash_max_entries c = 0 \<and> nor_flash.me cfg = 2 ^ k div 16"
    using assms(6) by (simp add: nor_flash.me_def [OF assms(1)])
  from nor_flash.restart_flash [OF assms(1-5) this] show ?thesis .
qed

theorem flash_power_cycle_witness:
  "\<exists>(ctrl :: bool kved_ctrl) s ctrl' s'.
     kved_abs (oblfr_kved_flash_driver nor_api) 255 ctrl s = [KVED_HDR_MASK_KEY sample_key \<mapsto> (4, 7)] \<and>
     kved_init freertos_mutex True False (oblfr_kved_flash_driver nor_api)
       (oblfr_kved_flash_configure \<lparr>flash_addr = 0x378000, flash_sector_size = 0, flash_max_entries = 0\<rparr> (flash_chip s)) =
       Some (Some ctrl', s') \<and>
     kved_abs (oblfr_kved_flash_driver nor_api) 255 ctrl' s' = [KVED_HDR_MASK_KEY sample_key \<mapsto> (4, 7)]"
proof -
  obtain c s where c: "kved_inv (oblfr_kved_flash_driver nor_api) (flash_ok (\<lambda>_. True) nor_cfg) 255 c s"
    "mutex c = False" "drv_max_entries c = 256" "kved_abs (oblfr_kved_flash_driver nor_api) 255 c s = Map.empty"
    by (rule nor_run0)
  have "value_u64 (kv_value sample) = 7" "(ucast (kv_type sample) :: u64) = 4" by code_simp+
  then obtain c' :: "bool kved_ctrl" and s' where c': "kved_inv (oblfr_kved_flash_driver nor_api) (flash_ok (\<lambda>_. True) nor_cfg) 255 c' s'"
    "drv_max_entries c' = 256" "kved_abs (oblfr_kved_flash_driver nor_api) 255 c' s' = [KVED_HDR_MASK_KEY sample_key \<mapsto> (4, 7)]"
    using nor.data_write_flash [of c s freertos_mutex sample sample_key "\<lambda>_. sample"] c
      freertos_mutex_cycles sample_encode sample_valid_flash [OF c(3)] sample_numeric by auto
  then show ?thesis
    using flash_power_cycle [OF nor.nor_flash_axioms, of c' s' freertos_mutex False "\<lparr>flash_addr = 0x378000, flash_sector_size = 0, flash_max_entries = 0\<rparr>"]
      freertos_mutex_cycles by (auto simp: nor_cfg_def)
qed

text \<open>
  The layout on the chip, with the machine arithmetic of \<^verbatim>\<open>get_sector_addr\<close> (an 8-bit count of sectors and 32-bit
  addresses): the word at an index of a sector of the database lies inside the partition, never at address 0, and two
  different words never share a byte.
\<close>

theorem flash_words_disjoint:
  assumes "nor_flash api cell good cfg k" "flash_ok good cfg s"
    and "unat i < flash_words k (unat (flash_max_entries cfg)) sec" "unat j < flash_words k (unat (flash_max_entries cfg)) sec'"
    and "(sec', j) \<noteq> (sec, i)"
  shows "get_sector_addr sec i s \<noteq> 0 \<and>
    unat (flash_addr cfg AND NOT (2 ^ k - 1)) \<le> unat (get_sector_addr sec i s) \<and>
    unat (get_sector_addr sec i s) + 8 \<le> unat (flash_addr cfg AND NOT (2 ^ k - 1)) + 14 * 2 ^ k \<and>
    {unat (get_sector_addr sec i s)..<unat (get_sector_addr sec i s) + 8} \<inter>
    {unat (get_sector_addr sec' j s)..<unat (get_sector_addr sec' j s) + 8} = {}"
proof -
  note nf = assms(1)
  have me: "nor_flash.me cfg = unat (flash_max_entries cfg)" by (rule nor_flash.me_def [OF nf])
  have i: "unat i < flash_words k (nor_flash.me cfg) sec" and j: "unat j < flash_words k (nor_flash.me cfg) sec'"
    using assms(3,4) me by simp_all
  note a = nor_flash.unat_sector_addr [OF nf assms(2) i] nor_flash.unat_sector_addr [OF nf assms(2) j]
  have w: "0 < flash_words k (nor_flash.me cfg) sec" using i by simp
  show ?thesis
    using nor_flash.sector_addr_nonzero [OF nf assms(2) i] nor_flash.apart [OF nf i j assms(5)] nor_flash.region [OF nf w] i a
    by (auto simp: nor_flash.start_def [OF nf] nor_flash.base_def [OF nf])
qed

theorem flash_words_disjoint_witness:
  "{unat (get_sector_addr KVED_FLASH_SECTOR_B 511 nor_erased)..<unat (get_sector_addr KVED_FLASH_SECTOR_B 511 nor_erased) + 8} \<inter>
   {unat (get_sector_addr KVED_FLASH_STRING_SECTOR_A 0 nor_erased)..<unat (get_sector_addr KVED_FLASH_STRING_SECTOR_A 0 nor_erased) + 8} = {}"
  using flash_words_disjoint [OF nor.nor_flash_axioms, of nor_erased 511 KVED_FLASH_SECTOR_B 0 KVED_FLASH_STRING_SECTOR_A]
  by (simp add: flash_ok_def nor_erased_def nor_cfg_def)

end
