(* ===== verification/Button.thy ===== *)
theory Button
  imports Oblfr_Prelude
begin

text \<open>
  Buttons (\<^verbatim>\<open>components/button/src/oblfr_button.c\<close> and \<^verbatim>\<open>oblfr_button_gpio.c\<close>): the debouncer and the
  press/click/long-press state machine that the timer runs for every button, and the linked list of
  the button devices. The bit fields keep their widths. What a callback does is not modelled: the
  handler returns the list of the callbacks it makes, in order. The GPIO driver is the parameter
  \<open>gpio_sdk\<close>; the timer functions that the module calls are the parameter \<open>scan_timer_api\<close>, which
  Button\_Timer fills in with the functions of Timer.
\<close>

section \<open>Device\<close>

datatype oblfr_button_event =
    BUTTON_PRESS_DOWN
  | BUTTON_PRESS_UP
  | BUTTON_PRESS_REPEAT
  | BUTTON_PRESS_REPEAT_DONE
  | BUTTON_SINGLE_CLICK
  | BUTTON_DOUBLE_CLICK
  | BUTTON_LONG_PRESS_START
  | BUTTON_LONG_PRESS_HOLD
  | BUTTON_EVENT_MAX
  | BUTTON_NONE_PRESS

fun event_number :: "oblfr_button_event \<Rightarrow> nat" where
  "event_number BUTTON_PRESS_DOWN = 0"
| "event_number BUTTON_PRESS_UP = 1"
| "event_number BUTTON_PRESS_REPEAT = 2"
| "event_number BUTTON_PRESS_REPEAT_DONE = 3"
| "event_number BUTTON_SINGLE_CLICK = 4"
| "event_number BUTTON_DOUBLE_CLICK = 5"
| "event_number BUTTON_LONG_PRESS_START = 6"
| "event_number BUTTON_LONG_PRESS_HOLD = 7"
| "event_number BUTTON_EVENT_MAX = 8"
| "event_number BUTTON_NONE_PRESS = 9"

datatype oblfr_button_type = BUTTON_TYPE_GPIO | BUTTON_TYPE_ADC | BUTTON_TYPE_CUSTOM

text \<open>
  \<^verbatim>\<open>oblfr_button_dev_t\<close>. \<open>'w\<close> is the hardware that the level function reads, \<open>'c\<close> a callback with its
  user data; \<open>next_btn\<close> is an address, \<^const>\<open>None\<close> for null. The arrays \<^verbatim>\<open>cb\<close> and \<^verbatim>\<open>usr_data\<close> are one
  function on events. \<open>hardware_data\<close> is the value of the \<^verbatim>\<open>void *\<close>: a pin number or an address.
\<close>

record ('w, 'c) oblfr_button_dev =
  ticks :: u16
  long_press_ticks :: u16
  short_press_ticks :: u16
  long_press_hold_cnt :: u16
  repeat_cnt :: u8
  state :: "3 word"
  debounce_cnt :: "3 word"
  active_level :: "1 word"
  oblfr_button_level :: "1 word"
  event :: oblfr_button_event
  hal_level :: "u32 \<Rightarrow> 'w \<Rightarrow> u8"
  hal_deinit :: "(u32 \<Rightarrow> 'w \<Rightarrow> oblfr_err \<times> 'w) option"
  hardware_data :: u32
  btn_type :: oblfr_button_type
  cb :: "oblfr_button_event \<Rightarrow> 'c option"
  next_btn :: "nat option"

text \<open>The build configuration (\<^verbatim>\<open>components/button/Kconfig\<close>), in milliseconds and ticks.\<close>

record button_config =
  BUTTON_PERIOD_TIME_MS :: nat
  BUTTON_DEBOUNCE_TICKS :: nat
  BUTTON_SHORT_PRESS_TIME_MS :: nat
  BUTTON_LONG_PRESS_TIME_MS :: nat
  BUTTON_SERIAL_TIME_MS :: nat

definition SHORT_TICKS :: "button_config \<Rightarrow> nat" where
  "SHORT_TICKS cfg = BUTTON_SHORT_PRESS_TIME_MS cfg div BUTTON_PERIOD_TIME_MS cfg"

definition LONG_TICKS :: "button_config \<Rightarrow> nat" where
  "LONG_TICKS cfg = BUTTON_LONG_PRESS_TIME_MS cfg div BUTTON_PERIOD_TIME_MS cfg"

definition SERIAL_TICKS :: "button_config \<Rightarrow> nat" where
  "SERIAL_TICKS cfg = BUTTON_SERIAL_TIME_MS cfg div BUTTON_PERIOD_TIME_MS cfg"

definition button_config_default :: button_config where
  "button_config_default =
     \<lparr>BUTTON_PERIOD_TIME_MS = 5, BUTTON_DEBOUNCE_TICKS = 2, BUTTON_SHORT_PRESS_TIME_MS = 180,
      BUTTON_LONG_PRESS_TIME_MS = 1500, BUTTON_SERIAL_TIME_MS = 20\<rparr>"

text \<open>\<^verbatim>\<open>TIME_TO_TICKS\<close>, with the conversion of its value to \<^verbatim>\<open>uint16_t\<close>.\<close>

definition TIME_TO_TICKS :: "button_config \<Rightarrow> u16 \<Rightarrow> nat \<Rightarrow> u16" where
  "TIME_TO_TICKS cfg time config_ticks =
     (if time = 0 then of_nat config_ticks
      else if unat time div BUTTON_PERIOD_TIME_MS cfg \<noteq> 0
      then of_nat (unat time div BUTTON_PERIOD_TIME_MS cfg) else 1)"

section \<open>The handler\<close>

text \<open>\<^verbatim>\<open>CALL_EVENT_CB\<close>: the call that is made, if a callback is registered.\<close>

definition CALL_EVENT_CB ::
  "('w, 'c) oblfr_button_dev \<Rightarrow> oblfr_button_event \<Rightarrow> (oblfr_button_event \<times> 'c) list" where
  "CALL_EVENT_CB btn ev = (case cb btn ev of None \<Rightarrow> [] | Some c \<Rightarrow> [(ev, c)])"

definition button_debounce ::
  "button_config \<Rightarrow> u8 \<Rightarrow> ('w, 'c) oblfr_button_dev \<Rightarrow> ('w, 'c) oblfr_button_dev" where
  "button_debounce cfg read_gpio_level btn =
     (if read_gpio_level \<noteq> ucast (oblfr_button_level btn) then
        let btn = btn\<lparr>debounce_cnt := debounce_cnt btn + 1\<rparr>
        in if unat (debounce_cnt btn) \<ge> BUTTON_DEBOUNCE_TICKS cfg
           then btn\<lparr>oblfr_button_level := ucast read_gpio_level, debounce_cnt := 0\<rparr>
           else btn
      else btn\<lparr>debounce_cnt := 0\<rparr>)"

definition button_fsm ::
  "button_config \<Rightarrow> ('w, 'c) oblfr_button_dev \<Rightarrow>
   ('w, 'c) oblfr_button_dev \<times> (oblfr_button_event \<times> 'c) list" where
  "button_fsm cfg btn =
     (if state btn = 0 then
        (if oblfr_button_level btn = active_level btn then
           (let btn = btn\<lparr>event := BUTTON_PRESS_DOWN\<rparr>;
                calls = CALL_EVENT_CB btn BUTTON_PRESS_DOWN
            in (btn\<lparr>ticks := 0, repeat_cnt := 1, state := 1\<rparr>, calls))
         else (btn\<lparr>event := BUTTON_NONE_PRESS\<rparr>, []))
      else if state btn = 1 then
        (if oblfr_button_level btn \<noteq> active_level btn then
           (let btn = btn\<lparr>event := BUTTON_PRESS_UP\<rparr>;
                calls = CALL_EVENT_CB btn BUTTON_PRESS_UP
            in (btn\<lparr>ticks := 0, state := 2\<rparr>, calls))
         else if ticks btn > long_press_ticks btn then
           (let btn = btn\<lparr>event := BUTTON_LONG_PRESS_START\<rparr>;
                calls = CALL_EVENT_CB btn BUTTON_LONG_PRESS_START
            in (btn\<lparr>state := 5\<rparr>, calls))
         else (btn, []))
      else if state btn = 2 then
        (if oblfr_button_level btn = active_level btn then
           (let btn = btn\<lparr>event := BUTTON_PRESS_DOWN\<rparr>;
                calls = CALL_EVENT_CB btn BUTTON_PRESS_DOWN;
                btn = btn\<lparr>repeat_cnt := repeat_cnt btn + 1\<rparr>;
                calls = calls @ CALL_EVENT_CB btn BUTTON_PRESS_REPEAT
            in (btn\<lparr>ticks := 0, state := 3\<rparr>, calls))
         else if ticks btn > short_press_ticks btn then
           (let (btn, calls) =
                  (if repeat_cnt btn = 1 then
                     (btn\<lparr>event := BUTTON_SINGLE_CLICK\<rparr>, CALL_EVENT_CB btn BUTTON_SINGLE_CLICK)
                   else if repeat_cnt btn = 2 then
                     (btn\<lparr>event := BUTTON_DOUBLE_CLICK\<rparr>, CALL_EVENT_CB btn BUTTON_DOUBLE_CLICK)
                   else (btn, []));
                btn = btn\<lparr>event := BUTTON_PRESS_REPEAT_DONE\<rparr>;
                calls = calls @ CALL_EVENT_CB btn BUTTON_PRESS_REPEAT_DONE
            in (btn\<lparr>state := 0\<rparr>, calls))
         else (btn, []))
      else if state btn = 3 then
        (if oblfr_button_level btn \<noteq> active_level btn then
           (let btn = btn\<lparr>event := BUTTON_PRESS_UP\<rparr>;
                calls = CALL_EVENT_CB btn BUTTON_PRESS_UP
            in if unat (ticks btn) < SHORT_TICKS cfg
               then (btn\<lparr>ticks := 0, state := 2\<rparr>, calls)
               else (btn\<lparr>state := 0\<rparr>, calls))
         else (btn, []))
      else if state btn = 5 then
        (if oblfr_button_level btn = active_level btn then
           (if unat (ticks btn) \<ge> (unat (long_press_hold_cnt btn) + 1) * SERIAL_TICKS cfg then
              (let btn = btn\<lparr>event := BUTTON_LONG_PRESS_HOLD,
                             long_press_hold_cnt := long_press_hold_cnt btn + 1\<rparr>
               in (btn, CALL_EVENT_CB btn BUTTON_LONG_PRESS_HOLD))
            else (btn, []))
         else
           (let btn = btn\<lparr>event := BUTTON_PRESS_UP\<rparr>;
                calls = CALL_EVENT_CB btn BUTTON_PRESS_UP
            in (btn\<lparr>state := 0, long_press_hold_cnt := 0\<rparr>, calls)))
      else (btn, []))"

definition oblfr_button_handler ::
  "button_config \<Rightarrow> 'w \<Rightarrow> ('w, 'c) oblfr_button_dev \<Rightarrow>
   ('w, 'c) oblfr_button_dev \<times> (oblfr_button_event \<times> 'c) list" where
  "oblfr_button_handler cfg w btn =
     (let read_gpio_level = hal_level btn (hardware_data btn) w;
          btn = (if state btn > 0 then btn\<lparr>ticks := ticks btn + 1\<rparr> else btn);
          btn = button_debounce cfg read_gpio_level btn
      in button_fsm cfg btn)"

section \<open>GPIO buttons\<close>

record 'w gpio_sdk =
  GPIO_INPUT :: u32
  GPIO_PULLUP :: u32
  GPIO_PULLDOWN :: u32
  GPIO_DRV_1 :: u32
  bflb_gpio_init :: "u32 \<Rightarrow> u32 \<Rightarrow> 'w \<Rightarrow> 'w"
  bflb_gpio_deinit :: "u32 \<Rightarrow> 'w \<Rightarrow> 'w"
  bflb_gpio_read :: "u32 \<Rightarrow> 'w \<Rightarrow> u8"
  free_block :: "u32 \<Rightarrow> 'w \<Rightarrow> 'w"

record oblfr_button_gpio_config =
  gpio_num :: u32
  gpio_active_level :: u8

definition oblfr_button_gpio_init ::
  "'w gpio_sdk \<Rightarrow> oblfr_button_gpio_config option \<Rightarrow> 'w \<Rightarrow> oblfr_err \<times> 'w" where
  "oblfr_button_gpio_init sdk config w =
     (case config of
        None \<Rightarrow> (OBLFR_ERR_INVALID, w)
      | Some c \<Rightarrow>
          let cfg = (if gpio_active_level c \<noteq> 0
                     then GPIO_INPUT sdk OR GPIO_PULLDOWN sdk OR GPIO_DRV_1 sdk
                     else GPIO_INPUT sdk OR GPIO_PULLUP sdk OR GPIO_DRV_1 sdk)
          in (OBLFR_OK, bflb_gpio_init sdk (gpio_num c) cfg w))"

definition oblfr_button_gpio_deinit :: "'w gpio_sdk \<Rightarrow> u32 \<Rightarrow> 'w \<Rightarrow> oblfr_err \<times> 'w" where
  "oblfr_button_gpio_deinit sdk pin w = (OBLFR_OK, bflb_gpio_deinit sdk pin w)"

definition oblfr_button_gpio_get_key_level :: "'w gpio_sdk \<Rightarrow> u32 \<Rightarrow> 'w \<Rightarrow> u8" where
  "oblfr_button_gpio_get_key_level sdk pin w = bflb_gpio_read sdk pin w"

section \<open>The list of buttons\<close>

text \<open>
  The timer functions that the module calls, on the state \<open>'t\<close> of the timer module: creating the scan
  timer returns its handle when it succeeds. A start, stop or delete that does not return is \<^const>\<open>None\<close>.
\<close>

record 't scan_timer_api =
  tapi_create :: "'t \<Rightarrow> oblfr_err \<times> nat option \<times> 't"
  tapi_start_periodic :: "nat option \<Rightarrow> u32 \<Rightarrow> 't \<Rightarrow> (oblfr_err \<times> 't) option"
  tapi_stop :: "nat option \<Rightarrow> 't \<Rightarrow> (oblfr_err \<times> 't) option"
  tapi_delete :: "nat option \<Rightarrow> 't \<Rightarrow> (oblfr_err \<times> 't) option"

record ('w, 'c, 't) buttons =
  btn_heap :: "nat \<rightharpoonup> ('w, 'c) oblfr_button_dev"
  g_head_handle :: "nat option"
  g_oblfr_button_timer_handle :: "nat option"
  g_is_timer_running :: bool
  hw :: 'w
  timer_module :: 't

text \<open>\<^verbatim>\<open>oblfr_button_cb\<close>: the handler of every button, from the head of the list; the calls with their button.\<close>

partial_function (option) oblfr_button_cb_walk ::
  "button_config \<Rightarrow> nat option \<Rightarrow> ('w, 'c, 't) buttons \<Rightarrow> (nat \<times> oblfr_button_event \<times> 'c) list \<Rightarrow>
   (('w, 'c, 't) buttons \<times> (nat \<times> oblfr_button_event \<times> 'c) list) option" where
  "oblfr_button_cb_walk cfg target s calls =
     (case target of
        None \<Rightarrow> Some (s, calls)
      | Some a \<Rightarrow> Option.bind (btn_heap s a) (\<lambda>btn.
          case oblfr_button_handler cfg (hw s) btn of (btn', cs) \<Rightarrow>
          oblfr_button_cb_walk cfg (next_btn btn') (s\<lparr>btn_heap := (btn_heap s)(a \<mapsto> btn')\<rparr>)
            (calls @ map (Pair a) cs)))"

definition oblfr_button_cb ::
  "button_config \<Rightarrow> ('w, 'c, 't) buttons \<Rightarrow>
   (('w, 'c, 't) buttons \<times> (nat \<times> oblfr_button_event \<times> 'c) list) option" where
  "oblfr_button_cb cfg s = oblfr_button_cb_walk cfg (g_head_handle s) s []"

text \<open>A block cleared by \<^verbatim>\<open>calloc\<close>, with the fields that \<^verbatim>\<open>oblfr_button_create_com\<close> sets.\<close>

definition new_button ::
  "u8 \<Rightarrow> (u32 \<Rightarrow> 'w \<Rightarrow> u8) \<Rightarrow> u32 \<Rightarrow> u16 \<Rightarrow> u16 \<Rightarrow> nat option \<Rightarrow> ('w, 'c) oblfr_button_dev" where
  "new_button active key_state hardware long_ticks short_ticks nxt =
     \<lparr>ticks = 0, long_press_ticks = long_ticks, short_press_ticks = short_ticks, long_press_hold_cnt = 0,
      repeat_cnt = 0, state = 0, debounce_cnt = 0, active_level = ucast active,
      oblfr_button_level = (if active = 0 then 1 else 0), event = BUTTON_NONE_PRESS,
      hal_level = key_state, hal_deinit = None, hardware_data = hardware, btn_type = BUTTON_TYPE_GPIO,
      cb = (\<lambda>_. None), next_btn = nxt\<rparr>"

text \<open>
  \<^verbatim>\<open>oblfr_button_create_com\<close>: \<open>mem\<close> is what \<^verbatim>\<open>calloc\<close> returns. The results of the timer calls are not looked
  at; a failed create leaves the handle as it was.
\<close>

definition button_timer_start ::
  "button_config \<Rightarrow> 't scan_timer_api \<Rightarrow> ('w, 'c, 't) buttons \<Rightarrow> ('w, 'c, 't) buttons option" where
  "button_timer_start cfg api s =
     (case tapi_create api (timer_module s) of (_, h, t) \<Rightarrow>
      let handle = (case h of None \<Rightarrow> g_oblfr_button_timer_handle s | Some h \<Rightarrow> Some h)
      in do {
        (_, t) \<leftarrow> tapi_start_periodic api handle (of_nat (BUTTON_PERIOD_TIME_MS cfg)) t;
        Some (s\<lparr>timer_module := t, g_oblfr_button_timer_handle := handle, g_is_timer_running := True\<rparr>)
      })"

definition oblfr_button_create_com ::
  "button_config \<Rightarrow> 't scan_timer_api \<Rightarrow> u8 \<Rightarrow> (u32 \<Rightarrow> 'w \<Rightarrow> u8) option \<Rightarrow> u32 \<Rightarrow> u16 \<Rightarrow> u16 \<Rightarrow> nat option \<Rightarrow>
   ('w, 'c, 't) buttons \<Rightarrow> (nat option \<times> ('w, 'c, 't) buttons) option" where
  "oblfr_button_create_com cfg api active hal_get_key_state hardware long_ticks short_ticks mem s =
     (case hal_get_key_state of
        None \<Rightarrow> Some (None, s)
      | Some key_state \<Rightarrow>
          (case mem of
             None \<Rightarrow> Some (None, s)
           | Some a \<Rightarrow>
               let btn = new_button active key_state hardware long_ticks short_ticks (g_head_handle s);
                   s = s\<lparr>btn_heap := (btn_heap s)(a \<mapsto> btn), g_head_handle := Some a\<rparr>
               in do {
                 s \<leftarrow> (if \<not> g_is_timer_running s then button_timer_start cfg api s else Some s);
                 Some (Some a, s)
               }))"

text \<open>
  \<^verbatim>\<open>oblfr_button_delete_com\<close>: \<open>cur\<close> is the address of a pointer, \<^const>\<open>None\<close> for the list head, else the
  \<^verbatim>\<open>next\<close> field of a button.
\<close>

fun read_btn_ptr :: "nat option \<Rightarrow> ('w, 'c, 't) buttons \<Rightarrow> nat option option" where
  "read_btn_ptr None s = Some (g_head_handle s)"
| "read_btn_ptr (Some a) s = map_option next_btn (btn_heap s a)"

fun write_btn_ptr :: "nat option \<Rightarrow> nat option \<Rightarrow> ('w, 'c, 't) buttons \<Rightarrow> ('w, 'c, 't) buttons option" where
  "write_btn_ptr None p s = Some (s\<lparr>g_head_handle := p\<rparr>)"
| "write_btn_ptr (Some a) p s =
     map_option (\<lambda>b. s\<lparr>btn_heap := (btn_heap s)(a \<mapsto> b\<lparr>next_btn := p\<rparr>)\<rparr>) (btn_heap s a)"

partial_function (option) delete_walk ::
  "nat \<Rightarrow> nat option \<Rightarrow> ('w, 'c, 't) buttons \<Rightarrow> ('w, 'c, 't) buttons option" where
  "delete_walk btn cur s =
     Option.bind (read_btn_ptr cur s) (\<lambda>p.
       case p of
         None \<Rightarrow> Some s
       | Some entry \<Rightarrow>
           if entry = btn then
             Option.bind (btn_heap s entry) (\<lambda>e.
             Option.bind (write_btn_ptr cur (next_btn e) s) (\<lambda>s.
             delete_walk btn cur (s\<lparr>btn_heap := (btn_heap s)(entry := None)\<rparr>)))
           else delete_walk btn (Some entry) s)"

partial_function (option) count_buttons ::
  "('w, 'c, 't) buttons \<Rightarrow> nat option \<Rightarrow> u16 \<Rightarrow> u16 option" where
  "count_buttons s target number =
     (case target of
        None \<Rightarrow> Some number
      | Some a \<Rightarrow> Option.bind (btn_heap s a) (\<lambda>b. count_buttons s (next_btn b) (number + 1)))"

definition oblfr_button_delete_com ::
  "'t scan_timer_api \<Rightarrow> nat option \<Rightarrow> ('w, 'c, 't) buttons \<Rightarrow> (oblfr_err \<times> ('w, 'c, 't) buttons) option" where
  "oblfr_button_delete_com api btn s =
     (case btn of
        None \<Rightarrow> Some (OBLFR_ERR_INVALID, s)
      | Some a \<Rightarrow> do {
          s \<leftarrow> delete_walk a None s;
          number \<leftarrow> count_buttons s (g_head_handle s) 0;
          if number = 0 \<and> g_is_timer_running s then do {
            (_, t) \<leftarrow> tapi_stop api (g_oblfr_button_timer_handle s) (timer_module s);
            (_, t) \<leftarrow> tapi_delete api (g_oblfr_button_timer_handle s) t;
            Some (OBLFR_OK, s\<lparr>timer_module := t, g_is_timer_running := False\<rparr>)
          } else Some (OBLFR_OK, s)
        })"

section \<open>The interface\<close>

record 'w oblfr_button_custom_config =
  custom_active_level :: u8
  button_custom_init :: "(u32 \<Rightarrow> 'w \<Rightarrow> oblfr_err \<times> 'w) option"
  button_custom_get_key_value :: "(u32 \<Rightarrow> 'w \<Rightarrow> u8) option"
  button_custom_deinit :: "(u32 \<Rightarrow> 'w \<Rightarrow> oblfr_err \<times> 'w) option"
  priv :: u32

text \<open>The button type with the member of the union that belongs to it.\<close>

datatype 'w button_hw =
    GpioButton oblfr_button_gpio_config
  | AdcButton
  | CustomButton "'w oblfr_button_custom_config"

fun hw_type :: "'w button_hw \<Rightarrow> oblfr_button_type" where
  "hw_type (GpioButton _) = BUTTON_TYPE_GPIO"
| "hw_type AdcButton = BUTTON_TYPE_ADC"
| "hw_type (CustomButton _) = BUTTON_TYPE_CUSTOM"

record 'w oblfr_button_config =
  button_hw :: "'w button_hw"
  long_press_time :: u16
  short_press_time :: u16

definition upd_button ::
  "nat \<Rightarrow> (('w, 'c) oblfr_button_dev \<Rightarrow> ('w, 'c) oblfr_button_dev) \<Rightarrow> ('w, 'c, 't) buttons \<Rightarrow>
   ('w, 'c, 't) buttons option" where
  "upd_button a f s = map_option (\<lambda>b. s\<lparr>btn_heap := (btn_heap s)(a \<mapsto> f b)\<rparr>) (btn_heap s a)"

definition button_create_hw ::
  "button_config \<Rightarrow> 't scan_timer_api \<Rightarrow> 'w gpio_sdk \<Rightarrow> 'w button_hw \<Rightarrow> u16 \<Rightarrow> u16 \<Rightarrow> nat option \<Rightarrow>
   ('w, 'c, 't) buttons \<Rightarrow> (nat option \<times> ('w, 'c, 't) buttons) option" where
  "button_create_hw cfg api sdk bhw long_ticks short_ticks mem s =
     (case bhw of
        GpioButton c \<Rightarrow>
          (case oblfr_button_gpio_init sdk (Some c) (hw s) of (ret, w) \<Rightarrow>
           if ret \<noteq> OBLFR_OK then Some (None, s\<lparr>hw := w\<rparr>)
           else oblfr_button_create_com cfg api (gpio_active_level c) (Some (oblfr_button_gpio_get_key_level sdk))
                  (gpio_num c) long_ticks short_ticks mem (s\<lparr>hw := w\<rparr>))
      | CustomButton c \<Rightarrow>
          (case (case button_custom_init c of None \<Rightarrow> (OBLFR_OK, hw s) | Some f \<Rightarrow> f (priv c) (hw s)) of
           (ret, w) \<Rightarrow>
           if ret \<noteq> OBLFR_OK then Some (None, s\<lparr>hw := w\<rparr>)
           else do {
             (btn, s) \<leftarrow> oblfr_button_create_com cfg api (custom_active_level c) (button_custom_get_key_value c)
                (priv c) long_ticks short_ticks mem (s\<lparr>hw := w\<rparr>);
             case btn of
               None \<Rightarrow> Some (None, s)
             | Some a \<Rightarrow> do {
                 s \<leftarrow> upd_button a (\<lambda>b. b\<lparr>hal_deinit := button_custom_deinit c\<rparr>) s;
                 Some (Some a, s)
               }
           })
      | AdcButton \<Rightarrow> Some (None, s))"

definition oblfr_button_create ::
  "button_config \<Rightarrow> 't scan_timer_api \<Rightarrow> 'w gpio_sdk \<Rightarrow> 'w oblfr_button_config option \<Rightarrow> nat option \<Rightarrow>
   ('w, 'c, 't) buttons \<Rightarrow> (nat option \<times> ('w, 'c, 't) buttons) option" where
  "oblfr_button_create cfg api sdk config mem s =
     (case config of
        None \<Rightarrow> Some (None, s)
      | Some c \<Rightarrow> do {
          let long_ticks = TIME_TO_TICKS cfg (long_press_time c) (LONG_TICKS cfg);
          let short_ticks = TIME_TO_TICKS cfg (short_press_time c) (SHORT_TICKS cfg);
          (btn, s) \<leftarrow> button_create_hw cfg api sdk (button_hw c) long_ticks short_ticks mem s;
          case btn of
            None \<Rightarrow> Some (None, s)
          | Some a \<Rightarrow> do {
              s \<leftarrow> upd_button a (\<lambda>b. b\<lparr>btn_type := hw_type (button_hw c)\<rparr>) s;
              Some (Some a, s)
            }
        })"

definition oblfr_button_delete ::
  "'t scan_timer_api \<Rightarrow> 'w gpio_sdk \<Rightarrow> nat option \<Rightarrow> ('w, 'c, 't) buttons \<Rightarrow>
   (oblfr_err \<times> ('w, 'c, 't) buttons) option" where
  "oblfr_button_delete api sdk btn_handle s =
     (case btn_handle of
        None \<Rightarrow> Some (OBLFR_ERR_INVALID, s)
      | Some a \<Rightarrow> do {
          btn \<leftarrow> btn_heap s a;
          let (ret, s) =
            (case btn_type btn of
               BUTTON_TYPE_GPIO \<Rightarrow>
                 (let (ret, w) = oblfr_button_gpio_deinit sdk (hardware_data btn) (hw s) in (ret, s\<lparr>hw := w\<rparr>))
             | BUTTON_TYPE_CUSTOM \<Rightarrow>
                 (let (ret, w) = (case hal_deinit btn of
                          None \<Rightarrow> (OBLFR_OK, hw s) | Some f \<Rightarrow> f (hardware_data btn) (hw s));
                      s = s\<lparr>hw := w\<rparr>
                  in if hardware_data btn \<noteq> 0
                     then (ret, s\<lparr>hw := free_block sdk (hardware_data btn) (hw s),
                                  btn_heap := (btn_heap s)(a \<mapsto> btn\<lparr>hardware_data := 0\<rparr>)\<rparr>)
                     else (ret, s))
             | BUTTON_TYPE_ADC \<Rightarrow> (OBLFR_OK, s));
          if ret \<noteq> OBLFR_OK then Some (OBLFR_ERR_ERROR, s)
          else do {
            (_, s) \<leftarrow> oblfr_button_delete_com api (Some a) s;
            Some (OBLFR_OK, s)
          }
        })"

definition oblfr_button_register_cb ::
  "nat option \<Rightarrow> oblfr_button_event \<Rightarrow> 'c option \<Rightarrow> ('w, 'c, 't) buttons \<Rightarrow>
   (oblfr_err \<times> ('w, 'c, 't) buttons) option" where
  "oblfr_button_register_cb btn_handle ev c s =
     (case btn_handle of
        None \<Rightarrow> Some (OBLFR_ERR_INVALID, s)
      | Some a \<Rightarrow>
          if \<not> event_number ev < event_number BUTTON_EVENT_MAX then Some (OBLFR_ERR_INVALID, s)
          else do {
            s \<leftarrow> upd_button a (\<lambda>b. b\<lparr>cb := (cb b)(ev := c)\<rparr>) s;
            Some (OBLFR_OK, s)
          })"

definition oblfr_button_unregister_cb ::
  "nat option \<Rightarrow> oblfr_button_event \<Rightarrow> ('w, 'c, 't) buttons \<Rightarrow> (oblfr_err \<times> ('w, 'c, 't) buttons) option" where
  "oblfr_button_unregister_cb btn_handle ev s =
     (case btn_handle of
        None \<Rightarrow> Some (OBLFR_ERR_INVALID, s)
      | Some a \<Rightarrow>
          if \<not> event_number ev < event_number BUTTON_EVENT_MAX then Some (OBLFR_ERR_INVALID, s)
          else do {
            s \<leftarrow> upd_button a (\<lambda>b. b\<lparr>cb := (cb b)(ev := None)\<rparr>) s;
            Some (OBLFR_OK, s)
          })"

text \<open>The events that have a slot in the callback array, in the order of their numbers.\<close>

definition button_events :: "oblfr_button_event list" where
  "button_events = [BUTTON_PRESS_DOWN, BUTTON_PRESS_UP, BUTTON_PRESS_REPEAT, BUTTON_PRESS_REPEAT_DONE,
     BUTTON_SINGLE_CLICK, BUTTON_DOUBLE_CLICK, BUTTON_LONG_PRESS_START, BUTTON_LONG_PRESS_HOLD]"

text \<open>For a null handle the error code 3 (\<^verbatim>\<open>OBLFR_ERR_INVALID\<close>) is returned as the count.\<close>

definition oblfr_button_count_cb :: "nat option \<Rightarrow> ('w, 'c, 't) buttons \<Rightarrow> nat option" where
  "oblfr_button_count_cb btn_handle s =
     (case btn_handle of
        None \<Rightarrow> Some 3
      | Some a \<Rightarrow> do {
          btn \<leftarrow> btn_heap s a;
          Some (fold (\<lambda>ev ret. if cb btn ev \<noteq> None then ret + 1 else ret) button_events 0)
        })"

text \<open>The getters, with the value they return for a null handle.\<close>

definition button_field ::
  "'v \<Rightarrow> (('w, 'c) oblfr_button_dev \<Rightarrow> 'v) \<Rightarrow> nat option \<Rightarrow> ('w, 'c, 't) buttons \<Rightarrow> 'v option" where
  "button_field default_value f btn_handle s =
     (case btn_handle of None \<Rightarrow> Some default_value | Some a \<Rightarrow> map_option f (btn_heap s a))"

definition oblfr_button_get_event :: "nat option \<Rightarrow> ('w, 'c, 't) buttons \<Rightarrow> oblfr_button_event option" where
  "oblfr_button_get_event = button_field BUTTON_NONE_PRESS event"

definition oblfr_button_get_repeat :: "nat option \<Rightarrow> ('w, 'c, 't) buttons \<Rightarrow> u8 option" where
  "oblfr_button_get_repeat = button_field 0 repeat_cnt"

definition oblfr_button_get_ticks_time ::
  "button_config \<Rightarrow> nat option \<Rightarrow> ('w, 'c, 't) buttons \<Rightarrow> u16 option" where
  "oblfr_button_get_ticks_time cfg = button_field 0 (\<lambda>b. of_nat (unat (ticks b) * BUTTON_PERIOD_TIME_MS cfg))"

definition oblfr_button_get_long_press_hold_cnt :: "nat option \<Rightarrow> ('w, 'c, 't) buttons \<Rightarrow> u16 option" where
  "oblfr_button_get_long_press_hold_cnt = button_field 0 long_press_hold_cnt"

end
