(* ===== verification/Button_Run.thy ===== *)
theory Button_Run
  imports Button
begin

text \<open>
  Rounds of the button handler: the handler on a sequence of readings, the invariant of a button, the
  debouncer, and the phases of a click and of a long press.
\<close>

section \<open>Runs\<close>

text \<open>The handler on a given reading, and on a list of readings, one per round of the scan timer.\<close>

definition button_round ::
  "button_config \<Rightarrow> u8 \<Rightarrow> ('w, 'c) oblfr_button_dev \<Rightarrow> ('w, 'c) oblfr_button_dev \<times> (oblfr_button_event \<times> 'c) list" where
  "button_round cfg r btn =
     button_fsm cfg (button_debounce cfg r (if state btn > 0 then btn\<lparr>ticks := ticks btn + 1\<rparr> else btn))"

fun button_rounds ::
  "button_config \<Rightarrow> u8 list \<Rightarrow> ('w, 'c) oblfr_button_dev \<Rightarrow> ('w, 'c) oblfr_button_dev \<times> (oblfr_button_event \<times> 'c) list" where
  "button_rounds cfg [] btn = (btn, [])"
| "button_rounds cfg (r # rs) btn =
     (let (btn, calls) = button_round cfg r btn; (btn, calls') = button_rounds cfg rs btn in (btn, calls @ calls'))"

text \<open>The handler in a sequence of states of the hardware.\<close>

fun button_run ::
  "button_config \<Rightarrow> 'w list \<Rightarrow> ('w, 'c) oblfr_button_dev \<Rightarrow> ('w, 'c) oblfr_button_dev \<times> (oblfr_button_event \<times> 'c) list" where
  "button_run cfg [] btn = (btn, [])"
| "button_run cfg (w # ws) btn =
     (let (btn, calls) = oblfr_button_handler cfg w btn; (btn, calls') = button_run cfg ws btn in (btn, calls @ calls'))"

definition reading :: "('w, 'c) oblfr_button_dev \<Rightarrow> 'w \<Rightarrow> u8" where
  "reading btn w = hal_level btn (hardware_data btn) w"

text \<open>What no round changes.\<close>

definition same_setup :: "('w, 'c) oblfr_button_dev \<Rightarrow> ('w, 'c) oblfr_button_dev \<Rightarrow> bool" where
  "same_setup b b' \<longleftrightarrow> hal_level b' = hal_level b \<and> hardware_data b' = hardware_data b \<and>
     active_level b' = active_level b \<and> cb b' = cb b \<and> long_press_ticks b' = long_press_ticks b \<and>
     short_press_ticks b' = short_press_ticks b \<and> next_btn b' = next_btn b \<and> hal_deinit b' = hal_deinit b \<and>
     btn_type b' = btn_type b"

lemma handler_round: "oblfr_button_handler cfg w btn = button_round cfg (reading btn w) btn"
  by (simp add: oblfr_button_handler_def button_round_def reading_def Let_def)

lemma same_setup_debounce: "same_setup b (button_debounce cfg r b)"
  by (simp add: same_setup_def button_debounce_def Let_def)

lemma same_setup_fsm: "same_setup b (fst (button_fsm cfg b))"
  by (simp add: same_setup_def button_fsm_def Let_def)

lemma same_setup_trans: "same_setup a b \<Longrightarrow> same_setup b c \<Longrightarrow> same_setup a c"
  by (simp add: same_setup_def)

lemma same_setup_round: "same_setup b (fst (button_round cfg r b))"
proof -
  have "same_setup b (if state b > 0 then b\<lparr>ticks := ticks b + 1\<rparr> else b)" by (simp add: same_setup_def)
  then show ?thesis unfolding button_round_def
    by (rule same_setup_trans [OF _ same_setup_trans [OF same_setup_debounce same_setup_fsm]])
qed

lemma run_rounds: "button_run cfg ws btn = button_rounds cfg (map (reading btn) ws) btn"
proof (induction ws arbitrary: btn)
  case Nil
  then show ?case by simp
next
  case (Cons w ws)
  obtain b1 c1 where b1: "button_round cfg (reading btn w) btn = (b1, c1)" by (rule prod.exhaust)
  have "reading b1 = reading btn"
    using same_setup_round [of btn cfg "reading btn w"] b1 by (simp add: same_setup_def reading_def fun_eq_iff)
  with b1 show ?case by (simp add: Cons.IH handler_round)
qed

lemma rounds_fst: "fst (button_rounds cfg (r # rs) b) = fst (button_rounds cfg rs (fst (button_round cfg r b)))"
  by (cases "button_round cfg r b"; cases "button_rounds cfg rs (fst (button_round cfg r b))") simp

text \<open>Rounds that follow a known sequence of devices and make the same calls.\<close>

lemma rounds_replicate:
  assumes "\<And>j. j < k \<Longrightarrow> button_round cfg r (f j) = (f (Suc j), c)"
  shows "button_rounds cfg (replicate k r) (f 0) = (f k, concat (replicate k c))"
proof -
  have "button_rounds cfg (replicate (k - i) r) (f i) = (f k, concat (replicate (k - i) c))" if "i \<le> k" for i
    using that
  proof (induction "k - i" arbitrary: i)
    case (Suc m)
    then have "k - i = Suc (k - Suc i)" by simp
    with Suc.hyps(1) [of "Suc i"] Suc.hyps(2) Suc.prems assms [of i] show ?case by simp
  qed simp
  from this [of 0] show ?thesis by simp
qed

lemma rounds_append:
  "button_rounds cfg (rs @ rs') btn =
     (let (btn, calls) = button_rounds cfg rs btn; (btn, calls') = button_rounds cfg rs' btn in (btn, calls @ calls'))"
  by (induction rs arbitrary: btn) (auto split: prod.splits)

section \<open>The invariant of a button\<close>

abbreviation down_states :: "3 word set" where
  "down_states \<equiv> {1, 3, 5}"

definition button_inv :: "('w, 'c) oblfr_button_dev \<Rightarrow> bool" where
  "button_inv btn \<longleftrightarrow> state btn \<in> {0, 1, 2, 3, 5} \<and>
     (state btn \<in> down_states \<longleftrightarrow> oblfr_button_level btn = active_level btn) \<and>
     (state btn \<noteq> 5 \<longrightarrow> long_press_hold_cnt btn = 0)"

text \<open>
  One round: the states are consistent with the new level, and of the two events press-down and press-up exactly
  the one that fits a change of state is called.
\<close>

definition down_up :: "(oblfr_button_event \<times> 'c) list \<Rightarrow> oblfr_button_event list" where
  "down_up calls = filter (\<lambda>ev. ev = BUTTON_PRESS_DOWN \<or> ev = BUTTON_PRESS_UP) (map fst calls)"

text \<open>The branches of the state machine, with the level test resolved.\<close>

lemma fsm_up:
  assumes "oblfr_button_level b \<noteq> active_level b"
  shows "state b = 0 \<Longrightarrow> button_fsm cfg b = (b\<lparr>event := BUTTON_NONE_PRESS\<rparr>, [])"
    and "state b = 1 \<Longrightarrow> button_fsm cfg b =
      (b\<lparr>event := BUTTON_PRESS_UP, ticks := 0, state := 2\<rparr>, CALL_EVENT_CB b BUTTON_PRESS_UP)"
    and "state b = 2 \<Longrightarrow> \<not> short_press_ticks b < ticks b \<Longrightarrow> button_fsm cfg b = (b, [])"
    and "state b = 2 \<Longrightarrow> short_press_ticks b < ticks b \<Longrightarrow> button_fsm cfg b =
      (b\<lparr>event := BUTTON_PRESS_REPEAT_DONE, state := 0\<rparr>,
       (if repeat_cnt b = 1 then CALL_EVENT_CB b BUTTON_SINGLE_CLICK
        else if repeat_cnt b = 2 then CALL_EVENT_CB b BUTTON_DOUBLE_CLICK else []) @
       CALL_EVENT_CB b BUTTON_PRESS_REPEAT_DONE)"
    and "state b = 3 \<Longrightarrow> button_fsm cfg b =
      ((if unat (ticks b) < SHORT_TICKS cfg then b\<lparr>event := BUTTON_PRESS_UP, ticks := 0, state := 2\<rparr>
        else b\<lparr>event := BUTTON_PRESS_UP, state := 0\<rparr>), CALL_EVENT_CB b BUTTON_PRESS_UP)"
    and "state b = 5 \<Longrightarrow> button_fsm cfg b =
      (b\<lparr>event := BUTTON_PRESS_UP, state := 0, long_press_hold_cnt := 0\<rparr>, CALL_EVENT_CB b BUTTON_PRESS_UP)"
  using assms by (simp_all add: button_fsm_def CALL_EVENT_CB_def)

lemma fsm_down:
  assumes "oblfr_button_level b = active_level b"
  shows "state b = 0 \<Longrightarrow> button_fsm cfg b =
      (b\<lparr>event := BUTTON_PRESS_DOWN, ticks := 0, repeat_cnt := 1, state := 1\<rparr>, CALL_EVENT_CB b BUTTON_PRESS_DOWN)"
    and "state b = 1 \<Longrightarrow> \<not> long_press_ticks b < ticks b \<Longrightarrow> button_fsm cfg b = (b, [])"
    and "state b = 1 \<Longrightarrow> long_press_ticks b < ticks b \<Longrightarrow> button_fsm cfg b =
      (b\<lparr>event := BUTTON_LONG_PRESS_START, state := 5\<rparr>, CALL_EVENT_CB b BUTTON_LONG_PRESS_START)"
    and "state b = 2 \<Longrightarrow> button_fsm cfg b =
      (b\<lparr>event := BUTTON_PRESS_DOWN, repeat_cnt := repeat_cnt b + 1, ticks := 0, state := 3\<rparr>,
       CALL_EVENT_CB b BUTTON_PRESS_DOWN @ CALL_EVENT_CB b BUTTON_PRESS_REPEAT)"
    and "state b = 3 \<Longrightarrow> button_fsm cfg b = (b, [])"
    and "state b = 5 \<Longrightarrow> button_fsm cfg b =
      (if unat (ticks b) \<ge> (unat (long_press_hold_cnt b) + 1) * SERIAL_TICKS cfg
       then (b\<lparr>event := BUTTON_LONG_PRESS_HOLD, long_press_hold_cnt := long_press_hold_cnt b + 1\<rparr>,
             CALL_EVENT_CB b BUTTON_LONG_PRESS_HOLD)
       else (b, []))"
  using assms by (simp_all add: button_fsm_def CALL_EVENT_CB_def)

lemma fsm_inv:
  assumes "state b \<in> {0, 1, 2, 3, 5}" "state b \<noteq> 5 \<longrightarrow> long_press_hold_cnt b = 0"
  shows "button_inv (fst (button_fsm cfg b))"
proof (cases "oblfr_button_level b = active_level b")
  case True
  have "state b = 1 \<Longrightarrow> ?thesis"
    using True assms(2) by (cases "long_press_ticks b < ticks b") (simp_all add: fsm_down button_inv_def)
  moreover have "state b = 5 \<Longrightarrow> ?thesis" using True by (simp add: fsm_down button_inv_def)
  moreover have "state b \<in> {0, 2, 3} \<Longrightarrow> ?thesis" using True assms(2) by (auto simp: fsm_down button_inv_def)
  ultimately show ?thesis using assms(1) by blast
next
  case False
  have "state b = 2 \<Longrightarrow> ?thesis"
    using False assms(2) by (cases "short_press_ticks b < ticks b") (simp_all add: fsm_up button_inv_def)
  moreover have "state b = 3 \<Longrightarrow> ?thesis" using False assms(2) by (simp add: fsm_up button_inv_def)
  moreover have "state b \<in> {0, 1, 5} \<Longrightarrow> ?thesis" using False assms(2) by (auto simp: fsm_up button_inv_def)
  ultimately show ?thesis using assms(1) by blast
qed

lemma down_up_call:
  "down_up (CALL_EVENT_CB b ev) =
     (if cb b ev \<noteq> None \<and> (ev = BUTTON_PRESS_DOWN \<or> ev = BUTTON_PRESS_UP) then [ev] else [])"
  "down_up (xs @ ys) = down_up xs @ down_up ys" "down_up [] = []"
  by (auto simp: down_up_def CALL_EVENT_CB_def split: option.splits)

lemma fsm_down_up:
  assumes "state b \<in> {0, 1, 2, 3, 5}" "cb b BUTTON_PRESS_DOWN \<noteq> None" "cb b BUTTON_PRESS_UP \<noteq> None"
  shows "down_up (snd (button_fsm cfg b)) =
    (if state b \<in> down_states then
       if state (fst (button_fsm cfg b)) \<in> down_states then [] else [BUTTON_PRESS_UP]
     else if state (fst (button_fsm cfg b)) \<in> down_states then [BUTTON_PRESS_DOWN] else [])"
proof (cases "oblfr_button_level b = active_level b")
  case True
  have "state b = 1 \<Longrightarrow> ?thesis"
    using True assms(2) by (cases "long_press_ticks b < ticks b") (simp_all add: fsm_down down_up_call)
  moreover have "state b = 5 \<Longrightarrow> ?thesis" using True by (simp add: fsm_down down_up_call)
  moreover have "state b \<in> {0, 2, 3} \<Longrightarrow> ?thesis" using True assms(2) by (auto simp: fsm_down down_up_call)
  ultimately show ?thesis using assms(1) by blast
next
  case False
  have "state b = 2 \<Longrightarrow> ?thesis"
    using False assms(2) by (cases "short_press_ticks b < ticks b") (simp_all add: fsm_up down_up_call)
  moreover have "state b = 3 \<Longrightarrow> ?thesis" using False assms(3) by (simp add: fsm_up down_up_call)
  moreover have "state b \<in> {0, 1, 5} \<Longrightarrow> ?thesis" using False assms(3) by (auto simp: fsm_up down_up_call)
  ultimately show ?thesis using assms(1) by blast
qed

lemma round_inv:
  assumes "button_inv b"
  shows "button_inv (fst (button_round cfg r b))"
proof -
  let ?b = "button_debounce cfg r (if state b > 0 then b\<lparr>ticks := ticks b + 1\<rparr> else b)"
  have "state ?b = state b" "long_press_hold_cnt ?b = long_press_hold_cnt b"
    by (simp_all add: button_debounce_def Let_def)
  with assms show ?thesis unfolding button_round_def by (intro fsm_inv) (simp_all add: button_inv_def)
qed

lemma rounds_inv: "button_inv b \<Longrightarrow> button_inv (fst (button_rounds cfg rs b))"
proof (induction rs arbitrary: b)
  case Nil
  then show ?case by simp
next
  case (Cons r rs)
  then show ?case unfolding rounds_fst by (intro Cons.IH round_inv)
qed

lemma round_down_up:
  assumes "button_inv b" "cb b BUTTON_PRESS_DOWN \<noteq> None" "cb b BUTTON_PRESS_UP \<noteq> None"
  shows "down_up (snd (button_round cfg r b)) =
    (if state b \<in> down_states then
       if state (fst (button_round cfg r b)) \<in> down_states then [] else [BUTTON_PRESS_UP]
     else if state (fst (button_round cfg r b)) \<in> down_states then [BUTTON_PRESS_DOWN] else [])"
proof -
  let ?b = "button_debounce cfg r (if state b > 0 then b\<lparr>ticks := ticks b + 1\<rparr> else b)"
  have "state ?b = state b" "cb ?b = cb b" by (simp_all add: button_debounce_def Let_def)
  with assms show ?thesis
    using fsm_down_up [of ?b cfg] unfolding button_round_def by (simp add: button_inv_def)
qed

text \<open>Alternation: \<open>p\<close> is whether the button is down before the events.\<close>

fun alternates :: "bool \<Rightarrow> oblfr_button_event list \<Rightarrow> bool" where
  "alternates p [] \<longleftrightarrow> True"
| "alternates p (ev # evs) \<longleftrightarrow> ev = (if p then BUTTON_PRESS_UP else BUTTON_PRESS_DOWN) \<and> alternates (\<not> p) evs"

lemma rounds_alternate:
  assumes "button_inv b" "cb b BUTTON_PRESS_DOWN \<noteq> None" "cb b BUTTON_PRESS_UP \<noteq> None"
  shows "alternates (state b \<in> down_states) (down_up (snd (button_rounds cfg rs b)))"
  using assms
proof (induction rs arbitrary: b)
  case Nil
  then show ?case by (simp add: down_up_call)
next
  case (Cons r rs)
  obtain b1 c1 where b1: "button_round cfg r b = (b1, c1)" by (rule prod.exhaust)
  obtain b2 c2 where b2: "button_rounds cfg rs b1 = (b2, c2)" by (rule prod.exhaust)
  have inv: "button_inv b1" using round_inv [OF Cons.prems(1), of cfg r] b1 by simp
  have cbs: "cb b1 = cb b" using same_setup_round [of b cfg r] b1 by (simp add: same_setup_def)
  have c1: "down_up c1 = (if state b \<in> down_states then
       if state b1 \<in> down_states then [] else [BUTTON_PRESS_UP]
     else if state b1 \<in> down_states then [BUTTON_PRESS_DOWN] else [])"
    using round_down_up [OF Cons.prems, of cfg r] b1 by simp
  have "alternates (state b1 \<in> down_states) (down_up c2)"
    using Cons.IH [OF inv] Cons.prems cbs b2 by simp
  then show ?case
    unfolding button_rounds.simps b1 b2 Let_def prod.case snd_conv down_up_call(2) c1
    by (cases "state b \<in> down_states"; cases "state b1 \<in> down_states") (simp_all only: if_True if_False append.simps alternates.simps not_True_eq_False not_False_eq_True simp_thms)
qed

section \<open>The debouncer\<close>

text \<open>The level and the counter after one round.\<close>

lemma round_level:
  "oblfr_button_level (fst (button_round cfg r b)) = oblfr_button_level (button_debounce cfg r b)"
  "debounce_cnt (fst (button_round cfg r b)) = debounce_cnt (button_debounce cfg r b)"
proof -
  have "oblfr_button_level (fst (button_fsm cfg c)) = oblfr_button_level c"
    "debounce_cnt (fst (button_fsm cfg c)) = debounce_cnt c" for c :: "('a, 'b) oblfr_button_dev"
    by (simp_all add: button_fsm_def Let_def)
  then show "oblfr_button_level (fst (button_round cfg r b)) = oblfr_button_level (button_debounce cfg r b)"
    "debounce_cnt (fst (button_round cfg r b)) = debounce_cnt (button_debounce cfg r b)"
    by (simp_all add: button_round_def button_debounce_def Let_def)
qed

lemma debounce_same:
  "r = ucast (oblfr_button_level b) \<Longrightarrow> button_debounce cfg r b = b\<lparr>debounce_cnt := 0\<rparr>"
  by (simp add: button_debounce_def)

lemma debounce_wait:
  assumes "r \<noteq> ucast (oblfr_button_level b)" "unat (debounce_cnt b) + 1 < BUTTON_DEBOUNCE_TICKS cfg" "BUTTON_DEBOUNCE_TICKS cfg \<le> 8"
  shows "button_debounce cfg r b = b\<lparr>debounce_cnt := debounce_cnt b + 1\<rparr>"
proof -
  have "unat (debounce_cnt b + 1) = unat (debounce_cnt b) + 1"
    using assms(2,3) by (simp add: unat_word_ariths)
  with assms show ?thesis by (simp add: button_debounce_def Let_def)
qed

lemma debounce_flip:
  assumes "r \<noteq> ucast (oblfr_button_level b)" "unat (debounce_cnt b) + 1 = BUTTON_DEBOUNCE_TICKS cfg" "BUTTON_DEBOUNCE_TICKS cfg \<le> 7"
  shows "button_debounce cfg r b = b\<lparr>oblfr_button_level := ucast r, debounce_cnt := 0\<rparr>"
proof -
  have "unat (debounce_cnt b + 1) = unat (debounce_cnt b) + 1"
    using assms(2,3) by (simp add: unat_word_ariths)
  with assms show ?thesis by (simp add: button_debounce_def Let_def)
qed

lemma debounce_never:
  assumes "8 \<le> BUTTON_DEBOUNCE_TICKS cfg"
  shows "oblfr_button_level (button_debounce cfg r b) = oblfr_button_level b"
proof -
  have "unat (c :: 3 word) < 8" for c using unsigned_less [of c] by simp
  with assms have "\<not> BUTTON_DEBOUNCE_TICKS cfg \<le> unat (c :: 3 word)" for c
    by (meson leD le_trans)
  then show ?thesis by (simp add: button_debounce_def Let_def)
qed

text \<open>\<open>n\<close> equal readings that differ from the level.\<close>

lemma rounds_debounce:
  assumes "1 \<le> BUTTON_DEBOUNCE_TICKS cfg" "BUTTON_DEBOUNCE_TICKS cfg \<le> 7" "r \<in> {0, 1}"
    and "r \<noteq> ucast (oblfr_button_level b)" "unat (debounce_cnt b) < BUTTON_DEBOUNCE_TICKS cfg"
  shows "oblfr_button_level (fst (button_rounds cfg (replicate n r) b)) =
    (if unat (debounce_cnt b) + n < BUTTON_DEBOUNCE_TICKS cfg then oblfr_button_level b else ucast r)"
  using assms(4,5)
proof (induction n arbitrary: b)
  case 0
  then show ?case by simp
next
  case (Suc n)
  obtain b1 c1 where b1: "button_round cfg r b = (b1, c1)" by (rule prod.exhaust)
  have lv: "oblfr_button_level b1 = oblfr_button_level (button_debounce cfg r b)"
    "debounce_cnt b1 = debounce_cnt (button_debounce cfg r b)"
    using round_level [of cfg r b] b1 by simp_all
  have step: "fst (button_rounds cfg (replicate (Suc n) r) b) = fst (button_rounds cfg (replicate n r) b1)"
    using b1 by (simp add: rounds_fst del: button_rounds.simps)
  show ?case
  proof (cases "unat (debounce_cnt b) + 1 < BUTTON_DEBOUNCE_TICKS cfg")
    case True
    with Suc.prems assms(2) have d: "button_debounce cfg r b = b\<lparr>debounce_cnt := debounce_cnt b + 1\<rparr>"
      by (intro debounce_wait) simp_all
    have "unat (debounce_cnt b1) = unat (debounce_cnt b) + 1"
      using True assms(2) lv d by (simp add: unat_word_ariths)
    with Suc.IH [of b1] Suc.prems True lv d step show ?thesis by simp
  next
    case False
    with Suc.prems have "unat (debounce_cnt b) + 1 = BUTTON_DEBOUNCE_TICKS cfg" by simp
    with Suc.prems assms(2) have "button_debounce cfg r b = b\<lparr>oblfr_button_level := ucast r, debounce_cnt := 0\<rparr>"
      by (intro debounce_flip) simp_all
    with lv have l1: "oblfr_button_level b1 = ucast r" "debounce_cnt b1 = 0" by simp_all
    have same: "oblfr_button_level (fst (button_rounds cfg (replicate m r) c)) = ucast r"
      if "oblfr_button_level c = ucast r" for m and c :: "('a, 'b) oblfr_button_dev"
      using that
    proof (induction m arbitrary: c)
      case (Suc m)
      obtain c' d' where c': "button_round cfg r c = (c', d')" by (rule prod.exhaust)
      have "(ucast (ucast r :: 1 word) :: u8) = r" using assms(3) by auto
      then have "oblfr_button_level c' = ucast r"
        using round_level(1) [of cfg r c] c' Suc.prems by (simp add: debounce_same)
      with Suc.IH [of c'] c' show ?case by (simp add: rounds_fst del: button_rounds.simps)
    qed simp
    from same [OF l1(1)] False step show ?thesis by simp
  qed
qed

section \<open>A click and a long press\<close>

text \<open>The readings of a pressed and of a released button.\<close>

definition on_reading :: "('w, 'c) oblfr_button_dev \<Rightarrow> u8" where
  "on_reading b = ucast (active_level b)"

definition off_reading :: "('w, 'c) oblfr_button_dev \<Rightarrow> u8" where
  "off_reading b = ucast (active_level b + 1)"

lemma bit1_cases: "(x :: 1 word) = 0 \<or> x = 1"
proof -
  have "unat x < 2" using unsigned_less [of x] by simp
  then have "unat x = 0 \<or> unat x = 1" by auto
  then show ?thesis by (metis unat_0 unat_1 word_unat_eq_iff)
qed

lemma reading_simps [simp]:
  "(ucast (ucast (x :: 1 word) :: u8) :: 1 word) = x"
  "(ucast (x :: 1 word) :: u8) = ucast y \<longleftrightarrow> x = y" "x + 1 \<noteq> (x :: 1 word)" "x \<noteq> (x + 1 :: 1 word)"
  using bit1_cases [of x] bit1_cases [of y] by auto

lemma level_off: "(l :: 1 word) \<noteq> a \<longleftrightarrow> l = a + 1"
  using bit1_cases [of l] bit1_cases [of a] by auto

lemma unat_add_nat: "unat (x :: 'a::len word) + k < 2 ^ LENGTH('a) \<Longrightarrow> unat (x + of_nat k) = unat x + k"
  by (simp add: unat_word_ariths unat_of_nat)

lemma not_less_unat: "unat x + k \<le> unat y \<Longrightarrow> \<not> y < x + of_nat k" for x y :: "16 word"
proof -
  assume le: "unat x + k \<le> unat y"
  have "unat y < 65536" using unsigned_less [of y] by simp
  with le unat_add_nat [of x k] show ?thesis by (simp add: word_less_nat_alt)
qed

locale debounced =
  fixes cfg :: button_config
  assumes debounce_range: "1 \<le> BUTTON_DEBOUNCE_TICKS cfg" "BUTTON_DEBOUNCE_TICKS cfg \<le> 7"
begin

lemma cnt_step: "unat (x :: 3 word) + k < BUTTON_DEBOUNCE_TICKS cfg \<Longrightarrow> unat (x + of_nat k) = unat x + k"
  using debounce_range by (intro unat_add_nat) simp

lemma idle_wait:
  assumes "state b = 0" "oblfr_button_level b \<noteq> active_level b" "unat (debounce_cnt b) + k < BUTTON_DEBOUNCE_TICKS cfg"
  shows "button_rounds cfg (replicate k (on_reading b)) b =
    (b\<lparr>debounce_cnt := debounce_cnt b + of_nat k, event := (if k = 0 then event b else BUTTON_NONE_PRESS)\<rparr>, [])"
proof -
  define f where "f j = b\<lparr>debounce_cnt := debounce_cnt b + of_nat j,
      event := (if j = 0 then event b else BUTTON_NONE_PRESS)\<rparr>" for j :: nat
  have "button_round cfg (on_reading b) (f j) = (f (Suc j), [])" if "j < k" for j
  proof -
    have "button_debounce cfg (on_reading b) (f j) = (f j)\<lparr>debounce_cnt := debounce_cnt (f j) + 1\<rparr>"
      using assms that debounce_range cnt_step [of "debounce_cnt b" j]
      by (intro debounce_wait) (auto simp: f_def on_reading_def)
    with assms show ?thesis by (simp add: button_round_def f_def fsm_up algebra_simps)
  qed
  from rounds_replicate [of k cfg "on_reading b" f, OF this] show ?thesis by (simp add: f_def)
qed

lemma press:
  assumes "state b = 0" "oblfr_button_level b \<noteq> active_level b" "unat (debounce_cnt b) + 1 = BUTTON_DEBOUNCE_TICKS cfg"
  shows "button_round cfg (on_reading b) b =
    (b\<lparr>oblfr_button_level := active_level b, debounce_cnt := 0, event := BUTTON_PRESS_DOWN, ticks := 0,
       repeat_cnt := 1, state := 1\<rparr>, CALL_EVENT_CB b BUTTON_PRESS_DOWN)"
proof -
  have "button_debounce cfg (on_reading b) b = b\<lparr>oblfr_button_level := active_level b, debounce_cnt := 0\<rparr>"
    using assms debounce_range debounce_flip [of "on_reading b" b cfg] by (simp add: on_reading_def)
  with assms show ?thesis by (simp add: button_round_def fsm_down CALL_EVENT_CB_def)
qed

lemma held:
  assumes "state b = 1" "oblfr_button_level b = active_level b" "debounce_cnt b = 0"
    and "unat (ticks b) + k \<le> unat (long_press_ticks b)"
  shows "button_rounds cfg (replicate k (on_reading b)) b = (b\<lparr>ticks := ticks b + of_nat k\<rparr>, [])"
proof -
  define f where "f j = b\<lparr>ticks := ticks b + of_nat j\<rparr>" for j :: nat
  have "button_round cfg (on_reading b) (f j) = (f (Suc j), [])" if "j < k" for j
  proof -
    have "\<not> long_press_ticks b < ticks b + of_nat (Suc j)"
      using assms(4) that by (intro not_less_unat) simp
    with assms show ?thesis
      by (simp add: button_round_def f_def debounce_same on_reading_def fsm_down algebra_simps)
  qed
  from rounds_replicate [of k cfg "on_reading b" f, OF this] show ?thesis by (simp add: f_def)
qed

lemma release_wait:
  assumes "state b = 1" "oblfr_button_level b = active_level b"
    and "unat (debounce_cnt b) + k < BUTTON_DEBOUNCE_TICKS cfg" "unat (ticks b) + k \<le> unat (long_press_ticks b)"
  shows "button_rounds cfg (replicate k (off_reading b)) b =
    (b\<lparr>ticks := ticks b + of_nat k, debounce_cnt := debounce_cnt b + of_nat k\<rparr>, [])"
proof -
  define f where "f j = b\<lparr>ticks := ticks b + of_nat j, debounce_cnt := debounce_cnt b + of_nat j\<rparr>" for j :: nat
  have "button_round cfg (off_reading b) (f j) = (f (Suc j), [])" if "j < k" for j
  proof -
    have le: "\<not> long_press_ticks b < ticks b + of_nat (Suc j)"
      using assms(4) that by (intro not_less_unat) simp
    have "button_debounce cfg (off_reading b) ((f j)\<lparr>ticks := ticks (f j) + 1\<rparr>) =
        (f j)\<lparr>ticks := ticks (f j) + 1, debounce_cnt := debounce_cnt (f j) + 1\<rparr>"
      using assms that debounce_range cnt_step [of "debounce_cnt b" j]
      by (subst debounce_wait) (auto simp: f_def off_reading_def)
    with assms le show ?thesis by (simp add: button_round_def f_def fsm_down algebra_simps)
  qed
  from rounds_replicate [of k cfg "off_reading b" f, OF this] show ?thesis by (simp add: f_def)
qed

lemma release:
  assumes "state b = 1" "oblfr_button_level b = active_level b" "unat (debounce_cnt b) + 1 = BUTTON_DEBOUNCE_TICKS cfg"
  shows "button_round cfg (off_reading b) b =
    (b\<lparr>oblfr_button_level := active_level b + 1, debounce_cnt := 0, event := BUTTON_PRESS_UP, ticks := 0, state := 2\<rparr>,
     CALL_EVENT_CB b BUTTON_PRESS_UP)"
proof -
  have "button_debounce cfg (off_reading b) (b\<lparr>ticks := ticks b + 1\<rparr>) =
      b\<lparr>ticks := ticks b + 1, oblfr_button_level := active_level b + 1, debounce_cnt := 0\<rparr>"
    using assms debounce_range debounce_flip [of "off_reading b" "b\<lparr>ticks := ticks b + 1\<rparr>" cfg]
    by (simp add: off_reading_def)
  with assms show ?thesis by (simp add: button_round_def fsm_up CALL_EVENT_CB_def)
qed

lemma up_wait:
  assumes "state b = 2" "oblfr_button_level b = active_level b + 1" "debounce_cnt b = 0"
    and "unat (ticks b) + k \<le> unat (short_press_ticks b)"
  shows "button_rounds cfg (replicate k (off_reading b)) b = (b\<lparr>ticks := ticks b + of_nat k\<rparr>, [])"
proof -
  define f where "f j = b\<lparr>ticks := ticks b + of_nat j\<rparr>" for j :: nat
  have "button_round cfg (off_reading b) (f j) = (f (Suc j), [])" if "j < k" for j
  proof -
    have "\<not> short_press_ticks b < ticks b + of_nat (Suc j)"
      using assms(4) that by (intro not_less_unat) simp
    with assms show ?thesis
      by (simp add: button_round_def f_def debounce_same off_reading_def fsm_up algebra_simps)
  qed
  from rounds_replicate [of k cfg "off_reading b" f, OF this] show ?thesis by (simp add: f_def)
qed

lemma click_end:
  assumes "state b = 2" "oblfr_button_level b = active_level b + 1" "debounce_cnt b = 0"
    and "ticks b = short_press_ticks b" "unat (short_press_ticks b) < 65535" "repeat_cnt b = 1"
  shows "button_round cfg (off_reading b) b =
    (b\<lparr>ticks := ticks b + 1, event := BUTTON_PRESS_REPEAT_DONE, state := 0\<rparr>,
     CALL_EVENT_CB b BUTTON_SINGLE_CLICK @ CALL_EVENT_CB b BUTTON_PRESS_REPEAT_DONE)"
proof -
  have "short_press_ticks b < short_press_ticks b + 1"
    using assms(5) by (simp add: word_less_nat_alt unat_word_ariths)
  with assms show ?thesis
    by (simp add: button_round_def debounce_same off_reading_def fsm_up CALL_EVENT_CB_def)
qed

lemma idle:
  assumes "state b = 0" "oblfr_button_level b = active_level b + 1" "debounce_cnt b = 0"
  shows "button_rounds cfg (replicate k (off_reading b)) b =
    (b\<lparr>event := (if k = 0 then event b else BUTTON_NONE_PRESS)\<rparr>, [])"
proof -
  define f where "f j = b\<lparr>event := (if j = 0 then event b else BUTTON_NONE_PRESS)\<rparr>" for j :: nat
  have "button_round cfg (off_reading b) (f j) = (f (Suc j), [])" for j
    using assms by (simp add: button_round_def f_def debounce_same off_reading_def fsm_up)
  from rounds_replicate [of k cfg "off_reading b" f, OF this] show ?thesis by (simp add: f_def)
qed

end

interpretation default_button: debounced button_config_default
  by unfold_locales (simp_all add: button_config_default_def)

text \<open>The phases of a click, put together.\<close>

lemma rounds_then:
  assumes "button_rounds cfg rs b = (b1, c1)" "button_rounds cfg rs' b1 = (b2, c2)"
  shows "button_rounds cfg (rs @ rs') b = (b2, c1 @ c2)"
  using assms by (simp add: rounds_append)

lemma rounds_one: "button_round cfg r b = (b1, c1) \<Longrightarrow> button_rounds cfg [r] b = (b1, c1)"
  by simp

context debounced
begin

lemma press_rounds:
  assumes b: "state b = 0" "oblfr_button_level b = active_level b + 1" "debounce_cnt b = 0"
    and n: "BUTTON_DEBOUNCE_TICKS cfg \<le> n" "n - BUTTON_DEBOUNCE_TICKS cfg \<le> unat (long_press_ticks b)"
  shows "button_rounds cfg (replicate n (on_reading b)) b =
    (b\<lparr>oblfr_button_level := active_level b, event := BUTTON_PRESS_DOWN, repeat_cnt := 1, state := 1,
       ticks := of_nat (n - BUTTON_DEBOUNCE_TICKS cfg)\<rparr>, CALL_EVENT_CB b BUTTON_PRESS_DOWN)"
proof -
  obtain d where D: "BUTTON_DEBOUNCE_TICKS cfg = Suc d" "d < 7"
    using debounce_range by (cases "BUTTON_DEBOUNCE_TICKS cfg") auto
  obtain k where k: "n = d + 1 + k" using n(1) D by (metis Suc_eq_plus1 le_iff_add)
  define b1 where "b1 = b\<lparr>debounce_cnt := of_nat d, event := (if d = 0 then event b else BUTTON_NONE_PRESS)\<rparr>"
  have w: "button_rounds cfg (replicate d (on_reading b)) b = (b1, [])"
    using idle_wait [of b d] b D by (simp add: b1_def)
  have "unat (of_nat d :: 3 word) = d" using D by (simp add: unat_of_nat)
  then have c1: "unat (debounce_cnt b1) + 1 = BUTTON_DEBOUNCE_TICKS cfg" using D by (simp add: b1_def)
  define b2 where "b2 = b\<lparr>oblfr_button_level := active_level b, event := BUTTON_PRESS_DOWN, ticks := 0,
       repeat_cnt := 1, state := 1\<rparr>"
  have "on_reading b1 = on_reading b" by (simp add: on_reading_def b1_def)
  then have p: "button_rounds cfg [on_reading b] b1 = (b2, CALL_EVENT_CB b BUTTON_PRESS_DOWN)"
    using press [of b1] b c1 by (simp add: b1_def b2_def CALL_EVENT_CB_def)
  have h: "button_rounds cfg (replicate k (on_reading b)) b2 = (b2\<lparr>ticks := of_nat k\<rparr>, [])"
    using held [of b2 k] b n D k by (simp add: b2_def on_reading_def)
  have "button_rounds cfg ((replicate d (on_reading b) @ [on_reading b]) @ replicate k (on_reading b)) b =
      (b2\<lparr>ticks := of_nat k\<rparr>, ([] @ CALL_EVENT_CB b BUTTON_PRESS_DOWN) @ [])"
    by (rule rounds_then [OF rounds_then [OF w p] h])
  with D k show ?thesis by (simp add: b2_def replicate_add replicate_app_Cons_same)
qed

lemma release_rounds:
  assumes b: "state b = 1" "oblfr_button_level b = active_level b" "debounce_cnt b = 0" "repeat_cnt b = 1"
    and t: "unat (ticks b) + BUTTON_DEBOUNCE_TICKS cfg \<le> unat (long_press_ticks b) + 1"
    and sh: "unat (short_press_ticks b) < 65535"
    and m: "BUTTON_DEBOUNCE_TICKS cfg + unat (short_press_ticks b) + 1 \<le> m"
  shows "\<exists>b'. button_rounds cfg (replicate m (off_reading b)) b =
      (b', CALL_EVENT_CB b BUTTON_PRESS_UP @ CALL_EVENT_CB b BUTTON_SINGLE_CLICK @ CALL_EVENT_CB b BUTTON_PRESS_REPEAT_DONE) \<and>
    state b' = 0 \<and> oblfr_button_level b' = active_level b + 1 \<and> debounce_cnt b' = 0"
proof -
  obtain d where D: "BUTTON_DEBOUNCE_TICKS cfg = Suc d" "d < 7"
    using debounce_range by (cases "BUTTON_DEBOUNCE_TICKS cfg") auto
  let ?r = "off_reading b" and ?s = "unat (short_press_ticks b)"
  obtain k where k: "m = d + 1 + ?s + 1 + k" using m D by (metis Suc_eq_plus1 le_iff_add)
  define b1 where "b1 = b\<lparr>ticks := ticks b + of_nat d, debounce_cnt := of_nat d\<rparr>"
  have w: "button_rounds cfg (replicate d ?r) b = (b1, [])"
    using release_wait [of b d] b D t by (simp add: b1_def)
  have "unat (of_nat d :: 3 word) = d" using D by (simp add: unat_of_nat)
  then have c1: "unat (debounce_cnt b1) + 1 = BUTTON_DEBOUNCE_TICKS cfg" using D by (simp add: b1_def)
  define b2 where "b2 = b\<lparr>oblfr_button_level := active_level b + 1, event := BUTTON_PRESS_UP, ticks := 0, state := 2\<rparr>"
  have p: "button_rounds cfg [?r] b1 = (b2, CALL_EVENT_CB b BUTTON_PRESS_UP)"
    using release [of b1] b c1 by (simp add: b1_def b2_def off_reading_def CALL_EVENT_CB_def)
  define b3 where "b3 = b2\<lparr>ticks := short_press_ticks b\<rparr>"
  have u: "button_rounds cfg (replicate ?s ?r) b2 = (b3, [])"
    using up_wait [of b2 ?s] b by (simp add: b2_def b3_def off_reading_def)
  define b4 where "b4 = b3\<lparr>ticks := short_press_ticks b + 1, event := BUTTON_PRESS_REPEAT_DONE, state := 0\<rparr>"
  have c: "button_rounds cfg [?r] b3 = (b4, CALL_EVENT_CB b BUTTON_SINGLE_CLICK @ CALL_EVENT_CB b BUTTON_PRESS_REPEAT_DONE)"
    using click_end [of b3] b sh by (simp add: b2_def b3_def b4_def off_reading_def CALL_EVENT_CB_def)
  define b5 where "b5 = b4\<lparr>event := (if k = 0 then event b4 else BUTTON_NONE_PRESS)\<rparr>"
  have i: "button_rounds cfg (replicate k ?r) b4 = (b5, [])"
    using idle [of b4 k] b by (simp add: b2_def b3_def b4_def b5_def off_reading_def)
  have "button_rounds cfg (((((replicate d ?r @ [?r]) @ replicate ?s ?r) @ [?r]) @ replicate k ?r)) b =
      (b5, (((([] @ CALL_EVENT_CB b BUTTON_PRESS_UP) @ []) @
         (CALL_EVENT_CB b BUTTON_SINGLE_CLICK @ CALL_EVENT_CB b BUTTON_PRESS_REPEAT_DONE)) @ []))"
    by (rule rounds_then [OF rounds_then [OF rounds_then [OF rounds_then [OF w p] u] c] i])
  moreover have "((((replicate d ?r @ [?r]) @ replicate ?s ?r) @ [?r]) @ replicate k ?r) = replicate m ?r"
    by (rule nth_equalityI) (auto simp: k nth_append nth_Cons')
  ultimately show ?thesis using b by (simp add: b5_def b4_def b3_def b2_def)
qed

end

end
