(* ===== verification/Button_List.thy ===== *)
theory Button_List
  imports Button_Run
begin

text \<open>
  The linked list of buttons as a list of addresses, the walk of the scan callback over it, and
  creating and deleting buttons over any scan timer that keeps the contract \<open>scan_timer\<close>.
\<close>

section \<open>The list of buttons\<close>

fun bseg :: "(nat \<rightharpoonup> ('w, 'c) oblfr_button_dev) \<Rightarrow> nat option \<Rightarrow> nat list \<Rightarrow> nat option \<Rightarrow> bool" where
  "bseg h p [] q \<longleftrightarrow> p = q"
| "bseg h p (x # xs) q \<longleftrightarrow> p = Some x \<and> (case h x of None \<Rightarrow> False | Some b \<Rightarrow> bseg h (next_btn b) xs q)"

definition button_list :: "('w, 'c, 't) buttons \<Rightarrow> nat list \<Rightarrow> bool" where
  "button_list s xs \<longleftrightarrow> distinct xs \<and> bseg (btn_heap s) (g_head_handle s) xs None"

lemma bseg_append: "bseg h p (xs @ ys) q \<longleftrightarrow> (\<exists>m. bseg h p xs m \<and> bseg h m ys q)"
  by (induction xs arbitrary: p) (auto split: option.splits)

lemma bseg_frame [simp]: "a \<notin> set xs \<Longrightarrow> bseg (h(a := v)) p xs q = bseg h p xs q"
  by (induction xs arbitrary: p) (auto split: option.splits)

lemma bseg_in_heap: "bseg h p xs q \<Longrightarrow> x \<in> set xs \<Longrightarrow> \<exists>b. h x = Some b"
  by (induction xs arbitrary: p) (auto split: option.splits)

lemma bseg_next_eq:
  assumes "\<And>x. x \<in> set xs \<Longrightarrow> map_option next_btn (h' x) = map_option next_btn (h x)"
  shows "bseg h' p xs q = bseg h p xs q"
  using assms
proof (induction xs arbitrary: p)
  case (Cons x xs)
  have "map_option next_btn (h' x) = map_option next_btn (h x)" by (rule Cons.prems) simp
  moreover have "bseg h' p xs q = bseg h p xs q" for p by (rule Cons.IH) (simp add: Cons.prems)
  ultimately show ?case by (cases "h x"; cases "h' x") auto
qed simp

text \<open>The pointer behind a prefix of the list: where it is, what it holds, and what writing it does.\<close>

definition end_ptr :: "nat list \<Rightarrow> nat option" where
  "end_ptr ps = (if ps = [] then None else Some (last ps))"

lemma read_end:
  assumes "bseg (btn_heap s) (g_head_handle s) ps m"
  shows "read_btn_ptr (end_ptr ps) s = Some m"
  using assms by (cases ps rule: rev_cases) (auto simp: end_ptr_def bseg_append split: option.splits)

lemma write_end_ptr:
  assumes "bseg (btn_heap s) (g_head_handle s) ps m" "distinct ps"
  shows "\<exists>s'. write_btn_ptr (end_ptr ps) p s = Some s' \<and> bseg (btn_heap s') (g_head_handle s') ps p \<and>
    (\<forall>a. a \<notin> set ps \<longrightarrow> btn_heap s' a = btn_heap s a) \<and>
    (\<forall>a. map_option (\<lambda>b. b\<lparr>next_btn := None\<rparr>) (btn_heap s' a) = map_option (\<lambda>b. b\<lparr>next_btn := None\<rparr>) (btn_heap s a)) \<and>
    (\<exists>g h. s' = s\<lparr>g_head_handle := g, btn_heap := h\<rparr>)"
proof (cases ps rule: rev_cases)
  case Nil
  then show ?thesis by (auto simp: end_ptr_def intro!: exI [of _ "btn_heap s"])
next
  case (snoc qs y)
  with assms obtain b where b: "btn_heap s y = Some b" "bseg (btn_heap s) (g_head_handle s) qs (Some y)"
    by (auto simp: bseg_append split: option.splits)
  with snoc assms(2) show ?thesis
    by (auto simp: end_ptr_def bseg_append intro!: exI [of _ "g_head_handle s"])
qed

lemma bseg_cong: "(\<And>x. x \<in> set xs \<Longrightarrow> h' x = h x) \<Longrightarrow> bseg h' p xs q = bseg h p xs q"
  by (rule bseg_next_eq) simp

text \<open>Walking over buttons that are not deleted, and deleting one.\<close>

lemma delete_walk_skip:
  assumes "bseg (btn_heap s) (g_head_handle s) ps m" "bseg (btn_heap s) m qs None" "a \<notin> set qs"
  shows "delete_walk a (end_ptr ps) s = Some s"
  using assms
proof (induction qs arbitrary: ps m)
  case Nil
  then show ?case using read_end [of s ps m] by (subst delete_walk.simps) simp
next
  case (Cons y ys)
  then obtain b where b: "m = Some y" "btn_heap s y = Some b" "bseg (btn_heap s) (next_btn b) ys None"
    by (auto split: option.splits)
  have "bseg (btn_heap s) (g_head_handle s) (ps @ [y]) (next_btn b)"
    using Cons.prems(1) b by (auto simp: bseg_append)
  then have "delete_walk a (end_ptr (ps @ [y])) s = Some s"
    using b(3) Cons.prems(3) by (intro Cons.IH) auto
  then show ?case
    using read_end [OF Cons.prems(1)] b Cons.prems(3) by (subst delete_walk.simps) (auto simp: end_ptr_def)
qed

lemma delete_walk_correct:
  assumes "bseg (btn_heap s) (g_head_handle s) ps (Some y)" "bseg (btn_heap s) (Some y) (qs @ a # rs) None"
    and "distinct (ps @ qs @ a # rs)"
  shows "\<exists>s'. delete_walk a (end_ptr ps) s = Some s' \<and> bseg (btn_heap s') (g_head_handle s') (ps @ qs @ rs) None \<and>
    btn_heap s' a = None \<and> (\<forall>x. x \<notin> set (ps @ qs @ [a]) \<longrightarrow> btn_heap s' x = btn_heap s x) \<and>
    (\<forall>x. x \<noteq> a \<longrightarrow> map_option (\<lambda>b. b\<lparr>next_btn := None\<rparr>) (btn_heap s' x) = map_option (\<lambda>b. b\<lparr>next_btn := None\<rparr>) (btn_heap s x)) \<and>
    (\<exists>g h. s' = s\<lparr>g_head_handle := g, btn_heap := h\<rparr>)"
  using assms
proof (induction qs arbitrary: ps y)
  case Nil
  then obtain b where b: "y = a" "btn_heap s a = Some b" "bseg (btn_heap s) (next_btn b) rs None"
    by (auto split: option.splits)
  have d: "distinct ps" "a \<notin> set ps" "a \<notin> set rs" "set ps \<inter> set rs = {}" using Nil.prems(3) by auto
  obtain s1 g h where s1: "write_btn_ptr (end_ptr ps) (next_btn b) s = Some s1"
    "bseg (btn_heap s1) (g_head_handle s1) ps (next_btn b)" "\<forall>x. x \<notin> set ps \<longrightarrow> btn_heap s1 x = btn_heap s x"
    "\<forall>x. map_option (\<lambda>b. b\<lparr>next_btn := None\<rparr>) (btn_heap s1 x) = map_option (\<lambda>b. b\<lparr>next_btn := None\<rparr>) (btn_heap s x)"
    "s1 = s\<lparr>g_head_handle := g, btn_heap := h\<rparr>"
    using write_end_ptr [OF Nil.prems(1) d(1)] by blast
  define s2 where "s2 = s1\<lparr>btn_heap := (btn_heap s1)(a := None)\<rparr>"
  have "bseg (btn_heap s1) (next_btn b) rs None"
    using b(3) by (subst bseg_cong [of rs "btn_heap s1" "btn_heap s"]) (use s1(3) d(4) in auto)
  with s1(2) d have r: "bseg (btn_heap s2) (g_head_handle s2) ps (next_btn b)" "bseg (btn_heap s2) (next_btn b) rs None"
    by (simp_all add: s2_def)
  have "delete_walk a (end_ptr ps) s2 = Some s2" using r d(3) by (rule delete_walk_skip)
  then have "delete_walk a (end_ptr ps) s = Some s2"
    using read_end [OF Nil.prems(1)] b s1(1) by (subst delete_walk.simps) (simp add: s2_def)
  moreover have "\<exists>g h. s2 = s\<lparr>g_head_handle := g, btn_heap := h\<rparr>" using s1(5) by (auto simp: s2_def)
  moreover have "bseg (btn_heap s2) (g_head_handle s2) (ps @ [] @ rs) None" using r by (auto simp: bseg_append)
  moreover have "btn_heap s2 a = None" "\<forall>x. x \<notin> set (ps @ [] @ [a]) \<longrightarrow> btn_heap s2 x = btn_heap s x"
    "\<forall>x. x \<noteq> a \<longrightarrow> map_option (\<lambda>b. b\<lparr>next_btn := None\<rparr>) (btn_heap s2 x) = map_option (\<lambda>b. b\<lparr>next_btn := None\<rparr>) (btn_heap s x)"
    using s1(3,4) by (simp_all add: s2_def)
  ultimately show ?case by blast
next
  case (Cons z qs)
  then obtain b where b: "y = z" "btn_heap s z = Some b" "bseg (btn_heap s) (next_btn b) (qs @ a # rs) None" "z \<noteq> a"
    by (auto split: option.splits)
  then obtain y' where y': "next_btn b = Some y'" by (cases qs) auto
  have "bseg (btn_heap s) (g_head_handle s) (ps @ [z]) (Some y')"
    using Cons.prems(1) b y' by (auto simp: bseg_append)
  with Cons.IH [of "ps @ [z]" y'] b(3) y' Cons.prems(3)
  obtain s' where s': "delete_walk a (end_ptr (ps @ [z])) s = Some s'"
    "bseg (btn_heap s') (g_head_handle s') (ps @ (z # qs) @ rs) None" "btn_heap s' a = None"
    "\<forall>x. x \<notin> set (ps @ (z # qs) @ [a]) \<longrightarrow> btn_heap s' x = btn_heap s x"
    "\<forall>x. x \<noteq> a \<longrightarrow> map_option (\<lambda>b. b\<lparr>next_btn := None\<rparr>) (btn_heap s' x) = map_option (\<lambda>b. b\<lparr>next_btn := None\<rparr>) (btn_heap s x)"
    "\<exists>g h. s' = s\<lparr>g_head_handle := g, btn_heap := h\<rparr>"
    by auto
  have "delete_walk a (end_ptr ps) s = Some s'"
    using s'(1) read_end [OF Cons.prems(1)] b by (subst delete_walk.simps) (auto simp: end_ptr_def)
  with s' show ?case by blast
qed

lemma count_buttons_eq:
  "bseg (btn_heap s) p xs None \<Longrightarrow> count_buttons s p n = Some (n + of_nat (length xs))"
proof (induction xs arbitrary: p n)
  case Nil
  then show ?case by (simp add: count_buttons.simps)
next
  case (Cons x xs)
  then show ?case by (subst count_buttons.simps) (auto simp: algebra_simps split: option.splits)
qed

section \<open>A round of the scan timer\<close>

text \<open>Every button of the list gets one round of the handler, in list order, and nothing else changes.\<close>

lemma handler_next: "next_btn (fst (oblfr_button_handler cfg w b)) = next_btn b"
  using same_setup_round [of b cfg "reading b w"] by (simp add: handler_round same_setup_def)

lemma cb_walk_correct:
  assumes "bseg (btn_heap s) p xs None" "distinct xs"
  shows "\<exists>h. oblfr_button_cb_walk cfg p s calls =
      Some (s\<lparr>btn_heap := h\<rparr>,
        calls @ concat (map (\<lambda>x. map (Pair x) (snd (oblfr_button_handler cfg (hw s) (the (btn_heap s x))))) xs)) \<and>
    (\<forall>x. h x = (if x \<in> set xs then Some (fst (oblfr_button_handler cfg (hw s) (the (btn_heap s x)))) else btn_heap s x))"
  using assms
proof (induction xs arbitrary: p s calls)
  case Nil
  then show ?case by (auto simp: oblfr_button_cb_walk.simps intro!: exI [of _ "btn_heap s"])
next
  case (Cons x xs)
  then obtain b where b: "p = Some x" "btn_heap s x = Some b" "bseg (btn_heap s) (next_btn b) xs None" "x \<notin> set xs" "distinct xs"
    by (auto split: option.splits)
  obtain b1 c1 where b1: "oblfr_button_handler cfg (hw s) b = (b1, c1)" by (rule prod.exhaust)
  have nx: "next_btn b1 = next_btn b" using handler_next [of cfg "hw s" b] b1 by simp
  define s1 where "s1 = s\<lparr>btn_heap := (btn_heap s)(x \<mapsto> b1)\<rparr>"
  have "bseg (btn_heap s1) (next_btn b1) xs None" using b nx by (simp add: s1_def)
  from Cons.IH [OF this b(5), of "calls @ map (Pair x) c1"]
  obtain h where h: "oblfr_button_cb_walk cfg (next_btn b1) s1 (calls @ map (Pair x) c1) =
      Some (s1\<lparr>btn_heap := h\<rparr>, (calls @ map (Pair x) c1) @
        concat (map (\<lambda>y. map (Pair y) (snd (oblfr_button_handler cfg (hw s1) (the (btn_heap s1 y))))) xs))"
    "\<forall>y. h y = (if y \<in> set xs then Some (fst (oblfr_button_handler cfg (hw s1) (the (btn_heap s1 y)))) else btn_heap s1 y)"
    by blast
  have e: "btn_heap s1 y = btn_heap s y" if "y \<in> set xs" for y using that b(4) by (auto simp: s1_def)
  have "map (\<lambda>y. map (Pair y) (snd (oblfr_button_handler cfg (hw s1) (the (btn_heap s1 y))))) xs =
      map (\<lambda>y. map (Pair y) (snd (oblfr_button_handler cfg (hw s) (the (btn_heap s y))))) xs"
    using e by (intro map_cong refl) (simp add: s1_def)
  with h(1) have "oblfr_button_cb_walk cfg (next_btn b1) s1 (calls @ map (Pair x) c1) =
      Some (s1\<lparr>btn_heap := h\<rparr>, calls @ map (Pair x) c1 @
        concat (map (\<lambda>y. map (Pair y) (snd (oblfr_button_handler cfg (hw s) (the (btn_heap s y))))) xs))"
    by (simp only: append_assoc)
  with b b1 have "oblfr_button_cb_walk cfg p s calls =
      Some (s\<lparr>btn_heap := h\<rparr>,
        calls @ concat (map (\<lambda>x. map (Pair x) (snd (oblfr_button_handler cfg (hw s) (the (btn_heap s x))))) (x # xs)))"
    by (subst oblfr_button_cb_walk.simps) (simp add: s1_def)
  moreover have "\<forall>y. h y = (if y \<in> set (x # xs) then Some (fst (oblfr_button_handler cfg (hw s) (the (btn_heap s y)))) else btn_heap s y)"
    using h(2) e b b1 by (auto simp: s1_def)
  ultimately show ?case by blast
qed

section \<open>The scan timer as an interface\<close>

text \<open>
  The state of the module with the buttons \<open>xs\<close>: the list is well linked, and the scan timer ticks with
  the configured period exactly while there are buttons.
\<close>

definition buttons_ok ::
  "('t \<Rightarrow> bool) \<Rightarrow> (nat \<Rightarrow> u32 \<Rightarrow> 't \<Rightarrow> bool) \<Rightarrow> button_config \<Rightarrow> ('w, 'c, 't) buttons \<Rightarrow> nat list \<Rightarrow> bool" where
  "buttons_ok ready ticking cfg s xs \<longleftrightarrow> button_list s xs \<and> (g_is_timer_running s \<longleftrightarrow> xs \<noteq> []) \<and>
     (if xs = [] then ready (timer_module s)
      else \<exists>h. g_oblfr_button_timer_handle s = Some h \<and>
        ticking h (of_nat (BUTTON_PERIOD_TIME_MS cfg)) (timer_module s))"

text \<open>
  What the button module relies on: from a \<open>ready\<close> timer module a timer can be made and started with
  the scan period, and a ticking one can be stopped; deleting it leaves the module ready again,
  whether or not the block is freed.
\<close>

locale scan_timer =
  fixes api :: "'t scan_timer_api"
    and ready :: "'t \<Rightarrow> bool"
    and made :: "nat \<Rightarrow> 't \<Rightarrow> bool"
    and ticking :: "nat \<Rightarrow> u32 \<Rightarrow> 't \<Rightarrow> bool"
    and halted :: "nat \<Rightarrow> 't \<Rightarrow> bool"
  assumes create: "ready t \<Longrightarrow> \<exists>h t'. tapi_create api t = (OBLFR_OK, Some h, t') \<and> made h t'"
    and start: "made h t \<Longrightarrow> \<exists>t'. tapi_start_periodic api (Some h) ms t = Some (OBLFR_OK, t') \<and> ticking h ms t'"
    and stop: "ticking h ms t \<Longrightarrow> \<exists>t'. tapi_stop api (Some h) t = Some (OBLFR_OK, t') \<and> halted h t'"
    and delete: "halted h t \<Longrightarrow> \<exists>r t'. tapi_delete api (Some h) t = Some (r, t') \<and> ready t'"
begin

lemma create_com_ok:
  assumes "buttons_ok ready ticking cfg s xs" "btn_heap s a = None"
  shows "\<exists>s'. oblfr_button_create_com cfg api act (Some f) hwd lt st (Some a) s = Some (Some a, s') \<and>
    buttons_ok ready ticking cfg s' (a # xs) \<and>
    btn_heap s' = (btn_heap s)(a \<mapsto> new_button act f hwd lt st (g_head_handle s)) \<and> hw s' = hw s"
proof -
  let ?b = "new_button act f hwd lt st (g_head_handle s)"
  define s1 where "s1 = s\<lparr>btn_heap := (btn_heap s)(a \<mapsto> ?b), g_head_handle := Some a\<rparr>"
  have nin: "a \<notin> set xs" using assms by (auto simp: buttons_ok_def button_list_def dest: bseg_in_heap)
  have l1: "button_list s1 (a # xs)"
    using assms(1) nin by (simp add: buttons_ok_def button_list_def s1_def new_button_def)
  show ?thesis
  proof (cases "xs = []")
    case False
    then have "oblfr_button_create_com cfg api act (Some f) hwd lt st (Some a) s = Some (Some a, s1)"
      using assms(1) by (simp add: oblfr_button_create_com_def s1_def buttons_ok_def)
    with False assms(1) l1 show ?thesis by (intro exI [of _ s1]) (auto simp: buttons_ok_def s1_def)
  next
    case True
    then obtain h t where t: "tapi_create api (timer_module s) = (OBLFR_OK, Some h, t)" "made h t"
      using assms(1) create [of "timer_module s"] by (auto simp: buttons_ok_def)
    obtain t' where t': "tapi_start_periodic api (Some h) (of_nat (BUTTON_PERIOD_TIME_MS cfg)) t = Some (OBLFR_OK, t')"
      "ticking h (of_nat (BUTTON_PERIOD_TIME_MS cfg)) t'"
      using start [OF t(2)] by blast
    define s2 where "s2 = s1\<lparr>timer_module := t', g_oblfr_button_timer_handle := Some h, g_is_timer_running := True\<rparr>"
    have "oblfr_button_create_com cfg api act (Some f) hwd lt st (Some a) s = Some (Some a, s2)"
      using assms(1) True t t' by (simp add: oblfr_button_create_com_def button_timer_start_def s1_def s2_def buttons_ok_def)
    moreover have "button_list s2 (a # xs)" using l1 by (simp add: button_list_def s2_def)
    ultimately show ?thesis using t'(2) by (intro exI [of _ s2]) (simp add: buttons_ok_def s2_def s1_def)
  qed
qed

lemma delete_com_ok:
  assumes ok: "buttons_ok ready ticking cfg s (xs @ a # ys)" and len: "length xs + length ys < 65536"
  shows "\<exists>s'. oblfr_button_delete_com api (Some a) s = Some (OBLFR_OK, s') \<and> buttons_ok ready ticking cfg s' (xs @ ys) \<and>
    btn_heap s' a = None \<and> hw s' = hw s \<and>
    (\<forall>x. x \<noteq> a \<longrightarrow> map_option (\<lambda>b. b\<lparr>next_btn := None\<rparr>) (btn_heap s' x) = map_option (\<lambda>b. b\<lparr>next_btn := None\<rparr>) (btn_heap s x))"
proof -
  have l: "bseg (btn_heap s) (g_head_handle s) (xs @ a # ys) None" "distinct (xs @ a # ys)"
    using ok by (simp_all add: buttons_ok_def button_list_def)
  then obtain y where y: "g_head_handle s = Some y" by (cases xs) auto
  have *: "bseg (btn_heap s) (g_head_handle s) [] (Some y)" "bseg (btn_heap s) (Some y) (xs @ a # ys) None"
    "distinct ([] @ xs @ a # ys)"
    using l y by simp_all
  obtain s1 g h where s1: "delete_walk a None s = Some s1" "bseg (btn_heap s1) (g_head_handle s1) (xs @ ys) None"
    "btn_heap s1 a = None" "s1 = s\<lparr>g_head_handle := g, btn_heap := h\<rparr>"
    "\<forall>x. x \<noteq> a \<longrightarrow> map_option (\<lambda>b. b\<lparr>next_btn := None\<rparr>) (btn_heap s1 x) = map_option (\<lambda>b. b\<lparr>next_btn := None\<rparr>) (btn_heap s x)"
    using delete_walk_correct [OF *] by (auto simp: end_ptr_def)
  have n: "count_buttons s1 (g_head_handle s1) 0 = Some (of_nat (length (xs @ ys)))"
    using count_buttons_eq [OF s1(2), of 0] by simp
  have "unat (of_nat (length (xs @ ys)) :: u16) = length (xs @ ys)"
    using len by (simp only: unat_of_nat) simp
  then have n0: "(of_nat (length (xs @ ys)) :: u16) = 0 \<longleftrightarrow> xs @ ys = []"
    by (metis length_0_conv unat_0 word_unat_eq_iff)
  have l1: "button_list s1 (xs @ ys)" using s1(2) l(2) by (simp add: button_list_def)
  obtain h' where h': "g_is_timer_running s1" "g_oblfr_button_timer_handle s1 = Some h'"
    "ticking h' (of_nat (BUTTON_PERIOD_TIME_MS cfg)) (timer_module s1)"
    using ok s1(4) by (auto simp: buttons_ok_def)
  show ?thesis
  proof (cases "xs @ ys = []")
    case False
    then have "oblfr_button_delete_com api (Some a) s = Some (OBLFR_OK, s1)"
      using s1(1) n n0 by (auto simp: oblfr_button_delete_com_def simp del: of_nat_add length_append)
    with False l1 h' s1(3,5) show ?thesis
      using s1(4) by (intro exI [of _ s1]) (auto simp: buttons_ok_def)
  next
    case True
    obtain t1 where t1: "tapi_stop api (Some h') (timer_module s1) = Some (OBLFR_OK, t1)" "halted h' t1"
      using stop [OF h'(3)] by blast
    obtain r t2 where t2: "tapi_delete api (Some h') t1 = Some (r, t2)" "ready t2"
      using delete [OF t1(2)] by blast
    define s2 where "s2 = s1\<lparr>timer_module := t2, g_is_timer_running := False\<rparr>"
    have "oblfr_button_delete_com api (Some a) s = Some (OBLFR_OK, s2)"
      using s1(1) n True h' t1 t2 by (simp add: oblfr_button_delete_com_def s2_def)
    moreover have "button_list s2 (xs @ ys)" using l1 by (simp add: button_list_def s2_def)
    moreover have "hw s2 = hw s" using s1(4) by (simp add: s2_def)
    ultimately show ?thesis
      using True t2(2) s1(3,5) by (intro exI [of _ s2]) (simp add: buttons_ok_def s2_def)
  qed
qed

end

end
