(* ===== verification/Timer.thy ===== *)
theory Timer
  imports Oblfr_Prelude
begin

text \<open>
  Software timers (\<^verbatim>\<open>components/timer/oblfr_timer.c\<close>): one hardware timer wakes a task that walks a
  list of timers kept in the order of their due times. The timers live in a heap; the list is the
  doubly linked \<^verbatim>\<open>LIST\<close> of \<^verbatim>\<open>sys/queue.h\<close>, whose macros are modelled on the pointers themselves, since
  the code reads a link to tell whether a timer is active. The FreeRTOS and SDK calls are the
  parameter \<open>timer_sdk\<close>. A function is modelled as one task runs it; what a callback does to the
  timer module itself is not modelled: the timer task holds the list lock while it calls it.
\<close>

section \<open>Timers and the list macros\<close>

text \<open>The address of a pointer to a timer: the list head or the \<^verbatim>\<open>le_next\<close> field of a timer.\<close>

datatype timer_loc = LH_FIRST | LE_NEXT nat

text \<open>\<^verbatim>\<open>struct oblfr_timer\<close>; \<open>le_prev\<close> is \<^const>\<open>None\<close> where the source leaves it uninitialised.\<close>

record 'c oblfr_timer =
  "when" :: u64
  period :: u64
  callback :: 'c
  repeat :: bool
  name :: string
  le_next :: "nat option"
  le_prev :: "timer_loc option"

record ('c, 'w) timers =
  timer_heap :: "nat \<rightharpoonup> 'c oblfr_timer"
  lh_first :: "nat option"
  world :: 'w

text \<open>
  The calls into the SDK and FreeRTOS, on a world \<open>'w\<close>: the list lock (\<^const>\<open>None\<close> when the take never
  returns), the clock in milliseconds, the compare register, the interrupt and task calls.
  \<open>run_callback\<close> is what the function pointer of a timer does.
\<close>

record timer_config =
  clock_div :: nat
  comp0_val :: nat

record ('c, 'w) timer_sdk =
  xSemaphoreTake_list :: "'w \<Rightarrow> (bool \<times> 'w) option"
  xSemaphoreGive_list :: "'w \<Rightarrow> bool \<times> 'w"
  bflb_mtimer_get_time_ms :: "'w \<Rightarrow> u64 \<times> 'w"
  bflb_timer_set_compvalue :: "u64 \<Rightarrow> 'w \<Rightarrow> 'w"
  run_callback :: "'c \<Rightarrow> nat \<Rightarrow> 'w \<Rightarrow> 'w option"
  bflb_timer_get_compint_status :: "'w \<Rightarrow> bool"
  bflb_timer_compint_clear :: "'w \<Rightarrow> 'w"
  vTaskNotifyGiveFromISR :: "'w \<Rightarrow> bool \<times> 'w"
  portYIELD_FROM_ISR :: "'w \<Rightarrow> 'w"
  ulTaskNotifyTake :: "'w \<Rightarrow> 'w option"
  bflb_timer_init :: "timer_config \<Rightarrow> 'w \<Rightarrow> 'w"
  bflb_irq_attach :: "'w \<Rightarrow> 'w"
  bflb_irq_enable :: "'w \<Rightarrow> 'w"
  bflb_irq_disable :: "'w \<Rightarrow> 'w"
  bflb_irq_detach :: "'w \<Rightarrow> 'w"
  vSemaphoreCreateBinary_list :: "'w \<Rightarrow> 'w"
  xTaskCreate_timer :: "'w \<Rightarrow> bool \<times> 'w"
  vTaskDelete_timer :: "'w \<Rightarrow> 'w"
  bflb_timer_start :: "'w \<Rightarrow> 'w"
  bflb_timer_stop :: "'w \<Rightarrow> 'w"

text \<open>Reading and writing a timer, and a pointer at an address; \<^const>\<open>None\<close> outside the heap.\<close>

definition set_timer :: "nat \<Rightarrow> 'c oblfr_timer \<Rightarrow> ('c, 'w) timers \<Rightarrow> ('c, 'w) timers" where
  "set_timer a t s = s\<lparr>timer_heap := (timer_heap s)(a \<mapsto> t)\<rparr>"

definition upd_timer ::
  "nat \<Rightarrow> ('c oblfr_timer \<Rightarrow> 'c oblfr_timer) \<Rightarrow> ('c, 'w) timers \<Rightarrow> ('c, 'w) timers option" where
  "upd_timer a f s = do { t \<leftarrow> timer_heap s a; Some (set_timer a (f t) s) }"

fun write_loc :: "timer_loc \<Rightarrow> nat option \<Rightarrow> ('c, 'w) timers \<Rightarrow> ('c, 'w) timers option" where
  "write_loc LH_FIRST p s = Some (s\<lparr>lh_first := p\<rparr>)"
| "write_loc (LE_NEXT a) p s = upd_timer a (\<lambda>t. t\<lparr>le_next := p\<rparr>) s"

definition LIST_INSERT_HEAD :: "nat \<Rightarrow> ('c, 'w) timers \<Rightarrow> ('c, 'w) timers option" where
  "LIST_INSERT_HEAD elm s = do {
     s \<leftarrow> upd_timer elm (\<lambda>t. t\<lparr>le_next := lh_first s\<rparr>) s;
     s \<leftarrow> (case lh_first s of
             None \<Rightarrow> Some s
           | Some f \<Rightarrow> upd_timer f (\<lambda>t. t\<lparr>le_prev := Some (LE_NEXT elm)\<rparr>) s);
     s \<leftarrow> write_loc LH_FIRST (Some elm) s;
     upd_timer elm (\<lambda>t. t\<lparr>le_prev := Some LH_FIRST\<rparr>) s
   }"

definition LIST_INSERT_BEFORE :: "nat \<Rightarrow> nat \<Rightarrow> ('c, 'w) timers \<Rightarrow> ('c, 'w) timers option" where
  "LIST_INSERT_BEFORE listelm elm s = do {
     l \<leftarrow> timer_heap s listelm;
     s \<leftarrow> upd_timer elm (\<lambda>t. t\<lparr>le_prev := le_prev l\<rparr>) s;
     s \<leftarrow> upd_timer elm (\<lambda>t. t\<lparr>le_next := Some listelm\<rparr>) s;
     l \<leftarrow> timer_heap s listelm;
     p \<leftarrow> le_prev l;
     s \<leftarrow> write_loc p (Some elm) s;
     upd_timer listelm (\<lambda>t. t\<lparr>le_prev := Some (LE_NEXT elm)\<rparr>) s
   }"

definition LIST_INSERT_AFTER :: "nat \<Rightarrow> nat \<Rightarrow> ('c, 'w) timers \<Rightarrow> ('c, 'w) timers option" where
  "LIST_INSERT_AFTER listelm elm s = do {
     l \<leftarrow> timer_heap s listelm;
     s \<leftarrow> upd_timer elm (\<lambda>t. t\<lparr>le_next := le_next l\<rparr>) s;
     s \<leftarrow> (case le_next l of
             None \<Rightarrow> Some s
           | Some n \<Rightarrow> upd_timer n (\<lambda>t. t\<lparr>le_prev := Some (LE_NEXT elm)\<rparr>) s);
     s \<leftarrow> write_loc (LE_NEXT listelm) (Some elm) s;
     upd_timer elm (\<lambda>t. t\<lparr>le_prev := Some (LE_NEXT listelm)\<rparr>) s
   }"

text \<open>\<^verbatim>\<open>LIST_REMOVE\<close> leaves the links of the removed element as they were.\<close>

definition LIST_REMOVE :: "nat \<Rightarrow> ('c, 'w) timers \<Rightarrow> ('c, 'w) timers option" where
  "LIST_REMOVE elm s = do {
     e \<leftarrow> timer_heap s elm;
     s \<leftarrow> (case le_next e of
             None \<Rightarrow> Some s
           | Some n \<Rightarrow> upd_timer n (\<lambda>t. t\<lparr>le_prev := le_prev e\<rparr>) s);
     e \<leftarrow> timer_heap s elm;
     p \<leftarrow> le_prev e;
     write_loc p (le_next e) s
   }"

section \<open>The functions of the module\<close>

definition oblfr_timer_lock ::
  "('c, 'w) timer_sdk \<Rightarrow> ('c, 'w) timers \<Rightarrow> (bool \<times> ('c, 'w) timers) option" where
  "oblfr_timer_lock sdk s = do {
     (got, w) \<leftarrow> xSemaphoreTake_list sdk (world s);
     Some (got, s\<lparr>world := w\<rparr>)
   }"

definition oblfr_timer_unlock ::
  "('c, 'w) timer_sdk \<Rightarrow> ('c, 'w) timers \<Rightarrow> bool \<times> ('c, 'w) timers" where
  "oblfr_timer_unlock sdk s =
     (let (gave, w) = xSemaphoreGive_list sdk (world s) in (gave, s\<lparr>world := w\<rparr>))"

abbreviation unlocked :: "('c, 'w) timer_sdk \<Rightarrow> ('c, 'w) timers \<Rightarrow> ('c, 'w) timers" where
  "unlocked sdk s \<equiv> snd (oblfr_timer_unlock sdk s)"

definition get_time_ms :: "('c, 'w) timer_sdk \<Rightarrow> ('c, 'w) timers \<Rightarrow> u64 \<times> ('c, 'w) timers" where
  "get_time_ms sdk s =
     (let (now, w) = bflb_mtimer_get_time_ms sdk (world s) in (now, s\<lparr>world := w\<rparr>))"

text \<open>\<^verbatim>\<open>when < 0\<close> compares an unsigned value: it never holds.\<close>

definition next_fire_delay :: "u64 \<Rightarrow> u64 \<Rightarrow> u64" where
  "next_fire_delay head_when now =
     (let when' = head_when - now;
          when' = (if when' > 1000 then 1000 else when');
          when' = (if when' < 0 then 0 else when')
      in when' + 1)"

definition oblfr_recalc_next_fire ::
  "('c, 'w) timer_sdk \<Rightarrow> ('c, 'w) timers \<Rightarrow> (oblfr_err \<times> ('c, 'w) timers) option" where
  "oblfr_recalc_next_fire sdk s = do {
     (got, s) \<leftarrow> oblfr_timer_lock sdk s;
     if \<not> got then Some (OBLFR_ERR_ERROR, s)
     else case lh_first s of
       None \<Rightarrow> Some (OBLFR_OK, unlocked sdk s)
     | Some head \<Rightarrow> do {
         h \<leftarrow> timer_heap s head;
         let (now, s) = get_time_ms sdk s;
         let s = s\<lparr>world := bflb_timer_set_compvalue sdk (next_fire_delay (when h) now * 1000) (world s)\<rparr>;
         Some (OBLFR_OK, unlocked sdk s)
       }
   }"

text \<open>The loop of \<^verbatim>\<open>oblfr_timer_insert\<close>: \<open>tail\<close> and \<open>t\<close> when it stops.\<close>

partial_function (option) insert_walk ::
  "(nat \<rightharpoonup> 'c oblfr_timer) \<Rightarrow> u64 \<Rightarrow> nat option \<Rightarrow> nat option \<Rightarrow> (nat option \<times> nat option) option" where
  "insert_walk h w tail t =
     (case t of
        None \<Rightarrow> Some (tail, None)
      | Some a \<Rightarrow> Option.bind (h a) (\<lambda>e.
          if when e > w then Some (tail, Some a) else insert_walk h w (Some a) (le_next e)))"

definition timer_list_insert :: "nat \<Rightarrow> ('c, 'w) timers \<Rightarrow> ('c, 'w) timers option" where
  "timer_list_insert timer s =
     (if lh_first s = None then LIST_INSERT_HEAD timer s
      else do {
        e \<leftarrow> timer_heap s timer;
        (tail, t) \<leftarrow> insert_walk (timer_heap s) (when e) None (lh_first s);
        case t of
          Some t \<Rightarrow> LIST_INSERT_BEFORE t timer s
        | None \<Rightarrow> do { l \<leftarrow> tail; LIST_INSERT_AFTER l timer s }
      })"

definition oblfr_timer_insert ::
  "('c, 'w) timer_sdk \<Rightarrow> nat \<Rightarrow> ('c, 'w) timers \<Rightarrow> (oblfr_err \<times> ('c, 'w) timers) option" where
  "oblfr_timer_insert sdk timer s = do {
     (got, s) \<leftarrow> oblfr_timer_lock sdk s;
     if \<not> got then Some (OBLFR_ERR_ERROR, s)
     else do {
       s \<leftarrow> timer_list_insert timer s;
       Some (OBLFR_OK, unlocked sdk s)
     }
   }"

text \<open>A timer argument is \<^const>\<open>None\<close> for a null handle.\<close>

definition oblfr_timer_remove ::
  "('c, 'w) timer_sdk \<Rightarrow> nat option \<Rightarrow> ('c, 'w) timers \<Rightarrow> (oblfr_err \<times> ('c, 'w) timers) option" where
  "oblfr_timer_remove sdk timer s =
     (case timer of
        None \<Rightarrow> Some (OBLFR_ERR_INVALID, s)
      | Some a \<Rightarrow> do {
          (got, s) \<leftarrow> oblfr_timer_lock sdk s;
          if \<not> got then Some (OBLFR_ERR_ERROR, s)
          else do {
            s \<leftarrow> LIST_REMOVE a s;
            s \<leftarrow> upd_timer a (\<lambda>t. t\<lparr>when := 0\<rparr>) s;
            Some (OBLFR_OK, unlocked sdk s)
          }
        })"

text \<open>
  The loop of \<^verbatim>\<open>oblfr_timer_process\<close>. It returns whether it still holds the lock (it gives up when
  it cannot take it again) and, in order, the timers it called with the time it read before.
\<close>

partial_function (option) process_loop ::
  "('c, 'w) timer_sdk \<Rightarrow> nat option \<Rightarrow> ('c, 'w) timers \<Rightarrow> (nat \<times> u64) list \<Rightarrow>
   (bool \<times> ('c, 'w) timers \<times> (nat \<times> u64) list) option" where
  "process_loop sdk t s fired =
     (case t of
        None \<Rightarrow> Some (True, s, fired)
      | Some a \<Rightarrow> Option.bind (timer_heap s a) (\<lambda>e.
          case get_time_ms sdk s of (now, s) \<Rightarrow>
          if when e > now then Some (True, s, fired)
          else Option.bind (LIST_REMOVE a s) (\<lambda>s.
            Option.bind (run_callback sdk (callback e) a (world s)) (\<lambda>w.
            case s\<lparr>world := w\<rparr> of s \<Rightarrow>
            if repeat e then
              Option.bind (upd_timer a (\<lambda>t. t\<lparr>when := when t + period t\<rparr>) s) (\<lambda>s.
              Option.bind (oblfr_timer_insert sdk a (unlocked sdk s)) (\<lambda>(_, s).
              Option.bind (oblfr_timer_lock sdk s) (\<lambda>(got, s).
              if \<not> got then Some (False, s, fired @ [(a, now)])
              else process_loop sdk (le_next e) s (fired @ [(a, now)]))))
            else process_loop sdk (le_next e) s (fired @ [(a, now)])))))"

definition oblfr_timer_process ::
  "('c, 'w) timer_sdk \<Rightarrow> ('c, 'w) timers \<Rightarrow> (('c, 'w) timers \<times> (nat \<times> u64) list) option" where
  "oblfr_timer_process sdk s = do {
     (got, s) \<leftarrow> oblfr_timer_lock sdk s;
     if \<not> got then Some (s, [])
     else do {
       (held, s, fired) \<leftarrow> process_loop sdk (lh_first s) s [];
       if \<not> held then Some (s, fired)
       else do {
         (_, s) \<leftarrow> oblfr_recalc_next_fire sdk (unlocked sdk s);
         Some (s, fired)
       }
     }
   }"

text \<open>One round of the endless loop of \<^verbatim>\<open>oblfr_timer_task\<close>.\<close>

definition oblfr_timer_task_round ::
  "('c, 'w) timer_sdk \<Rightarrow> ('c, 'w) timers \<Rightarrow> (('c, 'w) timers \<times> (nat \<times> u64) list) option" where
  "oblfr_timer_task_round sdk s = do {
     w \<leftarrow> ulTaskNotifyTake sdk (world s);
     oblfr_timer_process sdk (s\<lparr>world := w\<rparr>)
   }"

definition timer_isr :: "('c, 'w) timer_sdk \<Rightarrow> 'w \<Rightarrow> 'w" where
  "timer_isr sdk w =
     (let (woken, w) =
            (if bflb_timer_get_compint_status sdk w
             then vTaskNotifyGiveFromISR sdk (bflb_timer_compint_clear sdk w)
             else (False, w))
      in if woken then portYIELD_FROM_ISR sdk w else w)"

text \<open>\<open>bl708\<close> is whether the build is for the BL702 family, which has another clock divider.\<close>

definition oblfr_timer_init ::
  "('c, 'w) timer_sdk \<Rightarrow> bool \<Rightarrow> ('c, 'w) timers \<Rightarrow> oblfr_err \<times> ('c, 'w) timers" where
  "oblfr_timer_init sdk bl708 s =
     (let cfg0 = \<lparr>clock_div = if bl708 then 31 else 39, comp0_val = 1000000\<rparr>;
          w = bflb_timer_init sdk cfg0 (world s);
          w = bflb_irq_enable sdk (bflb_irq_attach sdk w);
          w = vSemaphoreCreateBinary_list sdk w;
          (created, w) = xTaskCreate_timer sdk w
      in if \<not> created then (OBLFR_ERR_ERROR, s\<lparr>world := w\<rparr>)
         else (OBLFR_OK, s\<lparr>world := bflb_timer_start sdk w\<rparr>))"

definition oblfr_timer_is_active ::
  "('c, 'w) timer_sdk \<Rightarrow> nat option \<Rightarrow> ('c, 'w) timers \<Rightarrow> (bool \<times> ('c, 'w) timers) option" where
  "oblfr_timer_is_active sdk timer s =
     (case timer of
        None \<Rightarrow> Some (False, s)
      | Some a \<Rightarrow> do {
          (got, s) \<leftarrow> oblfr_timer_lock sdk s;
          if \<not> got then Some (False, s)
          else do {
            e \<leftarrow> timer_heap s a;
            Some (le_next e \<noteq> None, unlocked sdk s)
          }
        })"

definition oblfr_timer_stop ::
  "('c, 'w) timer_sdk \<Rightarrow> nat option \<Rightarrow> ('c, 'w) timers \<Rightarrow> (oblfr_err \<times> ('c, 'w) timers) option" where
  "oblfr_timer_stop sdk timer s =
     (case timer of
        None \<Rightarrow> Some (OBLFR_ERR_INVALID, s)
      | Some a \<Rightarrow> do {
          (r, s) \<leftarrow> oblfr_timer_remove sdk (Some a) s;
          if r \<noteq> OBLFR_OK then Some (OBLFR_ERR_INVALID, s)
          else do {
            (_, s) \<leftarrow> oblfr_recalc_next_fire sdk s;
            Some (OBLFR_OK, s)
          }
        })"

text \<open>The loop of \<^verbatim>\<open>oblfr_timer_deinit\<close>; it returns whether it still holds the lock.\<close>

partial_function (option) deinit_loop ::
  "('c, 'w) timer_sdk \<Rightarrow> nat option \<Rightarrow> ('c, 'w) timers \<Rightarrow> (bool \<times> ('c, 'w) timers) option" where
  "deinit_loop sdk t s =
     (case t of
        None \<Rightarrow> Some (True, s)
      | Some a \<Rightarrow> Option.bind (timer_heap s a) (\<lambda>e.
          Option.bind (oblfr_timer_stop sdk (Some a) (unlocked sdk s)) (\<lambda>(_, s).
          Option.bind (oblfr_timer_lock sdk s) (\<lambda>(got, s).
          if \<not> got then Some (False, s) else deinit_loop sdk (le_next e) s))))"

definition oblfr_timer_deinit ::
  "('c, 'w) timer_sdk \<Rightarrow> ('c, 'w) timers \<Rightarrow> (oblfr_err \<times> ('c, 'w) timers) option" where
  "oblfr_timer_deinit sdk s = do {
     (got, s) \<leftarrow> oblfr_timer_lock sdk s;
     if \<not> got then Some (OBLFR_ERR_ERROR, s)
     else do {
       let s = s\<lparr>world := bflb_timer_stop sdk (bflb_irq_detach sdk (bflb_irq_disable sdk (world s)))\<rparr>;
       (held, s) \<leftarrow> deinit_loop sdk (lh_first s) s;
       if \<not> held then Some (OBLFR_ERR_ERROR, s)
       else Some (OBLFR_OK, unlocked sdk (s\<lparr>world := vTaskDelete_timer sdk (world s)\<rparr>))
     }
   }"

text \<open>
  \<^verbatim>\<open>oblfr_timer_create\<close>. The arguments are \<^const>\<open>None\<close> for a null \<^verbatim>\<open>create_args\<close>, else the callback (null or
  not) and the name; \<open>out_ok\<close> is whether \<^verbatim>\<open>out_handle\<close> is not null. \<open>mem\<close> is what \<^verbatim>\<open>malloc\<close> returns and
  \<open>junk\<close> the contents of that block. The handle is returned.
\<close>

definition oblfr_timer_create ::
  "('c option \<times> string) option \<Rightarrow> bool \<Rightarrow> nat option \<Rightarrow> 'c oblfr_timer \<Rightarrow> ('c, 'w) timers \<Rightarrow>
   oblfr_err \<times> nat option \<times> ('c, 'w) timers" where
  "oblfr_timer_create create_args out_ok mem junk s =
     (case create_args of
        None \<Rightarrow> (OBLFR_ERR_INVALID, None, s)
      | Some (None, _) \<Rightarrow> (OBLFR_ERR_INVALID, None, s)
      | Some (Some cb, nm) \<Rightarrow>
          if \<not> out_ok then (OBLFR_ERR_INVALID, None, s)
          else (case mem of
              None \<Rightarrow> (OBLFR_ERR_NOMEM, None, s)
            | Some a \<Rightarrow>
                (OBLFR_OK, Some a, set_timer a (junk\<lparr>callback := cb, name := nm, le_next := None\<rparr>) s)))"

text \<open>The common body of the two start functions.\<close>

definition timer_start ::
  "('c, 'w) timer_sdk \<Rightarrow> bool \<Rightarrow> nat option \<Rightarrow> u32 \<Rightarrow> ('c, 'w) timers \<Rightarrow>
   (oblfr_err \<times> ('c, 'w) timers) option" where
  "timer_start sdk periodic timer ms s =
     (case timer of
        None \<Rightarrow> Some (OBLFR_ERR_INVALID, s)
      | Some a \<Rightarrow> do {
          (active, s) \<leftarrow> oblfr_timer_is_active sdk (Some a) s;
          if active then Some (OBLFR_ERR_INVALID, s)
          else do {
            let (now, s) = get_time_ms sdk s;
            s \<leftarrow> upd_timer a (\<lambda>t. t\<lparr>when := now + ucast ms,
                period := (if periodic then ucast ms else 0), repeat := periodic\<rparr>) s;
            (ret, s) \<leftarrow> oblfr_timer_insert sdk a s;
            (_, s) \<leftarrow> oblfr_recalc_next_fire sdk s;
            Some (ret, s)
          }
        })"

definition oblfr_timer_start_once ::
  "('c, 'w) timer_sdk \<Rightarrow> nat option \<Rightarrow> u32 \<Rightarrow> ('c, 'w) timers \<Rightarrow> (oblfr_err \<times> ('c, 'w) timers) option" where
  "oblfr_timer_start_once sdk timer timeout_ms s = timer_start sdk False timer timeout_ms s"

definition oblfr_timer_start_periodic ::
  "('c, 'w) timer_sdk \<Rightarrow> nat option \<Rightarrow> u32 \<Rightarrow> ('c, 'w) timers \<Rightarrow> (oblfr_err \<times> ('c, 'w) timers) option" where
  "oblfr_timer_start_periodic sdk timer period_ms s = timer_start sdk True timer period_ms s"

definition oblfr_timer_restart ::
  "('c, 'w) timer_sdk \<Rightarrow> nat option \<Rightarrow> u32 \<Rightarrow> ('c, 'w) timers \<Rightarrow> (oblfr_err \<times> ('c, 'w) timers) option" where
  "oblfr_timer_restart sdk timer timeout_ms s =
     (case timer of
        None \<Rightarrow> Some (OBLFR_ERR_INVALID, s)
      | Some a \<Rightarrow>
          if timeout_ms = 0 then Some (OBLFR_ERR_INVALID, s)
          else do {
            (active, s) \<leftarrow> oblfr_timer_is_active sdk (Some a) s;
            if \<not> active then Some (OBLFR_ERR_INVALID, s)
            else do {
              (r, s) \<leftarrow> oblfr_timer_remove sdk (Some a) s;
              if r \<noteq> OBLFR_OK then Some (OBLFR_ERR_INVALID, s)
              else do {
                e \<leftarrow> timer_heap s a;
                if repeat e then oblfr_timer_start_periodic sdk (Some a) timeout_ms s
                else oblfr_timer_start_once sdk (Some a) timeout_ms s
              }
            }
          })"

definition oblfr_timer_delete ::
  "('c, 'w) timer_sdk \<Rightarrow> nat option \<Rightarrow> ('c, 'w) timers \<Rightarrow> (oblfr_err \<times> ('c, 'w) timers) option" where
  "oblfr_timer_delete sdk timer s =
     (case timer of
        None \<Rightarrow> Some (OBLFR_ERR_INVALID, s)
      | Some a \<Rightarrow> do {
          (active, s) \<leftarrow> oblfr_timer_is_active sdk (Some a) s;
          if active then Some (OBLFR_ERR_INVALID, s)
          else Some (OBLFR_OK, s\<lparr>timer_heap := (timer_heap s)(a := None)\<rparr>)
        })"

text \<open>The values that \<^verbatim>\<open>oblfr_timer_dump\<close> prints: name, milliseconds left, repeat and period.\<close>

partial_function (option) dump_walk ::
  "('c, 'w) timer_sdk \<Rightarrow> nat option \<Rightarrow> ('c, 'w) timers \<Rightarrow> (string \<times> u64 \<times> bool \<times> u64) list \<Rightarrow>
   (('c, 'w) timers \<times> (string \<times> u64 \<times> bool \<times> u64) list) option" where
  "dump_walk sdk t s out =
     (case t of
        None \<Rightarrow> Some (s, out)
      | Some a \<Rightarrow> Option.bind (timer_heap s a) (\<lambda>e.
          case get_time_ms sdk s of (now, s) \<Rightarrow>
          dump_walk sdk (le_next e) s
            (out @ [(name e, if sint (when e - now) < 0 then 0 else when e - now, repeat e, period e)])))"

definition oblfr_timer_dump ::
  "('c, 'w) timer_sdk \<Rightarrow> ('c, 'w) timers \<Rightarrow>
   (('c, 'w) timers \<times> (string \<times> u64 \<times> bool \<times> u64) list) option" where
  "oblfr_timer_dump sdk s = do {
     (got, s) \<leftarrow> oblfr_timer_lock sdk s;
     if \<not> got then Some (s, [])
     else do {
       (s, out) \<leftarrow> dump_walk sdk (lh_first s) s [];
       Some (unlocked sdk s, out)
     }
   }"

end
