(* ===== verification/Timer_List.thy ===== *)
theory Timer_List
  imports Timer
begin

text \<open>
  The linked list of the timer module as a list of addresses: what the \<^verbatim>\<open>LIST\<close> macros do to it, and that
  the insertion loop puts a timer before the first one that is due later, which keeps the list sorted.
\<close>

section \<open>The linked list as a list of addresses\<close>

text \<open>\<open>seg h l p xs q\<close>: from the pointer \<open>p\<close>, stored at \<open>l\<close>, the links lead through \<open>xs\<close> to \<open>q\<close>.\<close>

fun seg :: "(nat \<rightharpoonup> 'c oblfr_timer) \<Rightarrow> timer_loc \<Rightarrow> nat option \<Rightarrow> nat list \<Rightarrow> nat option \<Rightarrow> bool" where
  "seg h l p [] q \<longleftrightarrow> p = q"
| "seg h l p (x # xs) q \<longleftrightarrow> p = Some x \<and>
     (case h x of None \<Rightarrow> False | Some t \<Rightarrow> le_prev t = Some l \<and> seg h (LE_NEXT x) (le_next t) xs q)"

definition timer_list :: "('c, 'w) timers \<Rightarrow> nat list \<Rightarrow> bool" where
  "timer_list s xs \<longleftrightarrow> distinct xs \<and> seg (timer_heap s) LH_FIRST (lh_first s) xs None"

definition end_loc :: "timer_loc \<Rightarrow> nat list \<Rightarrow> timer_loc" where
  "end_loc l xs = (if xs = [] then l else LE_NEXT (last xs))"

lemma end_loc_simps [simp]:
  "end_loc l [] = l" "end_loc l (x # xs) = end_loc (LE_NEXT x) xs" "end_loc l (xs @ [x]) = LE_NEXT x"
  by (auto simp: end_loc_def)

text \<open>What an operation on the links leaves alone.\<close>

definition payload :: "'c oblfr_timer \<Rightarrow> 'c oblfr_timer" where
  "payload t = t\<lparr>le_next := None, le_prev := None\<rparr>"

definition timer_data :: "('c, 'w) timers \<Rightarrow> nat \<Rightarrow> 'c oblfr_timer option" where
  "timer_data s a = map_option payload (timer_heap s a)"

definition links_only :: "nat set \<Rightarrow> ('c, 'w) timers \<Rightarrow> ('c, 'w) timers \<Rightarrow> bool" where
  "links_only A s s' \<longleftrightarrow> world s' = world s \<and> (\<forall>a. timer_data s' a = timer_data s a) \<and>
     (\<forall>a. a \<notin> A \<longrightarrow> timer_heap s' a = timer_heap s a)"

lemma links_only_refl [simp]: "links_only A s s"
  by (simp add: links_only_def)

lemma links_only_trans: "links_only A s s1 \<Longrightarrow> links_only B s1 s2 \<Longrightarrow> links_only (A \<union> B) s s2"
  by (simp add: links_only_def)

lemma links_only_mono: "links_only A s s' \<Longrightarrow> A \<subseteq> B \<Longrightarrow> links_only B s s'"
  by (auto simp: links_only_def)

lemma payload_links [simp]:
  "payload (t\<lparr>le_next := p\<rparr>) = payload t" "payload (t\<lparr>le_prev := q\<rparr>) = payload t"
  by (simp_all add: payload_def)

lemma upd_links:
  assumes "timer_heap s a = Some t" "\<And>t. payload (f t) = payload t"
  shows "upd_timer a f s = Some (set_timer a (f t) s)" "links_only {a} s (set_timer a (f t) s)"
  using assms by (simp_all add: upd_timer_def links_only_def timer_data_def set_timer_def)

lemma set_timer_sel [simp]:
  "timer_heap (set_timer a t s) = (timer_heap s)(a \<mapsto> t)" "lh_first (set_timer a t s) = lh_first s"
  "world (set_timer a t s) = world s"
  by (simp_all add: set_timer_def)

lemma seg_cong: "(\<And>x. x \<in> set xs \<Longrightarrow> h x = h' x) \<Longrightarrow> seg h l p xs q = seg h' l p xs q"
  by (induction xs arbitrary: l p) (auto split: option.splits)

lemma seg_frame [simp]: "a \<notin> set xs \<Longrightarrow> seg (h(a := t)) l p xs q = seg h l p xs q"
  by (rule seg_cong) auto

lemma seg_links:
  "links_only A s s' \<Longrightarrow> A \<inter> set xs = {} \<Longrightarrow> seg (timer_heap s') l p xs q = seg (timer_heap s) l p xs q"
  by (rule seg_cong) (auto simp: links_only_def)

lemma seg_append: "seg h l p (xs @ ys) q \<longleftrightarrow> (\<exists>m. seg h l p xs m \<and> seg h (end_loc l xs) m ys q)"
  by (induction xs arbitrary: l p) (auto split: option.splits)

lemma seg_in_heap: "seg h l p xs q \<Longrightarrow> x \<in> set xs \<Longrightarrow> \<exists>t. h x = Some t"
  by (induction xs arbitrary: l p) (auto split: option.splits)

text \<open>Redirecting the pointer at the end of a segment.\<close>

lemma write_end:
  assumes "distinct xs" "seg (timer_heap s) LH_FIRST (lh_first s) xs m"
  shows "\<exists>s'. write_loc (end_loc LH_FIRST xs) p s = Some s' \<and>
    seg (timer_heap s') LH_FIRST (lh_first s') xs p \<and> links_only (set xs) s s'"
proof (cases xs rule: rev_cases)
  case Nil
  then show ?thesis by (simp add: links_only_def timer_data_def)
next
  case (snoc ys y)
  with assms obtain t where t: "timer_heap s y = Some t" "le_prev t = Some (end_loc LH_FIRST ys)"
    "seg (timer_heap s) LH_FIRST (lh_first s) ys (Some y)"
    by (auto simp: seg_append split: option.splits)
  have u: "upd_timer y (\<lambda>t. t\<lparr>le_next := p\<rparr>) s = Some (set_timer y (t\<lparr>le_next := p\<rparr>) s)"
    "links_only {y} s (set_timer y (t\<lparr>le_next := p\<rparr>) s)"
    by (rule upd_links(1) [OF t(1)], simp) (rule upd_links(2) [OF t(1)], simp)
  have "seg (timer_heap (set_timer y (t\<lparr>le_next := p\<rparr>) s)) LH_FIRST (lh_first s) (ys @ [y]) p"
    using t assms(1) snoc by (auto simp: seg_append)
  with u snoc show ?thesis
    by (auto intro: links_only_mono)
qed

text \<open>Reading the list at a position.\<close>

lemma timer_list_split:
  assumes "timer_list s (xs @ a # ys)"
  obtains t where "timer_heap s a = Some t" "le_prev t = Some (end_loc LH_FIRST xs)"
    "seg (timer_heap s) LH_FIRST (lh_first s) xs (Some a)" "seg (timer_heap s) (LE_NEXT a) (le_next t) ys None"
    "distinct xs" "a \<notin> set xs" "a \<notin> set ys" "distinct ys" "set xs \<inter> set ys = {}"
  using assms by (auto simp: timer_list_def seg_append split: option.splits)

lemma seg_next: "seg h l p ys None \<Longrightarrow> p = (case ys of [] \<Rightarrow> None | y # _ \<Rightarrow> Some y)"
  by (cases ys) auto

lemma timer_list_frame:
  assumes "timer_list s xs" "lh_first s' = lh_first s" "\<And>x. x \<in> set xs \<Longrightarrow> timer_heap s' x = timer_heap s x"
  shows "timer_list s' xs"
  using assms seg_cong [of xs "timer_heap s'" "timer_heap s"] by (simp add: timer_list_def)

lemma LIST_REMOVE_correct:
  assumes "timer_list s (xs @ a # ys)"
  shows "\<exists>s'. LIST_REMOVE a s = Some s' \<and> timer_list s' (xs @ ys) \<and> links_only (set xs \<union> set ys) s s'"
proof -
  from assms obtain t where t: "timer_heap s a = Some t" "le_prev t = Some (end_loc LH_FIRST xs)"
    "seg (timer_heap s) LH_FIRST (lh_first s) xs (Some a)" "seg (timer_heap s) (LE_NEXT a) (le_next t) ys None"
    and d: "distinct xs" "a \<notin> set xs" "a \<notin> set ys" "distinct ys" "set xs \<inter> set ys = {}"
    by (rule timer_list_split)
  have nxt: "le_next t = (case ys of [] \<Rightarrow> None | y # _ \<Rightarrow> Some y)" using t(4) by (rule seg_next)
  obtain s1 where s1: "(case le_next t of None \<Rightarrow> Some s
        | Some n \<Rightarrow> upd_timer n (\<lambda>u. u\<lparr>le_prev := le_prev t\<rparr>) s) = Some s1"
    and l1: "links_only (set ys) s s1" and f1: "lh_first s1 = lh_first s"
    and g1: "seg (timer_heap s1) (end_loc LH_FIRST xs) (le_next t) ys None"
  proof (cases ys)
    case Nil
    with that [of s] t(4) nxt show ?thesis by simp
  next
    case (Cons y ys')
    with t(4) obtain u where u: "timer_heap s y = Some u" by (auto split: option.splits)
    have 1: "upd_timer y (\<lambda>u. u\<lparr>le_prev := le_prev t\<rparr>) s = Some (set_timer y (u\<lparr>le_prev := le_prev t\<rparr>) s)"
      by (rule upd_links(1) [OF u]) simp
    have 2: "links_only {y} s (set_timer y (u\<lparr>le_prev := le_prev t\<rparr>) s)"
      by (rule upd_links(2) [OF u]) simp
    show ?thesis
    proof (rule that [of "set_timer y (u\<lparr>le_prev := le_prev t\<rparr>) s"])
      show "links_only (set ys) s (set_timer y (u\<lparr>le_prev := le_prev t\<rparr>) s)"
        using 2 Cons by (auto intro: links_only_mono)
    qed (use 1 nxt Cons t u d in \<open>auto\<close>)
  qed
  have a1: "timer_heap s1 a = Some t" using l1 d t(1) by (simp add: links_only_def)
  have x1: "seg (timer_heap s1) LH_FIRST (lh_first s1) xs (Some a)"
    using t(3) f1 seg_links [OF l1, of xs] d(5) by (simp add: Int_commute)
  obtain s2 where s2: "write_loc (end_loc LH_FIRST xs) (le_next t) s1 = Some s2"
    "seg (timer_heap s2) LH_FIRST (lh_first s2) xs (le_next t)" "links_only (set xs) s1 s2"
    using write_end [OF d(1) x1] by blast
  have "seg (timer_heap s2) (end_loc LH_FIRST xs) (le_next t) ys None"
    using g1 seg_links [OF s2(3) d(5)] by simp
  then have "timer_list s2 (xs @ ys)"
    using s2(2) d by (auto simp: timer_list_def seg_append)
  moreover have "links_only (set xs \<union> set ys) s s2"
    using links_only_trans [OF l1 s2(3)] by (simp add: Un_commute)
  moreover have "LIST_REMOVE a s = Some s2"
    using s1 s2(1) a1 t by (simp add: LIST_REMOVE_def)
  ultimately show ?thesis by blast
qed

text \<open>Insertion, in the three ways the code does it.\<close>

lemma timer_list_links:
  assumes "timer_list s xs" "links_only A s s'" "A \<inter> set xs = {}" "lh_first s' = lh_first s"
  shows "timer_list s' xs"
  using assms seg_links [OF assms(2,3)] by (simp add: timer_list_def)

lemma LIST_INSERT_HEAD_empty:
  assumes "timer_list s []" "timer_heap s a = Some t"
  shows "\<exists>s'. LIST_INSERT_HEAD a s = Some s' \<and> timer_list s' [a] \<and> links_only {a} s s'"
  using assms
  by (simp add: LIST_INSERT_HEAD_def timer_list_def upd_timer_def links_only_def timer_data_def)

lemma LIST_INSERT_BEFORE_correct:
  assumes l: "timer_list s (xs @ b # ys)" and a: "timer_heap s a = Some t" "a \<notin> set (xs @ b # ys)"
  shows "\<exists>s'. LIST_INSERT_BEFORE b a s = Some s' \<and> timer_list s' (xs @ a # b # ys) \<and>
    links_only (insert a (set (xs @ b # ys))) s s'"
proof -
  from l obtain u where u: "timer_heap s b = Some u" "le_prev u = Some (end_loc LH_FIRST xs)"
    "seg (timer_heap s) LH_FIRST (lh_first s) xs (Some b)" "seg (timer_heap s) (LE_NEXT b) (le_next u) ys None"
    and d: "distinct xs" "b \<notin> set xs" "b \<notin> set ys" "distinct ys" "set xs \<inter> set ys = {}"
    by (rule timer_list_split)
  define t1 where "t1 = t\<lparr>le_prev := Some (end_loc LH_FIRST xs), le_next := Some b\<rparr>"
  define s1 where "s1 = set_timer a t1 s"
  have s1: "links_only {a} s s1" "timer_heap s1 b = Some u" "timer_heap s1 a = Some t1" "lh_first s1 = lh_first s"
    using a u(1) by (auto simp: s1_def t1_def links_only_def timer_data_def payload_def)
  have x1: "seg (timer_heap s1) LH_FIRST (lh_first s1) xs (Some b)"
    "seg (timer_heap s1) (LE_NEXT b) (le_next u) ys None"
    using u a(2) by (simp_all add: s1_def)
  obtain s2 where s2: "write_loc (end_loc LH_FIRST xs) (Some a) s1 = Some s2"
    "seg (timer_heap s2) LH_FIRST (lh_first s2) xs (Some a)" "links_only (set xs) s1 s2"
    using write_end [OF d(1) x1(1)] by blast
  have h2: "timer_heap s2 b = Some u" "timer_heap s2 a = Some t1"
    "seg (timer_heap s2) (LE_NEXT b) (le_next u) ys None"
    using s1 s2(3) d(2) a(2) seg_links [OF s2(3) d(5)] x1(2) by (auto simp: links_only_def)
  define u3 where "u3 = u\<lparr>le_prev := Some (LE_NEXT a)\<rparr>"
  have s3: "upd_timer b (\<lambda>t. t\<lparr>le_prev := Some (LE_NEXT a)\<rparr>) s2 = Some (set_timer b u3 s2)"
    "links_only {b} s2 (set_timer b u3 s2)"
    unfolding u3_def by (rule upd_links(1) [OF h2(1)], simp) (rule upd_links(2) [OF h2(1)], simp)
  have "LIST_INSERT_BEFORE b a s = Some (set_timer b u3 s2)"
    using u(1,2) a s1 s2(1) s3(1)
    by (simp add: LIST_INSERT_BEFORE_def upd_timer_def s1_def t1_def set_timer_def)
  moreover have "timer_list (set_timer b u3 s2) (xs @ a # b # ys)"
    using s2(2) h2 d a(2) by (auto simp: timer_list_def seg_append u3_def t1_def)
  moreover have "links_only (insert a (set (xs @ b # ys))) s (set_timer b u3 s2)"
    by (rule links_only_mono [OF links_only_trans [OF links_only_trans [OF s1(1) s2(3)] s3(2)]]) auto
  ultimately show ?thesis by blast
qed

lemma LIST_INSERT_AFTER_last:
  assumes l: "timer_list s (xs @ [b])" and a: "timer_heap s a = Some t" "a \<notin> set (xs @ [b])"
  shows "\<exists>s'. LIST_INSERT_AFTER b a s = Some s' \<and> timer_list s' (xs @ [b, a]) \<and>
    links_only (insert a (set (xs @ [b]))) s s'"
proof -
  from l obtain u where u: "timer_heap s b = Some u" "le_prev u = Some (end_loc LH_FIRST xs)"
    "seg (timer_heap s) LH_FIRST (lh_first s) xs (Some b)" "le_next u = None"
    and d: "distinct xs" "b \<notin> set xs"
    by (rule timer_list_split) simp
  define s' where "s' = set_timer a (t\<lparr>le_next := None, le_prev := Some (LE_NEXT b)\<rparr>) (set_timer b (u\<lparr>le_next := Some a\<rparr>) s)"
  have "LIST_INSERT_AFTER b a s = Some s'"
    using u a by (simp add: LIST_INSERT_AFTER_def upd_timer_def s'_def set_timer_def fun_upd_twist fun_upd_upd)
  moreover have "timer_list s' (xs @ [b, a])"
    using u a d by (auto simp: timer_list_def seg_append s'_def)
  moreover have "links_only (insert a (set (xs @ [b]))) s s'"
    using u(1) a(1) by (auto simp: links_only_def timer_data_def s'_def payload_def)
  ultimately show ?thesis by blast
qed

text \<open>The due time of a timer, and the place where the code inserts one: before the first later one.\<close>

definition due :: "('c, 'w) timers \<Rightarrow> nat \<Rightarrow> u64" where
  "due s a = (case timer_heap s a of None \<Rightarrow> 0 | Some t \<Rightarrow> when t)"

definition insert_due :: "(nat \<Rightarrow> u64) \<Rightarrow> nat \<Rightarrow> nat list \<Rightarrow> nat list" where
  "insert_due k a xs = takeWhile (\<lambda>x. k x \<le> k a) xs @ a # dropWhile (\<lambda>x. k x \<le> k a) xs"

lemma timer_data_when: "timer_data s' a = timer_data s a \<Longrightarrow> due s' a = due s a"
  by (cases "timer_heap s a"; cases "timer_heap s' a")
    (auto simp: timer_data_def due_def payload_def dest: arg_cong [of _ _ "when"])

lemma links_only_due: "links_only A s s' \<Longrightarrow> due s' = due s"
  by (auto simp: links_only_def intro: timer_data_when)

lemma insert_walk_eq:
  assumes "seg h l p xs None" and k: "\<And>x t. h x = Some t \<Longrightarrow> k x = when t"
  shows "insert_walk h w tail0 p =
    Some (let ys = takeWhile (\<lambda>x. k x \<le> w) xs in if ys = [] then tail0 else Some (last ys),
          case dropWhile (\<lambda>x. k x \<le> w) xs of [] \<Rightarrow> None | b # _ \<Rightarrow> Some b)"
  using assms(1)
proof (induction xs arbitrary: l p tail0)
  case Nil
  then show ?case by (simp add: insert_walk.simps)
next
  case (Cons x xs)
  then obtain t where t: "p = Some x" "h x = Some t" "seg h (LE_NEXT x) (le_next t) xs None"
    by (auto split: option.splits)
  have kx: "k x = when t" using t(2) by (rule k)
  show ?case
  proof (cases "when t > w")
    case True
    then have "\<not> when t \<le> w" by simp
    with t kx True show ?thesis by (subst insert_walk.simps) simp
  next
    case False
    with t kx Cons.IH [OF t(3), of "Some x"] show ?thesis
      by (subst insert_walk.simps) (auto simp: Let_def not_less)
  qed
qed

lemma timer_list_insert_correct:
  assumes l: "timer_list s xs" and a: "timer_heap s a = Some t" "a \<notin> set xs"
  shows "\<exists>s'. timer_list_insert a s = Some s' \<and> timer_list s' (insert_due (due s) a xs) \<and>
    links_only (insert a (set xs)) s s'"
proof (cases "xs = []")
  case True
  moreover from this l have "lh_first s = None" by (simp add: timer_list_def)
  ultimately show ?thesis
    using LIST_INSERT_HEAD_empty l a(1) by (auto simp: timer_list_insert_def insert_due_def)
next
  case False
  with l have f: "lh_first s \<noteq> None" by (cases xs) (auto simp: timer_list_def)
  have wa: "when t = due s a" using a(1) by (simp add: due_def)
  define ps qs where "ps = takeWhile (\<lambda>x. due s x \<le> due s a) xs" and "qs = dropWhile (\<lambda>x. due s x \<le> due s a) xs"
  have pq: "xs = ps @ qs" by (simp add: ps_def qs_def)
  have walk: "insert_walk (timer_heap s) (due s a) None (lh_first s) =
      Some (if ps = [] then None else Some (last ps), case qs of [] \<Rightarrow> None | b # _ \<Rightarrow> Some b)"
    using insert_walk_eq [of "timer_heap s" LH_FIRST "lh_first s" xs "due s" "due s a" None] l
    by (simp add: timer_list_def due_def ps_def qs_def Let_def)
  have ins: "insert_due (due s) a xs = ps @ a # qs" by (simp add: insert_due_def ps_def qs_def)
  show ?thesis
  proof (cases qs)
    case Nil
    with pq False obtain ps' b where ps: "ps = ps' @ [b]" by (cases ps rule: rev_cases) auto
    with LIST_INSERT_AFTER_last [of s ps' b a t] l a pq Nil
    obtain s' where "LIST_INSERT_AFTER b a s = Some s'" "timer_list s' (ps' @ [b, a])"
      "links_only (insert a (set xs)) s s'" by auto
    with f a(1) wa walk Nil ps ins pq show ?thesis by (auto simp: timer_list_insert_def)
  next
    case (Cons b ys)
    with LIST_INSERT_BEFORE_correct [of s ps b ys a t] l a pq
    obtain s' where "LIST_INSERT_BEFORE b a s = Some s'" "timer_list s' (ps @ a # b # ys)"
      "links_only (insert a (set xs)) s s'" by auto
    with f a(1) wa walk Cons ins pq show ?thesis by (auto simp: timer_list_insert_def)
  qed
qed

lemma set_insert_due [simp]: "set (insert_due k a xs) = insert a (set xs)"
  unfolding insert_due_def by (metis Un_insert_right list.simps(15) set_append takeWhile_dropWhile_id)

lemma insert_due_cong: "(\<And>x. x \<in> insert a (set xs) \<Longrightarrow> k x = k' x) \<Longrightarrow> insert_due k a xs = insert_due k' a xs"
  unfolding insert_due_def by (intro arg_cong2 [of _ _ _ _ append] arg_cong2 [of _ _ _ _ Cons] refl takeWhile_cong dropWhile_cong) auto

lemma sorted_insert_due:
  assumes "sorted (map k xs)"
  shows "sorted (map k (insert_due k a xs))"
proof -
  define ps qs where "ps = takeWhile (\<lambda>x. k x \<le> k a) xs" and "qs = dropWhile (\<lambda>x. k x \<le> k a) xs"
  have xs: "xs = ps @ qs" by (simp add: ps_def qs_def)
  then have s: "sorted (map k ps)" "sorted (map k qs)" using assms by (simp_all add: sorted_append)
  have p: "k x \<le> k a" if "x \<in> set ps" for x using that by (auto simp: ps_def dest: set_takeWhileD)
  have q: "k a \<le> k x" if "x \<in> set qs" for x
  proof (cases qs)
    case Nil
    with that show ?thesis by simp
  next
    case (Cons b ys)
    then have "k a \<le> k b" unfolding qs_def by (metis hd_dropWhile linear list.sel(1) list.simps(3))
    with s(2) that Cons show ?thesis by auto
  qed
  have "sorted (map k (ps @ a # qs))"
    using s p q order_trans [OF p q] by (auto simp: sorted_append)
  then show ?thesis by (simp add: insert_due_def ps_def qs_def)
qed

end
