(* ===== verification/Timer_Pass.thy ===== *)
theory Timer_Pass
  imports Timer_List
begin

text \<open>
  The functions of the timer module over any SDK that behaves as documented (\<open>sdk_ok\<close>): inserting,
  starting, removing and stopping a timer, and the pass of the timer task over the list, with the
  measure that shows that it ends.
\<close>

section \<open>The SDK as the timer module uses it\<close>

text \<open>
  What the module relies on of FreeRTOS and the SDK, with \<open>free\<close> and \<open>held\<close> the two states of the list
  lock: a free lock can be taken, a held one given back, nothing else moves it, and the callbacks
  return. The clock stays in a window while a function runs.
\<close>

definition sdk_ok :: "('c, 'w) timer_sdk \<Rightarrow> ('w \<Rightarrow> bool) \<Rightarrow> ('w \<Rightarrow> bool) \<Rightarrow> bool" where
  "sdk_ok sdk free held \<longleftrightarrow>
     (\<forall>w. free w \<longrightarrow> (\<exists>w'. xSemaphoreTake_list sdk w = Some (True, w') \<and> held w')) \<and>
     (\<forall>w. held w \<longrightarrow> (\<exists>w'. xSemaphoreGive_list sdk w = (True, w') \<and> free w')) \<and>
     (\<forall>w. held w \<longrightarrow> held (snd (bflb_mtimer_get_time_ms sdk w))) \<and>
     (\<forall>w. free w \<longrightarrow> free (snd (bflb_mtimer_get_time_ms sdk w))) \<and>
     (\<forall>w v. held w \<longrightarrow> held (bflb_timer_set_compvalue sdk v w)) \<and>
     (\<forall>w c a. held w \<longrightarrow> (\<exists>w'. run_callback sdk c a w = Some w' \<and> held w'))"

definition clock_within :: "('c, 'w) timer_sdk \<Rightarrow> u64 \<Rightarrow> u64 \<Rightarrow> bool" where
  "clock_within sdk T0 T \<longleftrightarrow>
     (\<forall>w. T0 \<le> fst (bflb_mtimer_get_time_ms sdk w) \<and> fst (bflb_mtimer_get_time_ms sdk w) \<le> T)"

lemma lock_ok:
  assumes "sdk_ok sdk free held" "free (world s)"
  obtains w where "oblfr_timer_lock sdk s = Some (True, s\<lparr>world := w\<rparr>)" "held w"
proof -
  from assms obtain w where "xSemaphoreTake_list sdk (world s) = Some (True, w)" "held w"
    unfolding sdk_ok_def by blast
  with that show ?thesis by (simp add: oblfr_timer_lock_def)
qed

lemma unlock_ok:
  assumes "sdk_ok sdk free held" "held (world s)"
  obtains w where "oblfr_timer_unlock sdk s = (True, s\<lparr>world := w\<rparr>)" "free w"
proof -
  from assms obtain w where "xSemaphoreGive_list sdk (world s) = (True, w)" "free w"
    unfolding sdk_ok_def by blast
  with that show ?thesis by (simp add: oblfr_timer_unlock_def)
qed

lemma time_ok:
  assumes "sdk_ok sdk free held"
  shows "\<exists>now w. get_time_ms sdk s = (now, s\<lparr>world := w\<rparr>) \<and>
    bflb_mtimer_get_time_ms sdk (world s) = (now, w) \<and>
    (held (world s) \<longrightarrow> held w) \<and> (free (world s) \<longrightarrow> free w)"
proof -
  obtain now w where t: "bflb_mtimer_get_time_ms sdk (world s) = (now, w)" by (rule prod.exhaust)
  have "held (world s) \<longrightarrow> held (snd (bflb_mtimer_get_time_ms sdk (world s)))"
    "free (world s) \<longrightarrow> free (snd (bflb_mtimer_get_time_ms sdk (world s)))"
    using assms unfolding sdk_ok_def by blast+
  with t show ?thesis by (auto simp: get_time_ms_def)
qed

lemma callback_ok:
  assumes "sdk_ok sdk free held" "held w"
  shows "\<exists>w'. run_callback sdk c a w = Some w' \<and> held w'"
  using assms by (simp add: sdk_ok_def)

lemma timer_list_world [simp]: "timer_list (s\<lparr>world := w\<rparr>) xs = timer_list s xs"
  by (simp add: timer_list_def)

lemma due_world [simp]: "due (s\<lparr>world := w\<rparr>) = due s"
  by (simp add: due_def fun_eq_iff)

lemma timer_data_world [simp]: "timer_data (s\<lparr>world := w\<rparr>) = timer_data s"
  by (simp add: timer_data_def fun_eq_iff)

section \<open>Operations\<close>

lemma insert_ok:
  assumes ok: "sdk_ok sdk free held" and f: "free (world s)"
    and l: "timer_list s xs" "a \<notin> set xs" "timer_heap s a = Some t"
  shows "\<exists>s'. oblfr_timer_insert sdk a s = Some (OBLFR_OK, s') \<and> free (world s') \<and>
    timer_list s' (insert_due (due s) a xs) \<and> timer_data s' = timer_data s \<and>
    (\<forall>b. b \<notin> insert a (set xs) \<longrightarrow> timer_heap s' b = timer_heap s b)"
proof -
  obtain w where w: "oblfr_timer_lock sdk s = Some (True, s\<lparr>world := w\<rparr>)" "held w"
    using ok f by (rule lock_ok)
  obtain s1 where s1: "timer_list_insert a (s\<lparr>world := w\<rparr>) = Some s1"
    "timer_list s1 (insert_due (due s) a xs)" "links_only (insert a (set xs)) (s\<lparr>world := w\<rparr>) s1"
    using timer_list_insert_correct [of "s\<lparr>world := w\<rparr>" xs a t] l by auto
  then have "held (world s1)" using w(2) by (simp add: links_only_def)
  with ok obtain w' where "oblfr_timer_unlock sdk s1 = (True, s1\<lparr>world := w'\<rparr>)" "free w'"
    by (rule unlock_ok)
  with w s1 show ?thesis
    by (auto simp: oblfr_timer_insert_def links_only_def)
qed

lemma recalc_first_ok:
  assumes ok: "sdk_ok sdk free held" and f: "free (world s)"
    and t: "lh_first s = Some a" "timer_heap s a = Some t"
  shows "\<exists>w. oblfr_recalc_next_fire sdk s = Some (OBLFR_OK, s\<lparr>world := w\<rparr>) \<and> free w"
proof -
  obtain w where w: "oblfr_timer_lock sdk s = Some (True, s\<lparr>world := w\<rparr>)" "held w"
    using ok f by (rule lock_ok)
  obtain now w1 where w1: "get_time_ms sdk (s\<lparr>world := w\<rparr>) = (now, (s\<lparr>world := w\<rparr>)\<lparr>world := w1\<rparr>)" "held w1"
    using time_ok [OF ok, of "s\<lparr>world := w\<rparr>"] w(2) by auto
  let ?w2 = "bflb_timer_set_compvalue sdk (next_fire_delay (when t) now * 1000) w1"
  have "held ?w2" using ok w1(2) by (simp add: sdk_ok_def)
  then obtain w' where "oblfr_timer_unlock sdk (s\<lparr>world := ?w2\<rparr>) = (True, (s\<lparr>world := ?w2\<rparr>)\<lparr>world := w'\<rparr>)" "free w'"
    using ok unlock_ok [of sdk free held "s\<lparr>world := ?w2\<rparr>"] by auto
  with w w1 t show ?thesis by (auto simp: oblfr_recalc_next_fire_def)
qed

lemma recalc_ok:
  assumes ok: "sdk_ok sdk free held" and f: "free (world s)" and l: "timer_list s xs"
  shows "\<exists>w. oblfr_recalc_next_fire sdk s = Some (OBLFR_OK, s\<lparr>world := w\<rparr>) \<and> free w"
proof (cases xs)
  case Nil
  obtain w where w: "oblfr_timer_lock sdk s = Some (True, s\<lparr>world := w\<rparr>)" "held w"
    using ok f by (rule lock_ok)
  obtain w' where "oblfr_timer_unlock sdk (s\<lparr>world := w\<rparr>) = (True, (s\<lparr>world := w\<rparr>)\<lparr>world := w'\<rparr>)" "free w'"
    using ok w(2) unlock_ok [of sdk free held "s\<lparr>world := w\<rparr>"] by auto
  with w l Nil show ?thesis by (auto simp: oblfr_recalc_next_fire_def timer_list_def)
next
  case (Cons a ys)
  with l obtain t where "lh_first s = Some a" "timer_heap s a = Some t"
    by (auto simp: timer_list_def split: option.splits)
  with ok f show ?thesis by (rule recalc_first_ok)
qed

lemma is_active_ok:
  assumes ok: "sdk_ok sdk free held" and f: "free (world s)" and t: "timer_heap s a = Some t"
  shows "\<exists>w. oblfr_timer_is_active sdk (Some a) s = Some (le_next t \<noteq> None, s\<lparr>world := w\<rparr>) \<and> free w"
proof -
  obtain w where w: "oblfr_timer_lock sdk s = Some (True, s\<lparr>world := w\<rparr>)" "held w"
    using ok f by (rule lock_ok)
  obtain w' where "oblfr_timer_unlock sdk (s\<lparr>world := w\<rparr>) = (True, (s\<lparr>world := w\<rparr>)\<lparr>world := w'\<rparr>)" "free w'"
    using ok w(2) unlock_ok [of sdk free held "s\<lparr>world := w\<rparr>"] by auto
  with w t show ?thesis by (auto simp: oblfr_timer_is_active_def)
qed

text \<open>Writing the fields of a timer that is not in the list.\<close>

lemma timer_list_set_timer: "a \<notin> set xs \<Longrightarrow> timer_list (set_timer a t s) xs = timer_list s xs"
  by (simp add: timer_list_def)

lemma start_ok:
  assumes ok: "sdk_ok sdk free held" and f: "free (world s)"
    and l: "timer_list s xs" "a \<notin> set xs" "timer_heap s a = Some t" "le_next t = None"
  shows "\<exists>s' now w w'. timer_start sdk periodic (Some a) ms s = Some (OBLFR_OK, s') \<and> free (world s') \<and>
    bflb_mtimer_get_time_ms sdk w = (now, w') \<and>
    (let k = (due s)(a := now + ucast ms) in timer_list s' (insert_due k a xs)) \<and>
    timer_data s' = (timer_data s)(a \<mapsto> payload (t\<lparr>when := now + ucast ms,
      period := (if periodic then ucast ms else 0), repeat := periodic\<rparr>)) \<and>
    (\<forall>b. b \<notin> insert a (set xs) \<longrightarrow> timer_heap s' b = timer_heap s b)"
proof -
  obtain w where w: "oblfr_timer_is_active sdk (Some a) s = Some (False, s\<lparr>world := w\<rparr>)" "free w"
    using is_active_ok [OF ok f l(3)] l(4) by auto
  obtain now w1 where w1: "get_time_ms sdk (s\<lparr>world := w\<rparr>) = (now, (s\<lparr>world := w\<rparr>)\<lparr>world := w1\<rparr>)" "free w1"
    "bflb_mtimer_get_time_ms sdk w = (now, w1)"
    using time_ok [OF ok, of "s\<lparr>world := w\<rparr>"] w(2) by auto
  define t1 where "t1 = t\<lparr>when := now + ucast ms, period := (if periodic then ucast ms else 0), repeat := periodic\<rparr>"
  define s1 where "s1 = set_timer a t1 (s\<lparr>world := w1\<rparr>)"
  have s1: "upd_timer a (\<lambda>t. t\<lparr>when := now + ucast ms, period := (if periodic then ucast ms else 0),
      repeat := periodic\<rparr>) (s\<lparr>world := w1\<rparr>) = Some s1"
    using l(3) by (simp add: upd_timer_def s1_def t1_def)
  have k1: "due s1 = (due s)(a := now + ucast ms)"
    by (auto simp: s1_def due_def t1_def fun_eq_iff)
  have d1: "timer_data s1 = (timer_data s)(a \<mapsto> payload t1)"
    by (auto simp: s1_def timer_data_def fun_eq_iff)
  obtain s2 where s2: "oblfr_timer_insert sdk a s1 = Some (OBLFR_OK, s2)" "free (world s2)"
    "timer_list s2 (insert_due (due s1) a xs)" "timer_data s2 = timer_data s1"
    "\<forall>b. b \<notin> insert a (set xs) \<longrightarrow> timer_heap s2 b = timer_heap s1 b"
    using insert_ok [OF ok, of s1 xs a t1] w1(2) l(1,2) by (auto simp: s1_def timer_list_set_timer)
  obtain w3 where w3: "oblfr_recalc_next_fire sdk s2 = Some (OBLFR_OK, s2\<lparr>world := w3\<rparr>)" "free w3"
    using recalc_ok [OF ok s2(2,3)] by blast
  have "timer_start sdk periodic (Some a) ms s = Some (OBLFR_OK, s2\<lparr>world := w3\<rparr>)"
    using w w1(1) s1 s2(1) w3(1) by (simp add: timer_start_def)
  moreover have "\<forall>b. b \<notin> insert a (set xs) \<longrightarrow> timer_heap s2 b = timer_heap s b"
    using s2(5) by (auto simp: s1_def)
  ultimately show ?thesis
    using w1(3) w3(2) s2(3,4) k1 d1 by (fastforce simp: t1_def Let_def)
qed

lemma remove_ok:
  assumes ok: "sdk_ok sdk free held" and f: "free (world s)" and l: "timer_list s (xs @ a # ys)"
  shows "\<exists>s' t. oblfr_timer_remove sdk (Some a) s = Some (OBLFR_OK, s') \<and> free (world s') \<and>
    timer_list s' (xs @ ys) \<and> timer_heap s a = Some t \<and> timer_heap s' a = Some (t\<lparr>when := 0\<rparr>) \<and>
    (\<forall>b. b \<noteq> a \<longrightarrow> timer_data s' b = timer_data s b) \<and>
    (\<forall>b. b \<notin> set (xs @ a # ys) \<longrightarrow> timer_heap s' b = timer_heap s b)"
proof -
  obtain w where w: "oblfr_timer_lock sdk s = Some (True, s\<lparr>world := w\<rparr>)" "held w"
    using ok f by (rule lock_ok)
  obtain s1 where s1: "LIST_REMOVE a (s\<lparr>world := w\<rparr>) = Some s1" "timer_list s1 (xs @ ys)"
    "links_only (set xs \<union> set ys) (s\<lparr>world := w\<rparr>) s1"
    using LIST_REMOVE_correct [of "s\<lparr>world := w\<rparr>" xs a ys] l by auto
  from l obtain t where t: "timer_heap s a = Some t" "a \<notin> set xs" "a \<notin> set ys"
    by (rule timer_list_split) blast
  then have a1: "timer_heap s1 a = Some t" using s1(3) by (simp add: links_only_def)
  define s2 where "s2 = set_timer a (t\<lparr>when := 0\<rparr>) s1"
  have s2: "upd_timer a (\<lambda>t. t\<lparr>when := 0\<rparr>) s1 = Some s2" "timer_list s2 (xs @ ys)"
    using a1 s1(2) t by (simp_all add: upd_timer_def s2_def timer_list_set_timer)
  have "held (world s2)" using w(2) s1(3) by (simp add: links_only_def s2_def)
  with ok obtain w' where "oblfr_timer_unlock sdk s2 = (True, s2\<lparr>world := w'\<rparr>)" "free w'"
    by (rule unlock_ok)
  with w s1 s2 t show ?thesis
    by (auto simp: oblfr_timer_remove_def links_only_def s2_def timer_data_def)
qed

lemma stop_ok:
  assumes ok: "sdk_ok sdk free held" and f: "free (world s)" and l: "timer_list s (xs @ a # ys)"
  shows "\<exists>s' t. oblfr_timer_stop sdk (Some a) s = Some (OBLFR_OK, s') \<and> free (world s') \<and>
    timer_list s' (xs @ ys) \<and> timer_heap s a = Some t \<and> timer_heap s' a = Some (t\<lparr>when := 0\<rparr>) \<and>
    (\<forall>b. b \<noteq> a \<longrightarrow> timer_data s' b = timer_data s b) \<and>
    (\<forall>b. b \<notin> set (xs @ a # ys) \<longrightarrow> timer_heap s' b = timer_heap s b)"
proof -
  obtain s1 t where s1: "oblfr_timer_remove sdk (Some a) s = Some (OBLFR_OK, s1)" "free (world s1)"
    "timer_list s1 (xs @ ys)" "timer_heap s a = Some t" "timer_heap s1 a = Some (t\<lparr>when := 0\<rparr>)"
    "\<forall>b. b \<noteq> a \<longrightarrow> timer_data s1 b = timer_data s b"
    "\<forall>b. b \<notin> set (xs @ a # ys) \<longrightarrow> timer_heap s1 b = timer_heap s b"
    using remove_ok [OF assms] by blast
  moreover obtain w where "oblfr_recalc_next_fire sdk s1 = Some (OBLFR_OK, s1\<lparr>world := w\<rparr>)" "free w"
    using recalc_ok [OF ok s1(2,3)] by blast
  ultimately show ?thesis by (auto simp: oblfr_timer_stop_def)
qed

section \<open>A pass of the timer task\<close>

definition tm :: "('c, 'w) timers \<Rightarrow> nat \<Rightarrow> 'c oblfr_timer" where
  "tm s a = the (timer_data s a)"

lemma tm_eq: "timer_heap s a = Some t \<Longrightarrow> tm s a = payload t"
  by (simp add: tm_def timer_data_def)

lemma due_tm: "timer_heap s a = Some t \<Longrightarrow> due s a = when (tm s a)"
  by (simp add: tm_eq due_def payload_def)

lemma due_eq: "timer_data s' = timer_data s \<Longrightarrow> due s' = due s"
  by (rule ext, rule timer_data_when) simp

text \<open>The insertion point, seen from a cursor into the list.\<close>

lemma insert_due_cursor:
  assumes "sorted (map k (ps @ qs))"
  shows "\<exists>ps' qs'. insert_due k a (ps @ qs) = ps' @ qs' \<and>
    (qs' = [] \<longleftrightarrow> qs = []) \<and> (qs \<noteq> [] \<longrightarrow> hd qs' = hd qs) \<and>
    (set ps' = insert a (set ps) \<and> qs' = qs \<or>
     ps' = ps \<and> set qs' = insert a (set qs))"
proof (cases "qs = [] \<or> \<not> k (hd qs) \<le> k a")
  case True
  have "takeWhile (\<lambda>x. k x \<le> k a) (ps @ qs) = takeWhile (\<lambda>x. k x \<le> k a) ps \<and>
      dropWhile (\<lambda>x. k x \<le> k a) (ps @ qs) = dropWhile (\<lambda>x. k x \<le> k a) ps @ qs"
    using True by (induction ps) (cases qs; auto)+
  then have "insert_due k a (ps @ qs) = insert_due k a ps @ qs" by (simp add: insert_due_def)
  then show ?thesis by (intro exI [of _ "insert_due k a ps"] exI [of _ qs]) auto
next
  case False
  then have ps: "\<forall>x \<in> set ps. k x \<le> k a"
    using assms by (cases qs) (auto simp: sorted_append intro: order_trans)
  then have "insert_due k a (ps @ qs) = ps @ insert_due k a qs"
    by (simp add: insert_due_def takeWhile_append2 dropWhile_append2)
  moreover have "hd (insert_due k a qs) = hd qs" "insert_due k a qs \<noteq> []"
    using False by (cases qs; simp add: insert_due_def)+
  ultimately show ?thesis using False
    by (intro exI [of _ ps] exI [of _ "insert_due k a qs"]) auto
qed

abbreviation cursor :: "nat list \<Rightarrow> nat option" where
  "cursor qs \<equiv> (case qs of [] \<Rightarrow> None | y # _ \<Rightarrow> Some y)"

lemma cursor_hd: "(qs' = [] \<longleftrightarrow> qs = []) \<Longrightarrow> (qs \<noteq> [] \<longrightarrow> hd qs' = hd qs) \<Longrightarrow> cursor qs' = cursor qs"
  by (cases qs; cases qs') auto

lemma process_step:
  assumes ok: "sdk_ok sdk free held" and h: "held (world s)"
    and l: "timer_list s (ps @ a # qs)" and srt: "sorted (map (due s) (ps @ a # qs))"
    and e: "timer_heap s a = Some e"
    and time: "get_time_ms sdk s = (now, s\<lparr>world := w0\<rparr>)" "held w0" "when e \<le> now"
  shows "\<exists>s' ps' qs'. process_loop sdk (Some a) s fired = process_loop sdk (cursor qs') s' (fired @ [(a, now)]) \<and>
    held (world s') \<and> timer_list s' (ps' @ qs') \<and> sorted (map (due s') (ps' @ qs')) \<and>
    (if repeat e then set ps' = insert a (set ps) \<and> qs' = qs \<or> ps' = ps \<and> set qs' = insert a (set qs)
     else ps' = ps \<and> qs' = qs) \<and>
    timer_data s' = (if repeat e then (timer_data s)(a \<mapsto> payload (e\<lparr>when := when e + period e\<rparr>)) else timer_data s) \<and>
    (\<forall>b. b \<notin> set (ps @ a # qs) \<longrightarrow> timer_heap s' b = timer_heap s b)"
proof -
  obtain s1 where s1: "LIST_REMOVE a (s\<lparr>world := w0\<rparr>) = Some s1" "timer_list s1 (ps @ qs)"
    "links_only (set ps \<union> set qs) (s\<lparr>world := w0\<rparr>) s1"
    using LIST_REMOVE_correct [of "s\<lparr>world := w0\<rparr>" ps a qs] l by auto
  have nin: "a \<notin> set ps" "a \<notin> set qs" and nxt: "le_next e = cursor qs"
    using l e by (auto elim!: timer_list_split dest: seg_next)
  have a1: "timer_heap s1 a = Some e" and dat1: "timer_data s1 = timer_data s"
    and out1: "\<forall>b. b \<notin> set (ps @ a # qs) \<longrightarrow> timer_heap s1 b = timer_heap s b"
    and w1: "world s1 = w0"
    using s1(3) nin e by (auto simp: links_only_def fun_eq_iff)
  have due1: "due s1 = due s" using dat1 by (rule due_eq)
  have srt1: "sorted (map (due s) (ps @ qs))" using srt by (auto simp: sorted_append)
  obtain w2 where w2: "run_callback sdk (callback e) a w0 = Some w2" "held w2"
    using callback_ok [OF ok time(2)] by blast
  have le: "\<not> now < when e" using time(3) by (simp add: not_less)
  show ?thesis
  proof (cases "repeat e")
    case False
    have "process_loop sdk (Some a) s fired = process_loop sdk (cursor qs) (s1\<lparr>world := w2\<rparr>) (fired @ [(a, now)])"
      using e time s1(1) w1 w2 False nxt le by (subst process_loop.simps) simp
    with False s1(2) srt1 due1 dat1 out1 w2(2) show ?thesis
      by (intro exI [of _ "s1\<lparr>world := w2\<rparr>"] exI [of _ ps] exI [of _ qs]) simp
  next
    case True
    define e' where "e' = e\<lparr>when := when e + period e\<rparr>"
    define s2 where "s2 = set_timer a e' (s1\<lparr>world := w2\<rparr>)"
    have s2: "upd_timer a (\<lambda>t. t\<lparr>when := when t + period t\<rparr>) (s1\<lparr>world := w2\<rparr>) = Some s2"
      "timer_list s2 (ps @ qs)" "timer_heap s2 a = Some e'" "held (world s2)"
      using a1 s1(2) nin w2(2) by (simp_all add: upd_timer_def s2_def e'_def timer_list_set_timer)
    have dat2: "timer_data s2 = (timer_data s)(a \<mapsto> payload e')"
      using dat1 by (auto simp: s2_def timer_data_def fun_eq_iff)
    obtain w3 where w3: "oblfr_timer_unlock sdk s2 = (True, s2\<lparr>world := w3\<rparr>)" "free w3"
      using ok s2(4) by (rule unlock_ok)
    obtain s4 where s4: "oblfr_timer_insert sdk a (s2\<lparr>world := w3\<rparr>) = Some (OBLFR_OK, s4)" "free (world s4)"
      "timer_list s4 (insert_due (due s2) a (ps @ qs))" "timer_data s4 = timer_data s2"
      "\<forall>b. b \<notin> insert a (set (ps @ qs)) \<longrightarrow> timer_heap s4 b = timer_heap s2 b"
      using insert_ok [OF ok, of "s2\<lparr>world := w3\<rparr>" "ps @ qs" a e'] w3(2) s2(2,3) nin by auto
    obtain w5 where w5: "oblfr_timer_lock sdk s4 = Some (True, s4\<lparr>world := w5\<rparr>)" "held w5"
      using ok s4(2) by (rule lock_ok)
    have due4: "due s4 = due s2" using s4(4) by (rule due_eq)
    have "map (due s2) (ps @ qs) = map (due s) (ps @ qs)"
      using dat2 nin by (auto intro!: timer_data_when)
    with srt1 have srt2: "sorted (map (due s2) (ps @ qs))" by (simp only:)
    obtain ps' qs' where pq: "insert_due (due s2) a (ps @ qs) = ps' @ qs'" "cursor qs' = cursor qs"
      "set ps' = insert a (set ps) \<and> qs' = qs \<or> ps' = ps \<and> set qs' = insert a (set qs)"
      using insert_due_cursor [OF srt2, of a] cursor_hd by metis
    have srt4: "sorted (map (due s4) (ps' @ qs'))"
      using sorted_insert_due [OF srt2, of a] unfolding due4 pq(1) by simp
    have "process_loop sdk (Some a) s fired = process_loop sdk (cursor qs') (s4\<lparr>world := w5\<rparr>) (fired @ [(a, now)])"
      using e time s1(1) w1 w2 True nxt le s2(1) w3(1) s4(1) w5(1) pq(2) by (subst process_loop.simps) simp
    moreover have "timer_data s4 = (timer_data s)(a \<mapsto> payload e')" using s4(4) dat2 by simp
    moreover have "\<forall>b. b \<notin> set (ps @ a # qs) \<longrightarrow> timer_heap s4 b = timer_heap s b"
      using s4(5) out1 by (auto simp: s2_def)
    ultimately show ?thesis
      using True s4(3) srt4 pq w5(2)
      by (intro exI [of _ "s4\<lparr>world := w5\<rparr>"] exI [of _ ps'] exI [of _ qs']) (simp add: e'_def)
  qed
qed

lemma tm_world [simp]: "tm (s\<lparr>world := w\<rparr>) = tm s"
  by (simp add: tm_def fun_eq_iff)

text \<open>
  What a pass does to the list \<open>xs\<close>, given the calls \<open>fs\<close> it made: a periodic timer stays and moves on by
  one period per call, a one-shot timer leaves the list with its only call, and no call is early.
\<close>

definition pass_timer ::
  "('c, 'w) timers \<Rightarrow> ('c, 'w) timers \<Rightarrow> nat list \<Rightarrow> (nat \<times> u64) list \<Rightarrow> nat \<Rightarrow> bool" where
  "pass_timer s s' xs' fs a \<longleftrightarrow>
     (let n = count_list (map fst fs) a in
      if repeat (tm s a) then a \<in> set xs' \<and> tm s' a = (tm s a)\<lparr>when := due s a + of_nat n * period (tm s a)\<rparr>
      else tm s' a = tm s a \<and> n = (if a \<in> set xs' then 0 else 1))"

definition pass_ok ::
  "('c, 'w) timers \<Rightarrow> nat list \<Rightarrow> ('c, 'w) timers \<Rightarrow> nat list \<Rightarrow> (nat \<times> u64) list \<Rightarrow> bool" where
  "pass_ok s xs s' xs' fs \<longleftrightarrow>
     timer_list s' xs' \<and> sorted (map (due s') xs') \<and> set xs' \<subseteq> set xs \<and>
     (\<forall>a \<in> set xs. pass_timer s s' xs' fs a) \<and>
     (\<forall>(a, now) \<in> set fs. a \<in> set xs \<and> due s a \<le> now)"

lemma pass_timer_world [simp]:
  "pass_timer (s\<lparr>world := w\<rparr>) s' xs fs a = pass_timer s s' xs fs a"
  "pass_timer s (s'\<lparr>world := w\<rparr>) xs fs a = pass_timer s s' xs fs a"
  unfolding pass_timer_def tm_world due_world by (rule refl)+

definition periods_ok :: "u64 \<Rightarrow> ('c, 'w) timers \<Rightarrow> nat list \<Rightarrow> bool" where
  "periods_ok T s xs \<longleftrightarrow> (\<forall>a \<in> set xs. repeat (tm s a) \<longrightarrow>
     0 < period (tm s a) \<and> unat T + unat (period (tm s a)) < 2 ^ 64)"

definition lateness :: "u64 \<Rightarrow> ('c, 'w) timers \<Rightarrow> nat list \<Rightarrow> nat" where
  "lateness T s qs = (\<Sum>a \<in> set qs. unat T + 1 - unat (due s a))"

lemma next_fire_delay_eq:
  assumes "unat T < 2 ^ 63" "unat d < 2 ^ 63"
  shows "next_fire_delay d T * 1000 =
    of_nat (if d < T then 1001000 else (min 1000 (unat d - unat T) + 1) * 1000)"
proof (cases "d < T")
  case True
  have "(1000 :: u64) < d - T"
    using True assms by (simp add: word_less_nat_alt unat_sub_if')
  with True show ?thesis by (simp add: next_fire_delay_def Let_def)
next
  case False
  then have "unat (d - T) = unat d - unat T" by (simp add: unat_sub_if' word_less_nat_alt)
  moreover have "(of_nat (unat (d - T)) :: u64) = d - T" by simp
  ultimately have e: "d - T = of_nat (unat d - unat T)" by metis
  show ?thesis
  proof (cases "d - T > 1000")
    case True
    with \<open>unat (d - T) = _\<close> have "1000 < unat d - unat T" by (simp add: word_less_nat_alt)
    with False True show ?thesis by (simp add: next_fire_delay_def Let_def)
  next
    case F: False
    define n where "n = unat d - unat T"
    have "d - T = of_nat n" "n \<le> 1000"
      using F e \<open>unat (d - T) = _\<close> by (simp_all add: n_def word_less_nat_alt)
    with False F show ?thesis
      unfolding next_fire_delay_def Let_def n_def [symmetric] by (simp add: algebra_simps)
  qed
qed

lemma timer_data_due: "timer_data s a = Some t \<Longrightarrow> due s a = when t"
  by (auto simp: timer_data_def due_def payload_def)

lemma timer_list_in_heap: "timer_list s xs \<Longrightarrow> a \<in> set xs \<Longrightarrow> \<exists>t. timer_heap s a = Some t"
  by (auto simp: timer_list_def dest: seg_in_heap)

lemma pass_ok_none:
  assumes "timer_list s xs" "sorted (map (due s) xs)"
  shows "pass_ok s xs (s\<lparr>world := w\<rparr>) xs []"
proof -
  have "tm s a = (tm s a)\<lparr>when := due s a\<rparr>" if "a \<in> set xs" for a
    using timer_list_in_heap [OF assms(1) that] by (auto simp: due_tm)
  with assms show ?thesis by (auto simp: pass_ok_def pass_timer_def tm_def)
qed

text \<open>One call, followed by the rest of the pass.\<close>

lemma pass_timer_other:
  assumes "pass_timer s1 s' xs' fs b" "b \<noteq> a" "timer_data s1 b = timer_data s b"
  shows "pass_timer s s' xs' ((a, now) # fs) b"
proof -
  have "tm s1 b = tm s b" "due s1 b = due s b" using assms(3) by (simp add: tm_def, intro timer_data_when)
  with assms show ?thesis by (auto simp: pass_timer_def Let_def split: if_splits)
qed

lemma pass_ok_once:
  assumes p: "pass_ok s1 (ps @ qs) s' xs' fs" and nin: "a \<notin> set (ps @ qs)"
    and d: "timer_data s1 = timer_data s" and e: "\<not> repeat (tm s a)" "due s a \<le> now"
    and a': "timer_data s' a = timer_data s1 a"
  shows "pass_ok s (ps @ a # qs) s' xs' ((a, now) # fs)"
proof -
  have sub: "set xs' \<subseteq> set (ps @ qs)" using p by (simp add: pass_ok_def)
  have calls: "\<forall>(b, now) \<in> set fs. b \<in> set (ps @ qs) \<and> due s1 b \<le> now" using p by (simp add: pass_ok_def)
  then have "count_list (map fst fs) a = 0" using nin by (auto simp: count_list_0_iff)
  then have "pass_timer s s' xs' ((a, now) # fs) a"
    using sub nin e a' d by (auto simp: pass_timer_def tm_def)
  moreover have "pass_timer s s' xs' ((a, now) # fs) b" if "b \<in> set (ps @ qs)" for b
    using p that nin d by (intro pass_timer_other [of s1]) (auto simp: pass_ok_def)
  ultimately have "\<forall>b \<in> set (ps @ a # qs). pass_timer s s' xs' ((a, now) # fs) b" by simp
  moreover have "due s1 = due s" using d by (rule due_eq)
  ultimately show ?thesis using p sub calls e(2) unfolding pass_ok_def by auto
qed

lemma pass_ok_again:
  assumes p: "pass_ok s1 zs s' xs' fs" and zs: "set zs = set (ps @ a # qs)"
    and d: "timer_data s1 = (timer_data s)(a \<mapsto> payload (e\<lparr>when := when e + period e\<rparr>))"
    and e: "timer_heap s a = Some e" "repeat e" "when e \<le> now" "when e \<le> when e + period e"
  shows "pass_ok s (ps @ a # qs) s' xs' ((a, now) # fs)"
proof -
  have ta: "tm s a = payload e" "tm s1 a = payload (e\<lparr>when := when e + period e\<rparr>)" "due s a = when e"
    using e d by (simp_all add: tm_def timer_data_def due_def)
  have "timer_data s1 a = Some (payload (e\<lparr>when := when e + period e\<rparr>))" using d by simp
  then obtain e1 where e1: "timer_heap s1 a = Some e1" by (auto simp: timer_data_def)
  have da1: "due s1 a = when e + period e"
    using due_tm [OF e1] ta(2) by (simp add: payload_def)
  have db: "due s1 b = due s b" if "b \<noteq> a" for b using d that by (intro timer_data_when) simp
  have "pass_timer s1 s' xs' fs a" using p zs by (simp add: pass_ok_def)
  then have "pass_timer s s' xs' ((a, now) # fs) a"
    using ta da1 e(2) by (simp add: pass_timer_def payload_def Let_def algebra_simps)
  moreover have "pass_timer s s' xs' ((a, now) # fs) b" if "b \<in> set zs" "b \<noteq> a" for b
    using p that d by (intro pass_timer_other [of s1]) (auto simp: pass_ok_def)
  ultimately have "\<forall>b \<in> set zs. pass_timer s s' xs' ((a, now) # fs) b" by metis
  moreover have "due s b \<le> m" if "due s1 b \<le> m" for b m
    using that db da1 ta(3) e(4) by (cases "b = a") auto
  ultimately have "\<forall>(b, m) \<in> set ((a, now) # fs). b \<in> set (ps @ a # qs) \<and> due s b \<le> m"
    using p zs e(3) ta(3) by (fastforce simp: pass_ok_def)
  with \<open>\<forall>b \<in> set zs. pass_timer s s' xs' ((a, now) # fs) b\<close> show ?thesis
    using p zs unfolding pass_ok_def by simp
qed

lemma lateness_decreases:
  assumes "a \<notin> set qs" "due s a \<le> T" "\<forall>b \<in> set qs. due s1 b = due s b"
    and "qs' = qs \<or> set qs' = insert a (set qs) \<and> unat (due s a) < unat (due s1 a)"
  shows "lateness T s1 qs' < lateness T s (a # qs)"
proof -
  have "(\<Sum>b \<in> set qs. unat T + 1 - unat (due s1 b)) = (\<Sum>b \<in> set qs. unat T + 1 - unat (due s b))"
    using assms(3) by (intro sum.cong) auto
  moreover have "unat (due s a) \<le> unat T" using assms(2) by (simp add: word_le_nat_alt)
  ultimately show ?thesis using assms(1,4) by (auto simp: lateness_def)
qed

lemma process_loop_correct:
  assumes ok: "sdk_ok sdk free held" and clk: "clock_within sdk T0 T"
  shows "held (world s) \<Longrightarrow> timer_list s (ps @ qs) \<Longrightarrow> sorted (map (due s) (ps @ qs)) \<Longrightarrow>
    periods_ok T s (ps @ qs) \<Longrightarrow>
    \<exists>s' xs' fs. process_loop sdk (cursor qs) s fired = Some (True, s', fired @ fs) \<and> held (world s') \<and>
      pass_ok s (ps @ qs) s' xs' fs \<and> (\<forall>a \<in> set qs. due s a \<le> T0 \<longrightarrow> a \<in> fst ` set fs) \<and>
      (\<forall>b. b \<notin> set (ps @ qs) \<longrightarrow> timer_heap s' b = timer_heap s b)"
proof (induction "lateness T s qs" arbitrary: s ps qs fired rule: less_induct)
  case less
  show ?case
  proof (cases qs)
    case Nil
    have "pass_ok s ps (s\<lparr>world := world s\<rparr>) ps []"
      using less.prems Nil by (intro pass_ok_none) simp_all
    with less.prems Nil show ?thesis
      by (subst process_loop.simps) (auto intro!: exI [of _ ps])
  next
    case (Cons a qs1)
    obtain e where e: "timer_heap s a = Some e"
      using timer_list_in_heap [OF less.prems(2), of a] Cons by auto
    obtain now w where t: "get_time_ms sdk s = (now, s\<lparr>world := w\<rparr>)" "held w" "T0 \<le> now" "now \<le> T"
      using time_ok [OF ok, of s] less.prems(1) clk unfolding clock_within_def by (metis fst_conv)
    have ae: "tm s a = payload e" "due s a = when e" "repeat (tm s a) = repeat e" "period (tm s a) = period e"
      using e by (simp_all add: tm_eq due_def payload_def)
    have nin: "a \<notin> set (ps @ qs1)" using less.prems(2) Cons by (auto simp: timer_list_def)
    show ?thesis
    proof (cases "when e \<le> now")
      case False
      have "process_loop sdk (cursor qs) s fired = Some (True, s\<lparr>world := w\<rparr>, fired)"
        using e t(1) False Cons by (subst process_loop.simps) (simp add: not_le [symmetric])
      moreover have "T0 < due s b" if "b \<in> set qs" for b
        using less.prems(3) that Cons False t(3) ae(2) by (auto simp: sorted_append)
      moreover have "pass_ok s (ps @ qs) (s\<lparr>world := w\<rparr>) (ps @ qs) []"
        using less.prems by (intro pass_ok_none)
      ultimately show ?thesis
        using t(2) by (intro exI [of _ "s\<lparr>world := w\<rparr>"] exI [of _ "ps @ qs"] exI [of _ "[]"]) (auto simp: not_le)
    next
      case True
      obtain s1 ps1 qs2 where s1:
        "process_loop sdk (Some a) s fired = process_loop sdk (cursor qs2) s1 (fired @ [(a, now)])"
        "held (world s1)" "timer_list s1 (ps1 @ qs2)" "sorted (map (due s1) (ps1 @ qs2))"
        "if repeat e then set ps1 = insert a (set ps) \<and> qs2 = qs1 \<or> ps1 = ps \<and> set qs2 = insert a (set qs1)
         else ps1 = ps \<and> qs2 = qs1"
        "timer_data s1 = (if repeat e then (timer_data s)(a \<mapsto> payload (e\<lparr>when := when e + period e\<rparr>)) else timer_data s)"
        "\<forall>b. b \<notin> set (ps @ a # qs1) \<longrightarrow> timer_heap s1 b = timer_heap s b"
        using process_step [OF ok less.prems(1) less.prems(2,3) [unfolded Cons] e t(1,2) True, of fired] by blast
      have sub: "set (ps1 @ qs2) \<subseteq> set (ps @ qs)" using s1(5) Cons by (auto split: if_splits)
      have tm1: "repeat (tm s1 b) = repeat (tm s b) \<and> period (tm s1 b) = period (tm s b)" for b
        using s1(6) ae by (auto simp: tm_def payload_def split: if_splits)
      have per: "periods_ok T s1 (ps1 @ qs2)"
        using less.prems(4) sub tm1 unfolding periods_ok_def by (metis subsetD)
      have pe: "0 < period e \<and> unat T + unat (period e) < 2 ^ 64" if "repeat e"
        using less.prems(4) Cons ae that by (simp add: periods_ok_def)
      have eT: "when e \<le> T" using True t(4) by (rule order_trans)
      have grow: "unat (when e + period e) = unat (when e) + unat (period e)" if "repeat e"
        using pe [OF that] eT by (subst unat_word_ariths) (simp add: word_le_nat_alt)
      have db: "due s1 b = due s b" if "b \<noteq> a" for b
        using s1(6) that by (intro timer_data_when) simp
      have da: "due s1 a = when e + period e" if "repeat e"
        using s1(6) that timer_data_due [of s1 a] by (simp add: payload_def)
      have late: "lateness T s1 qs2 < lateness T s qs"
      proof -
        have "unat (due s a) < unat (due s1 a)" if "repeat e"
          using pe [OF that] grow [OF that] da [OF that] ae(2) by (simp add: word_less_nat_alt)
        moreover have "\<forall>b \<in> set qs1. due s1 b = due s b" using nin db by fastforce
        ultimately show ?thesis unfolding Cons using s1(5) nin eT ae(2)
          by (intro lateness_decreases) (auto split: if_splits)
      qed
      from less.hyps [OF late s1(2,3,4) per, of "fired @ [(a, now)]"]
      obtain s' xs' fs where rest:
        "process_loop sdk (cursor qs2) s1 (fired @ [(a, now)]) = Some (True, s', (fired @ [(a, now)]) @ fs)"
        "held (world s')" "pass_ok s1 (ps1 @ qs2) s' xs' fs"
        "\<forall>b \<in> set qs2. due s1 b \<le> T0 \<longrightarrow> b \<in> fst ` set fs"
        "\<forall>b. b \<notin> set (ps1 @ qs2) \<longrightarrow> timer_heap s' b = timer_heap s1 b"
        by blast
      have "pass_ok s (ps @ a # qs1) s' xs' ((a, now) # fs)"
      proof (cases "repeat e")
        case True
        then have "when e \<le> when e + period e" using grow by (simp add: word_le_nat_alt)
        moreover have "set (ps1 @ qs2) = set (ps @ a # qs1)" using True s1(5) by auto
        moreover have "timer_data s1 = (timer_data s)(a \<mapsto> payload (e\<lparr>when := when e + period e\<rparr>))"
          using True s1(6) by simp
        ultimately show ?thesis
          using pass_ok_again [OF rest(3) _ _ e True \<open>when e \<le> now\<close>] by blast
      next
        case False
        then have z: "ps1 = ps" "qs2 = qs1" "timer_data s1 = timer_data s" using s1(5,6) by simp_all
        from z(1,2) have "a \<notin> set (ps1 @ qs2)" using nin by simp
        with rest(5) have "timer_heap s' a = timer_heap s1 a" by blast
        then have "timer_data s' a = timer_data s1 a" by (simp add: timer_data_def)
        with False z rest(3) nin ae \<open>when e \<le> now\<close> show ?thesis
          by (intro pass_ok_once [of s1]) auto
      qed
      moreover have "b \<in> fst ` set ((a, now) # fs)" if "b \<in> set qs" "due s b \<le> T0" for b
        using rest(4) that s1(5) Cons db by (cases "b = a") (auto split: if_splits)
      moreover have "timer_heap s' b = timer_heap s b" if "b \<notin> set (ps @ qs)" for b
        using that sub s1(7) rest(5) Cons by (metis subsetD)
      moreover have "process_loop sdk (cursor qs) s fired = Some (True, s', fired @ (a, now) # fs)"
        using s1(1) rest(1) Cons by simp
      ultimately show ?thesis
        using rest(2) Cons by (intro exI [of _ s'] exI [of _ xs'] exI [of _ "(a, now) # fs"]) simp
    qed
  qed
qed

section \<open>Sorted lists\<close>

text \<open>Starting and stopping on a list that is sorted by due time.\<close>

lemma start_sorted:
  assumes ok: "sdk_ok sdk free held" and f: "free (world s)"
    and l: "timer_list s xs" "sorted (map (due s) xs)" "a \<notin> set xs" "timer_heap s a = Some t" "le_next t = None"
  shows "\<exists>s' now w. (if periodic then oblfr_timer_start_periodic sdk (Some a) ms s
        else oblfr_timer_start_once sdk (Some a) ms s) = Some (OBLFR_OK, s') \<and> free (world s') \<and>
    fst (bflb_mtimer_get_time_ms sdk w) = now \<and>
    timer_list s' (insert_due (due s') a xs) \<and> sorted (map (due s') (insert_due (due s') a xs)) \<and>
    tm s' a = (tm s a)\<lparr>when := now + ucast ms, period := (if periodic then ucast ms else 0), repeat := periodic\<rparr> \<and>
    (\<forall>b. b \<noteq> a \<longrightarrow> timer_data s' b = timer_data s b)"
proof -
  obtain s' now w w' where s': "timer_start sdk periodic (Some a) ms s = Some (OBLFR_OK, s')" "free (world s')"
    "bflb_mtimer_get_time_ms sdk w = (now, w')" "timer_list s' (insert_due ((due s)(a := now + ucast ms)) a xs)"
    "timer_data s' = (timer_data s)(a \<mapsto> payload (t\<lparr>when := now + ucast ms,
      period := (if periodic then ucast ms else 0), repeat := periodic\<rparr>))"
    using start_ok [OF ok f l(1,3-5), of periodic ms] by (auto simp: Let_def)
  have da: "due s' a = now + ucast ms" using s'(5) timer_data_due [of s' a] by (simp add: payload_def)
  have db: "due s' b = due s b" if "b \<noteq> a" for b using s'(5) that by (intro timer_data_when) simp
  have k: "due s' = (due s)(a := now + ucast ms)" using da db by auto
  have "map (due s') xs = map (due s) xs" using l(3) db by (intro map_cong refl) metis
  then have "sorted (map (due s') xs)" using l(2) by (simp only:)
  then have "sorted (map (due s') (insert_due (due s') a xs))" by (rule sorted_insert_due)
  moreover have "tm s' a = (tm s a)\<lparr>when := now + ucast ms, period := (if periodic then ucast ms else 0), repeat := periodic\<rparr>"
    using s'(5) l(4) by (simp add: tm_def timer_data_def payload_def)
  ultimately show ?thesis
    using s' k
    by (intro exI [of _ s'] exI [of _ now] exI [of _ w])
      (cases periodic; simp add: oblfr_timer_start_periodic_def oblfr_timer_start_once_def)
qed

text \<open>A timer whose \<^verbatim>\<open>le_next\<close> is set is taken for an active one, in the list or not.\<close>

lemma start_refused:
  assumes "sdk_ok sdk free held" "free (world s)" "timer_heap s a = Some t" "le_next t \<noteq> None"
  shows "\<exists>w. (if periodic then oblfr_timer_start_periodic sdk (Some a) ms s
      else oblfr_timer_start_once sdk (Some a) ms s) = Some (OBLFR_ERR_INVALID, s\<lparr>world := w\<rparr>) \<and> free w"
  using is_active_ok [OF assms(1-3)] assms(4)
  by (auto simp: oblfr_timer_start_periodic_def oblfr_timer_start_once_def timer_start_def)

lemma stop_sorted:
  assumes "sdk_ok sdk free held" "free (world s)" "timer_list s (xs @ a # ys)" "sorted (map (due s) (xs @ a # ys))"
  shows "\<exists>s'. oblfr_timer_stop sdk (Some a) s = Some (OBLFR_OK, s') \<and> free (world s') \<and>
    timer_list s' (xs @ ys) \<and> sorted (map (due s') (xs @ ys)) \<and>
    (\<forall>b. b \<noteq> a \<longrightarrow> timer_data s' b = timer_data s b) \<and> (\<exists>t. timer_heap s' a = Some t)"
proof -
  obtain s' where s': "oblfr_timer_stop sdk (Some a) s = Some (OBLFR_OK, s')" "free (world s')"
    "timer_list s' (xs @ ys)" "\<forall>b. b \<noteq> a \<longrightarrow> timer_data s' b = timer_data s b" "\<exists>t. timer_heap s' a = Some t"
    using stop_ok [OF assms(1-3)] by blast
  have "due s' b = due s b" if "b \<in> set (xs @ ys)" for b
    using s'(4) that assms(3) by (intro timer_data_when) (auto simp: timer_list_def)
  then have "map (due s') (xs @ ys) = map (due s) (xs @ ys)" by simp
  moreover have "sorted (map (due s) (xs @ ys))" using assms(4) by (auto simp: sorted_append)
  ultimately show ?thesis using s' by (metis)
qed

end
