(* ===== verification/Timer_Correct.thy ===== *)
theory Timer_Correct
  imports Timer_Pass
begin

text \<open>
  The properties of the timer module, with a simulated board on which they are run.
\<close>

section \<open>A simulated board\<close>

text \<open>
  An SDK as documented, for concrete runs: the lock is a binary semaphore (taking a taken one never
  returns), the clock shows \<open>now\<close>, the compare register and the interrupt and task calls are recorded.
\<close>

record board =
  list_lock_taken :: bool
  compvalue :: u64
  irq_enabled :: bool
  timer_running :: bool
  task_created :: bool

definition board_sdk :: "u64 \<Rightarrow> ('c, board) timer_sdk" where
  "board_sdk now =
     \<lparr>xSemaphoreTake_list = (\<lambda>w. if list_lock_taken w then None else Some (True, w\<lparr>list_lock_taken := True\<rparr>)),
      xSemaphoreGive_list = (\<lambda>w. (list_lock_taken w, w\<lparr>list_lock_taken := False\<rparr>)),
      bflb_mtimer_get_time_ms = (\<lambda>w. (now, w)),
      bflb_timer_set_compvalue = (\<lambda>v w. w\<lparr>compvalue := v\<rparr>),
      run_callback = (\<lambda>c a w. Some w),
      bflb_timer_get_compint_status = (\<lambda>w. True),
      bflb_timer_compint_clear = (\<lambda>w. w),
      vTaskNotifyGiveFromISR = (\<lambda>w. (False, w)),
      portYIELD_FROM_ISR = (\<lambda>w. w),
      ulTaskNotifyTake = (\<lambda>w. Some w),
      bflb_timer_init = (\<lambda>c w. w\<lparr>compvalue := of_nat (comp0_val c)\<rparr>),
      bflb_irq_attach = (\<lambda>w. w),
      bflb_irq_enable = (\<lambda>w. w\<lparr>irq_enabled := True\<rparr>),
      bflb_irq_disable = (\<lambda>w. w\<lparr>irq_enabled := False\<rparr>),
      bflb_irq_detach = (\<lambda>w. w),
      vSemaphoreCreateBinary_list = (\<lambda>w. w\<lparr>list_lock_taken := False\<rparr>),
      xTaskCreate_timer = (\<lambda>w. (True, w\<lparr>task_created := True\<rparr>)),
      vTaskDelete_timer = (\<lambda>w. w\<lparr>task_created := False\<rparr>),
      bflb_timer_start = (\<lambda>w. w\<lparr>timer_running := True\<rparr>),
      bflb_timer_stop = (\<lambda>w. w\<lparr>timer_running := False\<rparr>)\<rparr>"

lemma board_sdk_ok: "sdk_ok (board_sdk now) (\<lambda>w. \<not> list_lock_taken w) list_lock_taken"
  by (simp add: sdk_ok_def board_sdk_def)

lemma board_clock: "clock_within (board_sdk now) now now"
  by (simp add: clock_within_def board_sdk_def)

text \<open>Two timers in the list, a periodic one due at 5 and a one-shot due at 8, and a third, unused.\<close>

definition demo_board :: board where
  "demo_board = \<lparr>list_lock_taken = False, compvalue = 0, irq_enabled = True, timer_running = True, task_created = True\<rparr>"

definition demo_timers :: "(unit, board) timers" where
  "demo_timers = \<lparr>timer_heap = [
      1 \<mapsto> \<lparr>when = 5, period = 10, callback = (), repeat = True, name = ''a'', le_next = Some 2, le_prev = Some LH_FIRST\<rparr>,
      2 \<mapsto> \<lparr>when = 8, period = 0, callback = (), repeat = False, name = ''b'', le_next = None, le_prev = Some (LE_NEXT 1)\<rparr>,
      3 \<mapsto> \<lparr>when = 0, period = 0, callback = (), repeat = False, name = ''c'', le_next = None, le_prev = None\<rparr>],
     lh_first = Some 1, world = demo_board\<rparr>"

lemma demo_timers_list:
  "timer_list demo_timers [1, 2]" "sorted (map (due demo_timers) [1, 2])" "periods_ok 20 demo_timers [1, 2]"
  "\<not> list_lock_taken (world demo_timers)"
  by (simp_all add: timer_list_def demo_timers_def due_def periods_ok_def tm_def timer_data_def payload_def demo_board_def)

section \<open>Properties\<close>

text \<open>
  C9. A pass of the timer task ends, whatever the clock reads inside \<open>T0..T\<close>, and does what timers are
  for: every timer due at \<open>T0\<close> is called, a one-shot timer is called once and leaves the list, a periodic
  one stays with its due time moved on by one period per call; the list is again sorted and well
  linked and the lock is free. No timer is called before the due time it had when the pass began; the
  statement does not compare the further calls of a periodic timer in one pass with its later due
  times. The list satisfies \<open>periods_ok\<close>: every periodic timer has a period above 0 (without
  this the loop need not end), and \<open>T\<close> plus a period does not wrap around.
\<close>

theorem timer_process_pass:
  assumes ok: "sdk_ok sdk free held" and clk: "clock_within sdk T0 T"
    and f: "free (world s)" and l: "timer_list s xs" "sorted (map (due s) xs)" "periods_ok T s xs"
  shows "\<exists>s' xs' fs. oblfr_timer_process sdk s = Some (s', fs) \<and> free (world s') \<and>
    pass_ok s xs s' xs' fs \<and> (\<forall>a \<in> set xs. due s a \<le> T0 \<longrightarrow> a \<in> fst ` set fs)"
proof -
  obtain w where w: "oblfr_timer_lock sdk s = Some (True, s\<lparr>world := w\<rparr>)" "held w"
    using ok f by (rule lock_ok)
  have per: "periods_ok T (s\<lparr>world := w\<rparr>) xs" using l(3) by (simp add: periods_ok_def)
  have first: "lh_first s = cursor xs" using l(1) by (auto simp: timer_list_def dest: seg_next)
  obtain s1 xs' fs where s1: "process_loop sdk (cursor xs) (s\<lparr>world := w\<rparr>) [] = Some (True, s1, fs)"
    "held (world s1)" "pass_ok (s\<lparr>world := w\<rparr>) xs s1 xs' fs" "\<forall>a \<in> set xs. due s a \<le> T0 \<longrightarrow> a \<in> fst ` set fs"
    using process_loop_correct [OF ok clk, of "s\<lparr>world := w\<rparr>" "[]" xs "[]"] w(2) l per by auto
  obtain w1 where w1: "oblfr_timer_unlock sdk s1 = (True, s1\<lparr>world := w1\<rparr>)" "free w1"
    using ok s1(2) by (rule unlock_ok)
  have l1: "timer_list (s1\<lparr>world := w1\<rparr>) xs'" using s1(3) by (simp add: pass_ok_def)
  obtain w2 where w2: "oblfr_recalc_next_fire sdk (s1\<lparr>world := w1\<rparr>) = Some (OBLFR_OK, s1\<lparr>world := w2\<rparr>)" "free w2"
    using recalc_ok [OF ok, of "s1\<lparr>world := w1\<rparr>" xs'] w1(2) l1 by auto
  have "oblfr_timer_process sdk s = Some (s1\<lparr>world := w2\<rparr>, fs)"
    using w(1) first s1(1) w1(1) w2(1) by (simp add: oblfr_timer_process_def)
  moreover have "pass_ok s xs (s1\<lparr>world := w2\<rparr>) xs' fs"
    using s1(3) by (simp add: pass_ok_def)
  ultimately show ?thesis using w2(2) s1(4) by auto
qed

theorem timer_process_pass_witness:
  "\<exists>s' xs' fs. oblfr_timer_process (board_sdk 20) demo_timers = Some (s', fs) \<and> \<not> list_lock_taken (world s') \<and>
    pass_ok demo_timers [1, 2] s' xs' fs \<and> (\<forall>a \<in> set [1, 2]. due demo_timers a \<le> 20 \<longrightarrow> a \<in> fst ` set fs)"
  by (rule timer_process_pass [OF board_sdk_ok board_clock _ demo_timers_list(1-3)]) (rule demo_timers_list(4))

text \<open>
  C10. Starting a timer that is not in the list has two outcomes, told apart by its \<^verbatim>\<open>le_next\<close>. If that is
  null (a new timer, or one that was the last when it left the list) the start succeeds and puts the timer at its
  place: the list stays sorted by due time, ties behind the timers already there, the due time is the
  clock plus the delay, the period is the delay for a periodic timer and 0 for a one-shot, and no
  other timer is changed. If it is not null (\<^verbatim>\<open>LIST_REMOVE\<close> leaves it set, so this is a timer that was
  stopped, or fired, ahead of another one) the start is refused with \<^const>\<open>OBLFR_ERR_INVALID\<close>, although the
  timer is not in the list, and neither the timers nor the list are changed.
\<close>

theorem timer_start_sorted:
  assumes ok: "sdk_ok sdk free held" and f: "free (world s)"
    and l: "timer_list s xs" "sorted (map (due s) xs)" "a \<notin> set xs" "timer_heap s a = Some t"
  shows "if le_next t = None then
      \<exists>s' now w. (if periodic then oblfr_timer_start_periodic sdk (Some a) ms s
        else oblfr_timer_start_once sdk (Some a) ms s) = Some (OBLFR_OK, s') \<and> free (world s') \<and>
      fst (bflb_mtimer_get_time_ms sdk w) = now \<and>
      timer_list s' (insert_due (due s') a xs) \<and> sorted (map (due s') (insert_due (due s') a xs)) \<and>
      tm s' a = (tm s a)\<lparr>when := now + ucast ms, period := (if periodic then ucast ms else 0), repeat := periodic\<rparr> \<and>
      (\<forall>b. b \<noteq> a \<longrightarrow> timer_data s' b = timer_data s b)
    else
      \<exists>w. (if periodic then oblfr_timer_start_periodic sdk (Some a) ms s
        else oblfr_timer_start_once sdk (Some a) ms s) = Some (OBLFR_ERR_INVALID, s\<lparr>world := w\<rparr>) \<and> free w"
proof (cases "le_next t = None")
  case True
  show ?thesis unfolding if_P [OF True] using ok f l True by (rule start_sorted)
next
  case False
  show ?thesis unfolding if_not_P [OF False] using ok f l(4) False by (rule start_refused)
qed

text \<open>The timers of \<open>demo_timers\<close> after timer 1 was stopped: it is not in the list, and still has its link.\<close>

definition demo_stopped :: "(unit, board) timers" where
  "demo_stopped = \<lparr>timer_heap = [
      1 \<mapsto> \<lparr>when = 0, period = 10, callback = (), repeat = True, name = ''a'', le_next = Some 2, le_prev = Some LH_FIRST\<rparr>,
      2 \<mapsto> \<lparr>when = 8, period = 0, callback = (), repeat = False, name = ''b'', le_next = None, le_prev = Some LH_FIRST\<rparr>,
      3 \<mapsto> \<lparr>when = 0, period = 0, callback = (), repeat = False, name = ''c'', le_next = None, le_prev = None\<rparr>],
     lh_first = Some 2, world = demo_board\<lparr>compvalue := 7000\<rparr>\<rparr>"

lemma demo_stopped_reached: "oblfr_timer_stop (board_sdk 2) (Some 1) demo_timers = Some (OBLFR_OK, demo_stopped)"
  by (simp add: oblfr_timer_stop_def oblfr_timer_remove_def oblfr_timer_lock_def oblfr_timer_unlock_def
      LIST_REMOVE_def upd_timer_def set_timer_def oblfr_recalc_next_fire_def get_time_ms_def next_fire_delay_def
      board_sdk_def demo_timers_def demo_stopped_def demo_board_def fun_eq_iff)

lemma demo_stopped_list:
  "timer_list demo_stopped [2]" "sorted (map (due demo_stopped) [2])" "\<not> list_lock_taken (world demo_stopped)"
  by (simp_all add: timer_list_def demo_stopped_def due_def demo_board_def)

theorem timer_start_sorted_witness:
  "(\<exists>s' now w. oblfr_timer_start_once (board_sdk 2) (Some 3) 5 demo_timers = Some (OBLFR_OK, s') \<and>
    fst (bflb_mtimer_get_time_ms (board_sdk 2 :: (unit, board) timer_sdk) w) = now \<and>
    timer_list s' (insert_due (due s') 3 [1, 2]) \<and> sorted (map (due s') (insert_due (due s') 3 [1, 2]))) \<and>
   (\<exists>w. oblfr_timer_start_periodic (board_sdk 2) (Some 1) 10 demo_stopped = Some (OBLFR_ERR_INVALID, demo_stopped\<lparr>world := w\<rparr>))"
  using timer_start_sorted [OF board_sdk_ok [of 2] demo_timers_list(4,1,2), of 3
      "\<lparr>when = 0, period = 0, callback = (), repeat = False, name = ''c'', le_next = None, le_prev = None\<rparr>" False 5]
    timer_start_sorted [OF board_sdk_ok [of 2] demo_stopped_list(3,1,2), of 1
      "\<lparr>when = 0, period = 10, callback = (), repeat = True, name = ''a'', le_next = Some 2, le_prev = Some LH_FIRST\<rparr>" True 10]
  by (auto simp: demo_timers_def demo_stopped_def)

text \<open>
  The refused case is reached by the module's own functions: a timer stopped ahead of another one
  cannot be started again.
\<close>

theorem timer_stopped_not_startable:
  assumes ok: "sdk_ok sdk free held" and f: "free (world s)" and l: "timer_list s (xs @ a # ys)" and ys: "ys \<noteq> []"
  shows "\<exists>s' w. oblfr_timer_stop sdk (Some a) s = Some (OBLFR_OK, s') \<and> timer_list s' (xs @ ys) \<and>
    (if periodic then oblfr_timer_start_periodic sdk (Some a) ms s'
      else oblfr_timer_start_once sdk (Some a) ms s') = Some (OBLFR_ERR_INVALID, s'\<lparr>world := w\<rparr>) \<and> free w"
proof -
  obtain s' t where s': "oblfr_timer_stop sdk (Some a) s = Some (OBLFR_OK, s')" "free (world s')"
    "timer_list s' (xs @ ys)" "timer_heap s a = Some t" "timer_heap s' a = Some (t\<lparr>when := 0\<rparr>)"
    using stop_ok [OF ok f l] by blast
  have "le_next t = cursor ys" using l s'(4) by (auto elim!: timer_list_split dest: seg_next)
  with ys have "le_next (t\<lparr>when := 0\<rparr>) \<noteq> None" by (cases ys) auto
  with start_refused [OF ok s'(2,5) this, of periodic ms] s'(1,3) show ?thesis by blast
qed

theorem timer_stopped_not_startable_witness:
  "\<exists>s' w. oblfr_timer_stop (board_sdk 2) (Some 1) demo_timers = Some (OBLFR_OK, s') \<and> timer_list s' [2] \<and>
    oblfr_timer_start_once (board_sdk 2) (Some 1) 9 s' = Some (OBLFR_ERR_INVALID, s'\<lparr>world := w\<rparr>)"
  using timer_stopped_not_startable [OF board_sdk_ok [of 2] demo_timers_list(4), of "[]" 1 "[2]" False 9]
    demo_timers_list(1) by auto

text \<open>
  Stopping a timer of the list unlinks it and keeps the order of the others; every timer's data
  but the due time of the stopped one is unchanged, and the lock is free.
\<close>

theorem timer_stop_unlinks:
  assumes "sdk_ok sdk free held" "free (world s)" "timer_list s (xs @ a # ys)" "sorted (map (due s) (xs @ a # ys))"
  shows "\<exists>s'. oblfr_timer_stop sdk (Some a) s = Some (OBLFR_OK, s') \<and> free (world s') \<and>
    timer_list s' (xs @ ys) \<and> sorted (map (due s') (xs @ ys)) \<and>
    (\<forall>b. b \<noteq> a \<longrightarrow> timer_data s' b = timer_data s b)"
  using stop_sorted [OF assms] by blast

theorem timer_stop_unlinks_witness:
  "\<exists>s'. oblfr_timer_stop (board_sdk 2) (Some 1) demo_timers = Some (OBLFR_OK, s') \<and> timer_list s' [2]"
  using timer_stop_unlinks [OF board_sdk_ok [of 2] demo_timers_list(4), of "[]" 1 "[2]"] demo_timers_list(1,2)
  by auto

text \<open>
  C11. What the hardware timer is set to for the first timer of the list: a millisecond after its due
  time, at most 1001 ms away. For one that is already overdue the unsigned difference wraps
  around and the full 1001 ms are programmed, although the code means to fire at once.
\<close>

theorem recalc_next_fire_value:
  assumes ok: "sdk_ok sdk free held" and f: "free (world s)" and l: "timer_list s (a # xs)"
    and clk: "clock_within sdk T T" and small: "unat T < 2 ^ 63" "unat (due s a) < 2 ^ 63"
  shows "\<exists>w s'. oblfr_recalc_next_fire sdk s = Some (OBLFR_OK, s') \<and> free (world s') \<and>
    s' = unlocked sdk (s\<lparr>world := bflb_timer_set_compvalue sdk
      (of_nat (if due s a < T then 1001000 else (min 1000 (unat (due s a) - unat T) + 1) * 1000)) w\<rparr>)"
proof -
  obtain w where w: "oblfr_timer_lock sdk s = Some (True, s\<lparr>world := w\<rparr>)" "held w"
    using ok f by (rule lock_ok)
  from l obtain t where t: "lh_first s = Some a" "timer_heap s a = Some t"
    by (auto simp: timer_list_def split: option.splits)
  then have dt: "when t = due s a" by (simp add: due_def)
  have "fst (bflb_mtimer_get_time_ms sdk w) = T" using clk unfolding clock_within_def by (meson antisym)
  then obtain w1 where w1: "get_time_ms sdk (s\<lparr>world := w\<rparr>) = (T, s\<lparr>world := w1\<rparr>)" "held w1"
    using time_ok [OF ok, of "s\<lparr>world := w\<rparr>"] w(2) by auto
  have v: "next_fire_delay (due s a) T * 1000 =
      of_nat (if due s a < T then 1001000 else (min 1000 (unat (due s a) - unat T) + 1) * 1000)"
    using next_fire_delay_eq [OF small] by simp
  obtain w2 where "oblfr_timer_unlock sdk (s\<lparr>world := bflb_timer_set_compvalue sdk (next_fire_delay (due s a) T * 1000) w1\<rparr>) =
      (True, s\<lparr>world := w2\<rparr>)" "free w2"
  proof -
    have "held (bflb_timer_set_compvalue sdk (next_fire_delay (due s a) T * 1000) w1)"
      using ok w1(2) by (simp add: sdk_ok_def)
    then show ?thesis
      using unlock_ok [OF ok, of "s\<lparr>world := bflb_timer_set_compvalue sdk (next_fire_delay (due s a) T * 1000) w1\<rparr>"] that
      by auto
  qed
  with w w1 t dt show ?thesis
    unfolding v [symmetric]
    by (intro exI [of _ w1] exI [of _ "s\<lparr>world := w2\<rparr>"]) (simp add: oblfr_recalc_next_fire_def)
qed

theorem recalc_next_fire_value_witness:
  "\<exists>w s'. oblfr_recalc_next_fire (board_sdk 7) demo_timers = Some (OBLFR_OK, s') \<and>
    s' = unlocked (board_sdk 7) (demo_timers\<lparr>world := bflb_timer_set_compvalue (board_sdk 7 :: (unit, board) timer_sdk) 1001000 w\<rparr>)"
  using recalc_next_fire_value [OF board_sdk_ok [of 7] demo_timers_list(4,1) board_clock]
  by (auto simp: demo_timers_def due_def)

text \<open>
  C12. \<^verbatim>\<open>oblfr_timer_restart\<close> never restarts a timer of the list. For the last one it reports that it is not
  active and changes nothing; any other one it unlinks, and then the start function refuses it,
  because \<^verbatim>\<open>LIST_REMOVE\<close> leaves \<^verbatim>\<open>le_next\<close> set: the timer is lost from the list and the caller gets an error.
\<close>

theorem restart_never_restarts:
  assumes ok: "sdk_ok sdk free held" and f: "free (world s)" and l: "timer_list s (xs @ a # ys)"
  shows "\<exists>s'. oblfr_timer_restart sdk (Some a) ms s = Some (OBLFR_ERR_INVALID, s') \<and> free (world s') \<and>
    timer_list s' (if ms = 0 \<or> ys = [] then xs @ a # ys else xs @ ys)"
proof -
  from l obtain t where t: "timer_heap s a = Some t" "seg (timer_heap s) (LE_NEXT a) (le_next t) ys None"
    by (rule timer_list_split) blast
  have n: "le_next t = cursor ys" using t(2) by (rule seg_next)
  obtain w where w: "oblfr_timer_is_active sdk (Some a) s = Some (ys \<noteq> [], s\<lparr>world := w\<rparr>)" "free w"
    using is_active_ok [OF ok f t(1)] n by (cases ys) auto
  show ?thesis
  proof (cases "ms = 0 \<or> ys = []")
    case True
    with w f l show ?thesis by (auto simp: oblfr_timer_restart_def)
  next
    case False
    obtain s1 where s1: "oblfr_timer_remove sdk (Some a) (s\<lparr>world := w\<rparr>) = Some (OBLFR_OK, s1)" "free (world s1)"
      "timer_list s1 (xs @ ys)" "timer_heap s1 a = Some (t\<lparr>when := 0\<rparr>)"
      using remove_ok [OF ok, of "s\<lparr>world := w\<rparr>" xs a ys] w(2) l t(1) by auto
    obtain w1 where w1: "oblfr_timer_is_active sdk (Some a) s1 = Some (True, s1\<lparr>world := w1\<rparr>)" "free w1"
      using is_active_ok [OF ok s1(2,4)] n False by (cases ys) auto
    have "timer_start sdk p (Some a) ms s1 = Some (OBLFR_ERR_INVALID, s1\<lparr>world := w1\<rparr>)" for p
      using w1(1) by (simp add: timer_start_def)
    with False w s1 w1 show ?thesis
      by (auto simp: oblfr_timer_restart_def oblfr_timer_start_periodic_def oblfr_timer_start_once_def)
  qed
qed

theorem restart_never_restarts_witness:
  "\<exists>s'. oblfr_timer_restart (board_sdk 2) (Some 1) 50 demo_timers = Some (OBLFR_ERR_INVALID, s') \<and> timer_list s' [2]"
  using restart_never_restarts [OF board_sdk_ok [of 2] demo_timers_list(4), of "[]" 1 "[2]" 50] demo_timers_list(1)
  by auto

lemma insert_walk_cycle:
  assumes "h a = Some t" "le_next t = Some a" "when t \<le> w"
  shows "insert_walk h w tail0 (Some a) = None"
proof -
  have "insert_walk h' w' tail1 p = Some r \<Longrightarrow> h' = h \<and> w' = w \<longrightarrow> p \<noteq> Some a" for h' w' tail1 p r
    by (erule insert_walk.raw_induct [of "\<lambda>h' w' tail1 p r. h' = h \<and> w' = w \<longrightarrow> p \<noteq> Some a", rotated])
      (use assms in \<open>auto split: option.splits if_splits\<close>)
  then show ?thesis by (metis not_None_eq)
qed

text \<open>
  C13. Starting the only timer of the list again is not refused: the check that a timer is active
  looks at its link to the next timer, which the last one does not have. The timer is then linked to
  itself, and the next insertion of a timer that is not due before it never returns.
\<close>

theorem double_start_hangs:
  assumes ok: "sdk_ok sdk free held" and f: "free (world s)" and l: "timer_list s [a]"
  shows "\<exists>s'. (if periodic then oblfr_timer_start_periodic sdk (Some a) ms s
        else oblfr_timer_start_once sdk (Some a) ms s) = Some (OBLFR_OK, s') \<and> free (world s') \<and>
    (\<forall>b. b \<in> dom (timer_heap s') \<and> due s' a \<le> due s' b \<longrightarrow> oblfr_timer_insert sdk b s' = None)"
proof -
  obtain t where t: "timer_heap s a = Some t" "lh_first s = Some a" "le_next t = None"
    using l by (auto simp: timer_list_def split: option.splits)
  obtain w where w: "oblfr_timer_is_active sdk (Some a) s = Some (False, s\<lparr>world := w\<rparr>)" "free w"
    using is_active_ok [OF ok f t(1)] t(3) by auto
  obtain now w1 where w1: "get_time_ms sdk (s\<lparr>world := w\<rparr>) = (now, s\<lparr>world := w1\<rparr>)" "free w1"
    using time_ok [OF ok, of "s\<lparr>world := w\<rparr>"] w(2) by auto
  define t1 where "t1 = t\<lparr>when := now + ucast ms, period := (if periodic then ucast ms else 0), repeat := periodic\<rparr>"
  define s1 where "s1 = set_timer a t1 (s\<lparr>world := w1\<rparr>)"
  have upd: "upd_timer a (\<lambda>t. t\<lparr>when := now + ucast ms, period := (if periodic then ucast ms else 0),
      repeat := periodic\<rparr>) (s\<lparr>world := w1\<rparr>) = Some s1"
    using t(1) by (simp add: upd_timer_def s1_def t1_def)
  obtain w2 where w2: "oblfr_timer_lock sdk s1 = Some (True, s1\<lparr>world := w2\<rparr>)" "held w2"
    using lock_ok [OF ok, of s1] w1(2) by (auto simp: s1_def)
  define t2 where "t2 = t1\<lparr>le_next := Some a, le_prev := Some (LE_NEXT a)\<rparr>"
  have walk: "insert_walk (timer_heap s1) (when t1) None (Some a) = Some (Some a, None)"
    using t(3) by (simp add: insert_walk.simps s1_def t1_def)
  have ins: "timer_list_insert a (s1\<lparr>world := w2\<rparr>) = Some (set_timer a t2 (s1\<lparr>world := w2\<rparr>))"
    using t walk by (simp add: timer_list_insert_def LIST_INSERT_AFTER_def upd_timer_def s1_def t1_def t2_def set_timer_def)
  obtain w3 where w3: "oblfr_timer_unlock sdk (set_timer a t2 (s1\<lparr>world := w2\<rparr>)) =
      (True, (set_timer a t2 s1)\<lparr>world := w3\<rparr>)" "free w3"
    using unlock_ok [OF ok, of "set_timer a t2 (s1\<lparr>world := w2\<rparr>)"] w2(2) by (auto simp: set_timer_def)
  define s3 where "s3 = (set_timer a t2 s1)\<lparr>world := w3\<rparr>"
  have i3: "oblfr_timer_insert sdk a s1 = Some (OBLFR_OK, s3)"
    using w2 ins w3 by (simp add: oblfr_timer_insert_def s3_def)
  have h3: "lh_first s3 = Some a" "timer_heap s3 a = Some t2" "due s3 a = when t2" "le_next t2 = Some a"
    using t(2) by (simp_all add: s3_def s1_def t2_def due_def)
  obtain w4 where w4: "oblfr_recalc_next_fire sdk s3 = Some (OBLFR_OK, s3\<lparr>world := w4\<rparr>)" "free w4"
    using recalc_first_ok [OF ok _ h3(1,2)] w3(2) by (auto simp: s3_def)
  have "timer_start sdk periodic (Some a) ms s = Some (OBLFR_OK, s3\<lparr>world := w4\<rparr>)"
    using w w1(1) upd i3 w4(1) by (simp add: timer_start_def)
  moreover have "oblfr_timer_insert sdk b (s3\<lparr>world := w4\<rparr>) = None"
    if "timer_heap s3 b = Some u" "due s3 a \<le> due s3 b" for b u
  proof -
    obtain w5 where "oblfr_timer_lock sdk (s3\<lparr>world := w4\<rparr>) = Some (True, s3\<lparr>world := w5\<rparr>)"
      using lock_ok [OF ok, of "s3\<lparr>world := w4\<rparr>"] w4(2) by auto
    moreover have "insert_walk (timer_heap s3) (when u) None (Some a) = None"
      using h3 that by (intro insert_walk_cycle [of _ _ t2]) (simp_all add: due_def)
    ultimately show ?thesis
      using that h3(1) by (simp add: oblfr_timer_insert_def timer_list_insert_def)
  qed
  ultimately show ?thesis
    using w4(2)
    by (intro exI [of _ "s3\<lparr>world := w4\<rparr>"])
      (cases periodic; auto simp: oblfr_timer_start_periodic_def oblfr_timer_start_once_def)
qed

definition demo_single :: "(unit, board) timers" where
  "demo_single = \<lparr>timer_heap = [
      1 \<mapsto> \<lparr>when = 5, period = 0, callback = (), repeat = False, name = ''a'', le_next = None, le_prev = Some LH_FIRST\<rparr>],
     lh_first = Some 1, world = demo_board\<rparr>"

theorem double_start_hangs_witness:
  "\<exists>s'. oblfr_timer_start_once (board_sdk 2) (Some 1) 9 demo_single = Some (OBLFR_OK, s') \<and>
    (\<forall>b. b \<in> dom (timer_heap s') \<and> due s' 1 \<le> due s' b \<longrightarrow> oblfr_timer_insert (board_sdk 2) b s' = None)"
  using double_start_hangs [OF board_sdk_ok [of 2], of demo_single 1 False 9]
  by (auto simp: demo_single_def timer_list_def demo_board_def)

end
