(* ===== verification/Button_Timer.thy ===== *)
theory Button_Timer
  imports Button_List Timer_Correct
begin

text \<open>
  The button module on the timer module: the functions of Timer keep the contract \<open>scan_timer\<close> on any SDK
  that behaves as documented (locale \<open>timer_port\<close>), and so do those on the simulated board.
\<close>

section \<open>The timer module as scan timer\<close>

text \<open>
  The calls of the button module, made on the functions of the timer module. The only callback is
  \<^verbatim>\<open>oblfr_button_cb\<close>, so the callback type is \<^typ>\<open>unit\<close>; \<open>malloc\<close> is what the allocator returns for the
  next block and \<open>junk\<close> its contents.
\<close>

definition timer_scan_api ::
  "(unit, 'w) timer_sdk \<Rightarrow> ((unit, 'w) timers \<Rightarrow> nat option) \<Rightarrow> unit oblfr_timer \<Rightarrow> (unit, 'w) timers scan_timer_api" where
  "timer_scan_api sdk malloc junk =
     \<lparr>tapi_create = (\<lambda>t. oblfr_timer_create (Some (Some (), ''oblfr_button_timer'')) True (malloc t) junk t),
      tapi_start_periodic = oblfr_timer_start_periodic sdk,
      tapi_stop = oblfr_timer_stop sdk,
      tapi_delete = oblfr_timer_delete sdk\<rparr>"

definition timer_ready :: "('w \<Rightarrow> bool) \<Rightarrow> ('c, 'w) timers \<Rightarrow> bool" where
  "timer_ready free t \<longleftrightarrow> free (world t) \<and> finite (dom (timer_heap t)) \<and>
     (\<exists>xs. timer_list t xs \<and> sorted (map (due t) xs))"

definition timer_made :: "('w \<Rightarrow> bool) \<Rightarrow> nat \<Rightarrow> ('c, 'w) timers \<Rightarrow> bool" where
  "timer_made free h t \<longleftrightarrow> free (world t) \<and> finite (dom (timer_heap t)) \<and>
     (\<exists>xs e. timer_list t xs \<and> sorted (map (due t) xs) \<and> h \<notin> set xs \<and> timer_heap t h = Some e \<and> le_next e = None)"

definition timer_ticking :: "('w \<Rightarrow> bool) \<Rightarrow> nat \<Rightarrow> u32 \<Rightarrow> ('c, 'w) timers \<Rightarrow> bool" where
  "timer_ticking free h ms t \<longleftrightarrow> free (world t) \<and> finite (dom (timer_heap t)) \<and>
     (\<exists>xs. timer_list t xs \<and> sorted (map (due t) xs) \<and> h \<in> set xs) \<and>
     repeat (tm t h) \<and> period (tm t h) = ucast ms"

definition timer_halted :: "('w \<Rightarrow> bool) \<Rightarrow> nat \<Rightarrow> ('c, 'w) timers \<Rightarrow> bool" where
  "timer_halted free h t \<longleftrightarrow> free (world t) \<and> finite (dom (timer_heap t)) \<and>
     (\<exists>xs e. timer_list t xs \<and> sorted (map (due t) xs) \<and> h \<notin> set xs \<and> timer_heap t h = Some e)"

lemma dom_timer_data: "dom (timer_data s) = dom (timer_heap s)"
  by (auto simp: timer_data_def)

lemma sorted_due_cong:
  assumes "\<And>x. x \<in> set xs \<Longrightarrow> due s' x = due s x" "sorted (map (due s) xs)"
  shows "sorted (map (due s') xs)"
proof -
  have "map (due s') xs = map (due s) xs" using assms(1) by simp
  then show ?thesis using assms(2) by (simp only:)
qed

locale timer_port =
  fixes sdk :: "(unit, 'w) timer_sdk"
    and free held :: "'w \<Rightarrow> bool"
    and malloc :: "(unit, 'w) timers \<Rightarrow> nat option"
  assumes sdk: "sdk_ok sdk free held"
    and malloc_fresh: "finite (dom (timer_heap t)) \<Longrightarrow> \<exists>a. malloc t = Some a \<and> timer_heap t a = None"
begin

lemma create_made:
  assumes "timer_ready free t"
  shows "\<exists>h t'. tapi_create (timer_scan_api sdk malloc junk) t = (OBLFR_OK, Some h, t') \<and> timer_made free h t'"
proof -
  obtain xs where xs: "timer_list t xs" "sorted (map (due t) xs)" and f: "free (world t)" "finite (dom (timer_heap t))"
    using assms by (auto simp: timer_ready_def)
  obtain a where a: "malloc t = Some a" "timer_heap t a = None" using malloc_fresh [OF f(2)] by blast
  then have nin: "a \<notin> set xs" using timer_list_in_heap [OF xs(1), of a] by auto
  define e where "e = junk\<lparr>callback := (), name := ''oblfr_button_timer'', le_next := None\<rparr>"
  define t1 where "t1 = set_timer a e t"
  have "sorted (map (due t1) xs)"
    using nin by (intro sorted_due_cong [OF _ xs(2)]) (auto simp: due_def t1_def)
  moreover have "timer_list t1 xs" using xs(1) nin by (simp add: t1_def timer_list_set_timer)
  ultimately have "timer_made free a t1"
    using f nin by (auto simp: timer_made_def t1_def e_def)
  then show ?thesis
    using a(1) by (simp add: timer_scan_api_def oblfr_timer_create_def t1_def e_def)
qed

lemma start_ticking:
  assumes "timer_made free h t"
  shows "\<exists>t'. tapi_start_periodic (timer_scan_api sdk malloc junk) (Some h) ms t = Some (OBLFR_OK, t') \<and>
    timer_ticking free h ms t'"
proof -
  obtain xs e where xs: "timer_list t xs" "sorted (map (due t) xs)" "h \<notin> set xs" "timer_heap t h = Some e" "le_next e = None"
    and f: "free (world t)" "finite (dom (timer_heap t))"
    using assms by (auto simp: timer_made_def)
  obtain t' now where t': "oblfr_timer_start_periodic sdk (Some h) ms t = Some (OBLFR_OK, t')" "free (world t')"
    "timer_list t' (insert_due (due t') h xs)" "sorted (map (due t') (insert_due (due t') h xs))"
    "tm t' h = (tm t h)\<lparr>when := now + ucast ms, period := ucast ms, repeat := True\<rparr>"
    "\<forall>b. b \<noteq> h \<longrightarrow> timer_data t' b = timer_data t b"
    using start_sorted [OF sdk f(1) xs, of True ms] by auto
  have "dom (timer_data t') \<subseteq> insert h (dom (timer_data t))"
  proof
    fix b assume "b \<in> dom (timer_data t')"
    then show "b \<in> insert h (dom (timer_data t))" using t'(6) by (cases "b = h") (auto simp: dom_def)
  qed
  then have "finite (dom (timer_heap t'))"
    using f(2) by (metis dom_timer_data finite_insert finite_subset)
  with t' show ?thesis
    by (intro exI [of _ t']) (auto simp: timer_scan_api_def timer_ticking_def)
qed

lemma stop_halted:
  assumes "timer_ticking free h ms t"
  shows "\<exists>t'. tapi_stop (timer_scan_api sdk malloc junk) (Some h) t = Some (OBLFR_OK, t') \<and> timer_halted free h t'"
proof -
  obtain zs where zs: "timer_list t zs" "sorted (map (due t) zs)" "h \<in> set zs"
    and f: "free (world t)" "finite (dom (timer_heap t))"
    using assms by (auto simp: timer_ticking_def)
  then obtain xs ys where z: "zs = xs @ h # ys" by (meson split_list)
  obtain t' e where t': "oblfr_timer_stop sdk (Some h) t = Some (OBLFR_OK, t')" "free (world t')"
    "timer_list t' (xs @ ys)" "sorted (map (due t') (xs @ ys))" "\<forall>b. b \<noteq> h \<longrightarrow> timer_data t' b = timer_data t b"
    "timer_heap t' h = Some e"
    using stop_sorted [OF sdk f(1) zs(1,2) [unfolded z]] by blast
  have "dom (timer_data t') \<subseteq> insert h (dom (timer_data t))"
  proof
    fix b assume "b \<in> dom (timer_data t')"
    then show "b \<in> insert h (dom (timer_data t))" using t'(5) by (cases "b = h") (auto simp: dom_def)
  qed
  then have "finite (dom (timer_heap t'))"
    using f(2) by (metis dom_timer_data finite_insert finite_subset)
  moreover have "h \<notin> set (xs @ ys)" using zs(1) z by (auto simp: timer_list_def)
  ultimately show ?thesis
    using t' by (intro exI [of _ t']) (auto simp: timer_scan_api_def timer_halted_def)
qed

lemma delete_ready:
  assumes "timer_halted free h t"
  shows "\<exists>r t'. tapi_delete (timer_scan_api sdk malloc junk) (Some h) t = Some (r, t') \<and> timer_ready free t'"
proof -
  obtain xs e where xs: "timer_list t xs" "sorted (map (due t) xs)" "h \<notin> set xs" "timer_heap t h = Some e"
    and f: "free (world t)" "finite (dom (timer_heap t))"
    using assms by (auto simp: timer_halted_def)
  obtain w where w: "oblfr_timer_is_active sdk (Some h) t = Some (le_next e \<noteq> None, t\<lparr>world := w\<rparr>)" "free w"
    using is_active_ok [OF sdk f(1) xs(4)] by blast
  define t1 where "t1 = (if le_next e \<noteq> None then t\<lparr>world := w\<rparr>
    else t\<lparr>world := w, timer_heap := (timer_heap t)(h := None)\<rparr>)"
  have "timer_list t1 xs" using xs(1,3) by (simp add: t1_def timer_list_def)
  moreover have "sorted (map (due t1) xs)"
    using xs(3) by (intro sorted_due_cong [OF _ xs(2)]) (auto simp: t1_def due_def)
  ultimately have "timer_ready free t1" using w(2) f(2) by (auto simp: timer_ready_def t1_def)
  then show ?thesis using w(1) by (auto simp: timer_scan_api_def oblfr_timer_delete_def t1_def)
qed

end

sublocale timer_port \<subseteq> scan: scan_timer "timer_scan_api sdk malloc junk"
  "timer_ready free" "timer_made free" "timer_ticking free" "timer_halted free" for junk
  by unfold_locales (use create_made start_ticking stop_halted delete_ready in blast)+

text \<open>The simulated board, with an allocator that returns the first free address.\<close>

definition board_malloc :: "(unit, board) timers \<Rightarrow> nat option" where
  "board_malloc t = Some (LEAST a. timer_heap t a = None)"

interpretation board: timer_port "board_sdk now" "\<lambda>w. \<not> list_lock_taken w" list_lock_taken board_malloc for now
proof (unfold_locales, goal_cases)
  case 1
  show ?case by (rule board_sdk_ok)
next
  case (2 t)
  then obtain a where "a \<notin> dom (timer_heap t)" using ex_new_if_finite infinite_UNIV_nat by blast
  then have "timer_heap t (LEAST a. timer_heap t a = None) = None"
    by (intro LeastI [of "\<lambda>a. timer_heap t a = None" a]) (simp add: dom_def)
  then show ?case by (simp add: board_malloc_def)
qed

end
