(* ===== verification/Button_Correct.thy ===== *)
theory Button_Correct
  imports Button_Timer
begin

text \<open>The properties of the button module, each with a run on a concrete button.\<close>

section \<open>Properties of a button\<close>

text \<open>A button on pin 3 that is active low, with every callback registered; the hardware is the level of the pin.\<close>

definition demo_button :: "(u8, oblfr_button_event) oblfr_button_dev" where
  "demo_button = (new_button 0 (\<lambda>_ w. w) 3 300 36 None)\<lparr>cb := Some\<rparr>"

text \<open>
  C14. After any number of rounds, whatever the readings, a button created with active level 0 or 1 is
  in one of the states 0, 1, 2, 3 and 5; it is in a pressed state (1, 3, 5) exactly if the debounced level
  is the active one; and the hold counter is 0 outside the long-press state.
\<close>

theorem button_states:
  assumes "active \<le> 1"
  shows "button_inv (fst (button_run cfg ws ((new_button active key_state hardware long_ticks short_ticks nxt)\<lparr>cb := cbs\<rparr>)))"
proof -
  have "active = 0 \<or> active = 1"
    using assms by (metis linorder_less_linear not_less word_less_1)
  then have "button_inv ((new_button active key_state hardware long_ticks short_ticks nxt)\<lparr>cb := cbs\<rparr>)"
    by (auto simp: button_inv_def new_button_def)
  then show ?thesis unfolding run_rounds by (rule rounds_inv)
qed

theorem button_states_witness:
  "button_inv (fst (button_run button_config_default [0, 0, 0, 1, 1]
     ((new_button 0 (\<lambda>_ w. w) 3 300 36 None)\<lparr>cb := Some\<rparr> :: (u8, oblfr_button_event) oblfr_button_dev)))"
  by (rule button_states) simp

text \<open>
  C15. In every run of the handler the press-down and press-up callbacks alternate, beginning with
  press-down for a button that is up: no press is reported twice and none without its release.
\<close>

theorem button_down_up_alternate:
  assumes "button_inv btn" "cb btn BUTTON_PRESS_DOWN \<noteq> None" "cb btn BUTTON_PRESS_UP \<noteq> None"
  shows "alternates (state btn \<in> down_states) (down_up (snd (button_run cfg ws btn)))"
  unfolding run_rounds using assms by (rule rounds_alternate)

theorem button_down_up_alternate_witness:
  "alternates False (down_up (snd (button_run button_config_default [0, 0, 0, 1, 1, 0, 0] demo_button)))"
  using button_down_up_alternate [of demo_button button_config_default "[0, 0, 0, 1, 1, 0, 0]"]
  by (simp add: demo_button_def button_inv_def new_button_def)

text \<open>
  C16. Debouncing: with a debounce setting of 1 to 7 and equal readings that differ from the
  level, the level stays as it is for fewer than \<^verbatim>\<open>DEBOUNCE_TICKS\<close> rounds and is the new one from then on.
\<close>

theorem button_debounce_filters:
  assumes "1 \<le> BUTTON_DEBOUNCE_TICKS cfg" "BUTTON_DEBOUNCE_TICKS cfg \<le> 7"
    and "r \<in> {0, 1}" "\<forall>w \<in> set ws. reading btn w = r" "r \<noteq> ucast (oblfr_button_level btn)" "debounce_cnt btn = 0"
  shows "oblfr_button_level (fst (button_run cfg ws btn)) =
    (if length ws < BUTTON_DEBOUNCE_TICKS cfg then oblfr_button_level btn else ucast r)"
proof -
  have "map (reading btn) ws = replicate (length ws) r"
    using assms(4) by (induction ws) auto
  then show ?thesis
    using rounds_debounce [OF assms(1-3,5), of "length ws"] assms(1,6) by (simp add: run_rounds)
qed

theorem button_debounce_filters_witness:
  "oblfr_button_level (fst (button_run button_config_default [0] demo_button)) = 1 \<and>
   oblfr_button_level (fst (button_run button_config_default [0, 0] demo_button)) = 0"
  using button_debounce_filters [of button_config_default 0 "[0]" demo_button]
    button_debounce_filters [of button_config_default 0 "[0, 0]" demo_button]
  by (simp add: demo_button_def new_button_def reading_def button_config_default_def)

text \<open>
  C17. With the largest setting that the configuration allows, 8, the debouncer never changes the
  level: the counter has three bits and cannot reach 8. The button then never reports anything.
\<close>

theorem button_debounce_8_dead:
  assumes "BUTTON_DEBOUNCE_TICKS cfg = 8"
  shows "oblfr_button_level (fst (button_run cfg ws btn)) = oblfr_button_level btn"
proof -
  have "oblfr_button_level (fst (button_rounds cfg rs b)) = oblfr_button_level b" for rs and b :: "('a, 'b) oblfr_button_dev"
  proof (induction rs arbitrary: b)
    case (Cons r rs)
    have "oblfr_button_level (fst (button_round cfg r b)) = oblfr_button_level b"
      using assms by (simp add: round_level debounce_never)
    with Cons show ?case by (simp add: rounds_fst del: button_rounds.simps)
  qed simp
  then show ?thesis by (simp add: run_rounds)
qed

theorem button_debounce_8_dead_witness:
  "oblfr_button_level (fst (button_run (button_config_default\<lparr>BUTTON_DEBOUNCE_TICKS := 8\<rparr>) (replicate 100 0) demo_button)) = 1"
  using button_debounce_8_dead [of "button_config_default\<lparr>BUTTON_DEBOUNCE_TICKS := 8\<rparr>" "replicate 100 0" demo_button]
  by (simp add: demo_button_def new_button_def)

text \<open>
  C18. A click: an idle button that reads pressed for \<open>n\<close> rounds, long enough to be debounced and no longer
  than the long-press time, and then released for the debounce time and the short-press time,
  makes exactly the calls press-down, press-up, single-click and repeat-done, in this order, and is idle again.
\<close>

theorem button_single_click:
  assumes D: "1 \<le> BUTTON_DEBOUNCE_TICKS cfg" "BUTTON_DEBOUNCE_TICKS cfg \<le> 7"
    and b: "state btn = 0" "oblfr_button_level btn \<noteq> active_level btn" "debounce_cnt btn = 0"
    and on: "\<forall>w \<in> set ons. reading btn w = on_reading btn" "BUTTON_DEBOUNCE_TICKS cfg \<le> length ons"
      "length ons \<le> unat (long_press_ticks btn) + 1"
    and off: "\<forall>w \<in> set offs. reading btn w = off_reading btn"
      "BUTTON_DEBOUNCE_TICKS cfg + unat (short_press_ticks btn) + 1 \<le> length offs" "unat (short_press_ticks btn) < 65535"
  shows "\<exists>btn'. button_run cfg (ons @ offs) btn =
      (btn', CALL_EVENT_CB btn BUTTON_PRESS_DOWN @ CALL_EVENT_CB btn BUTTON_PRESS_UP @
        CALL_EVENT_CB btn BUTTON_SINGLE_CLICK @ CALL_EVENT_CB btn BUTTON_PRESS_REPEAT_DONE) \<and>
    state btn' = 0 \<and> oblfr_button_level btn' = oblfr_button_level btn \<and> debounce_cnt btn' = 0"
proof -
  have db: "debounced cfg" using D by unfold_locales
  have lv: "oblfr_button_level btn = active_level btn + 1" using b(2) by (simp add: level_off)
  let ?n = "length ons" and ?D = "BUTTON_DEBOUNCE_TICKS cfg"
  define b1 where "b1 = btn\<lparr>oblfr_button_level := active_level btn, event := BUTTON_PRESS_DOWN, repeat_cnt := 1,
      state := 1, ticks := of_nat (?n - ?D)\<rparr>"
  have r1: "button_rounds cfg (replicate ?n (on_reading btn)) btn = (b1, CALL_EVENT_CB btn BUTTON_PRESS_DOWN)"
    unfolding b1_def by (rule debounced.press_rounds [OF db b(1) lv b(3) on(2)]) (use on(3) D in simp)
  have "?n - ?D < 65536"
  proof -
    have "unat (long_press_ticks btn) < 65536" using unsigned_less [of "long_press_ticks btn"] by simp
    with on(3) D show ?thesis by simp
  qed
  then have "unat (of_nat (?n - ?D) :: u16) = ?n - ?D" by (simp only: unat_of_nat) simp
  then have t1: "unat (ticks b1) + ?D \<le> unat (long_press_ticks b1) + 1"
    using on(2,3) by (simp add: b1_def)
  have "off_reading b1 = off_reading btn" by (simp add: b1_def off_reading_def)
  with debounced.release_rounds [OF db, of b1 "length offs"] t1 b off
  obtain b2 where r2: "button_rounds cfg (replicate (length offs) (off_reading btn)) b1 =
      (b2, CALL_EVENT_CB b1 BUTTON_PRESS_UP @ CALL_EVENT_CB b1 BUTTON_SINGLE_CLICK @ CALL_EVENT_CB b1 BUTTON_PRESS_REPEAT_DONE)"
    "state b2 = 0" "oblfr_button_level b2 = active_level btn + 1" "debounce_cnt b2 = 0"
    by (auto simp: b1_def)
  have "map (reading btn) (ons @ offs) = replicate ?n (on_reading btn) @ replicate (length offs) (off_reading btn)"
    using on(1) off(1) by (simp add: list_eq_iff_nth_eq nth_append)
  with rounds_then [OF r1 r2(1)] r2(2-4) lv show ?thesis
    by (simp add: run_rounds b1_def CALL_EVENT_CB_def)
qed

theorem button_single_click_witness:
  "map fst (snd (button_run button_config_default (replicate 10 0 @ replicate 50 1) demo_button)) =
     [BUTTON_PRESS_DOWN, BUTTON_PRESS_UP, BUTTON_SINGLE_CLICK, BUTTON_PRESS_REPEAT_DONE]"
proof -
  have "\<exists>btn'. button_run button_config_default (replicate 10 0 @ replicate 50 1) demo_button =
      (btn', CALL_EVENT_CB demo_button BUTTON_PRESS_DOWN @ CALL_EVENT_CB demo_button BUTTON_PRESS_UP @
        CALL_EVENT_CB demo_button BUTTON_SINGLE_CLICK @ CALL_EVENT_CB demo_button BUTTON_PRESS_REPEAT_DONE) \<and>
      state btn' = 0 \<and> oblfr_button_level btn' = oblfr_button_level demo_button \<and> debounce_cnt btn' = 0"
    by (rule button_single_click)
      (simp_all add: demo_button_def new_button_def button_config_default_def reading_def on_reading_def off_reading_def)
  then show ?thesis by (auto simp: CALL_EVENT_CB_def demo_button_def)
qed

text \<open>
  C19. In the long-press state every round makes a hold callback as long as the hold count lags behind
  the ticks, which count from the press: \<open>k\<close> rounds make \<open>k\<close> callbacks when \<open>k * SERIAL_TICKS\<close> is at most the tick count
  at the start. With the default settings the first 75 rounds of a long press each make one,
  5 ms apart, although the configured serial interval is 20 ms.
\<close>

theorem button_hold_burst:
  assumes b: "state btn = 5" "oblfr_button_level btn = active_level btn" "debounce_cnt btn = 0" "long_press_hold_cnt btn = 0"
    and w: "\<forall>w \<in> set ws. reading btn w = on_reading btn"
    and k: "length ws * SERIAL_TICKS cfg \<le> unat (ticks btn)" "unat (ticks btn) + length ws < 65536"
  shows "snd (button_run cfg ws btn) = concat (replicate (length ws) (CALL_EVENT_CB btn BUTTON_LONG_PRESS_HOLD))"
proof -
  define f where "f j = btn\<lparr>ticks := ticks btn + of_nat j, long_press_hold_cnt := of_nat j,
      event := (if j = 0 then event btn else BUTTON_LONG_PRESS_HOLD)\<rparr>" for j :: nat
  have "button_round cfg (on_reading btn) (f j) = (f (Suc j), CALL_EVENT_CB btn BUTTON_LONG_PRESS_HOLD)" if "j < length ws" for j
  proof -
    have "unat (ticks btn + of_nat (Suc j)) = unat (ticks btn) + Suc j"
      using that k(2) by (intro unat_add_nat) simp
    moreover have "unat (of_nat j :: u16) = j" using that k(2) by (simp add: unat_of_nat)
    moreover have "Suc j * SERIAL_TICKS cfg \<le> unat (ticks btn)"
      using that k(1) by (meson Suc_leI le_trans mult_le_mono1)
    ultimately have "(unat (of_nat j :: u16) + 1) * SERIAL_TICKS cfg \<le> unat (ticks btn + of_nat (Suc j))" by simp
    moreover have "(0 :: 3 word) < 5" by (simp add: word_less_nat_alt)
    ultimately show ?thesis using b
      by (simp add: button_round_def f_def debounce_same on_reading_def fsm_down CALL_EVENT_CB_def algebra_simps)
  qed
  from rounds_replicate [of "length ws" cfg "on_reading btn" f, OF this]
  have "button_rounds cfg (replicate (length ws) (on_reading btn)) (f 0) =
      (f (length ws), concat (replicate (length ws) (CALL_EVENT_CB btn BUTTON_LONG_PRESS_HOLD)))" .
  moreover have "f 0 = btn" using b(4) unfolding f_def by (cases btn) simp
  moreover have "map (reading btn) ws = replicate (length ws) (on_reading btn)" using w by (induction ws) auto
  ultimately show ?thesis by (simp add: run_rounds)
qed

theorem button_hold_burst_witness:
  "length (snd (button_run button_config_default (replicate 75 0)
     (demo_button\<lparr>state := 5, oblfr_button_level := 0, ticks := 301\<rparr>))) = 75"
  using button_hold_burst [of "demo_button\<lparr>state := 5, oblfr_button_level := 0, ticks := 301\<rparr>" "replicate 75 0" button_config_default]
  by (simp add: demo_button_def new_button_def button_config_default_def reading_def on_reading_def SERIAL_TICKS_def
      CALL_EVENT_CB_def length_concat sum_list_replicate)

section \<open>Properties of the list of buttons\<close>

text \<open>
  A round of the scan timer ends and runs the handler once for every button of the list, in list
  order, on the hardware as it is; the list and the other state of the module are unchanged.
\<close>

theorem button_scan_round:
  assumes "button_list s xs"
  shows "\<exists>s'. oblfr_button_cb cfg s =
      Some (s', concat (map (\<lambda>x. map (Pair x) (snd (oblfr_button_handler cfg (hw s) (the (btn_heap s x))))) xs)) \<and>
    button_list s' xs \<and>
    btn_heap s' = (\<lambda>x. if x \<in> set xs then Some (fst (oblfr_button_handler cfg (hw s) (the (btn_heap s x)))) else btn_heap s x)"
proof -
  have l: "bseg (btn_heap s) (g_head_handle s) xs None" "distinct xs" using assms by (simp_all add: button_list_def)
  obtain h where h: "oblfr_button_cb cfg s = Some (s\<lparr>btn_heap := h\<rparr>,
      concat (map (\<lambda>x. map (Pair x) (snd (oblfr_button_handler cfg (hw s) (the (btn_heap s x))))) xs))"
    "\<forall>x. h x = (if x \<in> set xs then Some (fst (oblfr_button_handler cfg (hw s) (the (btn_heap s x)))) else btn_heap s x)"
    using cb_walk_correct [OF l, of cfg "[]"] unfolding oblfr_button_cb_def by auto
  have "map_option next_btn (h x) = map_option next_btn (btn_heap s x)" if "x \<in> set xs" for x
    using bseg_in_heap [OF l(1) that] h(2) that by (auto simp: handler_next)
  then have "bseg h (g_head_handle s) xs None" using l(1) by (subst bseg_next_eq) auto
  with h l(2) show ?thesis by (intro exI [of _ "s\<lparr>btn_heap := h\<rparr>"]) (auto simp: button_list_def)
qed

definition demo_buttons :: "(u8, oblfr_button_event, (unit, board) timers) buttons" where
  "demo_buttons = \<lparr>btn_heap = Map.empty, g_head_handle = None, g_oblfr_button_timer_handle = None,
     g_is_timer_running = False, hw = 1, timer_module = demo_timers\<rparr>"

theorem button_scan_round_witness:
  "\<exists>s'. oblfr_button_cb button_config_default (demo_buttons\<lparr>btn_heap := [7 \<mapsto> demo_button], g_head_handle := Some 7\<rparr>) =
      Some (s', map (Pair 7) (snd (oblfr_button_handler button_config_default 1 demo_button)))"
  using button_scan_round [of "demo_buttons\<lparr>btn_heap := [7 \<mapsto> demo_button], g_head_handle := Some 7\<rparr>" "[7]"]
  by (auto simp: button_list_def demo_buttons_def demo_button_def new_button_def)


text \<open>Creating and deleting a GPIO button over the timer module.\<close>

context timer_port
begin

lemma create_gpio:
  assumes ok: "buttons_ok (timer_ready free) (timer_ticking free) cfg s xs" and a: "btn_heap s a = None"
    and c: "button_hw c = GpioButton g"
  shows "\<exists>s'. oblfr_button_create cfg (timer_scan_api sdk malloc junk) gsdk (Some c) (Some a) s = Some (Some a, s') \<and>
    buttons_ok (timer_ready free) (timer_ticking free) cfg s' (a # xs) \<and>
    btn_heap s' = (btn_heap s)(a \<mapsto> new_button (gpio_active_level g) (oblfr_button_gpio_get_key_level gsdk) (gpio_num g)
      (TIME_TO_TICKS cfg (long_press_time c) (LONG_TICKS cfg)) (TIME_TO_TICKS cfg (short_press_time c) (SHORT_TICKS cfg))
      (g_head_handle s))"
proof -
  let ?lt = "TIME_TO_TICKS cfg (long_press_time c) (LONG_TICKS cfg)" and ?st = "TIME_TO_TICKS cfg (short_press_time c) (SHORT_TICKS cfg)"
  let ?b = "new_button (gpio_active_level g) (oblfr_button_gpio_get_key_level gsdk) (gpio_num g) ?lt ?st (g_head_handle s)"
  obtain w where w: "oblfr_button_gpio_init gsdk (Some g) (hw s) = (OBLFR_OK, w)"
    by (simp add: oblfr_button_gpio_init_def Let_def)
  have "buttons_ok (timer_ready free) (timer_ticking free) cfg (s\<lparr>hw := w\<rparr>) xs"
    using ok by (simp add: buttons_ok_def button_list_def)
  then obtain s1 where s1: "oblfr_button_create_com cfg (timer_scan_api sdk malloc junk) (gpio_active_level g)
        (Some (oblfr_button_gpio_get_key_level gsdk)) (gpio_num g) ?lt ?st (Some a) (s\<lparr>hw := w\<rparr>) = Some (Some a, s1)"
      "buttons_ok (timer_ready free) (timer_ticking free) cfg s1 (a # xs)" "btn_heap s1 = (btn_heap s)(a \<mapsto> ?b)"
    using scan.create_com_ok [where s = "s\<lparr>hw := w\<rparr>" and a = a and xs = xs and cfg = cfg] a by fastforce
  have "(btn_heap s1)(a \<mapsto> ?b\<lparr>btn_type := BUTTON_TYPE_GPIO\<rparr>) = btn_heap s1"
    using s1(3) by (auto simp: new_button_def)
  then have u: "upd_button a (\<lambda>b. b\<lparr>btn_type := hw_type (button_hw c)\<rparr>) s1 = Some s1"
    using s1(3) c by (simp add: upd_button_def)
  have "oblfr_button_create cfg (timer_scan_api sdk malloc junk) gsdk (Some c) (Some a) s = Some (Some a, s1)"
    using s1(1) u c w by (simp add: oblfr_button_create_def button_create_hw_def)
  with s1(2,3) show ?thesis by blast
qed

lemma delete_gpio:
  assumes ok: "buttons_ok (timer_ready free) (timer_ticking free) cfg s (xs @ a # ys)" and len: "length xs + length ys < 65536"
    and b: "btn_heap s a = Some b" "btn_type b = BUTTON_TYPE_GPIO"
  shows "\<exists>s'. oblfr_button_delete (timer_scan_api sdk malloc junk) gsdk (Some a) s = Some (OBLFR_OK, s') \<and>
    buttons_ok (timer_ready free) (timer_ticking free) cfg s' (xs @ ys) \<and> btn_heap s' a = None \<and>
    hw s' = bflb_gpio_deinit gsdk (hardware_data b) (hw s) \<and>
    (\<forall>x. x \<noteq> a \<longrightarrow> map_option (\<lambda>b. b\<lparr>next_btn := None\<rparr>) (btn_heap s' x) = map_option (\<lambda>b. b\<lparr>next_btn := None\<rparr>) (btn_heap s x))"
proof -
  define w where "w = bflb_gpio_deinit gsdk (hardware_data b) (hw s)"
  have "buttons_ok (timer_ready free) (timer_ticking free) cfg (s\<lparr>hw := w\<rparr>) (xs @ a # ys)"
    using ok by (simp add: buttons_ok_def button_list_def)
  from scan.delete_com_ok [OF this len, where junk = junk]
  obtain s1 where s1: "oblfr_button_delete_com (timer_scan_api sdk malloc junk) (Some a) (s\<lparr>hw := w\<rparr>) = Some (OBLFR_OK, s1)"
    "buttons_ok (timer_ready free) (timer_ticking free) cfg s1 (xs @ ys)" "btn_heap s1 a = None" "hw s1 = w"
    "\<forall>x. x \<noteq> a \<longrightarrow> map_option (\<lambda>b. b\<lparr>next_btn := None\<rparr>) (btn_heap s1 x) = map_option (\<lambda>b. b\<lparr>next_btn := None\<rparr>) (btn_heap s x)"
    by auto
  then have "oblfr_button_delete (timer_scan_api sdk malloc junk) gsdk (Some a) s = Some (OBLFR_OK, s1)"
    using b by (simp add: oblfr_button_delete_def oblfr_button_gpio_deinit_def w_def)
  with s1 show ?thesis by (auto simp: w_def)
qed

end

lemma demo_buttons_ok: "buttons_ok (timer_ready (\<lambda>w. \<not> list_lock_taken w)) (timer_ticking (\<lambda>w. \<not> list_lock_taken w)) cfg demo_buttons []"
  using demo_timers_list by (auto simp: buttons_ok_def demo_buttons_def button_list_def timer_ready_def demo_timers_def)

definition demo_gpio :: "u8 gpio_sdk" where
  "demo_gpio = \<lparr>GPIO_INPUT = 1, GPIO_PULLUP = 2, GPIO_PULLDOWN = 4, GPIO_DRV_1 = 8, bflb_gpio_init = (\<lambda>_ _ w. w),
     bflb_gpio_deinit = (\<lambda>_ w. w), bflb_gpio_read = (\<lambda>_ w. w), free_block = (\<lambda>_ w. w)\<rparr>"

definition demo_junk :: "unit oblfr_timer" where
  "demo_junk = \<lparr>when = 0, period = 0, callback = (), repeat = False, name = [], le_next = None, le_prev = None\<rparr>"

definition demo_config :: "u8 oblfr_button_config" where
  "demo_config = \<lparr>button_hw = GpioButton \<lparr>gpio_num = 3, gpio_active_level = 0\<rparr>, long_press_time = 0, short_press_time = 0\<rparr>"

text \<open>
  C20. Creating a GPIO button on the timer module: the call returns the new handle, the button is at the
  head of the list with the press times of its configuration in ticks, and the scan timer ticks
  with the configured period, started by the first button.
\<close>

theorem button_create_gpio:
  assumes "timer_port tsdk free held malloc"
    and "buttons_ok (timer_ready free) (timer_ticking free) cfg s xs" "btn_heap s a = None"
    and "button_hw c = GpioButton g"
  shows "\<exists>s'. oblfr_button_create cfg (timer_scan_api tsdk malloc junk) gsdk (Some c) (Some a) s = Some (Some a, s') \<and>
    buttons_ok (timer_ready free) (timer_ticking free) cfg s' (a # xs) \<and>
    btn_heap s' = (btn_heap s)(a \<mapsto> new_button (gpio_active_level g) (oblfr_button_gpio_get_key_level gsdk) (gpio_num g)
      (TIME_TO_TICKS cfg (long_press_time c) (LONG_TICKS cfg)) (TIME_TO_TICKS cfg (short_press_time c) (SHORT_TICKS cfg))
      (g_head_handle s))"
  using assms by (rule timer_port.create_gpio)

theorem button_create_gpio_witness:
  "\<exists>s'. oblfr_button_create button_config_default (timer_scan_api (board_sdk 2) board_malloc demo_junk) demo_gpio
      (Some demo_config) (Some 7) demo_buttons = Some (Some 7, s') \<and>
    buttons_ok (timer_ready (\<lambda>w. \<not> list_lock_taken w)) (timer_ticking (\<lambda>w. \<not> list_lock_taken w)) button_config_default s' [7]"
  using button_create_gpio [OF board.timer_port_axioms demo_buttons_ok, of 7 demo_config
      "\<lparr>gpio_num = 3, gpio_active_level = 0\<rparr>" button_config_default 2 demo_junk demo_gpio]
  by (auto simp: demo_buttons_def demo_config_def)

text \<open>
  Deleting a GPIO button: the call succeeds, the pin is released, the button leaves the list and is freed,
  every other button is as before but for its link, and the scan timer is stopped exactly when
  the last button goes.
\<close>

theorem button_delete_gpio:
  assumes "timer_port tsdk free held malloc"
    and "buttons_ok (timer_ready free) (timer_ticking free) cfg s (xs @ a # ys)" "length xs + length ys < 65536"
    and "btn_heap s a = Some b" "btn_type b = BUTTON_TYPE_GPIO"
  shows "\<exists>s'. oblfr_button_delete (timer_scan_api tsdk malloc junk) gsdk (Some a) s = Some (OBLFR_OK, s') \<and>
    buttons_ok (timer_ready free) (timer_ticking free) cfg s' (xs @ ys) \<and> btn_heap s' a = None \<and>
    hw s' = bflb_gpio_deinit gsdk (hardware_data b) (hw s) \<and>
    (\<forall>x. x \<noteq> a \<longrightarrow> map_option (\<lambda>b. b\<lparr>next_btn := None\<rparr>) (btn_heap s' x) = map_option (\<lambda>b. b\<lparr>next_btn := None\<rparr>) (btn_heap s x))"
  using assms by (rule timer_port.delete_gpio)

lemma demo_button_ticking:
  "buttons_ok (timer_ready (\<lambda>w. \<not> list_lock_taken w)) (timer_ticking (\<lambda>w. \<not> list_lock_taken w))
     (button_config_default\<lparr>BUTTON_PERIOD_TIME_MS := 10\<rparr>)
     (demo_buttons\<lparr>btn_heap := [7 \<mapsto> demo_button], g_head_handle := Some 7, g_is_timer_running := True,
        g_oblfr_button_timer_handle := Some 1\<rparr>) ([] @ 7 # [])"
proof -
  have "timer_ticking (\<lambda>w. \<not> list_lock_taken w) 1 10 demo_timers"
    using demo_timers_list
    by (auto simp: timer_ticking_def demo_timers_def tm_def timer_data_def payload_def intro!: exI [of _ "[1, 2]"])
  then show ?thesis
    by (simp add: buttons_ok_def demo_buttons_def button_list_def demo_button_def new_button_def)
qed

theorem button_delete_gpio_witness:
  "\<exists>s'. oblfr_button_delete (timer_scan_api (board_sdk 2) board_malloc demo_junk) demo_gpio (Some 7)
      (demo_buttons\<lparr>btn_heap := [7 \<mapsto> demo_button], g_head_handle := Some 7, g_is_timer_running := True,
        g_oblfr_button_timer_handle := Some 1\<rparr>) = Some (OBLFR_OK, s') \<and> btn_heap s' 7 = None"
  using button_delete_gpio [OF board.timer_port_axioms demo_button_ticking, of demo_button 2 demo_junk demo_gpio]
  by (auto simp: demo_button_def new_button_def)

end
