(* ===== verification/Indicator.thy ===== *)
theory Indicator
  imports Oblfr_Prelude
begin

text \<open>
  LED indicators (\<^verbatim>\<open>components/indicator/src/oblfr_indicator.c\<close>): a table of blink patterns with priorities, an
  interpreter for the patterns that a FreeRTOS timer runs, and the list of the indicators. The
  pins, mutexes and timers are the parameter \<open>led_sdk\<close> on a world \<open>'w\<close>.
\<close>

section \<open>Blink patterns\<close>

datatype blink_step_state = LED_STATE_OFF | LED_STATE_ON

datatype blink_step_type = LED_BLINK_STOP | LED_BLINK_HOLD | LED_BLINK_LOOP

record blink_step =
  step_type :: blink_step_type
  on_off :: blink_step_state
  hold_time_ms :: u32

definition blink_hold :: "blink_step_state \<Rightarrow> u32 \<Rightarrow> blink_step" where
  "blink_hold st ms = \<lparr>step_type = LED_BLINK_HOLD, on_off = st, hold_time_ms = ms\<rparr>"

definition blink_loop :: blink_step where
  "blink_loop = \<lparr>step_type = LED_BLINK_LOOP, on_off = LED_STATE_OFF, hold_time_ms = 0\<rparr>"

definition blink_stop :: blink_step where
  "blink_stop = \<lparr>step_type = LED_BLINK_STOP, on_off = LED_STATE_OFF, hold_time_ms = 0\<rparr>"

definition connecting :: "blink_step list" where
  "connecting = [blink_hold LED_STATE_ON 200, blink_hold LED_STATE_OFF 800, blink_loop]"

definition connected :: "blink_step list" where
  "connected = [blink_hold LED_STATE_ON 1000, blink_loop]"

definition reconnecting :: "blink_step list" where
  "reconnecting = [blink_hold LED_STATE_ON 100, blink_hold LED_STATE_OFF 200, blink_loop]"

definition updating :: "blink_step list" where
  "updating = [blink_hold LED_STATE_ON 50, blink_hold LED_STATE_OFF 100, blink_hold LED_STATE_ON 50,
     blink_hold LED_STATE_OFF 800, blink_loop]"

definition factory_reset :: "blink_step list" where
  "factory_reset = [blink_hold LED_STATE_ON 200, blink_hold LED_STATE_OFF 200, blink_loop]"

definition provisioning :: "blink_step list" where
  "provisioning = [blink_hold LED_STATE_ON 500, blink_hold LED_STATE_OFF 500, blink_loop]"

definition provisioned :: "blink_step list" where
  "provisioned = [blink_hold LED_STATE_OFF 1000, blink_stop]"

text \<open>The blink types, by their numbers, and \<^verbatim>\<open>oblfr_indicator_blink_lists\<close>; the last entry is null.\<close>

abbreviation (input) BLINK_FACTORY_RESET :: int where "BLINK_FACTORY_RESET \<equiv> 0"
abbreviation (input) BLINK_UPDATING :: int where "BLINK_UPDATING \<equiv> 1"
abbreviation (input) BLINK_CONNECTED :: int where "BLINK_CONNECTED \<equiv> 2"
abbreviation (input) BLINK_PROVISIONED :: int where "BLINK_PROVISIONED \<equiv> 3"
abbreviation (input) BLINK_CONNECTING :: int where "BLINK_CONNECTING \<equiv> 4"
abbreviation (input) BLINK_RECONNECTING :: int where "BLINK_RECONNECTING \<equiv> 5"
abbreviation (input) BLINK_PROVISIONING :: int where "BLINK_PROVISIONING \<equiv> 6"
abbreviation (input) BLINK_MAX :: int where "BLINK_MAX \<equiv> 7"

definition oblfr_indicator_blink_lists :: "blink_step list option list" where
  "oblfr_indicator_blink_lists =
     [Some factory_reset, Some updating, Some connected, Some provisioned, Some connecting, Some reconnecting,
      Some provisioning, None]"

definition BLINK_LIST_NUM :: nat where
  "BLINK_LIST_NUM = length oblfr_indicator_blink_lists"

text \<open>\<^verbatim>\<open>LED_BLINK_STOP\<close> as the stage of a list that does not run, and \<^verbatim>\<open>NULL_ACTIVE_BLINK\<close>.\<close>

abbreviation (input) STEP_STOPPED :: int where "STEP_STOPPED \<equiv> - 1"
abbreviation (input) NULL_ACTIVE_BLINK :: int where "NULL_ACTIVE_BLINK \<equiv> - 1"

text \<open>Reading an entry of an array by a C \<^verbatim>\<open>int\<close>; \<^const>\<open>None\<close> outside it.\<close>

definition at :: "'a list \<Rightarrow> int \<Rightarrow> 'a option" where
  "at xs i = (if 0 \<le> i \<and> i < int (length xs) then Some (xs ! nat i) else None)"

definition put_at :: "'a list \<Rightarrow> int \<Rightarrow> 'a \<Rightarrow> 'a list option" where
  "put_at xs i v = (if 0 \<le> i \<and> i < int (length xs) then Some (xs[nat i := v]) else None)"

section \<open>Indicators\<close>

datatype oblfr_indicator_mode = LED_GPIO_MODE | OTHER_MODE

record oblfr_indicator =
  off_level :: bool
  io_num :: int
  led_mode :: oblfr_indicator_mode
  active_blink :: int
  p_blink_steps :: "int list"
  led_mutex :: nat
  h_timer :: "nat option"

record 'w leds =
  led_heap :: "nat \<rightharpoonup> oblfr_indicator"
  led_slist :: "nat list"
  led_world :: 'w

text \<open>
  The SDK: pins, mutexes and one-shot timers. A take with a timeout may fail or, with none, never return
  (\<^const>\<open>None\<close>). A mutex or timer that cannot be created is \<^const>\<open>None\<close>.
\<close>

record 'w led_sdk =
  led_gpio_init :: "int \<Rightarrow> 'w \<Rightarrow> 'w"
  led_gpio_deinit :: "int \<Rightarrow> 'w \<Rightarrow> 'w"
  led_gpio_set :: "int \<Rightarrow> 'w \<Rightarrow> 'w"
  led_gpio_reset :: "int \<Rightarrow> 'w \<Rightarrow> 'w"
  pdMS_TO_TICKS :: "u32 \<Rightarrow> u32"
  mutex_create :: "'w \<Rightarrow> nat option \<times> 'w"
  mutex_take :: "nat \<Rightarrow> u32 option \<Rightarrow> 'w \<Rightarrow> (bool \<times> 'w) option"
  mutex_give :: "nat \<Rightarrow> 'w \<Rightarrow> 'w"
  mutex_delete :: "nat \<Rightarrow> 'w \<Rightarrow> 'w"
  xTimerCreate :: "int \<Rightarrow> u32 \<Rightarrow> nat \<Rightarrow> 'w \<Rightarrow> nat option \<times> 'w"
  xTimerChangePeriod :: "nat option \<Rightarrow> u32 \<Rightarrow> 'w \<Rightarrow> 'w"
  xTimerStart :: "nat option \<Rightarrow> 'w \<Rightarrow> 'w"
  xTimerDelete :: "nat option \<Rightarrow> 'w \<Rightarrow> (bool \<times> 'w) option"

text \<open>The singly linked list of the indicators; a node holds only a pointer. \<open>mem\<close> is whether \<^verbatim>\<open>calloc\<close> succeeds.\<close>

definition oblfr_indicator_add_node :: "bool \<Rightarrow> nat option \<Rightarrow> 'w leds \<Rightarrow> oblfr_err \<times> 'w leds" where
  "oblfr_indicator_add_node mem p s =
     (case p of
        None \<Rightarrow> (OBLFR_ERR_INVALID, s)
      | Some a \<Rightarrow> if \<not> mem then (OBLFR_ERR_NOMEM, s) else (OBLFR_OK, s\<lparr>led_slist := a # led_slist s\<rparr>))"

definition oblfr_indicator_remove_node :: "nat option \<Rightarrow> 'w leds \<Rightarrow> oblfr_err \<times> 'w leds" where
  "oblfr_indicator_remove_node p s =
     (case p of
        None \<Rightarrow> (OBLFR_ERR_INVALID, s)
      | Some a \<Rightarrow> (OBLFR_OK, s\<lparr>led_slist := remove1 a (led_slist s)\<rparr>))"

definition led_gpio_init_pin :: "'w led_sdk \<Rightarrow> int \<Rightarrow> 'w \<Rightarrow> bool \<times> 'w" where
  "led_gpio_init_pin sdk io w = (True, led_gpio_init sdk io w)"

definition led_gpio_deinit_pin :: "'w led_sdk \<Rightarrow> int \<Rightarrow> 'w \<Rightarrow> bool \<times> 'w" where
  "led_gpio_deinit_pin sdk io w = (True, led_gpio_deinit sdk io w)"

definition led_set_state :: "'w led_sdk \<Rightarrow> int \<Rightarrow> bool \<Rightarrow> blink_step_state \<Rightarrow> 'w \<Rightarrow> 'w" where
  "led_set_state sdk io off st w =
     (case st of
        LED_STATE_ON \<Rightarrow> if off then led_gpio_set sdk io w else led_gpio_reset sdk io w
      | LED_STATE_OFF \<Rightarrow> if off then led_gpio_reset sdk io w else led_gpio_set sdk io w)"

text \<open>\<^verbatim>\<open>_blink_list_switch\<close>: the first list that is not stopped.\<close>

fun first_incomplete :: "int \<Rightarrow> int list \<Rightarrow> int" where
  "first_incomplete i [] = NULL_ACTIVE_BLINK"
| "first_incomplete i (x # xs) = (if x \<noteq> STEP_STOPPED then i else first_incomplete (i + 1) xs)"

definition blink_list_switch :: "oblfr_indicator \<Rightarrow> oblfr_indicator" where
  "blink_list_switch p = p\<lparr>active_blink := first_incomplete 0 (take BLINK_LIST_NUM (p_blink_steps p))\<rparr>"

text \<open>
  One round of the loop in \<^verbatim>\<open>_blink_list_runner\<close>: the indicator, the world, and whether the loop is left.
\<close>

definition blink_list_round ::
  "'w led_sdk \<Rightarrow> oblfr_indicator \<Rightarrow> 'w \<Rightarrow> (bool \<times> oblfr_indicator \<times> 'w) option" where
  "blink_list_round sdk p w =
     (if active_blink p = NULL_ACTIVE_BLINK then Some (True, p, w)
      else do {
        active_step \<leftarrow> at (p_blink_steps p) (active_blink p);
        list \<leftarrow> at oblfr_indicator_blink_lists (active_blink p);
        steps \<leftarrow> list;
        blink_steps \<leftarrow> put_at (p_blink_steps p) (active_blink p) (active_step + 1);
        let p = p\<lparr>p_blink_steps := blink_steps\<rparr>;
        (got, w) \<leftarrow> mutex_take sdk (led_mutex p) (Some (pdMS_TO_TICKS sdk 100)) w;
        if \<not> got then
          Some (True, p, xTimerStart sdk (h_timer p) (xTimerChangePeriod sdk (h_timer p) (pdMS_TO_TICKS sdk 100) w))
        else do {
          step \<leftarrow> at steps active_step;
          case step_type step of
            LED_BLINK_LOOP \<Rightarrow> do {
              blink_steps \<leftarrow> put_at (p_blink_steps p) (active_blink p) 0;
              Some (False, p\<lparr>p_blink_steps := blink_steps\<rparr>, mutex_give sdk (led_mutex p) w)
            }
          | LED_BLINK_STOP \<Rightarrow> do {
              blink_steps \<leftarrow> put_at (p_blink_steps p) (active_blink p) STEP_STOPPED;
              Some (False, blink_list_switch (p\<lparr>p_blink_steps := blink_steps\<rparr>), mutex_give sdk (led_mutex p) w)
            }
          | LED_BLINK_HOLD \<Rightarrow>
              (let w = led_set_state sdk (io_num p) (off_level p) (on_off step) w
               in if hold_time_ms step = 0 then Some (False, p, mutex_give sdk (led_mutex p) w)
                  else Some (True, p, mutex_give sdk (led_mutex p)
                    (xTimerStart sdk (h_timer p)
                      (xTimerChangePeriod sdk (h_timer p) (pdMS_TO_TICKS sdk (hold_time_ms step)) w))))
        }
      })"

partial_function (option) blink_list_loop ::
  "'w led_sdk \<Rightarrow> oblfr_indicator \<Rightarrow> 'w \<Rightarrow> (oblfr_indicator \<times> 'w) option" where
  "blink_list_loop sdk p w =
     Option.bind (blink_list_round sdk p w) (\<lambda>(leave, p, w).
       if leave then Some (p, w) else blink_list_loop sdk p w)"

text \<open>The timer callback, given the indicator that is the identity of the timer.\<close>

definition blink_list_runner :: "'w led_sdk \<Rightarrow> nat \<Rightarrow> 'w leds \<Rightarrow> 'w leds option" where
  "blink_list_runner sdk a s = do {
     p \<leftarrow> led_heap s a;
     (p, w) \<leftarrow> blink_list_loop sdk p (led_world s);
     Some (s\<lparr>led_heap := (led_heap s)(a \<mapsto> p), led_world := w\<rparr>)
   }"

section \<open>The interface\<close>

record oblfr_indicator_config =
  cfg_off_level :: bool
  cfg_mode :: oblfr_indicator_mode

text \<open>
  \<^verbatim>\<open>oblfr_indicator_create\<close>: \<open>mem\<close> is what the first \<^verbatim>\<open>calloc\<close> returns, \<open>mem_steps\<close> and \<open>mem_node\<close> whether those for
  the stages and for the list node succeed. The result of adding the node is not looked at.
\<close>

definition oblfr_indicator_create ::
  "'w led_sdk \<Rightarrow> int \<Rightarrow> oblfr_indicator_config option \<Rightarrow> nat option \<Rightarrow> bool \<Rightarrow> bool \<Rightarrow> 'w leds \<Rightarrow>
   nat option \<times> 'w leds" where
  "oblfr_indicator_create sdk io config mem mem_steps mem_node s =
     (case config of
        None \<Rightarrow> (None, s)
      | Some c \<Rightarrow>
          (case mem of
             None \<Rightarrow> (None, s)
           | Some a \<Rightarrow>
               if \<not> mem_steps then (None, s)
               else (case mutex_create sdk (led_world s) of
                   (None, w) \<Rightarrow> (None, s\<lparr>led_world := w\<rparr>)
                 | (Some m, w) \<Rightarrow>
                     let p = \<lparr>off_level = cfg_off_level c, io_num = io, led_mode = cfg_mode c,
                              active_blink = NULL_ACTIVE_BLINK, p_blink_steps = replicate BLINK_LIST_NUM STEP_STOPPED,
                              led_mutex = m, h_timer = None\<rparr>
                     in if led_mode p = LED_GPIO_MODE then
                          (let (inited, w) = led_gpio_init_pin sdk io w
                           in if \<not> inited then (None, s\<lparr>led_world := mutex_delete sdk m w\<rparr>)
                              else (case xTimerCreate sdk io (pdMS_TO_TICKS sdk 100) a w of
                                  (None, w) \<Rightarrow> (None, s\<lparr>led_world := mutex_delete sdk m w\<rparr>)
                                | (Some h, w) \<Rightarrow>
                                    let s = s\<lparr>led_heap := (led_heap s)(a \<mapsto> p\<lparr>h_timer := Some h\<rparr>), led_world := w\<rparr>
                                    in (Some a, snd (oblfr_indicator_add_node mem_node (Some a) s))))
                        else (None, s\<lparr>led_world := mutex_delete sdk m w\<rparr>))))"

definition oblfr_indicator_get_handle :: "int \<Rightarrow> 'w leds \<Rightarrow> nat option option" where
  "oblfr_indicator_get_handle io s =
     fold (\<lambda>a r. case r of
         Some None \<Rightarrow> map_option (\<lambda>p. if io_num p = io then Some a else None) (led_heap s a)
       | _ \<Rightarrow> r) (led_slist s) (Some None)"

text \<open>\<^verbatim>\<open>oblfr_indicator_delete\<close>: the error code and what the handle of the caller is afterwards.\<close>

definition oblfr_indicator_delete ::
  "'w led_sdk \<Rightarrow> nat option option \<Rightarrow> 'w leds \<Rightarrow> (oblfr_err \<times> nat option \<times> 'w leds) option" where
  "oblfr_indicator_delete sdk p_handle s =
     (case p_handle of
        None \<Rightarrow> Some (OBLFR_ERR_INVALID, None, s)
      | Some None \<Rightarrow> Some (OBLFR_ERR_INVALID, None, s)
      | Some (Some a) \<Rightarrow> do {
          p \<leftarrow> led_heap s a;
          (_, w) \<leftarrow> mutex_take sdk (led_mutex p) None (led_world s);
          if led_mode p = LED_GPIO_MODE then
            (case led_gpio_deinit_pin sdk (io_num p) w of (deinited, w) \<Rightarrow>
             if \<not> deinited then Some (OBLFR_ERR_ERROR, Some a, s\<lparr>led_world := w\<rparr>)
             else do {
               (ret, w) \<leftarrow> xTimerDelete sdk (h_timer p) w;
               if \<not> ret then Some (OBLFR_ERR_ERROR, Some a, s\<lparr>led_world := w\<rparr>)
               else (case oblfr_indicator_remove_node (Some a) (s\<lparr>led_world := w\<rparr>) of (_, s) \<Rightarrow>
                 Some (OBLFR_OK, None, s\<lparr>led_world := mutex_delete sdk (led_mutex p) (led_world s),
                   led_heap := (led_heap s)(a := None)\<rparr>))
             })
          else Some (OBLFR_ERR_NOTSUPPORTED, Some a, s\<lparr>led_world := w\<rparr>)
        })"

text \<open>
  The common body of \<^verbatim>\<open>oblfr_indicator_start\<close> and \<^verbatim>\<open>oblfr_indicator_stop\<close>, which differ in the stage they
  write: 0 or stopped.
\<close>

definition indicator_set_stage ::
  "'w led_sdk \<Rightarrow> int \<Rightarrow> nat option \<Rightarrow> int \<Rightarrow> 'w leds \<Rightarrow> (oblfr_err \<times> 'w leds) option" where
  "indicator_set_stage sdk stage handle blink_type s =
     (case handle of
        None \<Rightarrow> Some (OBLFR_ERR_INVALID, s)
      | Some a \<Rightarrow>
          if \<not> (0 \<le> blink_type \<and> blink_type < BLINK_MAX) then Some (OBLFR_ERR_INVALID, s)
          else do {
            list \<leftarrow> at oblfr_indicator_blink_lists blink_type;
            if list = None then Some (OBLFR_ERR_INVALID, s)
            else do {
              p \<leftarrow> led_heap s a;
              (_, w) \<leftarrow> mutex_take sdk (led_mutex p) None (led_world s);
              steps \<leftarrow> put_at (p_blink_steps p) blink_type stage;
              let p = blink_list_switch (p\<lparr>p_blink_steps := steps\<rparr>);
              let s = s\<lparr>led_heap := (led_heap s)(a \<mapsto> p), led_world := mutex_give sdk (led_mutex p) w\<rparr>;
              if active_blink p = blink_type then do {
                s \<leftarrow> blink_list_runner sdk a s;
                Some (OBLFR_OK, s)
              } else Some (OBLFR_OK, s)
            }
          })"

definition oblfr_indicator_start ::
  "'w led_sdk \<Rightarrow> nat option \<Rightarrow> int \<Rightarrow> 'w leds \<Rightarrow> (oblfr_err \<times> 'w leds) option" where
  "oblfr_indicator_start sdk handle blink_type s = indicator_set_stage sdk 0 handle blink_type s"

definition oblfr_indicator_stop ::
  "'w led_sdk \<Rightarrow> nat option \<Rightarrow> int \<Rightarrow> 'w leds \<Rightarrow> (oblfr_err \<times> 'w leds) option" where
  "oblfr_indicator_stop sdk handle blink_type s = indicator_set_stage sdk STEP_STOPPED handle blink_type s"

end
