(* ===== verification/Indicator_Run.thy ===== *)
theory Indicator_Run
  imports Indicator
begin

text \<open>
  The pattern interpreter of \<^verbatim>\<open>oblfr_indicator.c\<close>: the shape of the pattern table, the invariant of an
  indicator (every stage lies in its pattern and the active pattern is the first that runs), and, under
  the laws of the SDK (locale \<open>led_board\<close>), what a run of the timer callback and the start and stop calls do.
\<close>

section \<open>The pattern table\<close>

text \<open>
  Every pattern is a sequence of hold steps with a hold time, closed by a loop or stop step; the table
  has a pattern for each blink type.
\<close>

definition pattern_ok :: "blink_step list \<Rightarrow> bool" where
  "pattern_ok l \<longleftrightarrow> 2 \<le> length l \<and> step_type (last l) \<noteq> LED_BLINK_HOLD \<and>
     (\<forall>st \<in> set (butlast l). step_type st = LED_BLINK_HOLD \<and> hold_time_ms st \<noteq> 0)"

lemmas patterns = connecting_def connected_def reconnecting_def updating_def factory_reset_def
  provisioning_def provisioned_def blink_hold_def blink_loop_def blink_stop_def

lemma BLINK_LIST_NUM_8 [simp]: "BLINK_LIST_NUM = 8"
  by (simp add: BLINK_LIST_NUM_def oblfr_indicator_blink_lists_def)

lemma nat_less_8: "i < 8 \<Longrightarrow> i = 0 \<or> i = 1 \<or> i = 2 \<or> i = 3 \<or> i = 4 \<or> i = 5 \<or> i = 6 \<or> i = (7 :: nat)"
  by arith

lemma blink_lists_ok:
  assumes "i < 8"
  shows "oblfr_indicator_blink_lists ! i = None \<longleftrightarrow> i = 7"
    and "oblfr_indicator_blink_lists ! i = Some l \<Longrightarrow> pattern_ok l"
  using nat_less_8 [OF assms] by (auto simp: oblfr_indicator_blink_lists_def pattern_ok_def patterns)

lemma pattern_step:
  assumes "pattern_ok l" "0 \<le> k" "k < int (length l)"
  shows "k + 1 < int (length l) \<and> step_type (l ! nat k) = LED_BLINK_HOLD \<and> hold_time_ms (l ! nat k) \<noteq> 0 \<or>
    step_type (l ! nat k) \<noteq> LED_BLINK_HOLD \<and> k + 1 = int (length l)"
proof (cases "k + 1 = int (length l)")
  case True
  then have "nat k = length l - 1" using assms(2) by linarith
  moreover have "l \<noteq> []" using assms(1) by (auto simp: pattern_ok_def)
  ultimately have "l ! nat k = last l" by (simp add: last_conv_nth)
  with True assms(1) show ?thesis by (simp add: pattern_ok_def)
next
  case False
  then have "nat k < length (butlast l)" using assms(2,3) by auto
  then have "l ! nat k \<in> set (butlast l)" by (metis nth_butlast nth_mem)
  with False assms show ?thesis by (auto simp: pattern_ok_def)
qed

lemma pattern_first: "pattern_ok l \<Longrightarrow> 1 < int (length l) \<and> step_type (l ! 0) = LED_BLINK_HOLD \<and> hold_time_ms (l ! 0) \<noteq> 0"
proof -
  assume ok: "pattern_ok l"
  then have "2 \<le> length l" by (simp add: pattern_ok_def)
  moreover from this have "l \<noteq> []" by auto
  ultimately show ?thesis using pattern_step [OF ok, of 0] by auto
qed

section \<open>The invariant of an indicator\<close>

definition stages_ok :: "int list \<Rightarrow> bool" where
  "stages_ok xs \<longleftrightarrow> length xs = BLINK_LIST_NUM \<and>
     (\<forall>i < length xs. xs ! i = STEP_STOPPED \<or>
        (\<exists>l. oblfr_indicator_blink_lists ! i = Some l \<and> 0 \<le> xs ! i \<and> xs ! i < int (length l)))"

definition led_inv :: "oblfr_indicator \<Rightarrow> bool" where
  "led_inv p \<longleftrightarrow> stages_ok (p_blink_steps p) \<and> active_blink p = first_incomplete 0 (p_blink_steps p)"

lemma first_incomplete_range:
  "first_incomplete i xs = NULL_ACTIVE_BLINK \<and> (\<forall>x \<in> set xs. x = STEP_STOPPED) \<or>
   (\<exists>j < length xs. first_incomplete i xs = i + int j \<and> xs ! j \<noteq> STEP_STOPPED \<and> (\<forall>m < j. xs ! m = STEP_STOPPED))"
proof (induction xs arbitrary: i)
  case Nil
  then show ?case by simp
next
  case (Cons x xs)
  show ?case
  proof (cases "x = STEP_STOPPED")
    case False
    then show ?thesis by (intro disjI2 exI [of _ 0]) simp
  next
    case True
    from Cons.IH [of "i + 1"] show ?thesis
    proof (elim disjE exE conjE)
      fix j assume j: "j < length xs" "first_incomplete (i + 1) xs = i + 1 + int j" "xs ! j \<noteq> STEP_STOPPED"
        "\<forall>m < j. xs ! m = STEP_STOPPED"
      with True have "\<forall>m < Suc j. (x # xs) ! m = STEP_STOPPED" by (auto simp: less_Suc_eq_0_disj)
      with j True show ?thesis by (intro disjI2 exI [of _ "Suc j"]) simp
    qed (use True in simp)
  qed
qed

text \<open>The active pattern of a consistent indicator: its number, its steps and its stage.\<close>

lemma led_active:
  assumes "led_inv p" "active_blink p \<noteq> NULL_ACTIVE_BLINK"
  obtains i l where "active_blink p = int i" "i < 7" "oblfr_indicator_blink_lists ! i = Some l" "pattern_ok l"
    "0 \<le> p_blink_steps p ! i" "p_blink_steps p ! i < int (length l)" "\<forall>m < i. p_blink_steps p ! m = STEP_STOPPED"
    "length (p_blink_steps p) = 8"
proof -
  have ok: "stages_ok (p_blink_steps p)" and a: "active_blink p = first_incomplete 0 (p_blink_steps p)"
    using assms(1) by (simp_all add: led_inv_def)
  then obtain i where i: "i < 8" "active_blink p = int i" "p_blink_steps p ! i \<noteq> STEP_STOPPED" "\<forall>m < i. p_blink_steps p ! m = STEP_STOPPED"
    using first_incomplete_range [of 0 "p_blink_steps p"] assms(2) by (auto simp: stages_ok_def)
  then obtain l where l: "oblfr_indicator_blink_lists ! i = Some l" "0 \<le> p_blink_steps p ! i" "p_blink_steps p ! i < int (length l)"
    using ok by (auto simp: stages_ok_def)
  have "i \<noteq> 7" using blink_lists_ok(1) [OF i(1)] l(1) by auto
  with i l ok blink_lists_ok(2) [OF i(1) l(1)] that [of i l] show ?thesis by (simp add: stages_ok_def)
qed

lemma stages_put:
  assumes "stages_ok xs" "i < 8" "oblfr_indicator_blink_lists ! i = Some l" "v = STEP_STOPPED \<or> 0 \<le> v \<and> v < int (length l)"
  shows "stages_ok (xs[i := v])"
  using assms by (auto simp: stages_ok_def nth_list_update)

lemma at_nth: "i < length xs \<Longrightarrow> at xs (int i) = Some (xs ! i)"
  by (simp add: at_def)

lemma put_at_nth: "i < length xs \<Longrightarrow> put_at xs (int i) v = Some (xs[i := v])"
  by (simp add: put_at_def)

lemma at_pos: "0 \<le> k \<Longrightarrow> k < int (length xs) \<Longrightarrow> at xs k = Some (xs ! nat k)"
  by (simp add: at_def)

lemma length_blink_lists [simp]: "length oblfr_indicator_blink_lists = 8"
  by (simp add: oblfr_indicator_blink_lists_def)

lemma first_incomplete_eqI:
  assumes "j < length xs" "xs ! j \<noteq> STEP_STOPPED" "\<forall>m < j. xs ! m = STEP_STOPPED"
  shows "first_incomplete 0 xs = int j"
  using first_incomplete_range [of 0 xs]
proof (elim disjE exE conjE)
  assume "\<forall>x \<in> set xs. x = STEP_STOPPED"
  with assms(1,2) show ?thesis using nth_mem [of j xs] by blast
next
  fix i assume i: "first_incomplete 0 xs = 0 + int i" "xs ! i \<noteq> STEP_STOPPED" "\<forall>m < i. xs ! m = STEP_STOPPED"
  with assms(2,3) have "\<not> i < j" "\<not> j < i" by blast+
  with i(1) show ?thesis by simp
qed

lemma first_incomplete_put:
  assumes "t < length xs" "v \<noteq> STEP_STOPPED"
  shows "first_incomplete 0 (xs[t := v]) = (if \<forall>i < t. xs ! i = STEP_STOPPED then int t else first_incomplete 0 xs)"
proof (cases "\<forall>i < t. xs ! i = STEP_STOPPED")
  case True
  then show ?thesis using assms by (simp add: first_incomplete_eqI)
next
  case False
  then obtain i where "i < t" "xs ! i \<noteq> STEP_STOPPED" by blast
  then have "\<not> (\<forall>x \<in> set xs. x = STEP_STOPPED)" using nth_mem [of i xs] assms(1) by auto
  then obtain j where j: "j < length xs" "first_incomplete 0 xs = int j" "xs ! j \<noteq> STEP_STOPPED" "\<forall>m < j. xs ! m = STEP_STOPPED"
    using first_incomplete_range [of 0 xs] by auto
  moreover have "j < t" using j(4) \<open>i < t\<close> \<open>xs ! i \<noteq> STEP_STOPPED\<close> by (meson linorder_not_less order_less_le_trans)
  ultimately have "j < length xs" "first_incomplete 0 xs = int j" "xs ! j \<noteq> STEP_STOPPED" "\<forall>m < j. xs ! m = STEP_STOPPED" "j < t"
    by simp_all
  then have "first_incomplete 0 (xs[t := v]) = int j" by (intro first_incomplete_eqI) auto
  with False j(2) show ?thesis by auto
qed

lemma first_incomplete_upd:
  "first_incomplete 0 xs = int i \<Longrightarrow> i < length xs \<Longrightarrow> v \<noteq> STEP_STOPPED \<Longrightarrow> first_incomplete 0 (xs[i := v]) = int i"
  by (simp add: first_incomplete_put)

lemma first_incomplete_stopped:
  "t < length xs \<Longrightarrow> first_incomplete 0 (xs[t := STEP_STOPPED]) \<noteq> int t"
  using first_incomplete_range [of 0 "xs[t := STEP_STOPPED]"] by auto

section \<open>The board\<close>

text \<open>What a hold step shows: the level of the pin and the period of the timer, and nothing else.\<close>

definition shows_step ::
  "'w led_sdk \<Rightarrow> (int \<Rightarrow> 'w \<Rightarrow> bool) \<Rightarrow> (nat option \<Rightarrow> 'w \<Rightarrow> u32 option) \<Rightarrow> oblfr_indicator \<Rightarrow> blink_step \<Rightarrow> 'w \<Rightarrow> 'w \<Rightarrow> bool" where
  "shows_step sdk pin armed p st w w' \<longleftrightarrow>
     (\<forall>k. pin k w' = (if k = io_num p then (on_off st = LED_STATE_ON) = off_level p else pin k w)) \<and>
     (\<forall>h. armed h w' = (if h = h_timer p then Some (pdMS_TO_TICKS sdk (hold_time_ms st)) else armed h w))"

text \<open>
  What a run of the timer callback leads to: the world is unchanged when nothing is active any more,
  else it shows a hold step of the active pattern, whose stage is the one behind that step.
\<close>

definition run_result ::
  "'w led_sdk \<Rightarrow> (int \<Rightarrow> 'w \<Rightarrow> bool) \<Rightarrow> (nat option \<Rightarrow> 'w \<Rightarrow> u32 option) \<Rightarrow> oblfr_indicator \<Rightarrow> 'w \<Rightarrow> oblfr_indicator \<Rightarrow> 'w \<Rightarrow> bool" where
  "run_result sdk pin armed p w p' w' \<longleftrightarrow>
     (if active_blink p' = NULL_ACTIVE_BLINK then (\<forall>n. pin n w' = pin n w) \<and> (\<forall>h. armed h w' = armed h w)
      else \<exists>l k. at oblfr_indicator_blink_lists (active_blink p') = Some (Some l) \<and>
        at (p_blink_steps p') (active_blink p') = Some (k + 1) \<and> 0 \<le> k \<and> k + 1 < int (length l) \<and>
        shows_step sdk pin armed p (l ! nat k) w w')"

text \<open>
  What the module relies on of the SDK, for the mutex \<open>m\<close> of an indicator: a free mutex (\<open>ready\<close>) can be
  taken and given back, and the pin and timer calls do what they say and touch nothing else. \<open>pin\<close>
  is the output level of a pin, \<open>armed\<close> the period a timer was last started with.
\<close>

locale led_board =
  fixes sdk :: "'w led_sdk"
    and m :: nat
    and pin :: "int \<Rightarrow> 'w \<Rightarrow> bool"
    and armed :: "nat option \<Rightarrow> 'w \<Rightarrow> u32 option"
    and ready held :: "'w \<Rightarrow> bool"
  assumes take_mutex: "ready w \<Longrightarrow> \<exists>w'. mutex_take sdk m timeout w = Some (True, w') \<and> held w' \<and>
      (\<forall>n. pin n w' = pin n w) \<and> (\<forall>h. armed h w' = armed h w)"
    and give_mutex: "held w \<Longrightarrow> ready (mutex_give sdk m w) \<and>
      (\<forall>n. pin n (mutex_give sdk m w) = pin n w) \<and> (\<forall>h. armed h (mutex_give sdk m w) = armed h w)"
    and set_pin: "held w \<Longrightarrow> held (led_gpio_set sdk n w) \<and>
      (\<forall>k. pin k (led_gpio_set sdk n w) = (k = n \<or> pin k w)) \<and> (\<forall>h. armed h (led_gpio_set sdk n w) = armed h w)"
    and reset_pin: "held w \<Longrightarrow> held (led_gpio_reset sdk n w) \<and>
      (\<forall>k. pin k (led_gpio_reset sdk n w) = (k \<noteq> n \<and> pin k w)) \<and> (\<forall>h. armed h (led_gpio_reset sdk n w) = armed h w)"
    and start_timer: "held w \<Longrightarrow> held (xTimerStart sdk h (xTimerChangePeriod sdk h t w)) \<and>
      (\<forall>k. pin k (xTimerStart sdk h (xTimerChangePeriod sdk h t w)) = pin k w) \<and>
      (\<forall>h'. armed h' (xTimerStart sdk h (xTimerChangePeriod sdk h t w)) = (if h' = h then Some t else armed h' w))"
begin

lemma set_state:
  assumes "held w"
  shows "held (led_set_state sdk io off st w) \<and>
    (\<forall>k. pin k (led_set_state sdk io off st w) = (if k = io then (st = LED_STATE_ON) = off else pin k w)) \<and>
    (\<forall>h. armed h (led_set_state sdk io off st w) = armed h w)"
  using set_pin [OF assms, of io] reset_pin [OF assms, of io] by (cases st; cases off) (auto simp: led_set_state_def)

lemma round_hold:
  assumes "ready w" "led_mutex p = m" "active_blink p = int i" "i < 8" "length (p_blink_steps p) = 8"
    and "oblfr_indicator_blink_lists ! i = Some l" "0 \<le> p_blink_steps p ! i" "p_blink_steps p ! i < int (length l)"
    and "step_type (l ! nat (p_blink_steps p ! i)) = LED_BLINK_HOLD" "hold_time_ms (l ! nat (p_blink_steps p ! i)) \<noteq> 0"
  shows "\<exists>w'. blink_list_round sdk p w =
      Some (True, p\<lparr>p_blink_steps := (p_blink_steps p)[i := p_blink_steps p ! i + 1]\<rparr>, w') \<and>
    ready w' \<and> shows_step sdk pin armed p (l ! nat (p_blink_steps p ! i)) w w'"
proof -
  let ?st = "l ! nat (p_blink_steps p ! i)"
  obtain w1 where w1: "mutex_take sdk m (Some (pdMS_TO_TICKS sdk 100)) w = Some (True, w1)" "held w1"
    "\<forall>n. pin n w1 = pin n w" "\<forall>h. armed h w1 = armed h w"
    using take_mutex [OF assms(1)] by blast
  define w2 where "w2 = led_set_state sdk (io_num p) (off_level p) (on_off ?st) w1"
  have w2: "held w2" "\<forall>k. pin k w2 = (if k = io_num p then (on_off ?st = LED_STATE_ON) = off_level p else pin k w)"
    "\<forall>h. armed h w2 = armed h w"
    using set_state [OF w1(2)] w1(3,4) by (simp_all add: w2_def)
  define w3 where "w3 = xTimerStart sdk (h_timer p) (xTimerChangePeriod sdk (h_timer p) (pdMS_TO_TICKS sdk (hold_time_ms ?st)) w2)"
  have w3: "held w3" "\<forall>k. pin k w3 = pin k w2"
    "\<forall>h. armed h w3 = (if h = h_timer p then Some (pdMS_TO_TICKS sdk (hold_time_ms ?st)) else armed h w)"
    using start_timer [OF w2(1)] w2(3) by (simp_all add: w3_def)
  have "blink_list_round sdk p w =
      Some (True, p\<lparr>p_blink_steps := (p_blink_steps p)[i := p_blink_steps p ! i + 1]\<rparr>, mutex_give sdk m w3)"
    using assms w1(1) by (simp add: blink_list_round_def at_nth put_at_nth at_pos w2_def w3_def)
  with give_mutex [OF w3(1)] w3 w2 show ?thesis by (auto simp: shows_step_def)
qed

lemma round_end:
  assumes "ready w" "led_mutex p = m" "active_blink p = int i" "i < 8" "length (p_blink_steps p) = 8"
    and "oblfr_indicator_blink_lists ! i = Some l" "0 \<le> p_blink_steps p ! i" "p_blink_steps p ! i < int (length l)"
    and "step_type (l ! nat (p_blink_steps p ! i)) = ty" "ty \<noteq> LED_BLINK_HOLD"
  shows "\<exists>w'. blink_list_round sdk p w =
      Some (False, (if ty = LED_BLINK_LOOP then p\<lparr>p_blink_steps := (p_blink_steps p)[i := 0]\<rparr>
        else blink_list_switch (p\<lparr>p_blink_steps := (p_blink_steps p)[i := STEP_STOPPED]\<rparr>)), w') \<and>
    ready w' \<and> (\<forall>n. pin n w' = pin n w) \<and> (\<forall>h. armed h w' = armed h w)"
proof -
  obtain w1 where w1: "mutex_take sdk m (Some (pdMS_TO_TICKS sdk 100)) w = Some (True, w1)" "held w1"
    "\<forall>n. pin n w1 = pin n w" "\<forall>h. armed h w1 = armed h w"
    using take_mutex [OF assms(1)] by blast
  with assms give_mutex [OF w1(2)] show ?thesis
    by (cases ty) (auto simp: blink_list_round_def at_nth put_at_nth at_pos)
qed

lemma shows_step_cong:
  "\<forall>n. pin n w1 = pin n w \<Longrightarrow> \<forall>h. armed h w1 = armed h w \<Longrightarrow> shows_step sdk pin armed p st w1 w' \<Longrightarrow> shows_step sdk pin armed p st w w'"
  by (simp add: shows_step_def)

lemma run_hold:
  assumes "ready w" "led_mutex p = m" "led_inv p" "active_blink p = int i" "i < 7"
    and "oblfr_indicator_blink_lists ! i = Some l" "pattern_ok l" "p_blink_steps p ! i = k" "0 \<le> k" "k + 1 < int (length l)"
  shows "\<exists>p' w'. blink_list_loop sdk p w = Some (p', w') \<and> ready w' \<and> led_inv p' \<and> run_result sdk pin armed p w p' w' \<and>
    p' = p\<lparr>p_blink_steps := (p_blink_steps p)[i := k + 1]\<rparr> \<and> shows_step sdk pin armed p (l ! nat k) w w'"
proof -
  have len: "length (p_blink_steps p) = 8" using assms(3) by (simp add: led_inv_def stages_ok_def)
  have h: "step_type (l ! nat k) = LED_BLINK_HOLD" "hold_time_ms (l ! nat k) \<noteq> 0"
    using pattern_step [OF assms(7,9)] assms(10) by auto
  define p' where "p' = p\<lparr>p_blink_steps := (p_blink_steps p)[i := k + 1]\<rparr>"
  obtain w' where w': "blink_list_round sdk p w = Some (True, p', w')" "ready w'" "shows_step sdk pin armed p (l ! nat k) w w'"
    using round_hold [OF assms(1,2,4) _ len assms(6)] assms h by (auto simp: p'_def)
  have "stages_ok (p_blink_steps p')"
    using assms stages_put [of "p_blink_steps p" i l "k + 1"] by (simp add: led_inv_def p'_def)
  moreover have "first_incomplete 0 (p_blink_steps p') = int i"
    using first_incomplete_upd [of "p_blink_steps p" i "k + 1"] assms len by (simp add: led_inv_def p'_def)
  ultimately have "led_inv p'" using assms(4) by (simp add: led_inv_def p'_def)
  moreover have "run_result sdk pin armed p w p' w'"
    using assms w'(3) len by (auto simp: run_result_def p'_def at_nth intro!: exI [of _ l] exI [of _ k])
  moreover have "blink_list_loop sdk p w = Some (p', w')" using w'(1) by (subst blink_list_loop.simps) simp
  ultimately show ?thesis using w'(2,3) unfolding p'_def by blast
qed

lemma run_result_trans:
  assumes "\<forall>n. pin n w1 = pin n w" "\<forall>h. armed h w1 = armed h w" "run_result sdk pin armed p1 w1 p' w'"
    and "io_num p1 = io_num p" "off_level p1 = off_level p" "h_timer p1 = h_timer p"
  shows "run_result sdk pin armed p w p' w'"
proof -
  have "shows_step sdk pin armed p1 st w1 w' = shows_step sdk pin armed p st w w'" for st using assms by (simp add: shows_step_def)
  then show ?thesis
    using assms(1-3) by (cases "active_blink p' = NULL_ACTIVE_BLINK") (auto simp: run_result_def)
qed

lemma runner_correct:
  assumes "ready w" "led_mutex p = m" "led_inv p"
  shows "\<exists>p' w'. blink_list_loop sdk p w = Some (p', w') \<and> ready w' \<and> led_inv p' \<and> run_result sdk pin armed p w p' w'"
  using assms
proof (induction "card {i. i < 8 \<and> p_blink_steps p ! i \<noteq> STEP_STOPPED}" arbitrary: p w rule: less_induct)
  case less
  show ?case
  proof (cases "active_blink p = NULL_ACTIVE_BLINK")
    case True
    then have "blink_list_loop sdk p w = Some (p, w)"
      by (subst blink_list_loop.simps) (simp add: blink_list_round_def)
    with less.prems True show ?thesis by (simp add: run_result_def)
  next
    case False
    with less.prems(3) obtain i l where i: "active_blink p = int i" "i < 7" "oblfr_indicator_blink_lists ! i = Some l" "pattern_ok l"
      "0 \<le> p_blink_steps p ! i" "p_blink_steps p ! i < int (length l)" "length (p_blink_steps p) = 8"
      by (rule led_active)
    define k where "k = p_blink_steps p ! i"
    define ty where "ty = step_type (l ! nat k)"
    show ?thesis
    proof (cases "ty = LED_BLINK_HOLD")
      case True
      then have "k + 1 < int (length l)" using pattern_step [OF i(4,5,6)] by (auto simp: ty_def k_def)
      with run_hold [OF less.prems i(1-4), of k] i show ?thesis by (auto simp: k_def)
    next
      case nohold: False
      define p1 where "p1 = (if ty = LED_BLINK_LOOP then p\<lparr>p_blink_steps := (p_blink_steps p)[i := 0]\<rparr>
        else blink_list_switch (p\<lparr>p_blink_steps := (p_blink_steps p)[i := STEP_STOPPED]\<rparr>))"
      obtain w1 where w1: "blink_list_round sdk p w = Some (False, p1, w1)" "ready w1"
        "\<forall>n. pin n w1 = pin n w" "\<forall>h. armed h w1 = armed h w"
        using round_end [OF less.prems(1,2) i(1) _ i(7,3,5,6), of ty] i(2) nohold
        by (auto simp: p1_def ty_def k_def)
      have loop1: "blink_list_loop sdk p w = blink_list_loop sdk p1 w1"
        using w1(1) by (subst blink_list_loop.simps) simp
      have same: "led_mutex p1 = m" "io_num p1 = io_num p" "off_level p1 = off_level p" "h_timer p1 = h_timer p"
        using less.prems(2) by (simp_all add: p1_def blink_list_switch_def)
      have st: "stages_ok (p_blink_steps p)" using less.prems(3) by (simp add: led_inv_def)
      have "\<exists>p' w'. blink_list_loop sdk p1 w1 = Some (p', w') \<and> ready w' \<and> led_inv p' \<and> run_result sdk pin armed p1 w1 p' w'"
      proof (cases "ty = LED_BLINK_LOOP")
        case True
        have first: "1 < int (length l)" using pattern_first [OF i(4)] by simp
        have "stages_ok (p_blink_steps p1)" using True i st first by (simp add: p1_def) (intro stages_put, auto)
        moreover have "first_incomplete 0 (p_blink_steps p1) = int i"
          using True less.prems(3) i first_incomplete_upd [of "p_blink_steps p" i 0] by (simp add: p1_def led_inv_def)
        ultimately have "led_inv p1" using True i(1) by (simp add: led_inv_def p1_def)
        moreover have "active_blink p1 = int i" "p_blink_steps p1 ! i = 0" using True i by (simp_all add: p1_def)
        moreover have "(0 :: int) + 1 < int (length l)" using first by simp
        ultimately show ?thesis
          using run_hold [OF w1(2) same(1) _ _ i(2-4) _ order_refl] by blast
      next
        case False
        have s1: "p_blink_steps p1 = (p_blink_steps p)[i := STEP_STOPPED]" using False by (simp add: p1_def blink_list_switch_def)
        have "stages_ok (p_blink_steps p1)" unfolding s1 using i st by (intro stages_put) auto
        then have inv1: "led_inv p1" using False i(7) by (simp add: led_inv_def p1_def blink_list_switch_def)
        have "{j. j < 8 \<and> p_blink_steps p1 ! j \<noteq> STEP_STOPPED} \<subset> {j. j < 8 \<and> p_blink_steps p ! j \<noteq> STEP_STOPPED}"
        proof
          show "{j. j < 8 \<and> p_blink_steps p1 ! j \<noteq> STEP_STOPPED} \<subseteq> {j. j < 8 \<and> p_blink_steps p ! j \<noteq> STEP_STOPPED}"
            unfolding s1 using i(2,7) by (auto simp: nth_list_update split: if_splits)
          have "i \<in> {j. j < 8 \<and> p_blink_steps p ! j \<noteq> STEP_STOPPED}" "i \<notin> {j. j < 8 \<and> p_blink_steps p1 ! j \<noteq> STEP_STOPPED}"
            unfolding s1 using i(2,5,7) by simp_all
          then show "{j. j < 8 \<and> p_blink_steps p1 ! j \<noteq> STEP_STOPPED} \<noteq> {j. j < 8 \<and> p_blink_steps p ! j \<noteq> STEP_STOPPED}"
            by blast
        qed
        then have "card {j. j < 8 \<and> p_blink_steps p1 ! j \<noteq> STEP_STOPPED} < card {j. j < 8 \<and> p_blink_steps p ! j \<noteq> STEP_STOPPED}"
          by (intro psubset_card_mono) auto
        from less.hyps [OF this w1(2) same(1) inv1] show ?thesis .
      qed
      then show ?thesis unfolding loop1 using run_result_trans [OF w1(3,4) _ same(2-4)] by blast
    qed
  qed
qed

end

context led_board
begin

lemma set_stage_run:
  assumes r: "ready (led_world s)" and p: "led_heap s a = Some p" "led_mutex p = m" and t: "t < 7"
    and inv: "led_inv p"
  shows "\<exists>w. ready w \<and> (\<forall>n. pin n w = pin n (led_world s)) \<and> (\<forall>h. armed h w = armed h (led_world s)) \<and>
    indicator_set_stage sdk stage (Some a) (int t) s =
      (let p' = blink_list_switch (p\<lparr>p_blink_steps := (p_blink_steps p)[t := stage]\<rparr>);
           s' = s\<lparr>led_heap := (led_heap s)(a \<mapsto> p'), led_world := w\<rparr>
       in if active_blink p' = int t then do { s'' \<leftarrow> blink_list_runner sdk a s'; Some (OBLFR_OK, s'') }
          else Some (OBLFR_OK, s'))"
proof -
  obtain w1 where w1: "mutex_take sdk m None (led_world s) = Some (True, w1)" "held w1"
    "\<forall>n. pin n w1 = pin n (led_world s)" "\<forall>h. armed h w1 = armed h (led_world s)"
    using take_mutex [OF r] by blast
  have len: "length (p_blink_steps p) = 8" using inv by (simp add: led_inv_def stages_ok_def)
  have l: "oblfr_indicator_blink_lists ! t \<noteq> None" using blink_lists_ok(1) [of t] t by auto
  have "indicator_set_stage sdk stage (Some a) (int t) s =
      (let p' = blink_list_switch (p\<lparr>p_blink_steps := (p_blink_steps p)[t := stage]\<rparr>);
           s' = s\<lparr>led_heap := (led_heap s)(a \<mapsto> p'), led_world := mutex_give sdk m w1\<rparr>
       in if active_blink p' = int t then do { s'' \<leftarrow> blink_list_runner sdk a s'; Some (OBLFR_OK, s'') }
          else Some (OBLFR_OK, s'))"
    using p t l w1(1) len by (auto simp: indicator_set_stage_def at_nth put_at_nth Let_def blink_list_switch_def)
  with give_mutex [OF w1(2)] w1(3,4) show ?thesis by (intro exI [of _ "mutex_give sdk m w1"]) simp
qed

lemma start_correct:
  assumes r: "ready (led_world s)" and p: "led_heap s a = Some p" "led_mutex p = m" and t: "t < 7"
    and inv: "led_inv p"
  shows "\<exists>s' p' l. oblfr_indicator_start sdk (Some a) (int t) s = Some (OBLFR_OK, s') \<and> ready (led_world s') \<and>
    led_heap s' = (led_heap s)(a \<mapsto> p') \<and> led_inv p' \<and> oblfr_indicator_blink_lists ! t = Some l \<and>
    (if \<forall>i < t. p_blink_steps p ! i = STEP_STOPPED
     then p' = p\<lparr>p_blink_steps := (p_blink_steps p)[t := 1], active_blink := int t\<rparr> \<and>
       shows_step sdk pin armed p (l ! 0) (led_world s) (led_world s')
     else p' = p\<lparr>p_blink_steps := (p_blink_steps p)[t := 0]\<rparr> \<and>
       (\<forall>n. pin n (led_world s') = pin n (led_world s)) \<and> (\<forall>h. armed h (led_world s') = armed h (led_world s)))"
proof -
  obtain l where l: "oblfr_indicator_blink_lists ! t = Some l" "pattern_ok l"
    using blink_lists_ok [of t] t by auto
  have st: "stages_ok (p_blink_steps p)" and len: "length (p_blink_steps p) = 8"
    using inv by (auto simp: led_inv_def stages_ok_def)
  have first: "(0 :: int) + 1 < int (length l)" using pattern_first [OF l(2)] by simp
  define p1 where "p1 = blink_list_switch (p\<lparr>p_blink_steps := (p_blink_steps p)[t := 0]\<rparr>)"
  have a1: "active_blink p1 = (if \<forall>i < t. p_blink_steps p ! i = STEP_STOPPED then int t else active_blink p)"
    using first_incomplete_put [of t "p_blink_steps p" 0] t len inv
    by (cases "\<forall>i < t. p_blink_steps p ! i = STEP_STOPPED") (auto simp: p1_def blink_list_switch_def led_inv_def)
  have "stages_ok ((p_blink_steps p)[t := 0])" using st l t first by (intro stages_put) auto
  then have inv1: "led_inv p1" using len by (simp add: p1_def blink_list_switch_def led_inv_def)
  obtain w where w: "ready w" "\<forall>n. pin n w = pin n (led_world s)" "\<forall>h. armed h w = armed h (led_world s)"
    "oblfr_indicator_start sdk (Some a) (int t) s =
      (let s' = s\<lparr>led_heap := (led_heap s)(a \<mapsto> p1), led_world := w\<rparr>
       in if active_blink p1 = int t then do { s'' \<leftarrow> blink_list_runner sdk a s'; Some (OBLFR_OK, s'') }
          else Some (OBLFR_OK, s'))"
    using set_stage_run [OF r p t inv, of 0] by (auto simp: oblfr_indicator_start_def p1_def Let_def)
  show ?thesis
  proof (cases "\<forall>i < t. p_blink_steps p ! i = STEP_STOPPED")
    case True
    then have act: "active_blink p1 = int t" using a1 by simp
    have s0: "p_blink_steps p1 ! t = 0" "led_mutex p1 = m" using t len p(2) by (simp_all add: p1_def blink_list_switch_def)
    obtain p' w' where run: "blink_list_loop sdk p1 w = Some (p', w')" "ready w'" "led_inv p'"
      "p' = p1\<lparr>p_blink_steps := (p_blink_steps p1)[t := 0 + 1]\<rparr>" "shows_step sdk pin armed p1 (l ! nat 0) w w'"
      using run_hold [OF w(1) s0(2) inv1 act t l s0(1) order_refl first] by blast
    have p': "p' = p\<lparr>p_blink_steps := (p_blink_steps p)[t := 1], active_blink := int t\<rparr>"
      using run(4) act by (simp add: p1_def blink_list_switch_def)
    have "shows_step sdk pin armed p (l ! 0) (led_world s) w'"
      using run(5) w(2,3) by (simp add: shows_step_def p1_def blink_list_switch_def)
    moreover have "oblfr_indicator_start sdk (Some a) (int t) s =
        Some (OBLFR_OK, s\<lparr>led_heap := (led_heap s)(a \<mapsto> p'), led_world := w'\<rparr>)"
      using w(4) act run(1) by (simp add: blink_list_runner_def)
    ultimately show ?thesis using True run(2,3) p' l(1)
      by (intro exI [of _ "s\<lparr>led_heap := (led_heap s)(a \<mapsto> p'), led_world := w'\<rparr>"] exI [of _ p'] exI [of _ l]) simp
  next
    case False
    then have act: "active_blink p1 = active_blink p" unfolding a1 by (rule if_not_P)
    have "active_blink p \<noteq> int t"
      using False inv first_incomplete_range [of 0 "p_blink_steps p"] by (auto simp: led_inv_def)
    then have "oblfr_indicator_start sdk (Some a) (int t) s =
        Some (OBLFR_OK, s\<lparr>led_heap := (led_heap s)(a \<mapsto> p1), led_world := w\<rparr>)"
      using w(4) act by simp
    moreover have "p1 = p\<lparr>p_blink_steps := (p_blink_steps p)[t := 0]\<rparr>"
      using act by (cases p) (simp add: p1_def blink_list_switch_def)
    ultimately show ?thesis using False w(1-3) inv1 l(1)
      by (intro exI [of _ "s\<lparr>led_heap := (led_heap s)(a \<mapsto> p1), led_world := w\<rparr>"] exI [of _ p1] exI [of _ l]) auto
  qed
qed

lemma stop_correct:
  assumes r: "ready (led_world s)" and p: "led_heap s a = Some p" "led_mutex p = m" and t: "t < 7"
    and inv: "led_inv p"
  shows "\<exists>s' p'. oblfr_indicator_stop sdk (Some a) (int t) s = Some (OBLFR_OK, s') \<and> ready (led_world s') \<and>
    led_heap s' = (led_heap s)(a \<mapsto> p') \<and> led_inv p' \<and> p_blink_steps p' = (p_blink_steps p)[t := STEP_STOPPED] \<and>
    (\<forall>n. pin n (led_world s') = pin n (led_world s)) \<and> (\<forall>h. armed h (led_world s') = armed h (led_world s))"
proof -
  obtain l where l: "oblfr_indicator_blink_lists ! t = Some l" using blink_lists_ok [of t] t by auto
  have st: "stages_ok (p_blink_steps p)" and len: "length (p_blink_steps p) = 8"
    using inv by (auto simp: led_inv_def stages_ok_def)
  define p1 where "p1 = blink_list_switch (p\<lparr>p_blink_steps := (p_blink_steps p)[t := STEP_STOPPED]\<rparr>)"
  have "stages_ok ((p_blink_steps p)[t := STEP_STOPPED])" using st l t by (intro stages_put) auto
  then have inv1: "led_inv p1" using len by (simp add: p1_def blink_list_switch_def led_inv_def)
  have act: "active_blink p1 \<noteq> int t"
    using first_incomplete_stopped [of t "p_blink_steps p"] t len by (simp add: p1_def blink_list_switch_def)
  obtain w where w: "ready w" "\<forall>n. pin n w = pin n (led_world s)" "\<forall>h. armed h w = armed h (led_world s)"
    "oblfr_indicator_stop sdk (Some a) (int t) s = Some (OBLFR_OK, s\<lparr>led_heap := (led_heap s)(a \<mapsto> p1), led_world := w\<rparr>)"
    using set_stage_run [OF r p t inv, of STEP_STOPPED] act by (auto simp: oblfr_indicator_stop_def p1_def Let_def)
  then show ?thesis using inv1
    by (intro exI [of _ "s\<lparr>led_heap := (led_heap s)(a \<mapsto> p1), led_world := w\<rparr>"] exI [of _ p1])
      (simp add: p1_def blink_list_switch_def)
qed

end

end
