(* ===== verification/Indicator_Correct.thy ===== *)
theory Indicator_Correct
  imports Indicator_Run
begin

text \<open>
  The properties of the LED indicators and the board they are tried on: \<open>sim_sdk\<close>, an SDK
  simulated by lists, which meets the laws of the locale \<open>led_board\<close>.
\<close>

section \<open>New indicators\<close>

lemma first_incomplete_replicate: "first_incomplete i (replicate n STEP_STOPPED) = NULL_ACTIVE_BLINK"
  by (induction n arbitrary: i) simp_all

lemma new_led_inv:
  "p_blink_steps p = replicate 8 STEP_STOPPED \<Longrightarrow> active_blink p = NULL_ACTIVE_BLINK \<Longrightarrow> led_inv p"
  by (simp add: led_inv_def stages_ok_def first_incomplete_replicate)

lemma get_handle_found:
  "fold (\<lambda>a r. case r of Some None \<Rightarrow> f a | _ \<Rightarrow> r) as (Some (Some b)) = Some (Some b)"
  by (induction as) simp_all

section \<open>A simulated board\<close>

text \<open>The output pins that are high, the started timers with their period, and the mutexes that are taken.\<close>

record led_sim =
  sim_pins :: "int list"
  sim_armed :: "(nat option \<times> u32) list"
  sim_taken :: "nat list"

definition sim_sdk :: "led_sim led_sdk" where
  "sim_sdk = \<lparr>
     led_gpio_init = (\<lambda>n w. w),
     led_gpio_deinit = (\<lambda>n w. w),
     led_gpio_set = (\<lambda>n w. w\<lparr>sim_pins := n # sim_pins w\<rparr>),
     led_gpio_reset = (\<lambda>n w. w\<lparr>sim_pins := removeAll n (sim_pins w)\<rparr>),
     pdMS_TO_TICKS = (\<lambda>t. t),
     mutex_create = (\<lambda>w. (Some 0, w)),
     mutex_take = (\<lambda>m t w. if m \<notin> set (sim_taken w) then Some (True, w\<lparr>sim_taken := m # sim_taken w\<rparr>)
       else case t of None \<Rightarrow> None | Some _ \<Rightarrow> Some (False, w)),
     mutex_give = (\<lambda>m w. w\<lparr>sim_taken := removeAll m (sim_taken w)\<rparr>),
     mutex_delete = (\<lambda>m w. w),
     xTimerCreate = (\<lambda>n t a w. (Some 0, w)),
     xTimerChangePeriod = (\<lambda>h t w. w\<lparr>sim_armed := (h, t) # sim_armed w\<rparr>),
     xTimerStart = (\<lambda>h w. w),
     xTimerDelete = (\<lambda>h w. Some (True, w))\<rparr>"

definition sim_pin :: "int \<Rightarrow> led_sim \<Rightarrow> bool" where
  "sim_pin n w \<longleftrightarrow> n \<in> set (sim_pins w)"

definition sim_period :: "nat option \<Rightarrow> led_sim \<Rightarrow> u32 option" where
  "sim_period h w = map_of (sim_armed w) h"

interpretation sim: led_board sim_sdk m sim_pin sim_period "\<lambda>w. m \<notin> set (sim_taken w)" "\<lambda>w. m \<in> set (sim_taken w)"
  for m by unfold_locales (auto simp: sim_sdk_def sim_pin_def sim_period_def)

definition demo_led :: oblfr_indicator where
  "demo_led = \<lparr>off_level = True, io_num = 8, led_mode = LED_GPIO_MODE, active_blink = - 1,
     p_blink_steps = replicate 8 (- 1), led_mutex = 0, h_timer = Some 0\<rparr>"

definition demo_leds :: "led_sim leds" where
  "demo_leds = \<lparr>led_heap = [100 \<mapsto> demo_led], led_slist = [100], led_world = \<lparr>sim_pins = [], sim_armed = [], sim_taken = []\<rparr>\<rparr>"

text \<open>The demo indicator in the last step of \<open>provisioned\<close>, with \<open>connecting\<close> waiting.\<close>

definition demo_led_end :: oblfr_indicator where
  "demo_led_end = demo_led\<lparr>active_blink := 3, p_blink_steps := [- 1, - 1, - 1, 1, 0, - 1, - 1, - 1]\<rparr>"

lemma demo_led_inv: "led_inv demo_led"
  by (rule new_led_inv) (simp_all add: demo_led_def)

lemma demo_led_end_inv: "led_inv demo_led_end"
proof -
  have "stages_ok (p_blink_steps demo_led_end)"
    unfolding stages_ok_def
  proof (intro conjI allI impI)
    fix i assume "i < length (p_blink_steps demo_led_end)"
    then have "i < 8" by (simp add: demo_led_end_def)
    from nat_less_8 [OF this]
    show "p_blink_steps demo_led_end ! i = - 1 \<or> (\<exists>l. oblfr_indicator_blink_lists ! i = Some l \<and>
        0 \<le> p_blink_steps demo_led_end ! i \<and> p_blink_steps demo_led_end ! i < int (length l))"
      by (auto simp: demo_led_end_def oblfr_indicator_blink_lists_def patterns)
  qed (simp add: demo_led_end_def)
  then show ?thesis by (simp add: led_inv_def demo_led_end_def)
qed

section \<open>Properties of the indicators\<close>

text \<open>
  C21. The timer callback returns, whatever the stages of the patterns are, and keeps the indicator
  consistent. Afterwards either no pattern runs and neither pins nor timers have changed, or the
  active pattern is the one of highest priority that runs, the pin shows one of its hold steps, the timer
  is started with the hold time of that step, and the stage is the step after it. No other pin or
  timer is touched, and the mutex is free.
\<close>

theorem blink_runner_correct:
  assumes "led_board sdk m pin armed ready held"
    and "led_heap s a = Some p" "led_mutex p = m" "led_inv p" "ready (led_world s)"
  shows "\<exists>p' w'. blink_list_runner sdk a s = Some (s\<lparr>led_heap := (led_heap s)(a \<mapsto> p'), led_world := w'\<rparr>) \<and>
    led_inv p' \<and> run_result sdk pin armed p (led_world s) p' w' \<and> ready w'"
proof -
  from led_board.runner_correct [OF assms(1,5,3,4)] obtain p' w'
    where run: "blink_list_loop sdk p (led_world s) = Some (p', w')" "ready w'" "led_inv p'" "run_result sdk pin armed p (led_world s) p' w'"
    by blast
  then show ?thesis using assms(2) by (intro exI [of _ p'] exI [of _ w']) (simp add: blink_list_runner_def)
qed

theorem blink_runner_correct_witness:
  "\<exists>p' w'. blink_list_runner sim_sdk 100 (demo_leds\<lparr>led_heap := [100 \<mapsto> demo_led_end]\<rparr>) =
     Some (demo_leds\<lparr>led_heap := [100 \<mapsto> p'], led_world := w'\<rparr>) \<and> led_inv p'"
  using blink_runner_correct [OF sim.led_board_axioms, of "demo_leds\<lparr>led_heap := [100 \<mapsto> demo_led_end]\<rparr>" 100 demo_led_end 0]
    demo_led_end_inv by (auto simp: demo_leds_def demo_led_end_def demo_led_def)

text \<open>
  C22. Starting a pattern on a consistent indicator succeeds. If no pattern of higher priority runs,
  the pattern becomes the active one, its first step is shown at once and the timer is started
  with its hold time; otherwise the pattern waits at its first step and neither pins nor timers change.
\<close>

theorem indicator_start_priority:
  assumes "led_board sdk m pin armed ready held"
    and "led_heap s a = Some p" "led_mutex p = m" "led_inv p" "ready (led_world s)" "t < 7"
  shows "\<exists>s' p' l. oblfr_indicator_start sdk (Some a) (int t) s = Some (OBLFR_OK, s') \<and> ready (led_world s') \<and>
    led_heap s' = (led_heap s)(a \<mapsto> p') \<and> led_inv p' \<and> oblfr_indicator_blink_lists ! t = Some l \<and>
    (if \<forall>i < t. p_blink_steps p ! i = STEP_STOPPED
     then p' = p\<lparr>p_blink_steps := (p_blink_steps p)[t := 1], active_blink := int t\<rparr> \<and>
       shows_step sdk pin armed p (l ! 0) (led_world s) (led_world s')
     else p' = p\<lparr>p_blink_steps := (p_blink_steps p)[t := 0]\<rparr> \<and>
       (\<forall>n. pin n (led_world s') = pin n (led_world s)) \<and> (\<forall>h. armed h (led_world s') = armed h (led_world s)))"
  using led_board.start_correct [OF assms(1,5,2,3,6,4)] .

theorem indicator_start_priority_witness:
  "\<exists>s'. oblfr_indicator_start sim_sdk (Some 100) 4 demo_leds = Some (OBLFR_OK, s') \<and> sim_pin 8 (led_world s') \<and>
     sim_period (Some 0) (led_world s') = Some 200"
proof -
  have all: "\<forall>i < 4. p_blink_steps demo_led ! i = - 1" by (simp add: demo_led_def)
  have "led_heap demo_leds 100 = Some demo_led" "led_mutex demo_led = 0" "0 \<notin> set (sim_taken (led_world demo_leds))"
    by (simp_all add: demo_leds_def demo_led_def)
  from indicator_start_priority [OF sim.led_board_axioms this(1,2) demo_led_inv this(3), of 4] all
  obtain s' l where s: "oblfr_indicator_start sim_sdk (Some 100) 4 demo_leds = Some (OBLFR_OK, s')"
    "oblfr_indicator_blink_lists ! 4 = Some l" "shows_step sim_sdk sim_pin sim_period demo_led (l ! 0) (led_world demo_leds) (led_world s')"
    by auto
  then have "l = connecting" by (simp add: oblfr_indicator_blink_lists_def)
  with s show ?thesis by (simp add: shows_step_def patterns demo_led_def sim_sdk_def)
qed

text \<open>
  C23. Stopping a pattern marks it stopped and makes the next pattern in the order of priority the
  active one, but neither pins nor timers change: the guarded re-run of the callback is never taken. A
  light that the pattern has switched on stays on when no other pattern runs.
\<close>

theorem indicator_stop_silent:
  assumes "led_board sdk m pin armed ready held"
    and "led_heap s a = Some p" "led_mutex p = m" "led_inv p" "ready (led_world s)" "t < 7"
  shows "\<exists>s' p'. oblfr_indicator_stop sdk (Some a) (int t) s = Some (OBLFR_OK, s') \<and> ready (led_world s') \<and>
    led_heap s' = (led_heap s)(a \<mapsto> p') \<and> led_inv p' \<and> p_blink_steps p' = (p_blink_steps p)[t := STEP_STOPPED] \<and>
    (\<forall>n. pin n (led_world s') = pin n (led_world s)) \<and> (\<forall>h. armed h (led_world s') = armed h (led_world s))"
  using led_board.stop_correct [OF assms(1,5,2,3,6,4)] .

theorem indicator_stop_silent_witness:
  "\<exists>s' p'. oblfr_indicator_stop sim_sdk (Some 100) 4 demo_leds = Some (OBLFR_OK, s') \<and> led_heap s' 100 = Some p' \<and> led_inv p'"
proof -
  have "led_heap demo_leds 100 = Some demo_led" "led_mutex demo_led = 0" "0 \<notin> set (sim_taken (led_world demo_leds))"
    by (simp_all add: demo_leds_def demo_led_def)
  from indicator_stop_silent [OF sim.led_board_axioms this(1,2) demo_led_inv this(3), of 4]
  show ?thesis by fastforce
qed

text \<open>
  Creating an indicator: with memory, a mutex and a timer available the result is the new handle,
  a consistent indicator with every pattern stopped, at the head of the list, so that looking it up by its
  pin finds it, and the indicators that were there before are untouched.
\<close>

theorem indicator_create_correct:
  assumes "cfg_mode c = LED_GPIO_MODE" "mutex_create sdk (led_world s) = (Some m, w1)"
    and "xTimerCreate sdk io (pdMS_TO_TICKS sdk 100) a (led_gpio_init sdk io w1) = (Some h, w2)"
  shows "\<exists>s' p. oblfr_indicator_create sdk io (Some c) (Some a) True True s = (Some a, s') \<and>
      led_heap s' = (led_heap s)(a \<mapsto> p) \<and> led_inv p \<and> active_blink p = NULL_ACTIVE_BLINK \<and>
      off_level p = cfg_off_level c \<and> h_timer p = Some h \<and> led_mutex p = m \<and>
      led_slist s' = a # led_slist s \<and> oblfr_indicator_get_handle io s' = Some (Some a)"
proof -
  let ?p = "\<lparr>off_level = cfg_off_level c, io_num = io, led_mode = LED_GPIO_MODE, active_blink = - 1,
    p_blink_steps = replicate 8 (- 1), led_mutex = m, h_timer = Some h\<rparr>"
  let ?s = "s\<lparr>led_heap := (led_heap s)(a \<mapsto> ?p), led_world := w2, led_slist := a # led_slist s\<rparr>"
  have "oblfr_indicator_create sdk io (Some c) (Some a) True True s = (Some a, ?s)"
    using assms(1-3) by (simp add: oblfr_indicator_create_def led_gpio_init_pin_def oblfr_indicator_add_node_def)
  moreover have "led_inv ?p" by (rule new_led_inv) simp_all
  moreover have "oblfr_indicator_get_handle io ?s = Some (Some a)"
    by (simp add: oblfr_indicator_get_handle_def get_handle_found)
  ultimately show ?thesis by (intro exI [of _ ?s] exI [of _ ?p]) simp
qed

theorem indicator_create_correct_witness:
  "\<exists>s'. oblfr_indicator_create sim_sdk 9 (Some \<lparr>cfg_off_level = False, cfg_mode = LED_GPIO_MODE\<rparr>) (Some 200) True True demo_leds =
     (Some 200, s') \<and> led_slist s' = [200, 100] \<and> oblfr_indicator_get_handle 9 s' = Some (Some 200)"
  using indicator_create_correct [of "\<lparr>cfg_off_level = False, cfg_mode = LED_GPIO_MODE\<rparr>" sim_sdk demo_leds 0 "led_world demo_leds"
      9 200 0 "led_world demo_leds"]
  by (fastforce simp: sim_sdk_def demo_leds_def)

text \<open>
  The creation fails cleanly: without a configuration, memory for the indicator, memory for
  the stages, a mutex or a timer, or in a mode other than GPIO, the result is null and neither
  the list nor any indicator changes.
\<close>

theorem indicator_create_fails:
  assumes "config = None \<or> mem = None \<or> \<not> mem_steps \<or> fst (mutex_create sdk (led_world s)) = None \<or>
    (\<exists>c. config = Some c \<and> cfg_mode c \<noteq> LED_GPIO_MODE) \<or>
    (\<forall>b w. fst (xTimerCreate sdk io (pdMS_TO_TICKS sdk 100) b w) = None)"
  shows "\<exists>w. oblfr_indicator_create sdk io config mem mem_steps mem_node s = (None, s\<lparr>led_world := w\<rparr>)"
proof -
  have self: "s = s\<lparr>led_world := led_world s\<rparr>" by simp
  obtain mu w where mu: "mutex_create sdk (led_world s) = (mu, w)" by (cases "mutex_create sdk (led_world s)")
  show ?thesis
  proof (cases "config = None \<or> mem = None \<or> \<not> mem_steps")
    case True
    then have "oblfr_indicator_create sdk io config mem mem_steps mem_node s = (None, s)"
      by (auto simp: oblfr_indicator_create_def split: option.split)
    with self show ?thesis by metis
  next
    case False
    then obtain c a where c: "config = Some c" "mem = Some a" mem_steps by auto
    obtain h w' where h: "xTimerCreate sdk io (pdMS_TO_TICKS sdk 100) a (led_gpio_init sdk io w) = (h, w')"
      by (cases "xTimerCreate sdk io (pdMS_TO_TICKS sdk 100) a (led_gpio_init sdk io w)")
    with assms c mu have "mu = None \<or> cfg_mode c \<noteq> LED_GPIO_MODE \<or> h = None" by (metis fst_conv option.distinct(1) option.inject)
    with c mu h show ?thesis
      by (cases mu) (auto simp: oblfr_indicator_create_def led_gpio_init_pin_def)
  qed
qed

theorem indicator_create_fails_witness:
  "\<exists>w. oblfr_indicator_create sim_sdk 9 (Some \<lparr>cfg_off_level = False, cfg_mode = OTHER_MODE\<rparr>) (Some 200) True True demo_leds =
     (None, demo_leds\<lparr>led_world := w\<rparr>)"
  by (rule indicator_create_fails) simp

text \<open>
  C24. The stage is advanced before the mutex is taken and is not put back when the take times out: if
  that happens at the closing step of the active pattern (its loop or stop), then the next run of
  the callback, whenever it gets the mutex, reads a step beyond the end of the pattern.
\<close>

theorem blink_runner_timeout_overruns:
  assumes "led_board sdk m pin armed ready held"
    and "led_heap s a = Some p" "led_mutex p = m" "led_inv p" "active_blink p = int i"
    and "oblfr_indicator_blink_lists ! i = Some l" "p_blink_steps p ! i = int (length l) - 1"
    and "mutex_take sdk m (Some (pdMS_TO_TICKS sdk 100)) (led_world s) = Some (False, w1)"
  shows "\<exists>s'. blink_list_runner sdk a s = Some s' \<and>
    (\<forall>w. ready w \<longrightarrow> blink_list_runner sdk a (s'\<lparr>led_world := w\<rparr>) = None)"
proof -
  have len: "length (p_blink_steps p) = 8" using assms(4) by (simp add: led_inv_def stages_ok_def)
  have i8: "i < 8"
    using first_incomplete_range [of 0 "p_blink_steps p"] assms(4,5) len by (auto simp: led_inv_def)
  define p' where "p' = p\<lparr>p_blink_steps := (p_blink_steps p)[i := int (length l)]\<rparr>"
  define w2 where "w2 = xTimerStart sdk (h_timer p) (xTimerChangePeriod sdk (h_timer p) (pdMS_TO_TICKS sdk 100) w1)"
  have l: "0 \<le> p_blink_steps p ! i" using blink_lists_ok(2) [OF i8 assms(6)] assms(7) by (auto simp: pattern_ok_def)
  have "blink_list_round sdk p (led_world s) = Some (True, p', w2)"
    using assms(3,5-8) len i8 l by (simp add: blink_list_round_def at_nth put_at_nth p'_def w2_def)
  then have "blink_list_loop sdk p (led_world s) = Some (p', w2)" by (subst blink_list_loop.simps) simp
  then have run: "blink_list_runner sdk a s = Some (s\<lparr>led_heap := (led_heap s)(a \<mapsto> p'), led_world := w2\<rparr>)"
    using assms(2) by (simp add: blink_list_runner_def)
  have "blink_list_loop sdk p' w = None" if r: "ready w" for w
  proof -
    obtain w' where "mutex_take sdk m (Some (pdMS_TO_TICKS sdk 100)) w = Some (True, w')"
      using led_board.take_mutex [OF assms(1) r] by blast
    then have "blink_list_round sdk p' w = None"
      using assms(3,5,6) len i8 by (simp add: blink_list_round_def at_nth put_at_nth p'_def) (simp add: at_def)
    then show ?thesis by (subst blink_list_loop.simps) simp
  qed
  with run show ?thesis by (simp add: blink_list_runner_def)
qed

theorem blink_runner_timeout_overruns_witness:
  "\<exists>s'. blink_list_runner sim_sdk 100 (demo_leds\<lparr>led_heap := [100 \<mapsto> demo_led_end],
       led_world := \<lparr>sim_pins = [], sim_armed = [], sim_taken = [0]\<rparr>\<rparr>) = Some s' \<and>
     blink_list_runner sim_sdk 100 (s'\<lparr>led_world := \<lparr>sim_pins = [], sim_armed = [], sim_taken = []\<rparr>\<rparr>) = None"
  using blink_runner_timeout_overruns [OF sim.led_board_axioms, of "demo_leds\<lparr>led_heap := [100 \<mapsto> demo_led_end],
       led_world := \<lparr>sim_pins = [], sim_armed = [], sim_taken = [0]\<rparr>\<rparr>" 100 demo_led_end 0 3 provisioned
       "\<lparr>sim_pins = [], sim_armed = [], sim_taken = [0]\<rparr>"] demo_led_end_inv
  by (auto simp: demo_led_end_def demo_led_def demo_leds_def oblfr_indicator_blink_lists_def patterns sim_sdk_def)

end
