(* ===== verification/Mailbox.thy ===== *)
theory Mailbox
  imports Oblfr_Prelude
begin

text \<open>
  The mailbox between the M0 core and Linux on the D0 core (\<^verbatim>\<open>components/mailbox/src/oblfr_mailbox.c\<close> and
  \<^verbatim>\<open>oblfr_usb_peripheral.c\<close>): forwarding of peripheral interrupts, and signals with registered handlers.
  The registers, the interrupt controller, the pins and the semaphore are the parameter \<open>mbox_sdk\<close>
  on a world \<open>'w\<close>; a registered handler is a function on that world. The log output is left out.
\<close>

section \<open>Hardware and configuration\<close>

datatype ipc_base = IPC0_BASE | IPC2_BASE

datatype ipc_reg = IPC_CPU1_IPC_ISWR | IPC_CPU1_IPC_ILSHR | IPC_CPU1_IPC_ILSLR | IPC_CPU0_IPC_IRSRR | IPC_CPU0_IPC_ICR
  | IPC_CPU0_IPC_ILSHR | IPC_CPU0_IPC_ILSLR | IPC_CPU0_IPC_IUSR

text \<open>The interrupt handlers of the module, the two pin functions and the two clocks it switches on.\<close>

datatype mbox_isr = IPC_M0_ISR | SDHCI_ISR | UART2_ISR | USB_ISR | EMAC_ISR | GPIO_ISR

datatype mbox_peripheral = MBOX_SDH | MBOX_EMAC

abbreviation (input) BFLB_IPC_DEVICE_SDHCI :: nat where "BFLB_IPC_DEVICE_SDHCI \<equiv> 0"
abbreviation (input) BFLB_IPC_DEVICE_UART2 :: nat where "BFLB_IPC_DEVICE_UART2 \<equiv> 1"
abbreviation (input) BLFB_IPC_DEVICE_USB :: nat where "BLFB_IPC_DEVICE_USB \<equiv> 2"
abbreviation (input) BFLB_IPC_DEVICE_EMAC :: nat where "BFLB_IPC_DEVICE_EMAC \<equiv> 3"
abbreviation (input) BFLB_IPC_DEVICE_GPIO :: nat where "BFLB_IPC_DEVICE_GPIO \<equiv> 4"
abbreviation (input) BFLB_IPC_DEVICE_MBOX_TX :: nat where "BFLB_IPC_DEVICE_MBOX_TX \<equiv> 5"
abbreviation (input) BFLB_IPC_DEVICE_MBOX_RX :: nat where "BFLB_IPC_DEVICE_MBOX_RX \<equiv> 6"

text \<open>The build options, and the interrupt numbers of the chip, which are not 0.\<close>

record mbox_config =
  CONFIG_FREERTOS :: bool
  IRQFWD_SDH :: bool
  IRQFWD_UART2 :: bool
  IRQFWD_USB :: bool
  IRQFWD_EMAC :: bool
  IRQFWD_GPIO :: bool
  MAILBOX_USB_HOST :: bool
  SDH_IRQn :: u32
  UART2_IRQn :: u32
  USB_IRQn :: u32
  EMAC_IRQn :: u32
  GPIO_INT0_IRQn :: u32
  IPC_M0_IRQn :: u32

text \<open>
  The SDK. The semaphore handle may be null, as the result of its creation is not looked at; taking from an
  interrupt includes the yield that may follow. A pin is set up for a peripheral with the fixed
  flags alternate, pull-up, Schmitt trigger and drive strength 2.
\<close>

record 'w mbox_sdk =
  BL_RD_REG :: "ipc_base \<Rightarrow> ipc_reg \<Rightarrow> 'w \<Rightarrow> u32"
  BL_WR_REG :: "ipc_base \<Rightarrow> ipc_reg \<Rightarrow> u32 \<Rightarrow> 'w \<Rightarrow> 'w"
  getreg32 :: "u32 \<Rightarrow> 'w \<Rightarrow> u32"
  putreg32 :: "u32 \<Rightarrow> u32 \<Rightarrow> 'w \<Rightarrow> 'w"
  mtimer_delay_us :: "nat \<Rightarrow> 'w \<Rightarrow> 'w"
  mtimer_delay_ms :: "nat \<Rightarrow> 'w \<Rightarrow> 'w"
  irq_attach :: "u32 \<Rightarrow> mbox_isr option \<Rightarrow> 'w \<Rightarrow> 'w"
  irq_enable :: "u32 \<Rightarrow> 'w \<Rightarrow> 'w"
  irq_disable :: "u32 \<Rightarrow> 'w \<Rightarrow> 'w"
  gpio_init_for :: "mbox_peripheral \<Rightarrow> nat \<Rightarrow> 'w \<Rightarrow> 'w"
  clock_enable :: "mbox_peripheral \<Rightarrow> 'w \<Rightarrow> 'w"
  sem_create :: "'w \<Rightarrow> nat option \<times> 'w"
  sem_take :: "nat option \<Rightarrow> 'w \<Rightarrow> bool \<times> 'w"
  sem_take_isr :: "nat option \<Rightarrow> 'w \<Rightarrow> bool \<times> 'w"
  sem_give :: "nat option \<Rightarrow> 'w \<Rightarrow> bool \<times> 'w"
  sem_give_isr :: "nat option \<Rightarrow> 'w \<Rightarrow> bool \<times> 'w"

section \<open>State\<close>

record mbox_irq =
  irq_name :: string
  irq :: u32
  irq_count :: u32
  irq_handler :: "mbox_isr option"

type_synonym 'w mbox_signal_handler = "u16 \<Rightarrow> u16 \<Rightarrow> u32 \<Rightarrow> nat \<Rightarrow> 'w \<Rightarrow> 'w"

record 'w mbox_signal =
  sig_service :: u16
  sig_op :: u16
  sig_handler :: "'w mbox_signal_handler"
  sig_arg :: nat
  sig_count :: u32
  sig_masked :: bool

record mbox_stats =
  unhandled_irq :: u32
  unhandled_signals :: u32

record 'w mbox =
  oblfr_mbox_signals :: "'w mbox_signal list"
  oblfr_mbox_signals_lock :: "nat option"
  ipc_irqs :: "mbox_irq list"
  mbox_statistics :: mbox_stats
  mbox_world :: 'w

abbreviation on_world :: "('w \<Rightarrow> 'w) \<Rightarrow> 'w mbox \<Rightarrow> 'w mbox" where
  "on_world f s \<equiv> s\<lparr>mbox_world := f (mbox_world s)\<rparr>"

text \<open>The table \<^verbatim>\<open>ipc_irqs\<close>: 32 entries, zero unless the peripheral of that number is forwarded.\<close>

definition no_irq :: mbox_irq where
  "no_irq = \<lparr>irq_name = '''', irq = 0, irq_count = 0, irq_handler = None\<rparr>"

definition ipc_irqs_init :: "mbox_config \<Rightarrow> mbox_irq list" where
  "ipc_irqs_init cfg =
     [if IRQFWD_SDH cfg then \<lparr>irq_name = ''SDH'', irq = SDH_IRQn cfg, irq_count = 0, irq_handler = Some SDHCI_ISR\<rparr> else no_irq,
      if IRQFWD_UART2 cfg then \<lparr>irq_name = ''UART2'', irq = UART2_IRQn cfg, irq_count = 0, irq_handler = Some UART2_ISR\<rparr> else no_irq,
      if IRQFWD_USB cfg then \<lparr>irq_name = ''USB'', irq = USB_IRQn cfg, irq_count = 0, irq_handler = Some USB_ISR\<rparr> else no_irq,
      if IRQFWD_EMAC cfg then \<lparr>irq_name = ''EMAC'', irq = EMAC_IRQn cfg, irq_count = 0, irq_handler = Some EMAC_ISR\<rparr> else no_irq,
      if IRQFWD_GPIO cfg then \<lparr>irq_name = ''GPIO'', irq = GPIO_INT0_IRQn cfg, irq_count = 0, irq_handler = Some GPIO_ISR\<rparr> else no_irq]
     @ replicate 27 no_irq"

section \<open>The lock\<close>

definition oblfr_mailbox_signal_lock :: "mbox_config \<Rightarrow> 'w mbox_sdk \<Rightarrow> bool \<Rightarrow> 'w mbox \<Rightarrow> bool \<times> 'w mbox" where
  "oblfr_mailbox_signal_lock cfg sdk inisr s =
     (if CONFIG_FREERTOS cfg then
        (let (got, w) = (if inisr then sem_take_isr sdk (oblfr_mbox_signals_lock s) (mbox_world s)
                         else sem_take sdk (oblfr_mbox_signals_lock s) (mbox_world s))
         in (got, s\<lparr>mbox_world := w\<rparr>))
      else (True, s))"

definition oblfr_mailbox_signal_unlock :: "mbox_config \<Rightarrow> 'w mbox_sdk \<Rightarrow> bool \<Rightarrow> 'w mbox \<Rightarrow> bool \<times> 'w mbox" where
  "oblfr_mailbox_signal_unlock cfg sdk inisr s =
     (if CONFIG_FREERTOS cfg then
        (let (given, w) = (if inisr then sem_give_isr sdk (oblfr_mbox_signals_lock s) (mbox_world s)
                           else sem_give sdk (oblfr_mbox_signals_lock s) (mbox_world s))
         in (given, s\<lparr>mbox_world := w\<rparr>))
      else (True, s))"

section \<open>Interrupts\<close>

definition Send_IPC_IRQ :: "'w mbox_sdk \<Rightarrow> nat \<Rightarrow> 'w mbox \<Rightarrow> 'w mbox" where
  "Send_IPC_IRQ sdk device s =
     (let e = ipc_irqs s ! device
      in if irq e = 0 then s
         else s\<lparr>mbox_world := BL_WR_REG sdk IPC2_BASE IPC_CPU1_IPC_ISWR (push_bit device 1) (irq_disable sdk (irq e) (mbox_world s)),
                ipc_irqs := (ipc_irqs s)[device := e\<lparr>irq_count := irq_count e + 1\<rparr>]\<rparr>)"

definition SDHCI_IRQHandler :: "'w mbox_sdk \<Rightarrow> 'w mbox \<Rightarrow> 'w mbox" where
  "SDHCI_IRQHandler sdk s = Send_IPC_IRQ sdk BFLB_IPC_DEVICE_SDHCI s"

definition UART2_IRQHandler :: "'w mbox_sdk \<Rightarrow> 'w mbox \<Rightarrow> 'w mbox" where
  "UART2_IRQHandler sdk s = Send_IPC_IRQ sdk BFLB_IPC_DEVICE_UART2 s"

definition USB_IRQHandler :: "'w mbox_sdk \<Rightarrow> 'w mbox \<Rightarrow> 'w mbox" where
  "USB_IRQHandler sdk s = Send_IPC_IRQ sdk BLFB_IPC_DEVICE_USB s"

definition EMAC_IRQHandler :: "'w mbox_sdk \<Rightarrow> 'w mbox \<Rightarrow> 'w mbox" where
  "EMAC_IRQHandler sdk s = Send_IPC_IRQ sdk BFLB_IPC_DEVICE_EMAC s"

definition GPIO_IRQHandler :: "'w mbox_sdk \<Rightarrow> 'w mbox \<Rightarrow> 'w mbox" where
  "GPIO_IRQHandler sdk s = Send_IPC_IRQ sdk BFLB_IPC_DEVICE_GPIO s"

text \<open>
  The condition \<^verbatim>\<open>(s->service == service) & (s->op = op)\<close> of two of the list walks: a bitwise and of a truth
  value with the operation, which it also stores in the signal.
\<close>

definition signal_matches :: "u16 \<Rightarrow> u16 \<Rightarrow> 'w mbox_signal \<Rightarrow> bool" where
  "signal_matches service op s \<longleftrightarrow> ((if sig_service s = service then 1 else 0) AND op) \<noteq> 0"

text \<open>The walk of the receiving handler: whether a signal matched, the list and the world.\<close>

fun signal_dispatch ::
  "u16 \<Rightarrow> u16 \<Rightarrow> u32 \<Rightarrow> 'w mbox_signal list \<Rightarrow> 'w \<Rightarrow> bool \<times> 'w mbox_signal list \<times> 'w" where
  "signal_dispatch service op data [] w = (False, [], w)"
| "signal_dispatch service op data (s # ss) w =
     (let s' = s\<lparr>sig_op := op\<rparr>
      in if signal_matches service op s then
           (if sig_masked s' then (True, s' # ss, w)
            else (True, s'\<lparr>sig_count := sig_count s' + 1\<rparr> # ss, sig_handler s' service op data (sig_arg s') w))
         else (let (handled, ss', w') = signal_dispatch service op data ss w in (handled, s' # ss', w')))"

definition oblfr_mailbox_signal_handler :: "mbox_config \<Rightarrow> 'w mbox_sdk \<Rightarrow> 'w mbox \<Rightarrow> 'w mbox" where
  "oblfr_mailbox_signal_handler cfg sdk s =
     (let signal = BL_RD_REG sdk IPC0_BASE IPC_CPU1_IPC_ILSHR (mbox_world s);
          data = BL_RD_REG sdk IPC0_BASE IPC_CPU1_IPC_ILSLR (mbox_world s);
          service = ucast (drop_bit 16 signal);
          op = ucast (signal AND 0xFFFF);
          eoi = BL_WR_REG sdk IPC2_BASE IPC_CPU1_IPC_ISWR (push_bit BFLB_IPC_DEVICE_MBOX_RX 1);
          (locked, s) = oblfr_mailbox_signal_lock cfg sdk True s
      in if \<not> locked then on_world eoi s
         else (let (handled, signals, w) = signal_dispatch service op data (oblfr_mbox_signals s) (mbox_world s);
                   s = snd (oblfr_mailbox_signal_unlock cfg sdk True (s\<lparr>oblfr_mbox_signals := signals, mbox_world := w\<rparr>));
                   st = mbox_statistics s;
                   s = (if handled then s else s\<lparr>mbox_statistics := st\<lparr>unhandled_signals := unhandled_signals st + 1\<rparr>\<rparr>)
               in on_world eoi s))"

text \<open>The loop of \<^verbatim>\<open>IPC_M0_IRQHandler\<close> over the bits of the status; the \<^verbatim>\<open>break\<close>s end it.\<close>

fun ipc_irq_scan :: "mbox_config \<Rightarrow> 'w mbox_sdk \<Rightarrow> u32 \<Rightarrow> nat list \<Rightarrow> 'w mbox \<Rightarrow> 'w mbox" where
  "ipc_irq_scan cfg sdk irqStatus [] s = s"
| "ipc_irq_scan cfg sdk irqStatus (i # is) s =
     (if irqStatus AND push_bit i 1 \<noteq> 0 then
        if i = BFLB_IPC_DEVICE_MBOX_RX then oblfr_mailbox_signal_handler cfg sdk s
        else if i = BFLB_IPC_DEVICE_MBOX_TX then s
        else if irq (ipc_irqs s ! i) = 0 then
          (let st = mbox_statistics s
           in ipc_irq_scan cfg sdk irqStatus is (s\<lparr>mbox_statistics := st\<lparr>unhandled_irq := unhandled_irq st + 1\<rparr>\<rparr>))
        else on_world (irq_enable sdk (irq (ipc_irqs s ! i))) s
      else ipc_irq_scan cfg sdk irqStatus is s)"

definition IPC_M0_IRQHandler :: "mbox_config \<Rightarrow> 'w mbox_sdk \<Rightarrow> 'w mbox \<Rightarrow> 'w mbox" where
  "IPC_M0_IRQHandler cfg sdk s =
     (let irqStatus = BL_RD_REG sdk IPC0_BASE IPC_CPU0_IPC_IRSRR (mbox_world s)
      in on_world (BL_WR_REG sdk IPC0_BASE IPC_CPU0_IPC_ICR irqStatus) (ipc_irq_scan cfg sdk irqStatus [0..<32] s))"

text \<open>What the interrupt controller runs for an attached handler.\<close>

definition run_mbox_isr :: "mbox_config \<Rightarrow> 'w mbox_sdk \<Rightarrow> mbox_isr \<Rightarrow> 'w mbox \<Rightarrow> 'w mbox" where
  "run_mbox_isr cfg sdk isr =
     (case isr of
        IPC_M0_ISR \<Rightarrow> IPC_M0_IRQHandler cfg sdk
      | SDHCI_ISR \<Rightarrow> SDHCI_IRQHandler sdk
      | UART2_ISR \<Rightarrow> UART2_IRQHandler sdk
      | USB_ISR \<Rightarrow> USB_IRQHandler sdk
      | EMAC_ISR \<Rightarrow> EMAC_IRQHandler sdk
      | GPIO_ISR \<Rightarrow> GPIO_IRQHandler sdk)"

section \<open>Peripherals\<close>

definition setup_sdh_peripheral :: "'w mbox_sdk \<Rightarrow> 'w \<Rightarrow> oblfr_err \<times> 'w" where
  "setup_sdh_peripheral sdk w =
     (let w = fold (gpio_init_for sdk MBOX_SDH) [0, 1, 2, 3, 4, 5] w
      in (OBLFR_OK, clock_enable sdk MBOX_SDH w))"

definition setup_emac_peripheral :: "'w mbox_sdk \<Rightarrow> 'w \<Rightarrow> oblfr_err \<times> 'w" where
  "setup_emac_peripheral sdk w =
     (let w = clock_enable sdk MBOX_EMAC w
      in (OBLFR_OK, fold (gpio_init_for sdk MBOX_EMAC) [24..<34] w))"

definition BFLB_PDS_BASE :: u32 where "BFLB_PDS_BASE = 0x2000e000"
definition PDS_USB_CTL_OFFSET :: u32 where "PDS_USB_CTL_OFFSET = 0x500"
definition PDS_USB_PHY_CTRL_OFFSET :: u32 where "PDS_USB_PHY_CTRL_OFFSET = 0x504"
definition PDS_REG_USB_SW_RST_N :: u32 where "PDS_REG_USB_SW_RST_N = push_bit 0 1"
definition PDS_REG_USB_EXT_SUSP_N :: u32 where "PDS_REG_USB_EXT_SUSP_N = push_bit 1 1"
definition PDS_REG_USB_IDDIG :: u32 where "PDS_REG_USB_IDDIG = push_bit 5 1"
definition PDS_REG_USB_PHY_PONRST :: u32 where "PDS_REG_USB_PHY_PONRST = push_bit 0 1"
definition PDS_REG_USB_PHY_XTLSEL_MASK :: u32 where "PDS_REG_USB_PHY_XTLSEL_MASK = push_bit 2 3"
definition PDS_REG_PU_USB20_PSW :: u32 where "PDS_REG_PU_USB20_PSW = push_bit 6 1"

text \<open>Read a register, change the value and write it back.\<close>

definition modreg32 :: "'w mbox_sdk \<Rightarrow> u32 \<Rightarrow> (u32 \<Rightarrow> u32) \<Rightarrow> 'w \<Rightarrow> 'w" where
  "modreg32 sdk addr f w = putreg32 sdk (f (getreg32 sdk addr w)) addr w"

definition setup_usb_peripheral :: "mbox_config \<Rightarrow> 'w mbox_sdk \<Rightarrow> 'w \<Rightarrow> oblfr_err \<times> 'w" where
  "setup_usb_peripheral cfg sdk w =
     (let phy = BFLB_PDS_BASE + PDS_USB_PHY_CTRL_OFFSET;
          ctl = BFLB_PDS_BASE + PDS_USB_CTL_OFFSET;
          w = modreg32 sdk phy (\<lambda>r. r AND NOT PDS_REG_USB_PHY_XTLSEL_MASK) w;
          w = modreg32 sdk phy (\<lambda>r. r OR PDS_REG_PU_USB20_PSW) w;
          w = modreg32 sdk phy (\<lambda>r. r OR PDS_REG_USB_PHY_PONRST) w;
          w = mtimer_delay_us sdk 1 w;
          w = modreg32 sdk ctl (\<lambda>r. r AND NOT PDS_REG_USB_SW_RST_N) w;
          w = mtimer_delay_us sdk 1 w;
          w = modreg32 sdk ctl (\<lambda>r. r OR PDS_REG_USB_EXT_SUSP_N) w;
          w = mtimer_delay_ms sdk 3 w;
          w = modreg32 sdk ctl (\<lambda>r. r OR PDS_REG_USB_SW_RST_N) w;
          w = mtimer_delay_ms sdk 2 w;
          w = modreg32 sdk ctl (\<lambda>r. if MAILBOX_USB_HOST cfg then r AND NOT PDS_REG_USB_IDDIG else r OR PDS_REG_USB_IDDIG) w;
          w = mtimer_delay_ms sdk 10 w
      in (OBLFR_OK, w))"

section \<open>Signals\<close>

text \<open>The walk of \<^verbatim>\<open>oblfr_mailbox_add_signal_handler\<close> for a duplicate, which stores the operation on its way.\<close>

fun signal_find_dup :: "u16 \<Rightarrow> u16 \<Rightarrow> 'w mbox_signal list \<Rightarrow> bool \<times> 'w mbox_signal list" where
  "signal_find_dup service op [] = (False, [])"
| "signal_find_dup service op (s # ss) =
     (if signal_matches service op s then (True, s\<lparr>sig_op := op\<rparr> # ss)
      else (let (found, ss') = signal_find_dup service op ss in (found, s\<lparr>sig_op := op\<rparr> # ss')))"

text \<open>\<open>mem\<close> is whether \<^verbatim>\<open>malloc\<close> succeeds.\<close>

definition oblfr_mailbox_add_signal_handler ::
  "mbox_config \<Rightarrow> 'w mbox_sdk \<Rightarrow> bool \<Rightarrow> u16 \<Rightarrow> u16 \<Rightarrow> 'w mbox_signal_handler \<Rightarrow> nat \<Rightarrow> 'w mbox \<Rightarrow> oblfr_err \<times> 'w mbox" where
  "oblfr_mailbox_add_signal_handler cfg sdk mem service op handler arg s =
     (let (locked, s) = oblfr_mailbox_signal_lock cfg sdk False s
      in if \<not> locked then (OBLFR_ERR_TIMEOUT, s)
         else (let (found, signals) = signal_find_dup service op (oblfr_mbox_signals s);
                   s = s\<lparr>oblfr_mbox_signals := signals\<rparr>
               in if found then (OBLFR_ERR_INVALID, snd (oblfr_mailbox_signal_unlock cfg sdk False s))
                  else if \<not> mem then (OBLFR_ERR_NOMEM, snd (oblfr_mailbox_signal_unlock cfg sdk False s))
                  else (let newsig = \<lparr>sig_service = service, sig_op = op, sig_handler = handler, sig_arg = arg,
                              sig_count = 0, sig_masked = False\<rparr>
                        in (OBLFR_OK, snd (oblfr_mailbox_signal_unlock cfg sdk False
                             (s\<lparr>oblfr_mbox_signals := newsig # oblfr_mbox_signals s\<rparr>))))))"

text \<open>The walk of \<^verbatim>\<open>oblfr_mailbox_del_signal_handler\<close>; the signal is unlinked and its memory is not freed.\<close>

fun signal_unlink :: "u16 \<Rightarrow> u16 \<Rightarrow> 'w mbox_signal list \<Rightarrow> 'w mbox_signal list" where
  "signal_unlink service op [] = []"
| "signal_unlink service op (s # ss) =
     (if sig_service s = service \<and> sig_op s = op then ss else s # signal_unlink service op ss)"

definition oblfr_mailbox_del_signal_handler ::
  "mbox_config \<Rightarrow> 'w mbox_sdk \<Rightarrow> u16 \<Rightarrow> u16 \<Rightarrow> 'w mbox \<Rightarrow> oblfr_err \<times> 'w mbox" where
  "oblfr_mailbox_del_signal_handler cfg sdk service op s =
     (let (locked, s) = oblfr_mailbox_signal_lock cfg sdk False s
      in if \<not> locked then (OBLFR_ERR_TIMEOUT, s)
         else (OBLFR_OK, snd (oblfr_mailbox_signal_unlock cfg sdk False
                (s\<lparr>oblfr_mbox_signals := signal_unlink service op (oblfr_mbox_signals s)\<rparr>))))"

definition oblfr_mailbox_send_signal :: "'w mbox_sdk \<Rightarrow> u16 \<Rightarrow> u16 \<Rightarrow> u32 \<Rightarrow> 'w mbox \<Rightarrow> oblfr_err \<times> 'w mbox" where
  "oblfr_mailbox_send_signal sdk service op arg s =
     (let tmpVal = push_bit 16 (ucast service) OR ucast op;
          w = BL_WR_REG sdk IPC2_BASE IPC_CPU0_IPC_ILSHR tmpVal (mbox_world s);
          w = BL_WR_REG sdk IPC2_BASE IPC_CPU0_IPC_ILSLR arg w;
          w = BL_WR_REG sdk IPC2_BASE IPC_CPU1_IPC_ISWR (push_bit BFLB_IPC_DEVICE_MBOX_TX 1) w
      in (OBLFR_OK, s\<lparr>mbox_world := w\<rparr>))"

text \<open>Masking and unmasking walk the list; the assignments are commented out in the source.\<close>

definition oblfr_mailbox_mask_signal ::
  "mbox_config \<Rightarrow> 'w mbox_sdk \<Rightarrow> u16 \<Rightarrow> u16 \<Rightarrow> 'w mbox \<Rightarrow> oblfr_err \<times> 'w mbox" where
  "oblfr_mailbox_mask_signal cfg sdk service op s =
     (let (locked, s) = oblfr_mailbox_signal_lock cfg sdk False s
      in if \<not> locked then (OBLFR_ERR_TIMEOUT, s) else (OBLFR_OK, snd (oblfr_mailbox_signal_unlock cfg sdk False s)))"

definition oblfr_mailbox_unmask_signal ::
  "mbox_config \<Rightarrow> 'w mbox_sdk \<Rightarrow> u16 \<Rightarrow> u16 \<Rightarrow> 'w mbox \<Rightarrow> oblfr_err \<times> 'w mbox" where
  "oblfr_mailbox_unmask_signal cfg sdk service op s =
     (let (locked, s) = oblfr_mailbox_signal_lock cfg sdk False s
      in if \<not> locked then (OBLFR_ERR_TIMEOUT, s) else (OBLFR_OK, snd (oblfr_mailbox_signal_unlock cfg sdk False s)))"

section \<open>Setting up\<close>

definition forward_irq :: "'w mbox_sdk \<Rightarrow> mbox_irq \<Rightarrow> 'w \<Rightarrow> 'w" where
  "forward_irq sdk e w =
     (if irq e \<noteq> 0 then irq_enable sdk (irq e) (irq_attach sdk (irq e) (irq_handler e) w) else w)"

text \<open>\<open>SUCCESS\<close> of the SDK is 0, the number of \<open>OBLFR_OK\<close>.\<close>

definition oblfr_mailbox_init :: "mbox_config \<Rightarrow> 'w mbox_sdk \<Rightarrow> 'w mbox \<Rightarrow> oblfr_err \<times> 'w mbox" where
  "oblfr_mailbox_init cfg sdk s =
     (let s = (if CONFIG_FREERTOS cfg
               then (let (h, w) = sem_create sdk (mbox_world s) in s\<lparr>oblfr_mbox_signals_lock := h, mbox_world := w\<rparr>)
               else s);
          w = irq_attach sdk (IPC_M0_IRQn cfg) (Some IPC_M0_ISR) (mbox_world s);
          w = BL_WR_REG sdk IPC0_BASE IPC_CPU0_IPC_IUSR 0xffffffff w;
          w = irq_enable sdk (IPC_M0_IRQn cfg) w;
          w = fold (forward_irq sdk) (ipc_irqs s) w;
          (e1, w) = (if IRQFWD_SDH cfg then setup_sdh_peripheral sdk w else (OBLFR_OK, w))
      in if e1 \<noteq> OBLFR_OK then (OBLFR_ERR_ERROR, s\<lparr>mbox_world := w\<rparr>)
         else (let (e2, w) = (if IRQFWD_EMAC cfg then setup_emac_peripheral sdk w else (OBLFR_OK, w))
               in if e2 \<noteq> OBLFR_OK then (OBLFR_ERR_ERROR, s\<lparr>mbox_world := w\<rparr>)
                  else (let (e3, w) = (if IRQFWD_USB cfg then setup_usb_peripheral cfg sdk w else (OBLFR_OK, w))
                        in if e3 \<noteq> OBLFR_OK then (OBLFR_ERR_ERROR, s\<lparr>mbox_world := w\<rparr>)
                           else (OBLFR_OK, s\<lparr>mbox_world := w\<rparr>))))"

definition mbox_boot :: "mbox_config \<Rightarrow> 'w \<Rightarrow> 'w mbox" where
  "mbox_boot cfg w = \<lparr>oblfr_mbox_signals = [], oblfr_mbox_signals_lock = None, ipc_irqs = ipc_irqs_init cfg,
     mbox_statistics = \<lparr>unhandled_irq = 0, unhandled_signals = 0\<rparr>, mbox_world = w\<rparr>"

text \<open>\<^verbatim>\<open>oblfr_mailbox_dump\<close> only prints.\<close>

definition oblfr_mailbox_dump :: "mbox_config \<Rightarrow> 'w mbox_sdk \<Rightarrow> 'w mbox \<Rightarrow> oblfr_err \<times> 'w mbox" where
  "oblfr_mailbox_dump cfg sdk s =
     (let (locked, s) = oblfr_mailbox_signal_lock cfg sdk False s
      in if \<not> locked then (OBLFR_ERR_TIMEOUT, s) else (OBLFR_OK, snd (oblfr_mailbox_signal_unlock cfg sdk False s)))"

end
