(* ===== verification/Mailbox_Run.thy ===== *)
theory Mailbox_Run
  imports Mailbox
begin

text \<open>
  Lemmas on the mailbox: which signal a message is dispatched to, the scan of the interrupt status as a
  reference definition (\<open>serve_first\<close>), the states the module can reach and their invariant, and the start-up under
  the laws of the interrupt controller (locale \<open>irq_board\<close>).
\<close>

section \<open>Dispatching\<close>

lemma signal_matches_iff: "signal_matches service op s \<longleftrightarrow> sig_service s = service \<and> odd op"
  by (simp add: signal_matches_def one_and_eq odd_iff_mod_2_eq_one)

lemma dispatch_none:
  "\<forall>x \<in> set ss. sig_service x \<noteq> service \<or> even op \<Longrightarrow>
   signal_dispatch service op data ss w = (False, map (sig_op_update (\<lambda>_. op)) ss, w)"
  by (induction ss) (auto simp: signal_matches_iff)

lemma dispatch_first:
  "\<forall>x \<in> set xs. sig_service x \<noteq> service \<Longrightarrow> sig_service g = service \<Longrightarrow> odd op \<Longrightarrow> \<not> sig_masked g \<Longrightarrow>
   signal_dispatch service op data (xs @ g # ys) w =
     (True, map (sig_op_update (\<lambda>_. op)) xs @ g\<lparr>sig_op := op, sig_count := sig_count g + 1\<rparr> # ys,
      sig_handler g service op data (sig_arg g) w)"
  by (induction xs) (auto simp: signal_matches_iff)

lemma find_dup_iff:
  "fst (signal_find_dup service op ss) \<longleftrightarrow> odd op \<and> (\<exists>x \<in> set ss. sig_service x = service)"
  by (induction ss) (auto simp: signal_matches_iff split: prod.split)

lemma find_dup_none:
  "\<forall>x \<in> set ss. sig_service x \<noteq> service \<or> even op \<Longrightarrow>
   signal_find_dup service op ss = (False, map (sig_op_update (\<lambda>_. op)) ss)"
  by (induction ss) (auto simp: signal_matches_iff)

text \<open>The packing of service and operation into the high word of a signal, and its inverse.\<close>

lemma unpack_signal:
  fixes service op :: u16
  shows "(ucast (drop_bit 16 (push_bit 16 (ucast service) OR ucast op :: u32)) :: u16) = service"
    and "(ucast ((push_bit 16 (ucast service) OR ucast op :: u32) AND 0xFFFF) :: u16) = op"
proof -
  show "(ucast (drop_bit 16 (push_bit 16 (ucast service) OR ucast op :: u32)) :: u16) = service"
    by (rule bit_word_eqI) (auto simp: bit_simps dest: bit_imp_le_length)
  have "(0xFFFF :: u32) = mask 16" by (simp add: mask_eq_exp_minus_1)
  then show "(ucast ((push_bit 16 (ucast service) OR ucast op :: u32) AND 0xFFFF) :: u16) = op"
    by (simp only: flip: take_bit_eq_mask) (rule bit_word_eqI, auto simp: bit_simps)
qed

lemma lock_world:
  "oblfr_mailbox_signal_lock cfg sdk inisr s = (b, s1) \<Longrightarrow> s1 = s\<lparr>mbox_world := mbox_world s1\<rparr>"
  "oblfr_mailbox_signal_unlock cfg sdk inisr s = (b, s1) \<Longrightarrow> s1 = s\<lparr>mbox_world := mbox_world s1\<rparr>"
  by (auto simp: oblfr_mailbox_signal_lock_def oblfr_mailbox_signal_unlock_def Let_def split: if_splits prod.splits)

lemma lock_fields:
  assumes "oblfr_mailbox_signal_lock cfg sdk inisr s = (b, s1)"
  shows "oblfr_mbox_signals s1 = oblfr_mbox_signals s" "ipc_irqs s1 = ipc_irqs s" "mbox_statistics s1 = mbox_statistics s"
  using arg_cong [OF lock_world(1) [OF assms], of oblfr_mbox_signals] arg_cong [OF lock_world(1) [OF assms], of ipc_irqs]
    arg_cong [OF lock_world(1) [OF assms], of mbox_statistics] by simp_all

lemma unlock_fields [simp]:
  "oblfr_mbox_signals (snd (oblfr_mailbox_signal_unlock cfg sdk inisr s)) = oblfr_mbox_signals s"
  "ipc_irqs (snd (oblfr_mailbox_signal_unlock cfg sdk inisr s)) = ipc_irqs s"
  "mbox_statistics (snd (oblfr_mailbox_signal_unlock cfg sdk inisr s)) = mbox_statistics s"
  by (auto simp: oblfr_mailbox_signal_unlock_def Let_def split: prod.splits)

section \<open>The interrupt from the other core\<close>

text \<open>
  A reference for the scan of the status bits: the first pending source that is a mailbox source or a
  forwarded peripheral is served, the pending unknown ones before it are counted.
\<close>

definition known_source :: "mbox_irq list \<Rightarrow> nat \<Rightarrow> bool" where
  "known_source tbl i \<longleftrightarrow> i = BFLB_IPC_DEVICE_MBOX_TX \<or> i = BFLB_IPC_DEVICE_MBOX_RX \<or> irq (tbl ! i) \<noteq> 0"

definition serve_source :: "mbox_config \<Rightarrow> 'w mbox_sdk \<Rightarrow> nat \<Rightarrow> 'w mbox \<Rightarrow> 'w mbox" where
  "serve_source cfg sdk i s =
     (if i = BFLB_IPC_DEVICE_MBOX_RX then oblfr_mailbox_signal_handler cfg sdk s
      else if i = BFLB_IPC_DEVICE_MBOX_TX then s
      else on_world (irq_enable sdk (irq (ipc_irqs s ! i))) s)"

definition count_unknown :: "nat \<Rightarrow> 'w mbox \<Rightarrow> 'w mbox" where
  "count_unknown n s = s\<lparr>mbox_statistics := (mbox_statistics s)\<lparr>unhandled_irq := unhandled_irq (mbox_statistics s) + of_nat n\<rparr>\<rparr>"

definition serve_first :: "mbox_config \<Rightarrow> 'w mbox_sdk \<Rightarrow> nat list \<Rightarrow> 'w mbox \<Rightarrow> 'w mbox" where
  "serve_first cfg sdk pending s =
     (let unknown = takeWhile (\<lambda>i. \<not> known_source (ipc_irqs s) i) pending;
          s' = count_unknown (length unknown) s
      in case drop (length unknown) pending of [] \<Rightarrow> s' | i # _ \<Rightarrow> serve_source cfg sdk i s')"

lemma status_bit: "irqStatus AND 2 ^ i = 0 \<longleftrightarrow> \<not> bit (irqStatus :: u32) i"
  by (simp add: bit_iff_and_push_bit_not_eq_0)

lemma count_unknown_0 [simp]: "count_unknown 0 s = s"
  by (simp add: count_unknown_def)

lemma count_unknown_Suc: "count_unknown n (count_unknown (Suc 0) s) = count_unknown (Suc n) s"
  by (simp add: count_unknown_def add.assoc)

lemma ipc_irqs_count_unknown [simp]: "ipc_irqs (count_unknown n s) = ipc_irqs s"
  by (simp add: count_unknown_def)

lemma scan_serve_first:
  "ipc_irq_scan cfg sdk irqStatus is s = serve_first cfg sdk (filter (bit irqStatus) is) s"
proof (induction "is" arbitrary: s)
  case Nil
  then show ?case by (simp add: serve_first_def)
next
  case (Cons i "is")
  have one: "s\<lparr>mbox_statistics := mbox_statistics s\<lparr>unhandled_irq := unhandled_irq (mbox_statistics s) + 1\<rparr>\<rparr> = count_unknown (Suc 0) s"
    by (simp add: count_unknown_def)
  show ?case
  proof (cases "bit irqStatus i \<and> \<not> known_source (ipc_irqs s) i")
    case True
    then have "ipc_irq_scan cfg sdk irqStatus (i # is) s = ipc_irq_scan cfg sdk irqStatus is (count_unknown (Suc 0) s)"
      by (simp add: status_bit known_source_def one)
    also have "\<dots> = serve_first cfg sdk (filter (bit irqStatus) (i # is)) s"
      using True unfolding Cons.IH by (simp add: serve_first_def Let_def count_unknown_Suc split: list.split)
    finally show ?thesis .
  next
    case False
    then show ?thesis
      using Cons.IH by (auto simp: status_bit known_source_def serve_first_def serve_source_def)
  qed
qed

lemma bits_filter: "filter (bit (w :: u32)) [0..<32] = sorted_list_of_set {i. bit w i}"
proof -
  have "{i. bit w i} = set (filter (bit w) [0..<32])" by (auto dest: bit_imp_le_length)
  then show ?thesis by (simp add: sorted_list_of_set.idem_if_sorted_distinct sorted_wrt_filter del: set_filter)
qed
section \<open>Reachable states\<close>

text \<open>
  The calls and interrupts that change the state of the module, in any order, from the start of the system. Between
  them the world may change in any way: the other core writes registers and peripherals raise interrupts.
\<close>

inductive mbox_step :: "mbox_config \<Rightarrow> 'w mbox_sdk \<Rightarrow> 'w mbox \<Rightarrow> 'w mbox \<Rightarrow> bool"
  for cfg :: mbox_config and sdk :: "'w mbox_sdk" where
  step_init: "mbox_step cfg sdk s (snd (oblfr_mailbox_init cfg sdk s))"
| step_add: "mbox_step cfg sdk s (snd (oblfr_mailbox_add_signal_handler cfg sdk mem service op handler arg s))"
| step_del: "mbox_step cfg sdk s (snd (oblfr_mailbox_del_signal_handler cfg sdk service op s))"
| step_send: "mbox_step cfg sdk s (snd (oblfr_mailbox_send_signal sdk service op data s))"
| step_mask: "mbox_step cfg sdk s (snd (oblfr_mailbox_mask_signal cfg sdk service op s))"
| step_unmask: "mbox_step cfg sdk s (snd (oblfr_mailbox_unmask_signal cfg sdk service op s))"
| step_dump: "mbox_step cfg sdk s (snd (oblfr_mailbox_dump cfg sdk s))"
| step_isr: "mbox_step cfg sdk s (run_mbox_isr cfg sdk isr s)"
| step_world: "mbox_step cfg sdk s (s\<lparr>mbox_world := w\<rparr>)"

inductive mbox_reachable :: "mbox_config \<Rightarrow> 'w mbox_sdk \<Rightarrow> 'w mbox \<Rightarrow> bool"
  for cfg :: mbox_config and sdk :: "'w mbox_sdk" where
  boot: "mbox_reachable cfg sdk (mbox_boot cfg w)"
| step: "mbox_reachable cfg sdk s \<Longrightarrow> mbox_step cfg sdk s s' \<Longrightarrow> mbox_reachable cfg sdk s'"

inductive_cases mbox_stepE: "mbox_step cfg sdk s s'"

definition mbox_inv :: "mbox_config \<Rightarrow> 'w mbox \<Rightarrow> bool" where
  "mbox_inv cfg s \<longleftrightarrow> (\<forall>g \<in> set (oblfr_mbox_signals s). \<not> sig_masked g) \<and>
     map irq (ipc_irqs s) = map irq (ipc_irqs_init cfg)"

lemma mbox_inv_world [simp]: "mbox_inv cfg (s\<lparr>mbox_world := w\<rparr>) = mbox_inv cfg s"
  by (simp add: mbox_inv_def)

lemma mbox_inv_stats [simp]: "mbox_inv cfg (s\<lparr>mbox_statistics := st\<rparr>) = mbox_inv cfg s"
  by (simp add: mbox_inv_def)

lemma mbox_inv_unlock [simp]: "mbox_inv cfg (snd (oblfr_mailbox_signal_unlock cfg' sdk b s)) = mbox_inv cfg s"
  by (simp add: mbox_inv_def)

lemma mbox_inv_lock: "oblfr_mailbox_signal_lock cfg' sdk b s = (r, s1) \<Longrightarrow> mbox_inv cfg s1 = mbox_inv cfg s"
  by (simp add: mbox_inv_def lock_fields)

lemma dispatch_unmasked:
  "\<forall>g \<in> set ss. \<not> sig_masked g \<Longrightarrow> \<forall>g \<in> set (fst (snd (signal_dispatch service op data ss w))). \<not> sig_masked g"
  by (induction ss) (auto simp: Let_def split: prod.splits if_splits)

lemma find_dup_unmasked:
  "\<forall>g \<in> set ss. \<not> sig_masked g \<Longrightarrow> \<forall>g \<in> set (snd (signal_find_dup service op ss)). \<not> sig_masked g"
  by (induction ss) (auto simp: Let_def split: prod.splits if_splits)

lemma set_signal_unlink: "set (signal_unlink service op ss) \<subseteq> set ss"
  by (induction ss) auto

lemma mbox_inv_signals:
  "mbox_inv cfg s \<Longrightarrow> \<forall>g \<in> set ss. \<not> sig_masked g \<Longrightarrow> mbox_inv cfg (s\<lparr>oblfr_mbox_signals := ss\<rparr>)"
  by (simp add: mbox_inv_def)

lemma mbox_inv_unmasked: "mbox_inv cfg s \<Longrightarrow> \<forall>g \<in> set (oblfr_mbox_signals s). \<not> sig_masked g"
  by (simp add: mbox_inv_def)

lemma inv_signal_handler:
  assumes "mbox_inv cfg s"
  shows "mbox_inv cfg (oblfr_mailbox_signal_handler cfg' sdk s)"
proof -
  obtain b s1 where l: "oblfr_mailbox_signal_lock cfg' sdk True s = (b, s1)" by force
  have i: "mbox_inv cfg s1" using assms mbox_inv_lock [OF l] by simp
  have "mbox_inv cfg (s1\<lparr>oblfr_mbox_signals := fst (snd (signal_dispatch service op data (oblfr_mbox_signals s1) w))\<rparr>)" for service op data w
    by (rule mbox_inv_signals [OF i dispatch_unmasked [OF mbox_inv_unmasked [OF i]]])
  then have "mbox_inv cfg (s1\<lparr>oblfr_mbox_signals := ss\<rparr>)"
    if "signal_dispatch service op data (oblfr_mbox_signals s1) w = (h, ss, w')" for service op data w h ss w'
    using that by (metis fst_conv snd_conv)
  with i show ?thesis
    by (auto simp: oblfr_mailbox_signal_handler_def Let_def l mbox_inv_def split: prod.splits)
qed

lemma inv_serve_first: "mbox_inv cfg s \<Longrightarrow> mbox_inv cfg (serve_first cfg' sdk pending s)"
  by (auto simp: serve_first_def Let_def serve_source_def count_unknown_def inv_signal_handler split: list.split)

lemma inv_send_ipc:
  assumes "mbox_inv cfg s"
  shows "mbox_inv cfg (Send_IPC_IRQ sdk d s)"
proof -
  have "map irq ((ipc_irqs s)[d := (ipc_irqs s ! d)\<lparr>irq_count := c\<rparr>]) = map irq (ipc_irqs s)" for c
    by (metis list_update_beyond list_update_id map_update mbox_irq.select_convs(2) mbox_irq.surjective mbox_irq.update_convs(3) not_le_imp_less)
  with assms show ?thesis by (simp add: Send_IPC_IRQ_def Let_def mbox_inv_def)
qed

lemma inv_isr: "mbox_inv cfg s \<Longrightarrow> mbox_inv cfg (run_mbox_isr cfg' sdk isr s)"
  by (cases isr) (simp_all add: run_mbox_isr_def IPC_M0_IRQHandler_def Let_def scan_serve_first inv_serve_first inv_send_ipc
    SDHCI_IRQHandler_def UART2_IRQHandler_def USB_IRQHandler_def EMAC_IRQHandler_def GPIO_IRQHandler_def)

lemma inv_add:
  assumes "mbox_inv cfg s"
  shows "mbox_inv cfg (snd (oblfr_mailbox_add_signal_handler cfg' sdk mem service op handler arg s))"
proof -
  obtain b s1 where l: "oblfr_mailbox_signal_lock cfg' sdk False s = (b, s1)" by force
  obtain f ss where d: "signal_find_dup service op (oblfr_mbox_signals s1) = (f, ss)" by force
  have i: "mbox_inv cfg s1" using assms mbox_inv_lock [OF l] by simp
  have "\<forall>g \<in> set ss. \<not> sig_masked g"
    using find_dup_unmasked [OF mbox_inv_unmasked [OF i], of service op] d by simp
  with i show ?thesis
    by (auto simp: oblfr_mailbox_add_signal_handler_def l d Let_def intro!: mbox_inv_signals)
qed

lemma inv_del:
  assumes "mbox_inv cfg s"
  shows "mbox_inv cfg (snd (oblfr_mailbox_del_signal_handler cfg' sdk service op s))"
proof -
  obtain b s1 where l: "oblfr_mailbox_signal_lock cfg' sdk False s = (b, s1)" by force
  have i: "mbox_inv cfg s1" using assms mbox_inv_lock [OF l] by simp
  then have "\<forall>g \<in> set (signal_unlink service op (oblfr_mbox_signals s1)). \<not> sig_masked g"
    using mbox_inv_unmasked set_signal_unlink by blast
  with i show ?thesis
    by (auto simp: oblfr_mailbox_del_signal_handler_def l Let_def intro!: mbox_inv_signals)
qed

lemma inv_nop:
  assumes "mbox_inv cfg s"
  shows "mbox_inv cfg (snd (oblfr_mailbox_mask_signal cfg' sdk service op s))"
    and "mbox_inv cfg (snd (oblfr_mailbox_unmask_signal cfg' sdk service op s))"
    and "mbox_inv cfg (snd (oblfr_mailbox_dump cfg' sdk s))"
  using assms mbox_inv_lock [of cfg' sdk False s]
  by (auto simp: oblfr_mailbox_mask_signal_def oblfr_mailbox_unmask_signal_def oblfr_mailbox_dump_def split: prod.splits)

lemma inv_init: "mbox_inv cfg s \<Longrightarrow> mbox_inv cfg (snd (oblfr_mailbox_init cfg' sdk s))"
  by (auto simp: oblfr_mailbox_init_def mbox_inv_def Let_def setup_sdh_peripheral_def setup_emac_peripheral_def
    setup_usb_peripheral_def split: prod.splits)

lemma inv_step: "mbox_step cfg sdk s s' \<Longrightarrow> mbox_inv cfg s \<Longrightarrow> mbox_inv cfg s'"
  by (induction rule: mbox_step.induct)
    (simp_all add: inv_init inv_add inv_del inv_nop inv_isr oblfr_mailbox_send_signal_def Let_def)

lemma inv_reachable: "mbox_reachable cfg sdk s \<Longrightarrow> mbox_inv cfg s"
proof (induction rule: mbox_reachable.induct)
  case (boot w)
  then show ?case by (simp add: mbox_inv_def mbox_boot_def)
next
  case (step s s')
  then show ?case by (blast intro: inv_step)
qed
section \<open>The interrupt controller\<close>

text \<open>
  What the module relies on of the interrupt controller: \<open>enabled\<close> and \<open>attached\<close> read the state of an interrupt
  number; only the calls that are meant to change them do.
\<close>

locale irq_board =
  fixes sdk :: "'w mbox_sdk"
    and enabled :: "u32 \<Rightarrow> 'w \<Rightarrow> bool"
    and attached :: "u32 \<Rightarrow> 'w \<Rightarrow> mbox_isr option"
  assumes enable: "enabled n (irq_enable sdk k w) = (n = k \<or> enabled n w)" "attached n (irq_enable sdk k w) = attached n w"
    and disable: "enabled n (irq_disable sdk k w) = (n \<noteq> k \<and> enabled n w)" "attached n (irq_disable sdk k w) = attached n w"
    and attach: "enabled n (irq_attach sdk k h w) = enabled n w"
      "attached n (irq_attach sdk k h w) = (if n = k then h else attached n w)"
    and ipc_write: "enabled n (BL_WR_REG sdk b r v w) = enabled n w" "attached n (BL_WR_REG sdk b r v w) = attached n w"
    and reg_write: "enabled n (putreg32 sdk v a w) = enabled n w" "attached n (putreg32 sdk v a w) = attached n w"
    and delay: "enabled n (mtimer_delay_us sdk d w) = enabled n w" "attached n (mtimer_delay_us sdk d w) = attached n w"
      "enabled n (mtimer_delay_ms sdk d w) = enabled n w" "attached n (mtimer_delay_ms sdk d w) = attached n w"
    and pins: "enabled n (gpio_init_for sdk p q w) = enabled n w" "attached n (gpio_init_for sdk p q w) = attached n w"
    and clock: "enabled n (clock_enable sdk p w) = enabled n w" "attached n (clock_enable sdk p w) = attached n w"
    and semaphore: "enabled n (snd (sem_create sdk w)) = enabled n w" "attached n (snd (sem_create sdk w)) = attached n w"
begin

lemmas laws = enable disable attach ipc_write reg_write delay pins clock semaphore

lemma pins_fold: "enabled n (fold (gpio_init_for sdk p) ks w) = enabled n w" "attached n (fold (gpio_init_for sdk p) ks w) = attached n w"
  by (induction ks arbitrary: w) (simp_all add: laws)

lemma setup_keeps:
  "enabled n (snd (setup_sdh_peripheral sdk w)) = enabled n w" "attached n (snd (setup_sdh_peripheral sdk w)) = attached n w"
  "enabled n (snd (setup_emac_peripheral sdk w)) = enabled n w" "attached n (snd (setup_emac_peripheral sdk w)) = attached n w"
  "enabled n (snd (setup_usb_peripheral cfg sdk w)) = enabled n w" "attached n (snd (setup_usb_peripheral cfg sdk w)) = attached n w"
  by (simp_all only: setup_sdh_peripheral_def setup_emac_peripheral_def setup_usb_peripheral_def modreg32_def Let_def snd_conv laws pins_fold)

text \<open>Forwarding a table of interrupts attaches and enables exactly its non-zero numbers.\<close>

lemma forward_fold:
  "distinct (filter (\<lambda>n. n \<noteq> 0) (map irq es)) \<Longrightarrow>
   enabled n (fold (forward_irq sdk) es w) = (n \<noteq> 0 \<and> n \<in> irq ` set es \<or> enabled n w) \<and>
   (\<forall>e \<in> set es. irq e \<noteq> 0 \<longrightarrow> attached (irq e) (fold (forward_irq sdk) es w) = irq_handler e) \<and>
   (n = 0 \<or> n \<notin> irq ` set es \<longrightarrow> attached n (fold (forward_irq sdk) es w) = attached n w)"
proof (induction es arbitrary: w n)
  case Nil
  then show ?case by simp
next
  case (Cons e es)
  then have d: "distinct (filter (\<lambda>n. n \<noteq> 0) (map irq es))" by (simp split: if_splits)
  have fresh: "irq e \<noteq> 0 \<Longrightarrow> irq e \<notin> irq ` set es" using Cons.prems by auto
  note IH = Cons.IH [OF d, of _ "forward_irq sdk e w"]
  have f: "enabled n (forward_irq sdk e w) = (n \<noteq> 0 \<and> n = irq e \<or> enabled n w)"
    "attached n (forward_irq sdk e w) = (if n \<noteq> 0 \<and> n = irq e then irq_handler e else attached n w)" for n
    by (auto simp: forward_irq_def laws)
  have "attached (irq e) (fold (forward_irq sdk) es (forward_irq sdk e w)) = irq_handler e" if "irq e \<noteq> 0"
    using IH [of "irq e"] fresh that f(2) by simp
  then show ?case using IH [of n] f [of n] by auto
qed

lemma init_irqs:
  assumes "distinct (filter (\<lambda>n. n \<noteq> 0) (IPC_M0_IRQn cfg # map irq (ipc_irqs s)))" "IPC_M0_IRQn cfg \<noteq> 0"
  shows "\<exists>s'. oblfr_mailbox_init cfg sdk s = (OBLFR_OK, s') \<and> ipc_irqs s' = ipc_irqs s \<and> oblfr_mbox_signals s' = oblfr_mbox_signals s \<and>
    (\<forall>n. enabled n (mbox_world s') = (n = IPC_M0_IRQn cfg \<or> n \<noteq> 0 \<and> n \<in> irq ` set (ipc_irqs s) \<or> enabled n (mbox_world s))) \<and>
    (\<forall>e \<in> set (ipc_irqs s). irq e \<noteq> 0 \<longrightarrow> attached (irq e) (mbox_world s') = irq_handler e) \<and>
    attached (IPC_M0_IRQn cfg) (mbox_world s') = Some IPC_M0_ISR"
proof -
  define s0 where "s0 = (if CONFIG_FREERTOS cfg then s\<lparr>oblfr_mbox_signals_lock := fst (sem_create sdk (mbox_world s)),
      mbox_world := snd (sem_create sdk (mbox_world s))\<rparr> else s)"
  have s0: "ipc_irqs s0 = ipc_irqs s" "oblfr_mbox_signals s0 = oblfr_mbox_signals s"
    "enabled n (mbox_world s0) = enabled n (mbox_world s)" "attached n (mbox_world s0) = attached n (mbox_world s)" for n
    by (simp_all add: s0_def laws)
  define w1 where "w1 = irq_enable sdk (IPC_M0_IRQn cfg) (BL_WR_REG sdk IPC0_BASE IPC_CPU0_IPC_IUSR 0xffffffff
      (irq_attach sdk (IPC_M0_IRQn cfg) (Some IPC_M0_ISR) (mbox_world s0)))"
  define w2 where "w2 = fold (forward_irq sdk) (ipc_irqs s) w1"
  define w3 where "w3 = (if IRQFWD_SDH cfg then snd (setup_sdh_peripheral sdk w2) else w2)"
  define w4 where "w4 = (if IRQFWD_EMAC cfg then snd (setup_emac_peripheral sdk w3) else w3)"
  define w5 where "w5 = (if IRQFWD_USB cfg then snd (setup_usb_peripheral cfg sdk w4) else w4)"
  have ok: "setup_sdh_peripheral sdk w = (OBLFR_OK, snd (setup_sdh_peripheral sdk w))"
    "setup_emac_peripheral sdk w = (OBLFR_OK, snd (setup_emac_peripheral sdk w))"
    "setup_usb_peripheral cfg sdk w = (OBLFR_OK, snd (setup_usb_peripheral cfg sdk w))" for w
    by (simp_all add: setup_sdh_peripheral_def setup_emac_peripheral_def setup_usb_peripheral_def Let_def)
  have "oblfr_mailbox_init cfg sdk s = (OBLFR_OK, s0\<lparr>mbox_world := w5\<rparr>)"
    unfolding oblfr_mailbox_init_def w5_def w4_def w3_def w2_def w1_def
    by (subst ok(1), subst ok(2), subst ok(3)) (simp add: s0_def Let_def case_prod_beta)
  moreover have "enabled n w5 = enabled n w2" "attached n w5 = attached n w2" for n
    by (simp_all add: w5_def w4_def w3_def setup_keeps)
  moreover have "enabled n w1 = (n = IPC_M0_IRQn cfg \<or> enabled n (mbox_world s))" 
    "attached (IPC_M0_IRQn cfg) w1 = Some IPC_M0_ISR" for n
    by (auto simp: w1_def laws s0)
  moreover have "IPC_M0_IRQn cfg \<notin> irq ` set (ipc_irqs s)" "distinct (filter (\<lambda>n. n \<noteq> 0) (map irq (ipc_irqs s)))"
    using assms by auto
  ultimately show ?thesis
    using forward_fold [of "ipc_irqs s" _ w1] s0 unfolding w2_def by (intro exI [of _ "s0\<lparr>mbox_world := w5\<rparr>"]) auto
qed

end

end
