(* ===== verification/Mailbox_Correct.thy ===== *)
theory Mailbox_Correct
  imports Mailbox_Run
begin

text \<open>
  The properties of the mailbox and the chip they are tried on: \<open>sim_mbox_sdk\<close>, which meets the
  laws of the locale \<open>irq_board\<close>.
\<close>

section \<open>A simulated chip\<close>

text \<open>Registers as association lists, the interrupt controller, the semaphore, and the calls of signal handlers.\<close>

record mbox_sim =
  sim_ipc :: "((ipc_base \<times> ipc_reg) \<times> u32) list"
  sim_mem :: "(u32 \<times> u32) list"
  sim_enabled :: "u32 list"
  sim_attached :: "(u32 \<times> mbox_isr option) list"
  sim_sem_taken :: bool
  sim_calls :: "(u16 \<times> u16 \<times> u32 \<times> nat) list"

definition lookup0 :: "('a \<times> u32) list \<Rightarrow> 'a \<Rightarrow> u32" where
  "lookup0 xs k = (case map_of xs k of None \<Rightarrow> 0 | Some v \<Rightarrow> v)"

definition sim_mbox_sdk :: "mbox_sim mbox_sdk" where
  "sim_mbox_sdk = \<lparr>
     BL_RD_REG = (\<lambda>b r w. lookup0 (sim_ipc w) (b, r)),
     BL_WR_REG = (\<lambda>b r v w. w\<lparr>sim_ipc := ((b, r), v) # sim_ipc w\<rparr>),
     getreg32 = (\<lambda>a w. lookup0 (sim_mem w) a),
     putreg32 = (\<lambda>v a w. w\<lparr>sim_mem := (a, v) # sim_mem w\<rparr>),
     mtimer_delay_us = (\<lambda>d w. w),
     mtimer_delay_ms = (\<lambda>d w. w),
     irq_attach = (\<lambda>n h w. w\<lparr>sim_attached := (n, h) # sim_attached w\<rparr>),
     irq_enable = (\<lambda>n w. w\<lparr>sim_enabled := n # sim_enabled w\<rparr>),
     irq_disable = (\<lambda>n w. w\<lparr>sim_enabled := removeAll n (sim_enabled w)\<rparr>),
     gpio_init_for = (\<lambda>p n w. w),
     clock_enable = (\<lambda>p w. w),
     sem_create = (\<lambda>w. (Some 0, w\<lparr>sim_sem_taken := False\<rparr>)),
     sem_take = (\<lambda>h w. (\<not> sim_sem_taken w, w\<lparr>sim_sem_taken := True\<rparr>)),
     sem_take_isr = (\<lambda>h w. (\<not> sim_sem_taken w, w\<lparr>sim_sem_taken := True\<rparr>)),
     sem_give = (\<lambda>h w. (True, w\<lparr>sim_sem_taken := False\<rparr>)),
     sem_give_isr = (\<lambda>h w. (True, w\<lparr>sim_sem_taken := False\<rparr>))\<rparr>"

interpretation sim_irqs: irq_board sim_mbox_sdk "\<lambda>n w. n \<in> set (sim_enabled w)"
  "\<lambda>n w. case map_of (sim_attached w) n of None \<Rightarrow> None | Some h \<Rightarrow> h"
  by unfold_locales (auto simp: sim_mbox_sdk_def)

text \<open>The default configuration of the Ox64 board, with made-up interrupt numbers, and a handler that records its call.\<close>

definition demo_mbox_config :: mbox_config where
  "demo_mbox_config = \<lparr>CONFIG_FREERTOS = True, IRQFWD_SDH = True, IRQFWD_UART2 = False, IRQFWD_USB = False,
     IRQFWD_EMAC = False, IRQFWD_GPIO = True, MAILBOX_USB_HOST = False, SDH_IRQn = 33, UART2_IRQn = 46, USB_IRQn = 37,
     EMAC_IRQn = 40, GPIO_INT0_IRQn = 60, IPC_M0_IRQn = 20\<rparr>"

definition demo_world :: mbox_sim where
  "demo_world = \<lparr>sim_ipc = [], sim_mem = [], sim_enabled = [], sim_attached = [], sim_sem_taken = False, sim_calls = []\<rparr>"

definition record_call :: "mbox_sim mbox_signal_handler" where
  "record_call service op data arg w = w\<lparr>sim_calls := (service, op, data, arg) # sim_calls w\<rparr>"

definition demo_signal :: "u16 \<Rightarrow> u16 \<Rightarrow> nat \<Rightarrow> mbox_sim mbox_signal" where
  "demo_signal service op arg = \<lparr>sig_service = service, sig_op = op, sig_handler = record_call, sig_arg = arg,
     sig_count = 0, sig_masked = False\<rparr>"

definition demo_mbox :: "((ipc_base \<times> ipc_reg) \<times> u32) list \<Rightarrow> mbox_sim mbox" where
  "demo_mbox regs = (mbox_boot demo_mbox_config (demo_world\<lparr>sim_ipc := regs\<rparr>))\<lparr>
     oblfr_mbox_signals := [demo_signal 2 4 20, demo_signal 1 6 10, demo_signal 1 1 11]\<rparr>"

text \<open>The handler on a packed message, after its lock is taken.\<close>

lemma signal_handler_packed:
  fixes service op :: u16
  assumes "BL_RD_REG sdk IPC0_BASE IPC_CPU1_IPC_ILSHR (mbox_world s) = push_bit 16 (ucast service) OR ucast op"
    and "oblfr_mailbox_signal_lock cfg sdk True s = (True, s1)"
    and "signal_dispatch service op (BL_RD_REG sdk IPC0_BASE IPC_CPU1_IPC_ILSLR (mbox_world s)) (oblfr_mbox_signals s) (mbox_world s1) =
      (handled, signals, w)"
  shows "oblfr_mailbox_signal_handler cfg sdk s =
    on_world (BL_WR_REG sdk IPC2_BASE IPC_CPU1_IPC_ISWR 64)
      (let s2 = snd (oblfr_mailbox_signal_unlock cfg sdk True (s1\<lparr>oblfr_mbox_signals := signals, mbox_world := w\<rparr>))
       in if handled then s2
          else s2\<lparr>mbox_statistics := (mbox_statistics s)\<lparr>unhandled_signals := unhandled_signals (mbox_statistics s) + 1\<rparr>\<rparr>)"
proof -
  have rx: "push_bit BFLB_IPC_DEVICE_MBOX_RX 1 = (64 :: u32)" by simp
  show ?thesis
    unfolding oblfr_mailbox_signal_handler_def Let_def assms(1,2) unpack_signal split_conv lock_fields(1) [OF assms(2)] assms(3) rx
    by (simp add: lock_fields(3) [OF assms(2)])
qed

section \<open>Properties of the mailbox\<close>

text \<open>
  C25. A message with an odd operation, packed as \<^verbatim>\<open>oblfr_mailbox_send_signal\<close> packs it, is delivered to the first
  registered signal of its service, whatever operation that one was registered for: its handler is called once with
  service, operation, data and its argument, and its counter goes up; the signals passed on the way and the one
  called have their operation replaced by that of the message. The message is acknowledged.
\<close>

theorem mailbox_dispatch:
  assumes "BL_RD_REG sdk IPC0_BASE IPC_CPU1_IPC_ILSHR (mbox_world s) = push_bit 16 (ucast service) OR ucast op"
    and "BL_RD_REG sdk IPC0_BASE IPC_CPU1_IPC_ILSLR (mbox_world s) = data"
    and "oblfr_mailbox_signal_lock cfg sdk True s = (True, s1)"
    and "oblfr_mbox_signals s = xs @ g # ys" "\<forall>x \<in> set xs. sig_service x \<noteq> service" "sig_service g = service"
    and "\<not> sig_masked g" "odd op"
  shows "oblfr_mailbox_signal_handler cfg sdk s =
    on_world (BL_WR_REG sdk IPC2_BASE IPC_CPU1_IPC_ISWR 64)
      (snd (oblfr_mailbox_signal_unlock cfg sdk True (s1\<lparr>
        oblfr_mbox_signals := map (sig_op_update (\<lambda>_. op)) xs @ g\<lparr>sig_op := op, sig_count := sig_count g + 1\<rparr> # ys,
        mbox_world := sig_handler g service op data (sig_arg g) (mbox_world s1)\<rparr>)))"
proof -
  note d = dispatch_first [OF assms(5,6,8,7), of data ys "mbox_world s1", folded assms(2,4)]
  from signal_handler_packed [OF assms(1,3) d] show ?thesis by (simp add: assms(2))
qed

theorem mailbox_dispatch_witness:
  "sim_calls (mbox_world (oblfr_mailbox_signal_handler demo_mbox_config sim_mbox_sdk
     (demo_mbox [((IPC0_BASE, IPC_CPU1_IPC_ILSHR), 0x10001), ((IPC0_BASE, IPC_CPU1_IPC_ILSLR), 77)]))) = [(1, 1, 77, 10)]"
proof -
  let ?s = "demo_mbox [((IPC0_BASE, IPC_CPU1_IPC_ILSHR), 0x10001), ((IPC0_BASE, IPC_CPU1_IPC_ILSLR), 77)]"
  have "oblfr_mailbox_signal_handler demo_mbox_config sim_mbox_sdk ?s =
    on_world (BL_WR_REG sim_mbox_sdk IPC2_BASE IPC_CPU1_IPC_ISWR 64)
      (snd (oblfr_mailbox_signal_unlock demo_mbox_config sim_mbox_sdk True (?s\<lparr>mbox_world := (mbox_world ?s)\<lparr>sim_sem_taken := True\<rparr>,
        oblfr_mbox_signals := map (sig_op_update (\<lambda>_. 1)) [demo_signal 2 4 20] @ (demo_signal 1 6 10)\<lparr>sig_op := 1, sig_count := 0 + 1\<rparr> # [demo_signal 1 1 11],
        mbox_world := record_call 1 1 77 10 ((mbox_world ?s)\<lparr>sim_sem_taken := True\<rparr>)\<rparr>)))"
    using mailbox_dispatch [of sim_mbox_sdk ?s 1 1 77 demo_mbox_config "?s\<lparr>mbox_world := (mbox_world ?s)\<lparr>sim_sem_taken := True\<rparr>\<rparr>"
        "[demo_signal 2 4 20]" "demo_signal 1 6 10" "[demo_signal 1 1 11]"]
    by (simp add: demo_mbox_def mbox_boot_def demo_world_def sim_mbox_sdk_def lookup0_def demo_signal_def
        oblfr_mailbox_signal_lock_def demo_mbox_config_def)
  then show ?thesis
    by (simp add: oblfr_mailbox_signal_unlock_def demo_mbox_config_def sim_mbox_sdk_def record_call_def demo_mbox_def
        mbox_boot_def demo_world_def)
qed

text \<open>
  C26. A message with an even operation is never delivered: no handler is called even if one is registered for
  exactly this service and operation, the message is counted as unhandled, and every registered signal
  ends up with the operation of the message.
\<close>

theorem mailbox_even_op:
  fixes service op :: u16
  assumes "BL_RD_REG sdk IPC0_BASE IPC_CPU1_IPC_ILSHR (mbox_world s) = push_bit 16 (ucast service) OR ucast op"
    and "oblfr_mailbox_signal_lock cfg sdk True s = (True, s1)" "even op"
  shows "oblfr_mailbox_signal_handler cfg sdk s =
    on_world (BL_WR_REG sdk IPC2_BASE IPC_CPU1_IPC_ISWR 64)
      ((snd (oblfr_mailbox_signal_unlock cfg sdk True (s1\<lparr>
        oblfr_mbox_signals := map (sig_op_update (\<lambda>_. op)) (oblfr_mbox_signals s)\<rparr>)))
       \<lparr>mbox_statistics := (mbox_statistics s)\<lparr>unhandled_signals := unhandled_signals (mbox_statistics s) + 1\<rparr>\<rparr>)"
proof -
  have "\<forall>x \<in> set (oblfr_mbox_signals s). sig_service x \<noteq> service \<or> even op" using assms(3) by simp
  from signal_handler_packed [OF assms(1,2) dispatch_none [OF this]] show ?thesis by simp
qed

theorem mailbox_even_op_witness:
  "sim_calls (mbox_world (oblfr_mailbox_signal_handler demo_mbox_config sim_mbox_sdk
     (demo_mbox [((IPC0_BASE, IPC_CPU1_IPC_ILSHR), 0x20004)]))) = []"
proof -
  let ?s = "demo_mbox [((IPC0_BASE, IPC_CPU1_IPC_ILSHR), 0x20004)]"
  have "oblfr_mailbox_signal_handler demo_mbox_config sim_mbox_sdk ?s =
    on_world (BL_WR_REG sim_mbox_sdk IPC2_BASE IPC_CPU1_IPC_ISWR 64)
      ((snd (oblfr_mailbox_signal_unlock demo_mbox_config sim_mbox_sdk True (?s\<lparr>mbox_world := (mbox_world ?s)\<lparr>sim_sem_taken := True\<rparr>,
        oblfr_mbox_signals := map (sig_op_update (\<lambda>_. 4)) (oblfr_mbox_signals ?s)\<rparr>)))
       \<lparr>mbox_statistics := (mbox_statistics ?s)\<lparr>unhandled_signals := unhandled_signals (mbox_statistics ?s) + 1\<rparr>\<rparr>)"
    by (rule mailbox_even_op [of sim_mbox_sdk ?s 2 4])
      (simp_all add: demo_mbox_def mbox_boot_def demo_world_def sim_mbox_sdk_def lookup0_def
        oblfr_mailbox_signal_lock_def demo_mbox_config_def)
  then show ?thesis
    by (simp add: oblfr_mailbox_signal_unlock_def demo_mbox_config_def sim_mbox_sdk_def demo_mbox_def mbox_boot_def demo_world_def)
qed

text \<open>
  C27. Registering a handler, when the lock and memory are available: it is refused as a duplicate exactly if the operation
  is odd and the service has a signal already, of whatever operation; otherwise the new signal is put at the
  head of the list and all others have their operation replaced by the new one.
\<close>

theorem mailbox_add_signal:
  assumes "oblfr_mailbox_signal_lock cfg sdk False s = (True, s1)"
  shows "if odd op \<and> (\<exists>x \<in> set (oblfr_mbox_signals s). sig_service x = service)
    then fst (oblfr_mailbox_add_signal_handler cfg sdk True service op handler arg s) = OBLFR_ERR_INVALID
    else oblfr_mailbox_add_signal_handler cfg sdk True service op handler arg s =
      (OBLFR_OK, snd (oblfr_mailbox_signal_unlock cfg sdk False (s1\<lparr>oblfr_mbox_signals :=
        \<lparr>sig_service = service, sig_op = op, sig_handler = handler, sig_arg = arg, sig_count = 0, sig_masked = False\<rparr> #
        map (sig_op_update (\<lambda>_. op)) (oblfr_mbox_signals s)\<rparr>)))"
proof (cases "odd op \<and> (\<exists>x \<in> set (oblfr_mbox_signals s). sig_service x = service)")
  case True
  then have "fst (signal_find_dup service op (oblfr_mbox_signals s))" by (simp add: find_dup_iff)
  with True assms lock_fields(1) [OF assms] show ?thesis
    by (simp add: oblfr_mailbox_add_signal_handler_def Let_def case_prod_beta)
next
  case False
  then have "signal_find_dup service op (oblfr_mbox_signals s) = (False, map (sig_op_update (\<lambda>_. op)) (oblfr_mbox_signals s))"
    by (intro find_dup_none) auto
  with False assms lock_fields(1) [OF assms] show ?thesis
    by (simp add: oblfr_mailbox_add_signal_handler_def Let_def)
qed

theorem mailbox_add_signal_witness:
  "fst (oblfr_mailbox_add_signal_handler demo_mbox_config sim_mbox_sdk True 2 7 record_call 0 (demo_mbox [])) = OBLFR_ERR_INVALID"
  using mailbox_add_signal [of demo_mbox_config sim_mbox_sdk "demo_mbox []"
      "(demo_mbox [])\<lparr>mbox_world := (mbox_world (demo_mbox []))\<lparr>sim_sem_taken := True\<rparr>\<rparr>" 7 2 record_call 0]
  by (simp add: demo_mbox_def mbox_boot_def demo_world_def sim_mbox_sdk_def demo_signal_def
      oblfr_mailbox_signal_lock_def demo_mbox_config_def)

text \<open>
  C28. The interrupt handler for the other core does what the reference definition does on the pending sources
  in ascending order: it counts the unknown ones before the first known one, serves that one alone (delivers a
  message, re-enables a forwarded interrupt, or takes note of an acknowledgement), and clears the whole status.
\<close>

theorem mailbox_irq_serves_first:
  "IPC_M0_IRQHandler cfg sdk s =
     (let status = BL_RD_REG sdk IPC0_BASE IPC_CPU0_IPC_IRSRR (mbox_world s)
      in on_world (BL_WR_REG sdk IPC0_BASE IPC_CPU0_IPC_ICR status)
           (serve_first cfg sdk (sorted_list_of_set {i. bit status i}) s))"
  by (simp add: IPC_M0_IRQHandler_def scan_serve_first bits_filter)

text \<open>
  C29. A message that is pending together with the acknowledgement of an earlier one, or with a forwarded
  interrupt that the other core has finished, is lost: it is cleared from the status and not delivered.
\<close>

theorem mailbox_message_lost:
  assumes "BL_RD_REG sdk IPC0_BASE IPC_CPU0_IPC_IRSRR (mbox_world s) = status"
    and "bit status i" "i \<le> BFLB_IPC_DEVICE_MBOX_TX" "\<forall>j < i. \<not> bit status j"
    and "i = BFLB_IPC_DEVICE_MBOX_TX \<or> irq (ipc_irqs s ! i) \<noteq> 0" "bit status BFLB_IPC_DEVICE_MBOX_RX"
  shows "IPC_M0_IRQHandler cfg sdk s =
    s\<lparr>mbox_world := BL_WR_REG sdk IPC0_BASE IPC_CPU0_IPC_ICR status
       (if i = BFLB_IPC_DEVICE_MBOX_TX then mbox_world s else irq_enable sdk (irq (ipc_irqs s ! i)) (mbox_world s))\<rparr>"
proof -
  have "i < 32" using assms(3) by simp
  then have "[0..<32] = [0..<i] @ i # [Suc i..<32]" by (metis append.assoc append_Cons append_Nil le_add_same_cancel1 le_eq_less_or_eq less_imp_add_positive upt_add_eq_append upt_conv_Cons zero_le)
  moreover have "filter (bit status) [0..<i] = []" using assms(4) by (simp add: filter_empty_conv)
  ultimately have "filter (bit status) [0..<32] = i # filter (bit status) [Suc i..<32]" using assms(2) by simp
  moreover have "known_source (ipc_irqs s) i" using assms(5) by (auto simp: known_source_def)
  ultimately show ?thesis
    using assms(1,3) by (simp add: IPC_M0_IRQHandler_def scan_serve_first serve_first_def serve_source_def)
qed

theorem mailbox_message_lost_witness:
  "sim_calls (mbox_world (IPC_M0_IRQHandler demo_mbox_config sim_mbox_sdk
     (demo_mbox [((IPC0_BASE, IPC_CPU0_IPC_IRSRR), 0x60), ((IPC0_BASE, IPC_CPU1_IPC_ILSHR), 0x10001)]))) = []"
proof -
  let ?s = "demo_mbox [((IPC0_BASE, IPC_CPU0_IPC_IRSRR), 0x60), ((IPC0_BASE, IPC_CPU1_IPC_ILSHR), 0x10001)]"
  have low: "\<forall>j < 5. \<not> bit (0x60 :: u32) j" "bit (0x60 :: u32) 5" "bit (0x60 :: u32) 6"
    by (auto simp: numeral_nat less_Suc_eq bit_numeral_rec)
  have "IPC_M0_IRQHandler demo_mbox_config sim_mbox_sdk ?s =
    ?s\<lparr>mbox_world := BL_WR_REG sim_mbox_sdk IPC0_BASE IPC_CPU0_IPC_ICR 0x60 (mbox_world ?s)\<rparr>"
    using mailbox_message_lost [OF _ low(2) _ low(1) _ low(3), of sim_mbox_sdk ?s demo_mbox_config]
    by (simp add: demo_mbox_def mbox_boot_def demo_world_def sim_mbox_sdk_def lookup0_def)
  then show ?thesis by (simp add: demo_mbox_def mbox_boot_def demo_world_def sim_mbox_sdk_def)
qed

text \<open>
  C30. In every state that calls and interrupts in any order lead to, whatever the hardware does in between, no signal
  is masked, masking one included, and the interrupt numbers of the forwarding table are those of the configuration.
\<close>

theorem mailbox_never_masked:
  assumes "mbox_reachable cfg sdk s"
  shows "(\<forall>g \<in> set (oblfr_mbox_signals s). \<not> sig_masked g) \<and> map irq (ipc_irqs s) = map irq (ipc_irqs_init cfg)"
  using inv_reachable [OF assms] by (simp add: mbox_inv_def)

theorem mailbox_never_masked_witness:
  "\<not> list_ex sig_masked (oblfr_mbox_signals (snd (oblfr_mailbox_mask_signal demo_mbox_config sim_mbox_sdk 1 1
     (snd (oblfr_mailbox_add_signal_handler demo_mbox_config sim_mbox_sdk True 1 1 record_call 0
       (mbox_boot demo_mbox_config demo_world))))))"
proof -
  have "mbox_reachable demo_mbox_config sim_mbox_sdk (snd (oblfr_mailbox_mask_signal demo_mbox_config sim_mbox_sdk 1 1
     (snd (oblfr_mailbox_add_signal_handler demo_mbox_config sim_mbox_sdk True 1 1 record_call 0
       (mbox_boot demo_mbox_config demo_world)))))"
    by (intro mbox_reachable.step [OF mbox_reachable.step [OF mbox_reachable.boot step_add] step_mask])
  from mailbox_never_masked [OF this] show ?thesis unfolding list_ex_iff by blast
qed

text \<open>
  C31. Starting the module succeeds, and afterwards exactly the configured peripherals are forwarded: for distinct
  interrupt numbers the interrupt of each entry of the table is enabled with the handler that sends its bit to the
  other core, the interrupt from the other core is enabled with its own handler, and no further interrupt is.
\<close>

theorem mailbox_init_forwards:
  assumes "irq_board sdk enabled attached" "IPC_M0_IRQn cfg \<noteq> 0"
    and "distinct (filter (\<lambda>n. n \<noteq> 0) (IPC_M0_IRQn cfg # map irq (ipc_irqs_init cfg)))"
    and "\<forall>n. \<not> enabled n w"
  shows "\<exists>s. oblfr_mailbox_init cfg sdk (mbox_boot cfg w) = (OBLFR_OK, s) \<and> ipc_irqs s = ipc_irqs_init cfg \<and>
    (\<forall>n. enabled n (mbox_world s) \<longleftrightarrow> n = IPC_M0_IRQn cfg \<or> n \<noteq> 0 \<and> n \<in> irq ` set (ipc_irqs_init cfg)) \<and>
    (\<forall>e \<in> set (ipc_irqs_init cfg). irq e \<noteq> 0 \<longrightarrow> attached (irq e) (mbox_world s) = irq_handler e) \<and>
    attached (IPC_M0_IRQn cfg) (mbox_world s) = Some IPC_M0_ISR"
proof -
  have "ipc_irqs (mbox_boot cfg w) = ipc_irqs_init cfg" "mbox_world (mbox_boot cfg w) = w" by (simp_all add: mbox_boot_def)
  with irq_board.init_irqs [OF assms(1), of cfg "mbox_boot cfg w"] assms(2-4) show ?thesis by auto
qed

theorem mailbox_init_forwards_witness:
  "\<exists>s. oblfr_mailbox_init demo_mbox_config sim_mbox_sdk (mbox_boot demo_mbox_config demo_world) = (OBLFR_OK, s) \<and>
     33 \<in> set (sim_enabled (mbox_world s)) \<and> 46 \<notin> set (sim_enabled (mbox_world s))"
proof -
  have t: "irq ` set (ipc_irqs_init demo_mbox_config) = {33, 0, 60}"
    "filter (\<lambda>n. n \<noteq> 0) (map irq (ipc_irqs_init demo_mbox_config)) = [33, 60]"
    by (auto simp: ipc_irqs_init_def demo_mbox_config_def no_irq_def)
  then have d: "distinct (filter (\<lambda>n. n \<noteq> 0) (IPC_M0_IRQn demo_mbox_config # map irq (ipc_irqs_init demo_mbox_config)))"
    by (simp add: demo_mbox_config_def)
  have "IPC_M0_IRQn demo_mbox_config \<noteq> 0" "\<forall>n. n \<notin> set (sim_enabled demo_world)"
    by (simp_all add: demo_mbox_config_def demo_world_def)
  from mailbox_init_forwards [OF sim_irqs.irq_board_axioms this(1) d this(2)] show ?thesis
    unfolding t by (fastforce simp: demo_mbox_config_def)
qed

text \<open>
  C32. Forwarding and its end: the interrupt handler of a forwarded peripheral disables the interrupt and counts it; when the
  other core answers with the bit of the peripheral alone, the interrupt is enabled again, and no other interrupt
  is affected on the whole way. What the handler writes to the other core is part of the definition of
  \<^const>\<open>Send_IPC_IRQ\<close>, not of this statement.
\<close>

theorem mailbox_forward_and_eoi:
  assumes "irq_board sdk enabled attached" "d \<le> BFLB_IPC_DEVICE_GPIO" "d < length (ipc_irqs s)" "irq (ipc_irqs s ! d) \<noteq> 0"
    and "\<forall>n. enabled n w' = enabled n (mbox_world (Send_IPC_IRQ sdk d s))"
    and "BL_RD_REG sdk IPC0_BASE IPC_CPU0_IPC_IRSRR w' = push_bit d 1"
  shows "\<not> enabled (irq (ipc_irqs s ! d)) (mbox_world (Send_IPC_IRQ sdk d s)) \<and>
    irq_count (ipc_irqs (Send_IPC_IRQ sdk d s) ! d) = irq_count (ipc_irqs s ! d) + 1 \<and>
    (\<forall>n. enabled n (mbox_world (IPC_M0_IRQHandler cfg sdk ((Send_IPC_IRQ sdk d s)\<lparr>mbox_world := w'\<rparr>))) \<longleftrightarrow>
       n = irq (ipc_irqs s ! d) \<or> enabled n (mbox_world s))"
proof -
  note laws = irq_board.laws [OF assms(1)]
  have "d < 32" using assms(2) by simp
  then have "{i. bit (push_bit d 1 :: u32) i} = {d}" by (auto simp: bit_simps)
  then have "serve_first cfg sdk (sorted_list_of_set {i. bit (push_bit d 1 :: u32) i}) ((Send_IPC_IRQ sdk d s)\<lparr>mbox_world := w'\<rparr>) =
      (Send_IPC_IRQ sdk d s)\<lparr>mbox_world := irq_enable sdk (irq (ipc_irqs s ! d)) w'\<rparr>"
    using assms(2-4) by (simp add: serve_first_def serve_source_def known_source_def Send_IPC_IRQ_def Let_def)
  then have "mbox_world (IPC_M0_IRQHandler cfg sdk ((Send_IPC_IRQ sdk d s)\<lparr>mbox_world := w'\<rparr>)) =
      BL_WR_REG sdk IPC0_BASE IPC_CPU0_IPC_ICR (push_bit d 1) (irq_enable sdk (irq (ipc_irqs s ! d)) w')"
    using assms(6) by (simp add: IPC_M0_IRQHandler_def scan_serve_first bits_filter)
  moreover have "mbox_world (Send_IPC_IRQ sdk d s) =
      BL_WR_REG sdk IPC2_BASE IPC_CPU1_IPC_ISWR (push_bit d 1) (irq_disable sdk (irq (ipc_irqs s ! d)) (mbox_world s))"
    "irq_count (ipc_irqs (Send_IPC_IRQ sdk d s) ! d) = irq_count (ipc_irqs s ! d) + 1"
    using assms(3,4) by (simp_all add: Send_IPC_IRQ_def Let_def)
  ultimately show ?thesis using assms(5) by (auto simp: laws)
qed

theorem mailbox_forward_and_eoi_witness:
  "33 \<in> set (sim_enabled (mbox_world (IPC_M0_IRQHandler demo_mbox_config sim_mbox_sdk
     ((Send_IPC_IRQ sim_mbox_sdk 0 (demo_mbox []))\<lparr>mbox_world :=
        demo_world\<lparr>sim_ipc := [((IPC0_BASE, IPC_CPU0_IPC_IRSRR), 1)]\<rparr>\<rparr>))))"
proof -
  have e: "irq (ipc_irqs (demo_mbox []) ! 0) = 33" "length (ipc_irqs (demo_mbox [])) = 32"
    by (simp_all add: demo_mbox_def mbox_boot_def ipc_irqs_init_def demo_mbox_config_def)
  have "\<forall>n. (n \<in> set (sim_enabled (demo_world\<lparr>sim_ipc := [((IPC0_BASE, IPC_CPU0_IPC_IRSRR), 1)]\<rparr>))) =
      (n \<in> set (sim_enabled (mbox_world (Send_IPC_IRQ sim_mbox_sdk 0 (demo_mbox [])))))"
    using e by (simp add: Send_IPC_IRQ_def Let_def sim_mbox_sdk_def demo_mbox_def mbox_boot_def demo_world_def)
  from mailbox_forward_and_eoi [OF sim_irqs.irq_board_axioms _ _ _ this, of demo_mbox_config] e show ?thesis
    by (simp add: sim_mbox_sdk_def lookup0_def demo_world_def)
qed

lemma or_clear: "m AND k = m \<Longrightarrow> (r AND NOT m) OR k = r OR (k :: 'a :: len word)"
  by (auto simp: bit_eq_iff bit_simps)

text \<open>
  Powering up the USB block, on registers that keep what is written: the crystal selection is cleared and the
  supply and the power-on reset of the PHY are set; the controller is out of suspend and reset, in host or
  device mode as configured; no other register and no other bit of the two is changed.
\<close>

theorem usb_setup_registers:
  assumes put: "\<And>v a b w. getreg32 sdk b (putreg32 sdk v a w) = (if b = a then v else getreg32 sdk b w)"
    and delay: "\<And>d b w. getreg32 sdk b (mtimer_delay_us sdk d w) = getreg32 sdk b w"
      "\<And>d b w. getreg32 sdk b (mtimer_delay_ms sdk d w) = getreg32 sdk b w"
  shows "fst (setup_usb_peripheral cfg sdk w) = OBLFR_OK \<and>
    (\<forall>a. getreg32 sdk a (snd (setup_usb_peripheral cfg sdk w)) =
      (if a = 0x2000e504 then (getreg32 sdk a w AND NOT 0xC) OR 0x41
       else if a = 0x2000e500 then
         (if MAILBOX_USB_HOST cfg then (getreg32 sdk a w OR 3) AND NOT 0x20 else getreg32 sdk a w OR 0x23)
       else getreg32 sdk a w))"
proof -
  have bits: "((r AND - 13) OR 0x40) OR 1 = (r AND - 13) OR (0x41 :: u32)" "(((r AND - 2) OR 2) OR 1) = r OR (3 :: u32)"
    "(r OR 3) OR 0x20 = r OR (0x23 :: u32)" for r :: u32
    using or_clear [of 1 3 r] by (simp_all add: or.assoc)
  show ?thesis
    by (auto simp: setup_usb_peripheral_def modreg32_def Let_def put delay BFLB_PDS_BASE_def PDS_USB_CTL_OFFSET_def
      PDS_USB_PHY_CTRL_OFFSET_def PDS_REG_USB_SW_RST_N_def PDS_REG_USB_EXT_SUSP_N_def PDS_REG_USB_IDDIG_def
      PDS_REG_USB_PHY_PONRST_def PDS_REG_USB_PHY_XTLSEL_MASK_def PDS_REG_PU_USB20_PSW_def bits)
qed

theorem usb_setup_registers_witness:
  "getreg32 sim_mbox_sdk 0x2000e500 (snd (setup_usb_peripheral demo_mbox_config sim_mbox_sdk demo_world)) = 0x23"
proof -
  have "getreg32 sim_mbox_sdk b (putreg32 sim_mbox_sdk v a w) = (if b = a then v else getreg32 sim_mbox_sdk b w)"
    "getreg32 sim_mbox_sdk b (mtimer_delay_us sim_mbox_sdk d w) = getreg32 sim_mbox_sdk b w"
    "getreg32 sim_mbox_sdk b (mtimer_delay_ms sim_mbox_sdk d w) = getreg32 sim_mbox_sdk b w" for v a b w d
    by (simp_all add: sim_mbox_sdk_def lookup0_def)
  from usb_setup_registers [OF this, of demo_mbox_config demo_world] show ?thesis
    by (simp add: demo_mbox_config_def) (simp add: sim_mbox_sdk_def lookup0_def demo_world_def)
qed

end
