(* ===== verification/Rpmsg.thy ===== *)
theory Rpmsg
  imports Oblfr_Prelude
begin

text \<open>
  The messages between the M0 core and Linux (\<^verbatim>\<open>components/rpmsg/src/oblfr_rpmsg.c\<close>): devices with a name, a queue and
  an endpoint, the announcements of the name service, and the task that hands received messages to the devices.
  The rpmsg-lite library and the operating system are the parameter \<open>rpmsg_lite\<close> on a world \<open>'w\<close>. A callback of a device is
  a function on that world, so that a callback that calls this module again is not modelled. An entry holds the
  configuration of its device by value, where the code keeps the pointer of the caller: a configuration that is
  changed or freed while its device exists is not modelled. A name stands for the characters before the terminating null. \<^const>\<open>None\<close> is undefined behaviour, or a wait that never ends.
\<close>

section \<open>The library below\<close>

abbreviation (input) RL_ADDR_ANY :: u32 where "RL_ADDR_ANY \<equiv> 0xFFFFFFFF"
abbreviation (input) RL_BUFFER_PAYLOAD_SIZE :: u32 where "RL_BUFFER_PAYLOAD_SIZE \<equiv> 2032"
abbreviation (input) RL_BUFFER_COUNT :: u32 where "RL_BUFFER_COUNT \<equiv> 8"
abbreviation (input) RL_NS_CREATE :: u32 where "RL_NS_CREATE \<equiv> 0"
abbreviation (input) RL_NS_DESTROY :: u32 where "RL_NS_DESTROY \<equiv> 1"
abbreviation (input) RL_PLATFORM_BL808_M0_LINK_ID :: u32 where "RL_PLATFORM_BL808_M0_LINK_ID \<equiv> 0"
abbreviation (input) RL_NO_FLAGS :: u32 where "RL_NO_FLAGS \<equiv> 0"

text \<open>The result \<open>True\<close> is \<^verbatim>\<open>RL_SUCCESS\<close> or \<^verbatim>\<open>pdPASS\<close>; a null pointer is \<^const>\<open>None\<close>.\<close>

record 'w rpmsg_lite =
  rpmsg_lite_remote_init :: "u32 \<Rightarrow> u32 \<Rightarrow> u32 \<Rightarrow> 'w \<Rightarrow> nat option \<times> 'w"
  rpmsg_lite_deinit :: "nat option \<Rightarrow> 'w \<Rightarrow> 'w"
  rpmsg_lite_is_link_up :: "nat option \<Rightarrow> 'w \<Rightarrow> bool"
  rpmsg_lite_create_ept :: "nat option \<Rightarrow> u32 \<Rightarrow> nat option \<Rightarrow> 'w \<Rightarrow> nat option \<times> 'w"
  rpmsg_lite_destroy_ept :: "nat option \<Rightarrow> nat option \<Rightarrow> 'w \<Rightarrow> bool \<times> 'w"
  rpmsg_lite_send :: "nat option \<Rightarrow> nat option \<Rightarrow> u32 \<Rightarrow> bytes \<Rightarrow> u32 \<Rightarrow> u32 \<Rightarrow> 'w \<Rightarrow> bool \<times> 'w"
  rpmsg_lite_alloc_tx_buffer :: "nat option \<Rightarrow> u32 \<Rightarrow> 'w \<Rightarrow> (nat \<times> u32) option \<times> 'w"
  rpmsg_lite_send_nocopy :: "nat option \<Rightarrow> nat option \<Rightarrow> u32 \<Rightarrow> nat \<Rightarrow> u32 \<Rightarrow> 'w \<Rightarrow> bool \<times> 'w"
  rpmsg_ns_announce :: "nat option \<Rightarrow> nat option \<Rightarrow> string \<Rightarrow> u32 \<Rightarrow> 'w \<Rightarrow> bool \<times> 'w"
  rpmsg_ns_bind :: "nat option \<Rightarrow> 'w \<Rightarrow> nat option \<times> 'w"
  rpmsg_queue_create :: "nat option \<Rightarrow> 'w \<Rightarrow> nat option \<times> 'w"
  rpmsg_queue_destroy :: "nat option \<Rightarrow> nat option \<Rightarrow> 'w \<Rightarrow> bool \<times> 'w"
  rpmsg_queue_recv_nocopy :: "nat option \<Rightarrow> nat option \<Rightarrow> 'w \<Rightarrow> (u32 \<times> nat \<times> u32) option \<times> 'w"
  rpmsg_queue_nocopy_free :: "nat option \<Rightarrow> nat \<Rightarrow> 'w \<Rightarrow> bool \<times> 'w"
  env_isr :: "nat \<Rightarrow> 'w \<Rightarrow> 'w"
  xQueueCreateSet :: "u32 \<Rightarrow> 'w \<Rightarrow> nat option \<times> 'w"
  xQueueAddToSet :: "nat option \<Rightarrow> nat option \<Rightarrow> 'w \<Rightarrow> bool \<times> 'w"
  xQueueRemoveFromSet :: "nat option \<Rightarrow> nat option \<Rightarrow> 'w \<Rightarrow> bool \<times> 'w"
  xQueueSelectFromSet :: "nat option \<Rightarrow> nat \<Rightarrow> 'w \<Rightarrow> nat option \<times> 'w"
  create_rpmsg_task :: "'w \<Rightarrow> bool \<times> 'w"
  delay_ms :: "nat \<Rightarrow> 'w \<Rightarrow> 'w"
  l1c_dcache_disable :: "'w \<Rightarrow> 'w"

section \<open>State\<close>

datatype device_status = DEVICE_DOWN | DEVICE_UP

record 'w device_cfg =
  cfg_name :: string
  cfg_cb :: "nat \<Rightarrow> u32 \<Rightarrow> nat \<Rightarrow> 'w \<Rightarrow> 'w"
  cfg_status_cb :: "(device_status \<Rightarrow> 'w \<Rightarrow> 'w) option"
  cfg_priv :: nat

record 'w queue_entry =
  qe_queue :: "nat option"
  qe_cfg :: "'w device_cfg"
  qe_ept :: "nat option"
  qe_dst :: u32
  qe_valid :: bool
  qe_sent :: u32
  qe_received :: u32

text \<open>
  The static variables, the entries in memory, and the list of their addresses. The memory allocator is a part of the state:
  the address and the old contents of the next block, where there is one.
\<close>

record 'w rpmsg =
  ipc_rpmsg :: "nat option"
  ipc_rpmsg_ns :: "nat option"
  rpmsg_queues :: "nat list"
  entry_heap :: "nat \<rightharpoonup> 'w queue_entry"
  entry_alloc :: "(nat \<rightharpoonup> 'w queue_entry) \<Rightarrow> (nat \<times> 'w queue_entry) option"
  xQueueSet :: "nat option"
  rpmsg_world :: 'w

definition MAX_NUMBER_OF_ENDPOINTS :: u32 where "MAX_NUMBER_OF_ENDPOINTS = 4"
definition MAX_QUEUESET_SIZE :: u32 where "MAX_QUEUESET_SIZE = MAX_NUMBER_OF_ENDPOINTS * RL_BUFFER_COUNT"
definition XRAM_RINGBUF_ADDR :: u32 where "XRAM_RINGBUF_ADDR = 0x22048000"

text \<open>A call of the library: its result and the state with the world it leaves.\<close>

definition rl_call :: "('w \<Rightarrow> 'r \<times> 'w) \<Rightarrow> 'w rpmsg \<Rightarrow> 'r \<times> 'w rpmsg" where
  "rl_call f s = (case f (rpmsg_world s) of (r, w) \<Rightarrow> (r, s\<lparr>rpmsg_world := w\<rparr>))"

definition upd_entry :: "nat \<Rightarrow> ('w queue_entry \<Rightarrow> 'w queue_entry) \<Rightarrow> 'w rpmsg \<Rightarrow> 'w rpmsg option" where
  "upd_entry a f s =
     (case entry_heap s a of None \<Rightarrow> None | Some e \<Rightarrow> Some (s\<lparr>entry_heap := (entry_heap s)(a \<mapsto> f e)\<rparr>))"

section \<open>The name service\<close>

definition tolower :: "char \<Rightarrow> char" where
  "tolower c = (let n = of_char c :: nat in if 65 \<le> n \<and> n \<le> 90 then char_of (n + 32) else c)"

definition strncasecmp_eq :: "string \<Rightarrow> string \<Rightarrow> nat \<Rightarrow> bool" where
  "strncasecmp_eq a b n \<longleftrightarrow> map tolower (take n a) = map tolower (take n b)"

text \<open>The loop of \<^verbatim>\<open>ipc_rpmsg_ns_callback\<close> over the list of entries.\<close>

fun ns_walk :: "u32 \<Rightarrow> string \<Rightarrow> u32 \<Rightarrow> nat list \<Rightarrow> 'w rpmsg \<Rightarrow> 'w rpmsg option" where
  "ns_walk new_ept new_ept_name flags [] s = Some s"
| "ns_walk new_ept new_ept_name flags (a # as) s = do {
     e \<leftarrow> entry_heap s a;
     if strncasecmp_eq (cfg_name (qe_cfg e)) new_ept_name (length new_ept_name) \<and> qe_dst e = RL_ADDR_ANY then do {
       s \<leftarrow> (if flags = RL_NS_CREATE then upd_entry a (\<lambda>e. e\<lparr>qe_dst := new_ept\<rparr>) s
             else if flags = RL_NS_DESTROY then upd_entry a (\<lambda>e. e\<lparr>qe_dst := 0\<rparr>) s
             else Some s);
       case cfg_status_cb (qe_cfg e) of
         None \<Rightarrow> Some s
       | Some cb \<Rightarrow> Some (s\<lparr>rpmsg_world := cb (if flags = RL_NS_CREATE then DEVICE_UP else DEVICE_DOWN) (rpmsg_world s)\<rparr>)
     } else ns_walk new_ept new_ept_name flags as s
   }"

definition ipc_rpmsg_ns_callback :: "u32 \<Rightarrow> string \<Rightarrow> u32 \<Rightarrow> 'w rpmsg \<Rightarrow> 'w rpmsg option" where
  "ipc_rpmsg_ns_callback new_ept new_ept_name flags s = ns_walk new_ept new_ept_name flags (rpmsg_queues s) s"

section \<open>Start\<close>

text \<open>The log line after \<^verbatim>\<open>rpmsg_lite_remote_init\<close> reads fields of the instance before the pointer is tested.\<close>

definition init_rpmsg :: "'w rpmsg_lite \<Rightarrow> 'w rpmsg \<Rightarrow> (oblfr_err \<times> 'w rpmsg) option" where
  "init_rpmsg rl s = do {
     let s = s\<lparr>rpmsg_world := l1c_dcache_disable rl (rpmsg_world s)\<rparr>;
     let (i, s) = rl_call (rpmsg_lite_remote_init rl XRAM_RINGBUF_ADDR RL_PLATFORM_BL808_M0_LINK_ID RL_NO_FLAGS) s;
     let s = s\<lparr>ipc_rpmsg := i\<rparr>;
     if i = None then None
     else do {
       let (q, s) = rl_call (xQueueCreateSet rl MAX_QUEUESET_SIZE) s;
       let s = s\<lparr>xQueueSet := q\<rparr>;
       if q = None then
         Some (OBLFR_ERR_ERROR, s\<lparr>rpmsg_world := rpmsg_lite_deinit rl (ipc_rpmsg s) (rpmsg_world s), ipc_rpmsg := None\<rparr>)
       else do {
         let (ok, s) = rl_call (create_rpmsg_task rl) s;
         if \<not> ok then
           Some (OBLFR_ERR_ERROR, s\<lparr>rpmsg_world := rpmsg_lite_deinit rl (ipc_rpmsg s) (rpmsg_world s), ipc_rpmsg := None\<rparr>)
         else Some (OBLFR_OK, s)
       }
     }
   }"

section \<open>Devices\<close>

text \<open>
  \<^verbatim>\<open>oblfr_rpmsg_device_add\<close>: the handle is the address of the entry. The fields are set in place, one after the other, so that
  an entry that stays behind on an error keeps the old contents of its memory in the others.
\<close>

definition oblfr_rpmsg_device_add :: "'w rpmsg_lite \<Rightarrow> 'w device_cfg \<Rightarrow> 'w rpmsg \<Rightarrow> (nat option \<times> 'w rpmsg) option" where
  "oblfr_rpmsg_device_add rl cfg s =
     (case entry_alloc s (entry_heap s) of
        None \<Rightarrow> Some (None, s)
      | Some (a, junk) \<Rightarrow> do {
          let s = s\<lparr>entry_heap := (entry_heap s)(a \<mapsto> junk\<lparr>qe_cfg := cfg\<rparr>)\<rparr>;
          let (q, s) = rl_call (rpmsg_queue_create rl (ipc_rpmsg s)) s;
          s \<leftarrow> upd_entry a (\<lambda>e. e\<lparr>qe_queue := q\<rparr>) s;
          if q = None then do {
            let (_, s) = rl_call (rpmsg_queue_destroy rl (ipc_rpmsg s) q) s;
            Some (None, s)
          } else do {
            let (ept, s) = rl_call (rpmsg_lite_create_ept rl (ipc_rpmsg s) RL_ADDR_ANY q) s;
            s \<leftarrow> upd_entry a (\<lambda>e. e\<lparr>qe_ept := ept\<rparr>) s;
            if ept = None then do {
              let (_, s) = rl_call (rpmsg_queue_destroy rl (ipc_rpmsg s) q) s;
              Some (None, s)
            } else do {
              let s = s\<lparr>rpmsg_queues := a # rpmsg_queues s\<rparr>;
              let (added, s) = rl_call (xQueueAddToSet rl q (xQueueSet s)) s;
              if \<not> added then do {
                let (_, s) = rl_call (rpmsg_lite_destroy_ept rl (ipc_rpmsg s) ept) s;
                let (_, s) = rl_call (rpmsg_queue_destroy rl (ipc_rpmsg s) q) s;
                Some (None, s\<lparr>rpmsg_queues := remove1 a (rpmsg_queues s)\<rparr>)
              } else do {
                let (announced, s) =
                  (if rpmsg_lite_is_link_up rl (ipc_rpmsg s) (rpmsg_world s)
                   then rl_call (rpmsg_ns_announce rl (ipc_rpmsg s) ept (cfg_name cfg) RL_NS_CREATE) s else (True, s));
                if \<not> announced then do {
                  let (_, s) = rl_call (rpmsg_lite_destroy_ept rl (ipc_rpmsg s) ept) s;
                  let (_, s) = rl_call (rpmsg_queue_destroy rl (ipc_rpmsg s) q) s;
                  Some (None, s)
                } else do {
                  s \<leftarrow> upd_entry a (\<lambda>e. e\<lparr>qe_dst := RL_ADDR_ANY, qe_valid := True, qe_sent := 0, qe_received := 0\<rparr>) s;
                  Some (Some a, s)
                }
              }
            }
          }
        })"

text \<open>\<^verbatim>\<open>LIST_REMOVE\<close> writes through the links of the entry; for an entry that is in no list they lead nowhere.\<close>

definition rpmsg_list_remove :: "nat \<Rightarrow> 'w rpmsg \<Rightarrow> 'w rpmsg option" where
  "rpmsg_list_remove a s = (if a \<in> set (rpmsg_queues s) then Some (s\<lparr>rpmsg_queues := remove1 a (rpmsg_queues s)\<rparr>) else None)"

definition oblfr_rpmsg_device_remove :: "'w rpmsg_lite \<Rightarrow> nat option \<Rightarrow> 'w rpmsg \<Rightarrow> (oblfr_err \<times> 'w rpmsg) option" where
  "oblfr_rpmsg_device_remove rl device s =
     (case device of
        None \<Rightarrow> Some (OBLFR_ERR_INVALID, s)
      | Some a \<Rightarrow> do {
          e \<leftarrow> entry_heap s a;
          if \<not> qe_valid e then Some (OBLFR_ERR_INVALID, s)
          else do {
            let (announced, s) =
              (if rpmsg_lite_is_link_up rl (ipc_rpmsg s) (rpmsg_world s)
               then rl_call (rpmsg_ns_announce rl (ipc_rpmsg s) (qe_ept e) (cfg_name (qe_cfg e)) RL_NS_DESTROY) s
               else (True, s));
            let ret = (if announced then OBLFR_OK else OBLFR_ERR_ERROR);
            s \<leftarrow> rpmsg_list_remove a s;
            let (ok, s) = rl_call (xQueueRemoveFromSet rl (qe_queue e) (xQueueSet s)) s;
            let ret = (if ok then ret else OBLFR_ERR_ERROR);
            let (ok, s) = rl_call (rpmsg_lite_destroy_ept rl (ipc_rpmsg s) (qe_ept e)) s;
            let ret = (if ok then ret else OBLFR_ERR_ERROR);
            let (ok, s) = rl_call (rpmsg_queue_destroy rl (ipc_rpmsg s) (qe_queue e)) s;
            let ret = (if ok then ret else OBLFR_ERR_ERROR);
            Some (ret, s\<lparr>entry_heap := (entry_heap s)(a := None)\<rparr>)
          }
        })"

definition oblfr_rpmsg_device_send ::
  "'w rpmsg_lite \<Rightarrow> nat option \<Rightarrow> bytes \<Rightarrow> u32 \<Rightarrow> u32 \<Rightarrow> 'w rpmsg \<Rightarrow> (oblfr_err \<times> 'w rpmsg) option" where
  "oblfr_rpmsg_device_send rl device data len timeout s =
     (case device of
        None \<Rightarrow> Some (OBLFR_ERR_INVALID, s)
      | Some a \<Rightarrow> do {
          e \<leftarrow> entry_heap s a;
          if \<not> qe_valid e then Some (OBLFR_ERR_INVALID, s)
          else if len > RL_BUFFER_PAYLOAD_SIZE then Some (OBLFR_ERR_INVALID, s)
          else if qe_dst e = RL_ADDR_ANY then Some (OBLFR_ERR_INVALID, s)
          else if \<not> rpmsg_lite_is_link_up rl (ipc_rpmsg s) (rpmsg_world s) then Some (OBLFR_ERR_ERROR, s)
          else do {
            let (ok, s) = rl_call (rpmsg_lite_send rl (ipc_rpmsg s) (qe_ept e) (qe_dst e) data len timeout) s;
            if \<not> ok then Some (OBLFR_ERR_ERROR, s)
            else do {
              s \<leftarrow> upd_entry a (\<lambda>e. e\<lparr>qe_sent := qe_sent e + 1\<rparr>) s;
              Some (OBLFR_OK, s)
            }
          }
        })"

definition oblfr_rpmsg_device_send_buffer_alloc ::
  "'w rpmsg_lite \<Rightarrow> nat option \<Rightarrow> u32 \<Rightarrow> 'w rpmsg \<Rightarrow> ((nat \<times> u32) option \<times> 'w rpmsg) option" where
  "oblfr_rpmsg_device_send_buffer_alloc rl device timeout s =
     (case device of
        None \<Rightarrow> Some (None, s)
      | Some a \<Rightarrow> do {
          e \<leftarrow> entry_heap s a;
          if \<not> qe_valid e then Some (None, s)
          else if qe_dst e = RL_ADDR_ANY then Some (None, s)
          else if \<not> rpmsg_lite_is_link_up rl (ipc_rpmsg s) (rpmsg_world s) then Some (None, s)
          else Some (rl_call (rpmsg_lite_alloc_tx_buffer rl (ipc_rpmsg s) timeout) s)
        })"

definition oblfr_rpmsg_device_send_buffer ::
  "'w rpmsg_lite \<Rightarrow> nat option \<Rightarrow> nat \<Rightarrow> u32 \<Rightarrow> 'w rpmsg \<Rightarrow> (oblfr_err \<times> 'w rpmsg) option" where
  "oblfr_rpmsg_device_send_buffer rl device buffer len s =
     (case device of
        None \<Rightarrow> Some (OBLFR_ERR_INVALID, s)
      | Some a \<Rightarrow> do {
          e \<leftarrow> entry_heap s a;
          if \<not> qe_valid e then Some (OBLFR_ERR_INVALID, s)
          else if len > RL_BUFFER_PAYLOAD_SIZE then Some (OBLFR_ERR_INVALID, s)
          else if qe_dst e = RL_ADDR_ANY then Some (OBLFR_ERR_INVALID, s)
          else if \<not> rpmsg_lite_is_link_up rl (ipc_rpmsg s) (rpmsg_world s) then Some (OBLFR_ERR_INVALID, s)
          else do {
            let (ok, s) = rl_call (rpmsg_lite_send_nocopy rl (ipc_rpmsg s) (qe_ept e) (qe_dst e) buffer len) s;
            if \<not> ok then Some (OBLFR_ERR_ERROR, s)
            else do {
              s \<leftarrow> upd_entry a (\<lambda>e. e\<lparr>qe_sent := qe_sent e + 1\<rparr>) s;
              Some (OBLFR_OK, s)
            }
          }
        })"

definition oblfr_rpmsg_get_mtu :: u32 where
  "oblfr_rpmsg_get_mtu = RL_BUFFER_PAYLOAD_SIZE"

definition oblfr_rpmsg_is_ready :: "'w rpmsg_lite \<Rightarrow> 'w rpmsg \<Rightarrow> bool" where
  "oblfr_rpmsg_is_ready rl s = rpmsg_lite_is_link_up rl (ipc_rpmsg s) (rpmsg_world s)"

text \<open>
  \<^verbatim>\<open>oblfr_rpmsg_dump\<close> without its log output, and so without the fields of the instance that only the log
  reads (the link is up by then): the walk over the list reads every entry.
\<close>

definition oblfr_rpmsg_dump :: "'w rpmsg_lite \<Rightarrow> 'w rpmsg \<Rightarrow> oblfr_err option" where
  "oblfr_rpmsg_dump rl s =
     (if \<not> rpmsg_lite_is_link_up rl (ipc_rpmsg s) (rpmsg_world s) then Some OBLFR_ERR_INVALID
      else if \<forall>a\<in>set (rpmsg_queues s). entry_heap s a \<noteq> None then Some OBLFR_OK else None)"

section \<open>The task\<close>

definition oblfr_process_queue :: "'w rpmsg_lite \<Rightarrow> nat \<Rightarrow> 'w rpmsg \<Rightarrow> 'w rpmsg option" where
  "oblfr_process_queue rl a s = do {
     e \<leftarrow> entry_heap s a;
     let (r, s) = rl_call (rpmsg_queue_recv_nocopy rl (ipc_rpmsg s) (qe_queue e)) s;
     case r of
       None \<Rightarrow> Some s
     | Some (src, rx_msg, len) \<Rightarrow> do {
         s \<leftarrow> upd_entry a (\<lambda>e. e\<lparr>qe_dst := src\<rparr>) s;
         let s = s\<lparr>rpmsg_world := cfg_cb (qe_cfg e) rx_msg len (cfg_priv (qe_cfg e)) (rpmsg_world s)\<rparr>;
         let (_, s) = rl_call (rpmsg_queue_nocopy_free rl (ipc_rpmsg s) rx_msg) s;
         upd_entry a (\<lambda>e. e\<lparr>qe_received := qe_received e + 1\<rparr>) s
       }
   }"

text \<open>The start of \<^verbatim>\<open>oblfr_rpmsg_task\<close>: the wait for the link, the binding of the name service, and the announcements.\<close>

partial_function (option) wait_link_up :: "'w rpmsg_lite \<Rightarrow> 'w rpmsg \<Rightarrow> 'w rpmsg option" where
  "wait_link_up rl s =
     (if rpmsg_lite_is_link_up rl (ipc_rpmsg s) (rpmsg_world s) then Some s
      else wait_link_up rl (s\<lparr>rpmsg_world := delay_ms rl 100 (rpmsg_world s)\<rparr>))"

fun announce_all :: "'w rpmsg_lite \<Rightarrow> nat list \<Rightarrow> 'w rpmsg \<Rightarrow> 'w rpmsg option" where
  "announce_all rl [] s = Some s"
| "announce_all rl (a # as) s = do {
     e \<leftarrow> entry_heap s a;
     let (_, s) = rl_call (rpmsg_ns_announce rl (ipc_rpmsg s) (qe_ept e) (cfg_name (qe_cfg e)) RL_NS_CREATE) s;
     announce_all rl as s
   }"

text \<open>The flag tells whether the task goes on to its loop.\<close>

definition rpmsg_task_start :: "'w rpmsg_lite \<Rightarrow> 'w rpmsg \<Rightarrow> (bool \<times> 'w rpmsg) option" where
  "rpmsg_task_start rl s = do {
     s \<leftarrow> wait_link_up rl s;
     let (ns, s) = rl_call (rpmsg_ns_bind rl (ipc_rpmsg s)) s;
     let s = s\<lparr>ipc_rpmsg_ns := ns\<rparr>;
     if ns = None then
       Some (False, s\<lparr>rpmsg_world := rpmsg_lite_deinit rl (ipc_rpmsg s) (rpmsg_world s), ipc_rpmsg := None\<rparr>)
     else do {
       s \<leftarrow> announce_all rl (rpmsg_queues s) s;
       Some (True, s)
     }
   }"

text \<open>The search for the activated queue, and one round of the endless loop.\<close>

fun activated_walk :: "'w rpmsg_lite \<Rightarrow> nat \<Rightarrow> nat list \<Rightarrow> 'w rpmsg \<Rightarrow> 'w rpmsg option" where
  "activated_walk rl m [] s = Some s"
| "activated_walk rl m (a # as) s = do {
     e \<leftarrow> entry_heap s a;
     if qe_queue e = Some m then oblfr_process_queue rl a s else activated_walk rl m as s
   }"

definition rpmsg_task_round :: "'w rpmsg_lite \<Rightarrow> 'w rpmsg \<Rightarrow> 'w rpmsg option" where
  "rpmsg_task_round rl s = do {
     let (m, s) = rl_call (xQueueSelectFromSet rl (xQueueSet s) 1000) s;
     case m of
       Some m \<Rightarrow> activated_walk rl m (rpmsg_queues s) s
     | None \<Rightarrow> Some (s\<lparr>rpmsg_world := env_isr rl 1 (rpmsg_world s)\<rparr>)
   }"

fun rpmsg_task_loop :: "'w rpmsg_lite \<Rightarrow> nat \<Rightarrow> 'w rpmsg \<Rightarrow> 'w rpmsg option" where
  "rpmsg_task_loop rl 0 s = Some s"
| "rpmsg_task_loop rl (Suc n) s = do { s \<leftarrow> rpmsg_task_round rl s; rpmsg_task_loop rl n s }"

text \<open>\<^verbatim>\<open>oblfr_rpmsg_task\<close> up to the end of \<open>n\<close> rounds of its loop.\<close>

definition oblfr_rpmsg_task :: "'w rpmsg_lite \<Rightarrow> nat \<Rightarrow> 'w rpmsg \<Rightarrow> 'w rpmsg option" where
  "oblfr_rpmsg_task rl n s = do {
     (on, s) \<leftarrow> rpmsg_task_start rl s;
     if on then rpmsg_task_loop rl n s else Some s
   }"

end
