(* ===== verification/Rpmsg_Run.thy ===== *)
theory Rpmsg_Run
  imports Rpmsg
begin

text \<open>
  The rpmsg module over its runs: the invariant of the list of devices and the reachable states, for any behaviour of the library
  below; and the delivery of messages by the task, for a library that keeps the laws of the locale \<open>rpmsg_link\<close>.
\<close>

section \<open>The list of devices in memory\<close>

text \<open>
  The invariant, for the handles \<open>H\<close> that callers hold: the list has no entry twice and only allocated ones, every held handle is an
  entry of the list that is marked valid, and the allocator gives out free memory.
\<close>

definition rpmsg_inv :: "nat set \<Rightarrow> 'w rpmsg \<Rightarrow> bool" where
  "rpmsg_inv H s \<longleftrightarrow> distinct (rpmsg_queues s) \<and> set (rpmsg_queues s) \<subseteq> dom (entry_heap s) \<and> H \<subseteq> set (rpmsg_queues s) \<and>
     (\<forall>a\<in>H. map_option qe_valid (entry_heap s a) = Some True) \<and>
     (\<forall>h a e. entry_alloc s h = Some (a, e) \<longrightarrow> h a = None)"

text \<open>What the operations on a device change at most: destinations and counters.\<close>

definition fixed_part :: "'w queue_entry \<Rightarrow> bool \<times> nat option \<times> nat option \<times> 'w device_cfg" where
  "fixed_part e = (qe_valid e, qe_queue e, qe_ept e, qe_cfg e)"

definition keeps :: "'w rpmsg \<Rightarrow> 'w rpmsg \<Rightarrow> bool" where
  "keeps s s' \<longleftrightarrow> rpmsg_queues s' = rpmsg_queues s \<and> entry_alloc s' = entry_alloc s \<and>
     (\<forall>a. map_option fixed_part (entry_heap s' a) = map_option fixed_part (entry_heap s a))"

lemma fixed_part_upd [simp]:
  "fixed_part (e\<lparr>qe_dst := d\<rparr>) = fixed_part e" "fixed_part (e\<lparr>qe_sent := n\<rparr>) = fixed_part e"
  "fixed_part (e\<lparr>qe_received := n\<rparr>) = fixed_part e"
  by (simp_all add: fixed_part_def)

lemma keeps_refl [simp]: "keeps s s"
  by (simp add: keeps_def)

lemma keeps_trans: "keeps s s1 \<Longrightarrow> keeps s1 s2 \<Longrightarrow> keeps s s2"
  by (simp add: keeps_def)

lemma keeps_world [simp]: "keeps s (s'\<lparr>rpmsg_world := w\<rparr>) = keeps s s'" "keeps s (s'\<lparr>ipc_rpmsg := i\<rparr>) = keeps s s'"
  "keeps s (s'\<lparr>ipc_rpmsg_ns := n\<rparr>) = keeps s s'" "keeps s (s'\<lparr>xQueueSet := q\<rparr>) = keeps s s'"
  by (simp_all add: keeps_def)

lemma keeps_at: "keeps s s' \<Longrightarrow> map_option fixed_part (entry_heap s' a) = map_option fixed_part (entry_heap s a)"
  by (simp add: keeps_def)

lemma keeps_heap: "keeps s s' \<Longrightarrow> entry_heap s' a = None \<longleftrightarrow> entry_heap s a = None"
  using keeps_at[of s s' a] by (cases "entry_heap s a"; cases "entry_heap s' a") simp_all

lemma keeps_valid: "keeps s s' \<Longrightarrow> map_option qe_valid (entry_heap s' a) = map_option qe_valid (entry_heap s a)"
  using keeps_at[of s s' a] by (cases "entry_heap s a"; cases "entry_heap s' a") (simp_all add: fixed_part_def)

lemma keeps_inv: "keeps s s' \<Longrightarrow> rpmsg_inv H s \<Longrightarrow> rpmsg_inv H s'"
proof -
  assume k: "keeps s s'" and "rpmsg_inv H s"
  moreover have "dom (entry_heap s') = dom (entry_heap s)"
    using keeps_heap[OF k] by (simp add: dom_def)
  ultimately show ?thesis
    using keeps_valid[OF k] by (simp add: rpmsg_inv_def keeps_def)
qed

lemma rl_call_keeps: "rl_call f s = (r, s') \<Longrightarrow> keeps s s' \<and> entry_heap s' = entry_heap s"
  by (auto simp: rl_call_def split: prod.splits)

lemma upd_entry_Some:
  assumes "entry_heap s a = Some e"
  shows "upd_entry a f s = Some (s\<lparr>entry_heap := (entry_heap s)(a \<mapsto> f e)\<rparr>)"
  using assms by (simp add: upd_entry_def)

lemma upd_entry_keeps:
  assumes "upd_entry a f s = Some s'" "\<And>e. fixed_part (f e) = fixed_part e"
  shows "keeps s s'"
  using assms by (auto simp: upd_entry_def keeps_def split: option.splits)

lemma upd_entry_defined: "upd_entry a f s = None \<longleftrightarrow> entry_heap s a = None"
  by (simp add: upd_entry_def split: option.splits)

text \<open>A run of a partial operation that is defined and keeps the list.\<close>

definition safe :: "'w rpmsg option \<Rightarrow> 'w rpmsg \<Rightarrow> bool" where
  "safe r s \<longleftrightarrow> (\<exists>s'. r = Some s' \<and> keeps s s')"

lemma ns_walk_safe: "set as \<subseteq> dom (entry_heap s) \<Longrightarrow> safe (ns_walk n nm fl as s) s"
proof (induction as arbitrary: s)
  case (Cons a as)
  then obtain e where "entry_heap s a = Some e"
    by auto
  then show ?case
    using Cons by (auto simp: safe_def upd_entry_def keeps_def split: option.splits)
qed (simp add: safe_def)

lemma process_queue_safe:
  assumes "entry_heap s a = Some e"
  shows "safe (oblfr_process_queue rl a s) s"
proof -
  obtain r w where "rpmsg_queue_recv_nocopy rl (ipc_rpmsg s) (qe_queue e) (rpmsg_world s) = (r, w)"
    by fastforce
  then show ?thesis
    using assms by (auto simp: oblfr_process_queue_def rl_call_def safe_def upd_entry_def keeps_def split: option.splits prod.splits)
qed

lemma activated_walk_safe: "set as \<subseteq> dom (entry_heap s) \<Longrightarrow> safe (activated_walk rl m as s) s"
proof (induction as arbitrary: s)
  case (Cons a as)
  then obtain e where "entry_heap s a = Some e"
    by auto
  then show ?case
    using Cons process_queue_safe[of s a e rl] by auto
qed (simp add: safe_def)

lemma round_safe:
  assumes "set (rpmsg_queues s) \<subseteq> dom (entry_heap s)"
  shows "safe (rpmsg_task_round rl s) s"
proof -
  obtain m w where "xQueueSelectFromSet rl (xQueueSet s) 1000 (rpmsg_world s) = (m, w)"
    by fastforce
  then show ?thesis
    using activated_walk_safe[of "rpmsg_queues s" "s\<lparr>rpmsg_world := w\<rparr>" rl] assms
    by (auto simp: rpmsg_task_round_def rl_call_def safe_def keeps_def split: option.splits)
qed

lemma announce_all_safe: "set as \<subseteq> dom (entry_heap s) \<Longrightarrow> safe (announce_all rl as s) s"
proof (induction as arbitrary: s)
  case (Cons a as)
  then obtain e where e: "entry_heap s a = Some e"
    by auto
  obtain r s1 where r: "rl_call (rpmsg_ns_announce rl (ipc_rpmsg s) (qe_ept e) (cfg_name (qe_cfg e)) 0) s = (r, s1)"
    by fastforce
  then show ?case
    using rl_call_keeps[OF r] Cons.IH[of s1] Cons.prems e by (auto simp: safe_def intro: keeps_trans)
qed (simp add: safe_def)

lemma rpmsg_inv_add:
  assumes "rpmsg_inv H s" "entry_alloc s (entry_heap s) = Some (a, j)"
    and "entry_heap s' a = Some e" "\<And>b. b \<noteq> a \<Longrightarrow> entry_heap s' b = entry_heap s b" "entry_alloc s' = entry_alloc s"
    and "rpmsg_queues s' = rpmsg_queues s \<and> H' = H \<or> rpmsg_queues s' = a # rpmsg_queues s \<and> (H' = H \<or> H' = insert a H \<and> qe_valid e)"
  shows "rpmsg_inv H' s'"
proof -
  have "entry_heap s a = None"
    using assms(1,2) by (auto simp: rpmsg_inv_def)
  then have "a \<notin> set (rpmsg_queues s)" "a \<notin> H"
    using assms(1) by (auto simp: rpmsg_inv_def)
  moreover have "entry_heap s' = (entry_heap s)(a \<mapsto> e)"
    using assms(3,4) by auto
  ultimately show ?thesis
    using assms(1,5,6) by (auto simp: rpmsg_inv_def)
qed

text \<open>
  The outcomes of \<^verbatim>\<open>oblfr_rpmsg_device_add\<close> when there is memory: an entry that is allocated and not in the list; an entry
  that is in the list although the call failed, with its old destination; success.
\<close>

definition add_outcome :: "'w device_cfg \<Rightarrow> nat \<Rightarrow> 'w queue_entry \<Rightarrow> 'w rpmsg \<Rightarrow> nat option \<times> 'w rpmsg \<Rightarrow> bool" where
  "add_outcome cfg a j s r \<longleftrightarrow> (case r of (h, s') \<Rightarrow>
     (\<forall>b. b \<noteq> a \<longrightarrow> entry_heap s' b = entry_heap s b) \<and> entry_alloc s' = entry_alloc s \<and> ipc_rpmsg s' = ipc_rpmsg s \<and>
     (\<exists>e. entry_heap s' a = Some e \<and> qe_cfg e = cfg \<and>
       (h = None \<and> rpmsg_queues s' = rpmsg_queues s \<or>
        h = None \<and> rpmsg_queues s' = a # rpmsg_queues s \<and> qe_dst e = qe_dst j \<and> qe_valid e = qe_valid j \<or>
        h = Some a \<and> rpmsg_queues s' = a # rpmsg_queues s \<and> qe_dst e = 0xFFFFFFFF \<and> qe_valid e \<and>
          qe_sent e = 0 \<and> qe_received e = 0)))"

lemma device_add_outcome:
  assumes "entry_alloc s (entry_heap s) = Some (a, j)"
  shows "\<exists>r. oblfr_rpmsg_device_add rl cfg s = Some r \<and> add_outcome cfg a j s r"
proof -
  obtain q1 w1 where 1: "rpmsg_queue_create rl (ipc_rpmsg s) (rpmsg_world s) = (q1, w1)"
    by fastforce
  obtain e2 w2 where 2: "rpmsg_lite_create_ept rl (ipc_rpmsg s) 0xFFFFFFFF q1 w1 = (e2, w2)"
    by fastforce
  obtain b3 w3 where 3: "xQueueAddToSet rl q1 (xQueueSet s) w2 = (b3, w3)"
    by fastforce
  obtain b4 w4 where 4: "rpmsg_ns_announce rl (ipc_rpmsg s) e2 (cfg_name cfg) 0 w3 = (b4, w4)"
    by fastforce
  note step = oblfr_rpmsg_device_add_def add_outcome_def rl_call_def upd_entry_def split_beta Let_def
  consider "q1 = None" | "q1 \<noteq> None" "e2 = None" | "q1 \<noteq> None" "e2 \<noteq> None" "\<not> b3" | "q1 \<noteq> None" "e2 \<noteq> None" b3
    by blast
  then show ?thesis
  proof cases
    case 4
    then show ?thesis
      using assms 1 2 3 \<open>rpmsg_ns_announce _ _ _ _ _ _ = _\<close>
      by (cases "rpmsg_lite_is_link_up rl (ipc_rpmsg s) w3"; cases b4) (simp_all add: step)
  qed (use assms 1 2 3 in \<open>simp_all add: step\<close>)
qed

lemma device_add_safe:
  assumes "rpmsg_inv H s"
  shows "\<exists>h s'. oblfr_rpmsg_device_add rl cfg s = Some (h, s') \<and> rpmsg_inv (H \<union> set_option h) s'"
proof (cases "entry_alloc s (entry_heap s)")
  case None
  then show ?thesis
    using assms by (simp add: oblfr_rpmsg_device_add_def)
next
  case (Some p)
  obtain a j where p: "p = (a, j)"
    by fastforce
  obtain h s' where r: "oblfr_rpmsg_device_add rl cfg s = Some (h, s')" "add_outcome cfg a j s (h, s')"
    using device_add_outcome[of s a j] Some p by fastforce
  obtain e where "entry_heap s' a = Some e" "\<And>b. b \<noteq> a \<Longrightarrow> entry_heap s' b = entry_heap s b"
    "entry_alloc s' = entry_alloc s"
    "rpmsg_queues s' = rpmsg_queues s \<and> H \<union> set_option h = H \<or> rpmsg_queues s' = a # rpmsg_queues s \<and>
      (H \<union> set_option h = H \<or> H \<union> set_option h = insert a H \<and> qe_valid e)"
    using r(2) unfolding add_outcome_def by auto
  from rpmsg_inv_add[OF assms Some[unfolded p] this] show ?thesis
    using r(1) by blast
qed

lemma device_remove_safe:
  assumes "rpmsg_inv H s" "a \<in> H"
  shows "\<exists>r s'. oblfr_rpmsg_device_remove rl (Some a) s = Some (r, s') \<and> rpmsg_inv (H - {a}) s' \<and>
    a \<notin> set (rpmsg_queues s') \<and> entry_heap s' a = None"
proof -
  obtain e where e: "entry_heap s a = Some e" "qe_valid e" "a \<in> set (rpmsg_queues s)"
    using assms unfolding rpmsg_inv_def by (auto dest!: bspec[of H _ a])
  have "\<exists>r s'. oblfr_rpmsg_device_remove rl (Some a) s = Some (r, s') \<and> rpmsg_queues s' = remove1 a (rpmsg_queues s) \<and>
    entry_heap s' = (entry_heap s)(a := None) \<and> entry_alloc s' = entry_alloc s"
    using e by (simp add: oblfr_rpmsg_device_remove_def rpmsg_list_remove_def rl_call_def split_beta Let_def)
  then obtain r s' where s': "oblfr_rpmsg_device_remove rl (Some a) s = Some (r, s')"
    "rpmsg_queues s' = remove1 a (rpmsg_queues s)" "entry_heap s' = (entry_heap s)(a := None)" "entry_alloc s' = entry_alloc s"
    by blast
  have "rpmsg_inv (H - {a}) s'" "a \<notin> set (rpmsg_queues s')"
    using assms s' by (auto simp: rpmsg_inv_def)
  then show ?thesis
    using s' by simp
qed

lemma send_safe:
  assumes "entry_heap s a = Some e"
  shows "\<exists>r s'. oblfr_rpmsg_device_send rl (Some a) data len t s = Some (r, s') \<and> keeps s s'"
    and "\<exists>r s'. oblfr_rpmsg_device_send_buffer_alloc rl (Some a) t s = Some (r, s') \<and> keeps s s'"
    and "\<exists>r s'. oblfr_rpmsg_device_send_buffer rl (Some a) buf len s = Some (r, s') \<and> keeps s s'"
  using assms
  by (simp_all add: oblfr_rpmsg_device_send_def oblfr_rpmsg_device_send_buffer_alloc_def oblfr_rpmsg_device_send_buffer_def
      rl_call_def upd_entry_def split_beta Let_def) (simp_all add: keeps_def)

section \<open>The reachable states\<close>

text \<open>
  A state with the handles that callers hold. Callers add, remove and use devices; the other core announces endpoints; the
  task starts and goes round; and the world outside changes in any way at any time, the link included.
\<close>

inductive rpmsg_step :: "'w rpmsg_lite \<Rightarrow> nat set \<times> 'w rpmsg \<Rightarrow> nat set \<times> 'w rpmsg \<Rightarrow> bool" for rl where
  init: "init_rpmsg rl s = Some (r, s') \<Longrightarrow> rpmsg_step rl (H, s) (H, s')"
| add: "oblfr_rpmsg_device_add rl cfg s = Some (h, s') \<Longrightarrow> rpmsg_step rl (H, s) (H \<union> set_option h, s')"
| remove: "a \<in> H \<Longrightarrow> oblfr_rpmsg_device_remove rl (Some a) s = Some (r, s') \<Longrightarrow> rpmsg_step rl (H, s) (H - {a}, s')"
| send: "a \<in> H \<Longrightarrow> oblfr_rpmsg_device_send rl (Some a) data len t s = Some (r, s') \<Longrightarrow> rpmsg_step rl (H, s) (H, s')"
| alloc: "a \<in> H \<Longrightarrow> oblfr_rpmsg_device_send_buffer_alloc rl (Some a) t s = Some (b, s') \<Longrightarrow> rpmsg_step rl (H, s) (H, s')"
| send_buffer: "a \<in> H \<Longrightarrow> oblfr_rpmsg_device_send_buffer rl (Some a) buf len s = Some (r, s') \<Longrightarrow> rpmsg_step rl (H, s) (H, s')"
| announced: "ipc_rpmsg_ns_callback ept name flags s = Some s' \<Longrightarrow> rpmsg_step rl (H, s) (H, s')"
| start: "rpmsg_task_start rl s = Some (on, s') \<Longrightarrow> rpmsg_step rl (H, s) (H, s')"
| round: "rpmsg_task_round rl s = Some s' \<Longrightarrow> rpmsg_step rl (H, s) (H, s')"
| outside: "rpmsg_step rl (H, s) (H, s\<lparr>rpmsg_world := w\<rparr>)"

text \<open>At power-up the list is empty and nothing is allocated.\<close>

definition rpmsg_initial :: "'w rpmsg \<Rightarrow> bool" where
  "rpmsg_initial s \<longleftrightarrow> rpmsg_queues s = [] \<and> entry_heap s = Map.empty \<and>
     (\<forall>h a e. entry_alloc s h = Some (a, e) \<longrightarrow> h a = None)"

lemma wait_link_up_keeps: "wait_link_up rl s = Some s' \<Longrightarrow> keeps s s' \<and> rpmsg_lite_is_link_up rl (ipc_rpmsg s') (rpmsg_world s')"
  by (erule wait_link_up.raw_induct[of "\<lambda>rl s s'. keeps s s' \<and> rpmsg_lite_is_link_up rl (ipc_rpmsg s') (rpmsg_world s')", rotated])
    (fastforce simp: keeps_def split: if_splits)

lemma init_keeps: "init_rpmsg rl s = Some (r, s') \<Longrightarrow> keeps s s'"
  by (auto simp: init_rpmsg_def rl_call_def split_beta Let_def split: if_splits)

lemma inv_entries: "rpmsg_inv H s \<Longrightarrow> set (rpmsg_queues s) \<subseteq> dom (entry_heap s)"
  by (simp add: rpmsg_inv_def)

lemma inv_handle: "rpmsg_inv H s \<Longrightarrow> a \<in> H \<Longrightarrow> \<exists>e. entry_heap s a = Some e \<and> qe_valid e"
  by (auto simp: rpmsg_inv_def)

lemma start_keeps:
  assumes "rpmsg_task_start rl s = Some (on, s')" "rpmsg_inv H s"
  shows "keeps s s'"
proof -
  obtain s1 where 1: "wait_link_up rl s = Some s1" "keeps s s1"
    using assms(1) wait_link_up_keeps[of rl s] by (auto simp: rpmsg_task_start_def split: Option.bind_splits)
  obtain ns w where 2: "rpmsg_ns_bind rl (ipc_rpmsg s1) (rpmsg_world s1) = (ns, w)"
    by fastforce
  have "set (rpmsg_queues s1) \<subseteq> dom (entry_heap s1)"
    using keeps_inv[OF 1(2) assms(2)] inv_entries by blast
  then show ?thesis
    using assms(1) 1 2 announce_all_safe[of "rpmsg_queues s1" "s1\<lparr>rpmsg_world := w, ipc_rpmsg_ns := ns\<rparr>" rl]
    by (auto simp: rpmsg_task_start_def rl_call_def safe_def keeps_def Let_def split: if_splits Option.bind_splits)
qed

lemma rpmsg_step_inv: "rpmsg_step rl p p' \<Longrightarrow> rpmsg_inv (fst p) (snd p) \<Longrightarrow> rpmsg_inv (fst p') (snd p')"
proof (induction rule: rpmsg_step.induct)
  case (init s r s' H)
  then show ?case
    using init_keeps keeps_inv by fastforce
next
  case (add cfg s h s' H)
  then show ?case
    using device_add_safe[of H s rl cfg] by simp
next
  case (remove a H s r s')
  then show ?case
    using device_remove_safe[of H s a rl] by simp
next
  case (send a H data len t s r s')
  then obtain e where "entry_heap s a = Some e"
    using inv_handle by force
  then show ?case
    using send send_safe(1)[of s a e rl data len t] keeps_inv by force
next
  case (alloc a H t s b s')
  then obtain e where "entry_heap s a = Some e"
    using inv_handle by force
  then show ?case
    using alloc send_safe(2)[of s a e rl t] keeps_inv by force
next
  case (send_buffer a H buf len s r s')
  then obtain e where "entry_heap s a = Some e"
    using inv_handle by force
  then show ?case
    using send_buffer send_safe(3)[of s a e rl buf len] keeps_inv by force
next
  case (announced ept name flags s s' H)
  then show ?case
    using ns_walk_safe[of "rpmsg_queues s" s ept name flags] inv_entries[of H s] keeps_inv[of s s' H]
    by (auto simp: ipc_rpmsg_ns_callback_def safe_def)
next
  case (start s on s' H)
  then show ?case
    using start_keeps[of rl s on s' H] keeps_inv[of s s' H] by simp
next
  case (round s s' H)
  then show ?case
    using round_safe[of s rl] inv_entries[of H s] keeps_inv[of s s' H] by (auto simp: safe_def)
next
  case (outside H s w)
  then show ?case
    by (simp add: rpmsg_inv_def)
qed

lemma rpmsg_reachable_inv:
  assumes "(rpmsg_step rl)\<^sup>*\<^sup>* ({}, s0) (H, s)" "rpmsg_initial s0"
  shows "rpmsg_inv H s"
proof -
  have "rpmsg_inv (fst p) (snd p)" if "(rpmsg_step rl)\<^sup>*\<^sup>* ({}, s0) p" for p
    using that
  proof induction
    case base
    show ?case
      using assms(2) by (simp add: rpmsg_initial_def rpmsg_inv_def)
  qed (rule rpmsg_step_inv)
  from this[OF assms(1)] show ?thesis
    by simp
qed

section \<open>Delivery\<close>

text \<open>A device whose callback noting what it is given, under the device's private word.\<close>

definition noting :: "('w \<Rightarrow> nat \<Rightarrow> (u32 \<times> nat \<times> u32) list) \<Rightarrow> ('w \<Rightarrow> (nat \<times> nat \<times> u32) list) \<Rightarrow> 'w device_cfg \<Rightarrow> bool" where
  "noting pending seen cfg \<longleftrightarrow> (\<forall>d len p w. seen (cfg_cb cfg d len p w) = seen w @ [(p, d, len)] \<and> pending (cfg_cb cfg d len p w) = pending w)"

definition queue_at :: "'w rpmsg \<Rightarrow> nat \<Rightarrow> nat option" where
  "queue_at s a = Option.bind (entry_heap s a) qe_queue"

definition waiting :: "('w \<Rightarrow> nat \<Rightarrow> (u32 \<times> nat \<times> u32) list) \<Rightarrow> 'w rpmsg \<Rightarrow> nat \<Rightarrow> (u32 \<times> nat \<times> u32) list" where
  "waiting pending s a = (case queue_at s a of None \<Rightarrow> [] | Some q \<Rightarrow> pending (rpmsg_world s) q)"

definition priv_at :: "'w rpmsg \<Rightarrow> nat \<Rightarrow> nat option" where
  "priv_at s a = map_option (\<lambda>e. cfg_priv (qe_cfg e)) (entry_heap s a)"

text \<open>
  A state in which the task can deliver: the instance is there, the devices of the list have different queues and private words and
  note what they are given, and no other queue has messages.
\<close>

definition ready :: "('w \<Rightarrow> nat \<Rightarrow> (u32 \<times> nat \<times> u32) list) \<Rightarrow> ('w \<Rightarrow> (nat \<times> nat \<times> u32) list) \<Rightarrow> 'w rpmsg \<Rightarrow> bool" where
  "ready pending seen s \<longleftrightarrow> ipc_rpmsg s \<noteq> None \<and> distinct (rpmsg_queues s) \<and> inj_on (queue_at s) (set (rpmsg_queues s)) \<and>
     inj_on (priv_at s) (set (rpmsg_queues s)) \<and>
     (\<forall>a\<in>set (rpmsg_queues s). queue_at s a \<noteq> None \<and> (\<forall>e. entry_heap s a = Some e \<longrightarrow> noting pending seen (qe_cfg e))) \<and>
     (\<forall>q. pending (rpmsg_world s) q \<noteq> [] \<longrightarrow> Some q \<in> queue_at s ` set (rpmsg_queues s))"

definition backlog :: "('w \<Rightarrow> nat \<Rightarrow> (u32 \<times> nat \<times> u32) list) \<Rightarrow> 'w rpmsg \<Rightarrow> nat" where
  "backlog pending s = (\<Sum>a\<leftarrow>rpmsg_queues s. length (waiting pending s a))"

text \<open>The device \<open>a\<close> has been given the message \<open>m\<close>.\<close>

definition served ::
  "('w \<Rightarrow> nat \<Rightarrow> (u32 \<times> nat \<times> u32) list) \<Rightarrow> ('w \<Rightarrow> (nat \<times> nat \<times> u32) list) \<Rightarrow> nat \<Rightarrow> u32 \<times> nat \<times> u32 \<Rightarrow> 'w rpmsg \<Rightarrow> 'w rpmsg \<Rightarrow> bool" where
  "served pending seen a m s s' \<longleftrightarrow> rpmsg_queues s' = rpmsg_queues s \<and> ipc_rpmsg s' = ipc_rpmsg s \<and>
     (\<exists>e q. entry_heap s a = Some e \<and> qe_queue e = Some q \<and>
       entry_heap s' = (entry_heap s)(a \<mapsto> e\<lparr>qe_dst := fst m, qe_received := qe_received e + 1\<rparr>) \<and>
       (\<exists>ms. pending (rpmsg_world s) q = m # ms \<and> pending (rpmsg_world s') = (pending (rpmsg_world s))(q := ms)) \<and>
       seen (rpmsg_world s') = seen (rpmsg_world s) @ [(cfg_priv (qe_cfg e), snd m)])"

text \<open>
  All messages that waited have been delivered: every queue is empty, and each device has been given its messages in order, has
  counted them, and has the sender of the last one as its destination.
\<close>

definition given :: "('w \<Rightarrow> (nat \<times> nat \<times> u32) list) \<Rightarrow> nat \<Rightarrow> 'w rpmsg \<Rightarrow> (nat \<times> u32) list" where
  "given seen p s = map snd (filter (\<lambda>x. fst x = p) (seen (rpmsg_world s)))"

definition delivered ::
  "('w \<Rightarrow> nat \<Rightarrow> (u32 \<times> nat \<times> u32) list) \<Rightarrow> ('w \<Rightarrow> (nat \<times> nat \<times> u32) list) \<Rightarrow> 'w rpmsg \<Rightarrow> 'w rpmsg \<Rightarrow> bool" where
  "delivered pending seen s s' \<longleftrightarrow> rpmsg_queues s' = rpmsg_queues s \<and> (\<forall>q. pending (rpmsg_world s') q = []) \<and>
     (\<forall>a\<in>set (rpmsg_queues s). \<exists>e e'. entry_heap s a = Some e \<and> entry_heap s' a = Some e' \<and>
        qe_received e' = qe_received e + of_nat (length (waiting pending s a)) \<and>
        qe_dst e' = (if waiting pending s a = [] then qe_dst e else fst (last (waiting pending s a))) \<and>
        given seen (cfg_priv (qe_cfg e)) s' = given seen (cfg_priv (qe_cfg e)) s @ map snd (waiting pending s a))"

text \<open>
  What the task relies on below it: the messages that wait in a queue (\<open>pending\<close>) are taken out in order, the set names a queue with
  waiting messages as long as there is one, and giving back a buffer takes nothing away. \<open>seen\<close> stands for what the callbacks of
  the devices have been given; the library does not change it.
\<close>

locale rpmsg_link =
  fixes rl :: "'w rpmsg_lite"
    and pending :: "'w \<Rightarrow> nat \<Rightarrow> (u32 \<times> nat \<times> u32) list"
    and seen :: "'w \<Rightarrow> (nat \<times> nat \<times> u32) list"
  assumes select_some: "xQueueSelectFromSet rl qs t w = (Some q, w') \<Longrightarrow>
      pending w q \<noteq> [] \<and> pending w' = pending w \<and> seen w' = seen w"
    and select_none: "xQueueSelectFromSet rl qs t w = (None, w') \<Longrightarrow> pending w q = []"
    and recv: "pending w q = m # ms \<Longrightarrow>
      \<exists>w'. rpmsg_queue_recv_nocopy rl (Some i) (Some q) w = (Some m, w') \<and> pending w' = (pending w)(q := ms) \<and> seen w' = seen w"
    and free: "pending (snd (rpmsg_queue_nocopy_free rl j d w)) = pending w"
      "seen (snd (rpmsg_queue_nocopy_free rl j d w)) = seen w"
begin

lemma process_queue_serves:
  assumes "ipc_rpmsg s = Some i" "entry_heap s a = Some e" "qe_queue e = Some q" "noting pending seen (qe_cfg e)"
    and "pending (rpmsg_world s) q = m # ms"
  shows "\<exists>s'. oblfr_process_queue rl a s = Some s' \<and> served pending seen a m s s'"
proof -
  obtain w' where w': "rpmsg_queue_recv_nocopy rl (Some i) (Some q) (rpmsg_world s) = (Some m, w')"
    "pending w' = (pending (rpmsg_world s))(q := ms)" "seen w' = seen (rpmsg_world s)"
    using recv[OF assms(5)] by blast
  obtain src d len where m: "m = (src, d, len)"
    by (metis prod_cases3)
  show ?thesis
    using assms w' free by (auto simp: m oblfr_process_queue_def rl_call_def upd_entry_def served_def noting_def split_beta)
qed

lemma activated_walk_serves:
  assumes "a \<in> set as" "\<And>b. b \<in> set as \<Longrightarrow> queue_at s b = Some q \<longleftrightarrow> b = a" "set as \<subseteq> dom (entry_heap s)"
  shows "activated_walk rl q as s = oblfr_process_queue rl a s"
  using assms
proof (induction as)
  case (Cons b as)
  then obtain e where e: "entry_heap s b = Some e"
    by auto
  then show ?case
    using Cons.prems(2)[of b] Cons.IH Cons.prems by (auto simp: queue_at_def)
qed simp

lemma round_serves:
  assumes "ready pending seen s" "0 < backlog pending s"
  shows "\<exists>a m s'. a \<in> set (rpmsg_queues s) \<and> rpmsg_task_round rl s = Some s' \<and> served pending seen a m s s'"
proof -
  obtain r w where sel: "xQueueSelectFromSet rl (xQueueSet s) 1000 (rpmsg_world s) = (r, w)"
    by fastforce
  obtain i where i: "ipc_rpmsg s = Some i"
    using assms(1) by (auto simp: ready_def)
  have "\<exists>a. waiting pending s a \<noteq> []"
    using assms(2) by (cases "\<exists>a. waiting pending s a \<noteq> []") (simp_all add: backlog_def)
  then obtain q where r: "r = Some q"
    using select_none[of "xQueueSet s" 1000 "rpmsg_world s" w] sel by (cases r) (auto simp: waiting_def split: option.splits)
  then have p: "pending (rpmsg_world s) q \<noteq> []" "pending w = pending (rpmsg_world s)" "seen w = seen (rpmsg_world s)"
    using select_some[of "xQueueSet s" 1000 "rpmsg_world s" q w] sel by auto
  then obtain m ms where m: "pending w q = m # ms"
    by (cases "pending w q") auto
  obtain a where a: "a \<in> set (rpmsg_queues s)" "queue_at s a = Some q"
    using assms(1) p(1) unfolding ready_def by (metis (no_types, lifting) imageE)
  let ?s = "s\<lparr>rpmsg_world := w\<rparr>"
  obtain e where e: "entry_heap s a = Some e" "qe_queue e = Some q" "noting pending seen (qe_cfg e)"
    using a assms(1) by (auto simp: ready_def queue_at_def split: Option.bind_splits)
  have "activated_walk rl q (rpmsg_queues s) ?s = oblfr_process_queue rl a ?s"
  proof (rule activated_walk_serves[OF a(1)])
    show "queue_at ?s b = Some q \<longleftrightarrow> b = a" if "b \<in> set (rpmsg_queues s)" for b
      using that a assms(1) by (auto simp: ready_def queue_at_def inj_on_def)
    show "set (rpmsg_queues s) \<subseteq> dom (entry_heap ?s)"
      using assms(1) by (auto simp: ready_def queue_at_def split: Option.bind_splits)
  qed
  then have "rpmsg_task_round rl s = oblfr_process_queue rl a ?s"
    using sel r by (simp add: rpmsg_task_round_def rl_call_def)
  moreover obtain s' where "oblfr_process_queue rl a ?s = Some s'" "served pending seen a m ?s s'"
    using process_queue_serves[of ?s i a e q m ms] i e m by auto
  moreover from this have "served pending seen a m s s'"
    using p by (simp add: served_def)
  ultimately show ?thesis
    using a(1) by metis
qed

lemma served_frame:
  assumes "served pending seen a m s s'"
  shows "queue_at s' = queue_at s" "waiting pending s a = m # tl (waiting pending s a)"
    "inj_on (queue_at s) (set (rpmsg_queues s)) \<Longrightarrow> a \<in> set (rpmsg_queues s) \<Longrightarrow> b \<in> set (rpmsg_queues s) \<Longrightarrow>
      waiting pending s' b = (if b = a then tl (waiting pending s a) else waiting pending s b)"
proof -
  obtain e q ms where e: "entry_heap s a = Some e" "qe_queue e = Some q"
    "entry_heap s' = (entry_heap s)(a \<mapsto> e\<lparr>qe_dst := fst m, qe_received := qe_received e + 1\<rparr>)"
    "pending (rpmsg_world s) q = m # ms" "pending (rpmsg_world s') = (pending (rpmsg_world s))(q := ms)"
    using assms by (auto simp: served_def)
  show q: "queue_at s' = queue_at s"
    using e by (auto simp: queue_at_def fun_eq_iff)
  have qa: "queue_at s a = Some q"
    using e by (simp add: queue_at_def)
  then show "waiting pending s a = m # tl (waiting pending s a)"
    using e by (simp add: waiting_def)
  show "waiting pending s' b = (if b = a then tl (waiting pending s a) else waiting pending s b)"
    if "inj_on (queue_at s) (set (rpmsg_queues s))" "a \<in> set (rpmsg_queues s)" "b \<in> set (rpmsg_queues s)"
    using that e q qa by (auto simp: waiting_def inj_on_def split: option.splits)
qed

lemma served_ready:
  assumes "served pending seen a m s s'" "ready pending seen s" "a \<in> set (rpmsg_queues s)"
  shows "ready pending seen s'" "backlog pending s = Suc (backlog pending s')"
proof -
  note f = served_frame[OF assms(1)]
  have l: "rpmsg_queues s' = rpmsg_queues s" "ipc_rpmsg s' = ipc_rpmsg s"
    using assms(1) by (auto simp: served_def)
  have n: "\<forall>b e. entry_heap s' b = Some e \<longrightarrow> (\<exists>e0. entry_heap s b = Some e0 \<and> qe_cfg e = qe_cfg e0)"
    using assms(1) by (auto simp: served_def split: if_splits)
  have "pending (rpmsg_world s') q \<noteq> [] \<Longrightarrow> pending (rpmsg_world s) q \<noteq> []" for q
    using assms(1) by (auto simp: served_def split: if_splits)
  moreover have "priv_at s' = priv_at s"
    using assms(1) by (auto simp: served_def priv_at_def fun_eq_iff)
  ultimately show "ready pending seen s'"
    using assms(2) n unfolding ready_def l f(1) by metis
  have d: "distinct (rpmsg_queues s)" "inj_on (queue_at s) (set (rpmsg_queues s))"
    using assms(2) by (auto simp: ready_def)
  obtain xs ys where xs: "rpmsg_queues s = xs @ a # ys"
    using assms(3) by (meson split_list)
  have "map (\<lambda>b. length (waiting pending s' b)) xs = map (\<lambda>b. length (waiting pending s b)) xs"
    "map (\<lambda>b. length (waiting pending s' b)) ys = map (\<lambda>b. length (waiting pending s b)) ys"
    using f(3)[OF d(2) assms(3)] d(1) by (auto simp: xs)
  moreover have "length (waiting pending s a) = Suc (length (waiting pending s' a))"
    using f(2) f(3)[OF d(2) assms(3) assms(3)] by (metis length_Cons)
  ultimately show "backlog pending s = Suc (backlog pending s')"
    by (simp add: backlog_def l xs del: map_eq_conv)
qed

lemma served_delivered:
  assumes "served pending seen a m s s1" "ready pending seen s" "a \<in> set (rpmsg_queues s)" "delivered pending seen s1 s'"
  shows "delivered pending seen s s'"
proof -
  note f = served_frame[OF assms(1)]
  have r: "inj_on (queue_at s) (set (rpmsg_queues s))" "inj_on (priv_at s) (set (rpmsg_queues s))"
    using assms(2) by (auto simp: ready_def)
  obtain ea where ea: "entry_heap s a = Some ea"
    "entry_heap s1 = (entry_heap s)(a \<mapsto> ea\<lparr>qe_dst := fst m, qe_received := qe_received ea + 1\<rparr>)"
    "seen (rpmsg_world s1) = seen (rpmsg_world s) @ [(cfg_priv (qe_cfg ea), snd m)]" "rpmsg_queues s1 = rpmsg_queues s"
    using assms(1) by (auto simp: served_def)
  obtain ms where ms: "waiting pending s a = m # ms"
    using f(2) by blast
  have "\<exists>e e'. entry_heap s b = Some e \<and> entry_heap s' b = Some e' \<and>
        qe_received e' = qe_received e + of_nat (length (waiting pending s b)) \<and>
        qe_dst e' = (if waiting pending s b = [] then qe_dst e else fst (last (waiting pending s b))) \<and>
        given seen (cfg_priv (qe_cfg e)) s' = given seen (cfg_priv (qe_cfg e)) s @ map snd (waiting pending s b)"
    if b: "b \<in> set (rpmsg_queues s)" for b
  proof -
    obtain e1 e' where e1: "entry_heap s1 b = Some e1" "entry_heap s' b = Some e'"
      "qe_received e' = qe_received e1 + of_nat (length (waiting pending s1 b))"
      "qe_dst e' = (if waiting pending s1 b = [] then qe_dst e1 else fst (last (waiting pending s1 b)))"
      "given seen (cfg_priv (qe_cfg e1)) s' = given seen (cfg_priv (qe_cfg e1)) s1 @ map snd (waiting pending s1 b)"
      using assms(4) b ea(4) unfolding delivered_def by metis
    show ?thesis
    proof (cases "b = a")
      case True
      then show ?thesis
        using e1 ea ms f(3)[OF r(1) assms(3) b] by (auto simp: given_def)
    next
      case False
      then have "priv_at s b \<noteq> priv_at s a"
        using r(2) b assms(3) by (auto simp: inj_on_def)
      then show ?thesis
        using False e1 ea f(3)[OF r(1) assms(3) b] by (auto simp: given_def priv_at_def)
    qed
  qed
  then show ?thesis
    using assms(4) ea(4) by (simp add: delivered_def)
qed

lemma no_backlog:
  assumes "ready pending seen s" "backlog pending s = 0"
  shows "delivered pending seen s s"
proof -
  have w: "waiting pending s a = []" if "a \<in> set (rpmsg_queues s)" for a
    using assms(2) that by (auto simp: backlog_def)
  have "pending (rpmsg_world s) q = []" for q
  proof (rule ccontr)
    assume "pending (rpmsg_world s) q \<noteq> []"
    then obtain a where "a \<in> set (rpmsg_queues s)" "queue_at s a = Some q"
      using assms(1) unfolding ready_def by (metis (no_types, lifting) imageE)
    then have "waiting pending s a = pending (rpmsg_world s) q"
      by (simp add: waiting_def)
    then show False
      using w[of a] \<open>a \<in> _\<close> \<open>pending (rpmsg_world s) q \<noteq> []\<close> by simp
  qed
  moreover have "\<exists>e. entry_heap s a = Some e" if "a \<in> set (rpmsg_queues s)" for a
    using assms(1) that by (auto simp: ready_def queue_at_def split: Option.bind_splits)
  ultimately show ?thesis
    using w by (fastforce simp: delivered_def)
qed

lemma loop_delivers:
  assumes "ready pending seen s"
  shows "\<exists>s'. rpmsg_task_loop rl (backlog pending s) s = Some s' \<and> delivered pending seen s s'"
  using assms
proof (induction "backlog pending s" arbitrary: s)
  case 0
  then show ?case
    using no_backlog by simp
next
  case (Suc n)
  then obtain a m s1 where s1: "a \<in> set (rpmsg_queues s)" "rpmsg_task_round rl s = Some s1" "served pending seen a m s s1"
    using round_serves by (metis zero_less_Suc)
  have "ready pending seen s1" "n = backlog pending s1"
    using served_ready[OF s1(3) Suc.prems s1(1)] Suc.hyps(2) by simp_all
  then obtain s' where "rpmsg_task_loop rl n s1 = Some s'" "delivered pending seen s1 s'"
    using Suc.hyps(1) by metis
  then show ?case
    using s1 served_delivered[OF s1(3) Suc.prems s1(1)] Suc.hyps(2)[symmetric] by simp
qed

end

end
