(* ===== verification/Rpmsg_Correct.thy ===== *)
theory Rpmsg_Correct
  imports Rpmsg_Run
begin

text \<open>
  The properties of the rpmsg module, and a library simulated in memory that meets the laws of the locale \<open>rpmsg_link\<close>.
\<close>

section \<open>A library in memory\<close>

text \<open>Handles are counted up, messages wait in lists, and what is sent, announced and given to callbacks is noted.\<close>

record sim_link =
  sim_up :: bool
  sim_next :: nat
  sim_qs :: "nat list"
  sim_msgs :: "nat \<Rightarrow> (u32 \<times> nat \<times> u32) list"
  sim_seen :: "(nat \<times> nat \<times> u32) list"
  sim_sent :: "(u32 \<times> bytes) list"
  sim_announce_ok :: bool

definition sim_pending :: "sim_link \<Rightarrow> nat \<Rightarrow> (u32 \<times> nat \<times> u32) list" where
  "sim_pending w q = (if q \<in> set (sim_qs w) then sim_msgs w q else [])"

definition sim_fresh :: "sim_link \<Rightarrow> nat option \<times> sim_link" where
  "sim_fresh w = (Some (sim_next w), w\<lparr>sim_next := sim_next w + 1\<rparr>)"

definition sim_recv :: "nat option \<Rightarrow> nat option \<Rightarrow> sim_link \<Rightarrow> (u32 \<times> nat \<times> u32) option \<times> sim_link" where
  "sim_recv i q w =
     (case q of
        None \<Rightarrow> (None, w)
      | Some q \<Rightarrow> (case sim_pending w q of [] \<Rightarrow> (None, w) | m # ms \<Rightarrow> (Some m, w\<lparr>sim_msgs := (sim_msgs w)(q := ms)\<rparr>)))"

definition sim_rl :: "sim_link rpmsg_lite" where
  "sim_rl = \<lparr>
     rpmsg_lite_remote_init = (\<lambda>_ _ _. sim_fresh),
     rpmsg_lite_deinit = (\<lambda>_ w. w),
     rpmsg_lite_is_link_up = (\<lambda>i w. i \<noteq> None \<and> sim_up w),
     rpmsg_lite_create_ept = (\<lambda>_ _ _. sim_fresh),
     rpmsg_lite_destroy_ept = (\<lambda>_ _ w. (True, w)),
     rpmsg_lite_send = (\<lambda>_ _ dst data _ _ w. (True, w\<lparr>sim_sent := sim_sent w @ [(dst, data)]\<rparr>)),
     rpmsg_lite_alloc_tx_buffer = (\<lambda>_ _ w. (Some (sim_next w, RL_BUFFER_PAYLOAD_SIZE), w\<lparr>sim_next := sim_next w + 1\<rparr>)),
     rpmsg_lite_send_nocopy = (\<lambda>_ _ _ _ _ w. (True, w)),
     rpmsg_ns_announce = (\<lambda>_ _ _ _ w. (sim_announce_ok w, w)),
     rpmsg_ns_bind = (\<lambda>_. sim_fresh),
     rpmsg_queue_create = (\<lambda>_ w. (Some (sim_next w), w\<lparr>sim_next := sim_next w + 1, sim_qs := sim_next w # sim_qs w,
        sim_msgs := (sim_msgs w)(sim_next w := [])\<rparr>)),
     rpmsg_queue_destroy = (\<lambda>_ _ w. (True, w)),
     rpmsg_queue_recv_nocopy = sim_recv,
     rpmsg_queue_nocopy_free = (\<lambda>_ _ w. (True, w)),
     env_isr = (\<lambda>_ w. w),
     xQueueCreateSet = (\<lambda>_. sim_fresh),
     xQueueAddToSet = (\<lambda>_ _ w. (True, w)),
     xQueueRemoveFromSet = (\<lambda>_ _ w. (True, w)),
     xQueueSelectFromSet = (\<lambda>_ _ w. (find (\<lambda>q. sim_msgs w q \<noteq> []) (sim_qs w), w)),
     create_rpmsg_task = (\<lambda>w. (True, w)),
     delay_ms = (\<lambda>_ w. w\<lparr>sim_up := True\<rparr>),
     l1c_dcache_disable = (\<lambda>w. w)\<rparr>"

interpretation sim_rp: rpmsg_link sim_rl sim_pending sim_seen
proof
  fix qs t w q w'
  assume "xQueueSelectFromSet sim_rl qs t w = (Some q, w')"
  then show "sim_pending w q \<noteq> [] \<and> sim_pending w' = sim_pending w \<and> sim_seen w' = sim_seen w"
    by (auto simp: sim_rl_def sim_pending_def find_Some_iff)
next
  fix qs t w w' q
  assume "xQueueSelectFromSet sim_rl qs t w = (None, w')"
  then show "sim_pending w q = []"
    by (auto simp: sim_rl_def sim_pending_def find_None_iff)
next
  fix w q m ms i
  assume "sim_pending w q = m # ms"
  then show "\<exists>w'. rpmsg_queue_recv_nocopy sim_rl (Some i) (Some q) w = (Some m, w') \<and>
    sim_pending w' = (sim_pending w)(q := ms) \<and> sim_seen w' = sim_seen w"
    by (auto simp: sim_rl_def sim_recv_def sim_pending_def fun_eq_iff split: if_splits)
qed (simp_all add: sim_rl_def)

definition sim_world0 :: sim_link where
  "sim_world0 = \<lparr>sim_up = True, sim_next = 1, sim_qs = [], sim_msgs = (\<lambda>_. []), sim_seen = [], sim_sent = [], sim_announce_ok = True\<rparr>"

definition sim_cfg :: "string \<Rightarrow> nat \<Rightarrow> sim_link device_cfg" where
  "sim_cfg name p = \<lparr>cfg_name = name, cfg_cb = (\<lambda>d len p w. w\<lparr>sim_seen := sim_seen w @ [(p, d, len)]\<rparr>), cfg_status_cb = None,
     cfg_priv = p\<rparr>"

definition sim_entry :: "string \<Rightarrow> nat \<Rightarrow> nat \<Rightarrow> sim_link queue_entry" where
  "sim_entry name p q = \<lparr>qe_queue = Some q, qe_cfg = sim_cfg name p, qe_ept = Some (q + 1), qe_dst = RL_ADDR_ANY, qe_valid = True,
     qe_sent = 0, qe_received = 0\<rparr>"

text \<open>Memory for entries at 10, 11 and 12, and a state with two devices and three messages.\<close>

definition sim_alloc :: "(nat \<rightharpoonup> sim_link queue_entry) \<Rightarrow> (nat \<times> sim_link queue_entry) option" where
  "sim_alloc h = map_option (\<lambda>a. (a, sim_entry ''old'' 0 0)) (find (\<lambda>a. h a = None) [10, 11, 12])"

definition sim_state0 :: "sim_link rpmsg" where
  "sim_state0 = \<lparr>ipc_rpmsg = Some 0, ipc_rpmsg_ns = None, rpmsg_queues = [], entry_heap = Map.empty, entry_alloc = sim_alloc,
     xQueueSet = Some 0, rpmsg_world = sim_world0\<rparr>"

definition sim_state2 :: "sim_link rpmsg" where
  "sim_state2 = sim_state0\<lparr>rpmsg_queues := [11, 10],
     entry_heap := [10 \<mapsto> sim_entry ''rpmsg-tty'' 1 1, 11 \<mapsto> sim_entry ''rpmsg-raw'' 2 3],
     rpmsg_world := sim_world0\<lparr>sim_next := 5, sim_qs := [3, 1],
       sim_msgs := (\<lambda>_. [])(1 := [(1024, 100, 5), (1025, 200, 6)], 3 := [(1026, 300, 7)])\<rparr>\<rparr>"

fun announcements :: "(u32 \<times> string \<times> u32) list \<Rightarrow> 'w rpmsg \<Rightarrow> 'w rpmsg option" where
  "announcements [] s = Some s"
| "announcements ((ept, name, flags) # as) s = do { s \<leftarrow> ipc_rpmsg_ns_callback ept name flags s; announcements as s }"

lemma ns_walk_known:
  assumes "set as \<subseteq> dom (entry_heap s)" "entry_heap s a = Some e" "qe_dst e \<noteq> RL_ADDR_ANY" "ns_walk ept name flags as s = Some s'"
  shows "entry_heap s' a = Some e"
  using assms
proof (induction as)
  case (Cons b as)
  then show ?case
    by (auto simp: upd_entry_def split: if_splits option.splits)
qed simp

section \<open>The properties\<close>

text \<open>
  C33. The list of devices is never corrupted. From power-up on, after any calls with handles that were returned and not
  yet given back, any announcements of the other core, any rounds of the task, and with any behaviour of the library
  below, the list holds each entry once and only entries in memory, the held handles are valid members of it, and every call
  with them, every announcement and every round of the task is free of dangling accesses.
\<close>

theorem rpmsg_safe:
  assumes "(rpmsg_step rl)\<^sup>*\<^sup>* ({}, s0) (H, s)" "rpmsg_initial s0"
  shows "distinct (rpmsg_queues s) \<and> H \<subseteq> set (rpmsg_queues s) \<and>
    (\<exists>r. oblfr_rpmsg_device_add rl cfg s = Some r) \<and> (\<exists>s'. ipc_rpmsg_ns_callback ept name flags s = Some s') \<and>
    (\<exists>s'. rpmsg_task_round rl s = Some s') \<and> (\<exists>r. oblfr_rpmsg_dump rl s = Some r) \<and>
    (\<forall>a\<in>H. (\<exists>e. entry_heap s a = Some e \<and> qe_valid e) \<and>
      (\<exists>r s'. oblfr_rpmsg_device_remove rl (Some a) s = Some (r, s') \<and> a \<notin> set (rpmsg_queues s')) \<and>
      (\<exists>r. oblfr_rpmsg_device_send rl (Some a) data len t s = Some r) \<and>
      (\<exists>r. oblfr_rpmsg_device_send_buffer_alloc rl (Some a) t s = Some r) \<and>
      (\<exists>r. oblfr_rpmsg_device_send_buffer rl (Some a) buf len s = Some r))"
proof -
  note inv = rpmsg_reachable_inv[OF assms]
  note entries = inv_entries[OF inv]
  have "\<exists>r. oblfr_rpmsg_dump rl s = Some r"
    using entries by (auto simp: oblfr_rpmsg_dump_def)
  moreover have "\<exists>s'. ipc_rpmsg_ns_callback ept name flags s = Some s'" "\<exists>s'. rpmsg_task_round rl s = Some s'"
    using ns_walk_safe[OF entries] round_safe[OF entries] unfolding ipc_rpmsg_ns_callback_def safe_def by blast+
  moreover have "distinct (rpmsg_queues s)" "H \<subseteq> set (rpmsg_queues s)"
    using inv by (auto simp: rpmsg_inv_def)
  ultimately show ?thesis
    using device_add_safe[OF inv, of rl cfg] device_remove_safe[OF inv] inv_handle[OF inv] send_safe by meson
qed

theorem rpmsg_safe_witness:
  "\<exists>s. oblfr_rpmsg_device_add sim_rl (sim_cfg ''rpmsg-tty'' 1) sim_state0 = Some (Some 10, s) \<and>
     (\<exists>r s'. oblfr_rpmsg_device_remove sim_rl (Some 10) s = Some (r, s') \<and> 10 \<notin> set (rpmsg_queues s')) \<and>
     (\<exists>r. oblfr_rpmsg_device_send sim_rl (Some 10) [1, 2] 2 0 s = Some r)"
proof -
  have i: "rpmsg_initial sim_state0"
    by (auto simp: rpmsg_initial_def sim_state0_def sim_alloc_def find_Some_iff)
  have "\<exists>s. oblfr_rpmsg_device_add sim_rl (sim_cfg ''rpmsg-tty'' 1) sim_state0 = Some (Some 10, s)"
    by (simp add: oblfr_rpmsg_device_add_def rl_call_def upd_entry_def sim_rl_def sim_state0_def sim_alloc_def sim_fresh_def
        sim_world0_def)
  then obtain s where s: "oblfr_rpmsg_device_add sim_rl (sim_cfg ''rpmsg-tty'' 1) sim_state0 = Some (Some 10, s)"
    by blast
  have "(rpmsg_step sim_rl)\<^sup>*\<^sup>* ({}, sim_state0) ({10}, s)"
    using rpmsg_step.add[OF s, of "{}"] by (simp add: r_into_rtranclp)
  from rpmsg_safe[OF this i, where data = "[1, 2]" and len = 2 and t = 0] s show ?thesis
    by auto
qed

text \<open>
  C34. The task delivers. When the devices of the list have different queues and private words, callbacks that only note their
  arguments, and no other queue has messages, as many rounds of the task as messages wait give each device exactly the messages of
  its queue, in the order in which they came, count them, and leave the sender of the last one as its destination.
\<close>

theorem rpmsg_delivers:
  assumes "rpmsg_link rl pending seen" "ready pending seen s"
  shows "\<exists>s'. rpmsg_task_loop rl (backlog pending s) s = Some s' \<and> delivered pending seen s s'"
  by (rule rpmsg_link.loop_delivers[OF assms])

lemma sim_ready: "ready sim_pending sim_seen sim_state2" "backlog sim_pending sim_state2 = 3"
  by (auto simp: ready_def noting_def queue_at_def priv_at_def sim_pending_def sim_state2_def sim_state0_def sim_world0_def
      sim_entry_def sim_cfg_def inj_on_def backlog_def waiting_def split: if_splits)

theorem rpmsg_delivers_witness:
  "\<exists>s'. rpmsg_task_loop sim_rl 3 sim_state2 = Some s' \<and> given sim_seen 1 s' = [(100, 5), (200, 6)] \<and>
     given sim_seen 2 s' = [(300, 7)] \<and> map_option qe_dst (entry_heap s' 10) = Some 1025"
proof -
  obtain s' where s': "rpmsg_task_loop sim_rl 3 sim_state2 = Some s'" "delivered sim_pending sim_seen sim_state2 s'"
    using rpmsg_delivers[OF sim_rp.rpmsg_link_axioms sim_ready(1)] sim_ready(2) by auto
  then show ?thesis
    by (auto simp: delivered_def given_def waiting_def queue_at_def sim_pending_def sim_state2_def sim_state0_def sim_world0_def
        sim_entry_def sim_cfg_def)
qed

text \<open>
  C35. A device that has a destination never loses it to the name service: whatever endpoints are announced or withdrawn, with its own
  name or another, the entry stays as it is. So a withdrawal is not noticed, and while the link is up the next message is
  still handed to the library for the withdrawn address.
\<close>

theorem rpmsg_withdrawal_ignored:
  assumes "set (rpmsg_queues s) \<subseteq> dom (entry_heap s)" "entry_heap s a = Some e" "qe_dst e \<noteq> RL_ADDR_ANY"
  shows "\<exists>s'. announcements as s = Some s' \<and> entry_heap s' a = Some e \<and>
    (qe_valid e \<longrightarrow> len \<le> RL_BUFFER_PAYLOAD_SIZE \<longrightarrow> rpmsg_lite_is_link_up rl (ipc_rpmsg s') (rpmsg_world s') \<longrightarrow>
      fst (rpmsg_lite_send rl (ipc_rpmsg s') (qe_ept e) (qe_dst e) data len t (rpmsg_world s')) \<longrightarrow>
      (\<exists>s''. oblfr_rpmsg_device_send rl (Some a) data len t s' = Some (OBLFR_OK, s'') \<and>
        rpmsg_world s'' = snd (rpmsg_lite_send rl (ipc_rpmsg s') (qe_ept e) (qe_dst e) data len t (rpmsg_world s')) \<and>
        entry_heap s'' a = Some (e\<lparr>qe_sent := qe_sent e + 1\<rparr>)))"
proof -
  have "\<exists>s'. announcements as s = Some s' \<and> entry_heap s' a = Some e"
    using assms(1,2)
  proof (induction as arbitrary: s)
    case (Cons x as)
    obtain ept name flags where x: "x = (ept, name, flags)"
      by (metis prod_cases3)
    obtain s1 where s1: "ns_walk ept name flags (rpmsg_queues s) s = Some s1" "keeps s s1"
      using ns_walk_safe[OF Cons.prems(1)] unfolding safe_def by blast
    have "set (rpmsg_queues s1) \<subseteq> dom (entry_heap s1)" "entry_heap s1 a = Some e"
      using keeps_heap[OF s1(2)] Cons.prems(1) s1(2) ns_walk_known[OF Cons.prems assms(3) s1(1)] by (auto simp: keeps_def)
    then show ?case
      using Cons.IH s1(1) by (simp add: x ipc_rpmsg_ns_callback_def)
  qed simp
  then show ?thesis
    using assms(3) by (auto simp: oblfr_rpmsg_device_send_def rl_call_def upd_entry_def split_beta)
qed

theorem rpmsg_withdrawal_ignored_witness:
  "\<exists>s'. announcements [(1024, ''rpmsg-tty'', RL_NS_DESTROY), (7, ''rpmsg'', RL_NS_CREATE)]
      (sim_state2\<lparr>entry_heap := [10 \<mapsto> sim_entry ''rpmsg-tty'' 1 1\<lparr>qe_dst := 1024\<rparr>, 11 \<mapsto> sim_entry ''rpmsg-raw'' 2 3]\<rparr>) = Some s' \<and>
     entry_heap s' 10 = Some (sim_entry ''rpmsg-tty'' 1 1\<lparr>qe_dst := 1024\<rparr>)"
proof -
  let ?e = "sim_entry ''rpmsg-tty'' 1 1\<lparr>qe_dst := 1024\<rparr>"
  let ?s = "sim_state2\<lparr>entry_heap := [10 \<mapsto> ?e, 11 \<mapsto> sim_entry ''rpmsg-raw'' 2 3]\<rparr>"
  have "set (rpmsg_queues ?s) \<subseteq> dom (entry_heap ?s)" "entry_heap ?s 10 = Some ?e" "qe_dst ?e \<noteq> RL_ADDR_ANY"
    by (simp_all add: sim_state2_def)
  from rpmsg_withdrawal_ignored[OF this] show ?thesis
    by blast
qed

text \<open>
  A device whose announcement fails: the call reports the failure and has destroyed the endpoint and the queue, but the entry stays in
  the list, with the destination and the valid flag that its memory happened to hold.
\<close>

theorem rpmsg_failed_announcement_stays:
  assumes "entry_alloc s (entry_heap s) = Some (a, j)" "rpmsg_queue_create rl (ipc_rpmsg s) (rpmsg_world s) = (Some q, w1)"
    and "rpmsg_lite_create_ept rl (ipc_rpmsg s) RL_ADDR_ANY (Some q) w1 = (Some e, w2)"
    and "xQueueAddToSet rl (Some q) (xQueueSet s) w2 = (True, w3)" "rpmsg_lite_is_link_up rl (ipc_rpmsg s) w3"
    and "rpmsg_ns_announce rl (ipc_rpmsg s) (Some e) (cfg_name cfg) RL_NS_CREATE w3 = (False, w4)"
  shows "\<exists>s' d. oblfr_rpmsg_device_add rl cfg s = Some (None, s') \<and> rpmsg_queues s' = a # rpmsg_queues s \<and>
    entry_heap s' a = Some d \<and> qe_dst d = qe_dst j \<and> qe_valid d = qe_valid j \<and> qe_queue d = Some q"
  using assms by (simp add: oblfr_rpmsg_device_add_def rl_call_def upd_entry_def split_beta)

text \<open>
  A message is handed to the library exactly if the handle is valid, the message fits, a destination is known and the link is up; then
  the result is that of the library, and the counter of the device follows it.
\<close>

theorem rpmsg_send_result:
  assumes "entry_heap s a = Some e"
  shows "oblfr_rpmsg_device_send rl (Some a) data len t s = Some (
    if \<not> qe_valid e \<or> len > oblfr_rpmsg_get_mtu \<or> qe_dst e = RL_ADDR_ANY then (OBLFR_ERR_INVALID, s)
    else if \<not> oblfr_rpmsg_is_ready rl s then (OBLFR_ERR_ERROR, s)
    else case rpmsg_lite_send rl (ipc_rpmsg s) (qe_ept e) (qe_dst e) data len t (rpmsg_world s) of
      (False, w) \<Rightarrow> (OBLFR_ERR_ERROR, s\<lparr>rpmsg_world := w\<rparr>)
    | (True, w) \<Rightarrow> (OBLFR_OK, s\<lparr>rpmsg_world := w, entry_heap := (entry_heap s)(a \<mapsto> e\<lparr>qe_sent := qe_sent e + 1\<rparr>)\<rparr>))"
  using assms by (auto simp: oblfr_rpmsg_device_send_def rl_call_def upd_entry_def oblfr_rpmsg_get_mtu_def
      oblfr_rpmsg_is_ready_def split_beta split: bool.splits)

end
