(* ===== verification/Virtqueue.thy ===== *)
theory Virtqueue
  imports Oblfr_Prelude
begin

unbundle bit_operations_syntax

text \<open>
  The virtqueue of rpmsg-lite (\<^verbatim>\<open>components/rpmsg/rpmsg-lite/virtio/virtqueue.c\<close> and the inline functions of
  \<^verbatim>\<open>virtio_ring.h\<close>): a ring of descriptors in memory that two cores share, and the control block that each of them keeps for
  it. The build has \<^verbatim>\<open>VQUEUE_DEBUG\<close> off, so that \<^verbatim>\<open>VQ_PARAM_CHK\<close>, the assertions and the busy marks are empty. Addresses of buffers
  are 32-bit and the mapping between physical and virtual ones is the identity, as the platform code has it. The barriers have no
  counterpart: the operations of the two cores are taken one after the other. \<^const>\<open>None\<close> is an access outside of the
  ring or through a null pointer.
\<close>

abbreviation (input) VRING_DESC_F_WRITE :: u16 where "VRING_DESC_F_WRITE \<equiv> 2"
abbreviation (input) VRING_USED_F_NO_NOTIFY :: u16 where "VRING_USED_F_NO_NOTIFY \<equiv> 1"
abbreviation (input) VRING_AVAIL_F_NO_INTERRUPT :: u16 where "VRING_AVAIL_F_NO_INTERRUPT \<equiv> 1"
abbreviation (input) VIRTQUEUE_FLAG_EVENT_IDX :: u32 where "VIRTQUEUE_FLAG_EVENT_IDX \<equiv> 2"
abbreviation (input) VQ_RING_DESC_CHAIN_END :: u16 where "VQ_RING_DESC_CHAIN_END \<equiv> 32768"

datatype vq_status = VQUEUE_SUCCESS | ERROR_NO_MEM | ERROR_VRING_NO_BUFF

section \<open>The ring in shared memory\<close>

record vring_desc =
  desc_addr :: u64
  desc_len :: u32
  desc_flags :: u16
  desc_next :: u16

record vring_used_elem =
  used_id :: u32
  used_len :: u32

text \<open>
  The contents behind the three pointers of \<^verbatim>\<open>struct vring\<close>. The rings have one element more than the queue has entries: the
  event index of the other side.
\<close>

record vring_mem =
  vr_desc :: "vring_desc list"
  avail_flags :: u16
  avail_idx :: u16
  avail_ring :: "u16 list"
  used_flags :: u16
  used_idx :: u16
  used_ring :: "vring_used_elem list"

text \<open>The ring as the master core clears it.\<close>

definition vring_cleared :: "nat \<Rightarrow> vring_mem" where
  "vring_cleared n = \<lparr>
     vr_desc = replicate n \<lparr>desc_addr = 0, desc_len = 0, desc_flags = 0, desc_next = 0\<rparr>,
     avail_flags = 0, avail_idx = 0, avail_ring = replicate (n + 1) 0,
     used_flags = 0, used_idx = 0, used_ring = replicate (n + 1) \<lparr>used_id = 0, used_len = 0\<rparr>\<rparr>"

definition nth_opt :: "'a list \<Rightarrow> nat \<Rightarrow> 'a option" where
  "nth_opt xs i = (if i < length xs then Some (xs ! i) else None)"

definition upd_opt :: "nat \<Rightarrow> ('a \<Rightarrow> 'a) \<Rightarrow> 'a list \<Rightarrow> 'a list option" where
  "upd_opt i f xs = (if i < length xs then Some (xs[i := f (xs ! i)]) else None)"

text \<open>The pointers of \<^verbatim>\<open>struct vring\<close>; an element of the three tables takes 16, 2 and 8 bytes, the headers before the rings 4.\<close>

record vring =
  vr_num :: u32
  desc_ptr :: u32
  avail_ptr :: u32
  used_ptr :: u32

definition vring_size :: "u32 \<Rightarrow> u32 \<Rightarrow> u32" where
  "vring_size num align =
     (let size = num * 16;
          size = size + (6 + num * 2 + 2);
          size = (size + align - 1) AND NOT (align - 1);
          size = size + (12 + num * 8 + 2)
      in size)"

definition vring_init :: "u32 \<Rightarrow> u32 \<Rightarrow> u32 \<Rightarrow> vring" where
  "vring_init num p align =
     (let avail = p + num * 16
      in \<lparr>vr_num = num, desc_ptr = p, avail_ptr = avail,
          used_ptr = ((avail + 4 + num * 2) + align - 1) AND NOT (align - 1)\<rparr>)"

definition vring_need_event :: "u16 \<Rightarrow> u16 \<Rightarrow> u16 \<Rightarrow> bool" where
  "vring_need_event event_idx new_idx old \<longleftrightarrow> new_idx - event_idx - 1 < new_idx - old"

section \<open>The control block\<close>

record vring_alloc_info =
  phy_addr :: u32
  ring_align :: u32
  num_descs :: u16

text \<open>Function pointers are values of a type \<open>'c\<close>; the parameter \<open>call\<close> of the functions that follow one says what it does.\<close>

record 'c virtqueue =
  vq_name :: bytes
  vq_flags :: u32
  vq_alignment :: u32
  vq_ring_size :: u32
  vq_ring_mem :: u32
  callback_fc :: "'c option"
  notify_fc :: "'c option"
  vq_ring :: vring
  vq_queue_index :: u16
  vq_nentries :: u16
  vq_queued_cnt :: u16
  vq_desc_head_idx :: u16
  vq_used_cons_idx :: u16
  vq_available_idx :: u16

text \<open>\<open>mem\<close> tells whether \<^verbatim>\<open>env_allocate_memory\<close> finds memory. The static variant has the memory from its caller.\<close>

definition virtqueue_create_static ::
  "u16 \<Rightarrow> bytes \<Rightarrow> vring_alloc_info \<Rightarrow> 'c option \<Rightarrow> 'c option \<Rightarrow> 'c virtqueue" where
  "virtqueue_create_static qid name ring cb ntfy = \<lparr>
     vq_name = strncpy 32 name,
     vq_flags = 0,
     vq_alignment = ring_align ring,
     vq_ring_size = vring_size (ucast (num_descs ring)) (ring_align ring),
     vq_ring_mem = phy_addr ring,
     callback_fc = cb,
     notify_fc = ntfy,
     vq_ring = vring_init (ucast (num_descs ring)) (phy_addr ring) (ring_align ring),
     vq_queue_index = qid,
     vq_nentries = num_descs ring,
     vq_queued_cnt = 0,
     vq_desc_head_idx = 0,
     vq_used_cons_idx = 0,
     vq_available_idx = 0\<rparr>"

definition virtqueue_create ::
  "bool \<Rightarrow> u16 \<Rightarrow> bytes \<Rightarrow> vring_alloc_info \<Rightarrow> 'c option \<Rightarrow> 'c option \<Rightarrow>
   vq_status + 'c virtqueue" where
  "virtqueue_create mem qid name ring cb ntfy =
     (if \<not> mem then Inl ERROR_NO_MEM else Inr (virtqueue_create_static qid name ring cb ntfy))"

text \<open>Freeing: \<^const>\<open>None\<close> is the null pointer; the block is given back to the allocator in the first variant only.\<close>

definition virtqueue_free_static :: "'c virtqueue option \<Rightarrow> 'c virtqueue option" where
  "virtqueue_free_static vq =
     map_option (\<lambda>vq. if vq_ring_mem vq \<noteq> 0 then vq\<lparr>vq_ring_size := 0, vq_ring_mem := 0\<rparr> else vq) vq"

definition virtqueue_free :: "'c virtqueue option \<Rightarrow> 'c virtqueue option" where
  "virtqueue_free vq = None"

section \<open>Helper functions\<close>

definition ring_index :: "'c virtqueue \<Rightarrow> u16 \<Rightarrow> nat" where
  "ring_index vq i = unat (i AND (vq_nentries vq - 1))"

definition vq_ring_update_avail :: "u16 \<Rightarrow> 'c virtqueue \<times> vring_mem \<Rightarrow> ('c virtqueue \<times> vring_mem) option" where
  "vq_ring_update_avail desc_idx = (\<lambda>(vq, r). do {
     ring \<leftarrow> upd_opt (ring_index vq (avail_idx r)) (\<lambda>_. desc_idx) (avail_ring r);
     Some (vq\<lparr>vq_queued_cnt := vq_queued_cnt vq + 1\<rparr>, r\<lparr>avail_ring := ring, avail_idx := avail_idx r + 1\<rparr>)
   })"

definition vq_ring_update_used :: "u16 \<Rightarrow> u32 \<Rightarrow> 'c virtqueue \<times> vring_mem \<Rightarrow> ('c virtqueue \<times> vring_mem) option" where
  "vq_ring_update_used head_idx len = (\<lambda>(vq, r). do {
     ring \<leftarrow> upd_opt (ring_index vq (used_idx r)) (\<lambda>_. \<lparr>used_id = ucast head_idx, used_len = len\<rparr>) (used_ring r);
     Some (vq, r\<lparr>used_ring := ring, used_idx := used_idx r + 1\<rparr>)
   })"

text \<open>Writing a descriptor; the null buffer leaves the table and the index as they are.\<close>

definition vq_ring_add_buffer :: "u16 \<Rightarrow> u32 \<Rightarrow> u32 \<Rightarrow> vring_mem \<Rightarrow> (u16 \<times> vring_mem) option" where
  "vq_ring_add_buffer head_idx buffer len r =
     (if buffer = 0 then Some (head_idx, r)
      else do {
        d \<leftarrow> upd_opt (unat head_idx) (\<lambda>d. d\<lparr>desc_addr := ucast buffer, desc_len := len, desc_flags := VRING_DESC_F_WRITE\<rparr>) (vr_desc r);
        Some (head_idx + 1, r\<lparr>vr_desc := d\<rparr>)
      })"

text \<open>\<^verbatim>\<open>vq_ring_init\<close>: for a queue without entries the loop bound wraps and the loop leaves the table.\<close>

definition vq_ring_init :: "'c virtqueue \<Rightarrow> vring_mem \<Rightarrow> vring_mem option" where
  "vq_ring_init vq r =
     (let n = unat (vq_nentries vq)
      in if n = 0 \<or> length (vr_desc r) < n then None
         else Some (r\<lparr>vr_desc :=
           (fold (\<lambda>i d. d[i := (d ! i)\<lparr>desc_next := of_nat (i + 1)\<rparr>]) [0..<n - 1] (vr_desc r))
             [n - 1 := (vr_desc r ! (n - 1))\<lparr>desc_next := VQ_RING_DESC_CHAIN_END\<rparr>]\<rparr>))"

definition virtqueue_nused :: "'c virtqueue \<Rightarrow> vring_mem \<Rightarrow> u16" where
  "virtqueue_nused vq r = used_idx r - vq_used_cons_idx vq"

text \<open>Event indices are kept behind the entries of the rings.\<close>

definition set_used_event :: "'c virtqueue \<Rightarrow> u16 \<Rightarrow> vring_mem \<Rightarrow> vring_mem option" where
  "set_used_event vq v r = map_option (\<lambda>a. r\<lparr>avail_ring := a\<rparr>) (upd_opt (unat (vr_num (vq_ring vq))) (\<lambda>_. v) (avail_ring r))"

definition vring_avail_event :: "'c virtqueue \<Rightarrow> vring_mem \<Rightarrow> u16 option" where
  "vring_avail_event vq r = map_option (\<lambda>e. ucast (used_id e)) (nth_opt (used_ring r) (unat (vr_num (vq_ring vq))))"

definition event_idx_on :: "'c virtqueue \<Rightarrow> bool" where
  "event_idx_on vq \<longleftrightarrow> vq_flags vq AND VIRTQUEUE_FLAG_EVENT_IDX \<noteq> 0"

definition vq_ring_enable_interrupt :: "u16 \<Rightarrow> 'c virtqueue \<times> vring_mem \<Rightarrow> (bool \<times> vring_mem) option" where
  "vq_ring_enable_interrupt ndesc = (\<lambda>(vq, r). do {
     r \<leftarrow> (if event_idx_on vq then set_used_event vq (vq_used_cons_idx vq + ndesc) r
           else Some (r\<lparr>avail_flags := avail_flags r AND NOT VRING_AVAIL_F_NO_INTERRUPT\<rparr>));
     Some (virtqueue_nused vq r > ndesc, r)
   })"

definition vq_ring_must_notify_host :: "'c virtqueue \<Rightarrow> vring_mem \<Rightarrow> bool option" where
  "vq_ring_must_notify_host vq r =
     (if event_idx_on vq then do {
        let new_idx = avail_idx r;
        let prev_idx = new_idx - vq_queued_cnt vq;
        event_idx \<leftarrow> vring_avail_event vq r;
        Some (vring_need_event event_idx new_idx prev_idx)
      } else Some (used_flags r AND VRING_USED_F_NO_NOTIFY = 0))"

definition vq_ring_notify_host :: "('c \<Rightarrow> u16 \<Rightarrow> 'w \<Rightarrow> 'w) \<Rightarrow> 'c virtqueue \<Rightarrow> 'w \<Rightarrow> 'w" where
  "vq_ring_notify_host call vq w = (case notify_fc vq of None \<Rightarrow> w | Some f \<Rightarrow> call f (vq_queue_index vq) w)"

section \<open>The operations\<close>

definition virtqueue_add_buffer :: "u16 \<Rightarrow> 'c virtqueue \<times> vring_mem \<Rightarrow> (vq_status \<times> 'c virtqueue \<times> vring_mem) option" where
  "virtqueue_add_buffer head_idx s = map_option (Pair VQUEUE_SUCCESS) (vq_ring_update_avail head_idx s)"

definition virtqueue_fill_avail_buffers ::
  "u32 \<Rightarrow> u32 \<Rightarrow> 'c virtqueue \<times> vring_mem \<Rightarrow> (vq_status \<times> 'c virtqueue \<times> vring_mem) option" where
  "virtqueue_fill_avail_buffers buffer len = (\<lambda>(vq, r). do {
     let head_idx = vq_desc_head_idx vq;
     d \<leftarrow> upd_opt (unat head_idx) (\<lambda>d. d\<lparr>desc_addr := ucast buffer, desc_len := len, desc_flags := VRING_DESC_F_WRITE\<rparr>) (vr_desc r);
     let vq = vq\<lparr>vq_desc_head_idx := head_idx + 1\<rparr>;
     s \<leftarrow> vq_ring_update_avail head_idx (vq, r\<lparr>vr_desc := d\<rparr>);
     Some (VQUEUE_SUCCESS, s)
   })"

text \<open>\<^verbatim>\<open>virtqueue_get_buffer\<close>: the address, the length and the descriptor index, or null.\<close>

definition virtqueue_get_buffer ::
  "'c virtqueue option \<Rightarrow> vring_mem \<Rightarrow> ((u32 \<times> u32 \<times> u16) option \<times> 'c virtqueue option) option" where
  "virtqueue_get_buffer vq r =
     (case vq of
        None \<Rightarrow> Some (None, None)
      | Some vq \<Rightarrow>
          if vq_used_cons_idx vq = used_idx r then Some (None, Some vq)
          else do {
            uep \<leftarrow> nth_opt (used_ring r) (ring_index vq (vq_used_cons_idx vq));
            let desc_idx = (ucast (used_id uep) :: u16);
            let vq = vq\<lparr>vq_used_cons_idx := vq_used_cons_idx vq + 1\<rparr>;
            d \<leftarrow> nth_opt (vr_desc r) (unat desc_idx);
            Some (Some (ucast (desc_addr d), used_len uep, desc_idx), Some vq)
          })"

definition virtqueue_get_buffer_length :: "vring_mem \<Rightarrow> u16 \<Rightarrow> u32 option" where
  "virtqueue_get_buffer_length r idx = map_option desc_len (nth_opt (vr_desc r) (unat idx))"

definition virtqueue_get_available_buffer ::
  "'c virtqueue \<Rightarrow> vring_mem \<Rightarrow> ((u32 \<times> u16 \<times> u32) option \<times> 'c virtqueue) option" where
  "virtqueue_get_available_buffer vq r =
     (if vq_available_idx vq = avail_idx r then Some (None, vq)
      else do {
        let head_idx = ring_index vq (vq_available_idx vq);
        let vq = vq\<lparr>vq_available_idx := vq_available_idx vq + 1\<rparr>;
        i \<leftarrow> nth_opt (avail_ring r) head_idx;
        d \<leftarrow> nth_opt (vr_desc r) (unat i);
        Some (Some (ucast (desc_addr d), i, desc_len d), vq)
      })"

definition virtqueue_add_consumed_buffer ::
  "u16 \<Rightarrow> u32 \<Rightarrow> 'c virtqueue \<times> vring_mem \<Rightarrow> (vq_status \<times> 'c virtqueue \<times> vring_mem) option" where
  "virtqueue_add_consumed_buffer head_idx len s =
     (if head_idx > vq_nentries (fst s) then Some (ERROR_VRING_NO_BUFF, s)
      else map_option (Pair VQUEUE_SUCCESS) (vq_ring_update_used head_idx len s))"

definition virtqueue_fill_used_buffers ::
  "u32 \<Rightarrow> u32 \<Rightarrow> 'c virtqueue \<times> vring_mem \<Rightarrow> (vq_status \<times> 'c virtqueue \<times> vring_mem) option" where
  "virtqueue_fill_used_buffers buffer len = (\<lambda>(vq, r). do {
     let head_idx = vq_desc_head_idx vq;
     (idx, r) \<leftarrow> vq_ring_add_buffer head_idx buffer len r;
     s \<leftarrow> vq_ring_update_used head_idx len (vq\<lparr>vq_desc_head_idx := idx\<rparr>, r);
     Some (VQUEUE_SUCCESS, s)
   })"

definition virtqueue_enable_cb :: "'c virtqueue \<times> vring_mem \<Rightarrow> (bool \<times> vring_mem) option" where
  "virtqueue_enable_cb s = vq_ring_enable_interrupt 0 s"

definition virtqueue_disable_cb :: "'c virtqueue \<times> vring_mem \<Rightarrow> vring_mem option" where
  "virtqueue_disable_cb = (\<lambda>(vq, r).
     if event_idx_on vq then set_used_event vq (vq_used_cons_idx vq - vq_nentries vq - 1) r
     else Some (r\<lparr>avail_flags := avail_flags r OR VRING_AVAIL_F_NO_INTERRUPT\<rparr>))"

definition virtqueue_kick :: "('c \<Rightarrow> u16 \<Rightarrow> 'w \<Rightarrow> 'w) \<Rightarrow> 'c virtqueue \<times> vring_mem \<Rightarrow> 'w \<Rightarrow> ('c virtqueue \<times> 'w) option" where
  "virtqueue_kick call = (\<lambda>(vq, r) w. do {
     must \<leftarrow> vq_ring_must_notify_host vq r;
     Some (vq\<lparr>vq_queued_cnt := 0\<rparr>, if must then vq_ring_notify_host call vq w else w)
   })"

definition virtqueue_get_desc_size :: "'c virtqueue \<Rightarrow> vring_mem \<Rightarrow> u32 option" where
  "virtqueue_get_desc_size vq r =
     (if vq_available_idx vq = avail_idx r then Some 0
      else do {
        i \<leftarrow> nth_opt (avail_ring r) (ring_index vq (vq_available_idx vq));
        d \<leftarrow> nth_opt (vr_desc r) (unat i);
        Some (desc_len d)
      })"

definition virtqueue_notification :: "('c \<Rightarrow> u16 \<Rightarrow> 'w \<Rightarrow> 'w) \<Rightarrow> 'c virtqueue option \<Rightarrow> 'w \<Rightarrow> 'w" where
  "virtqueue_notification call vq w =
     (case vq of
        None \<Rightarrow> w
      | Some vq \<Rightarrow> (case callback_fc vq of None \<Rightarrow> w | Some f \<Rightarrow> call f (vq_queue_index vq) w))"

end
