(* ===== verification/Op_Refinement.thy ===== *)
theory Op_Refinement
  imports Main
begin

text \<open>
  An operation takes a state to a result and a new state, or is undefined; its specification does so on the abstract
  state, where it is allowed. The contract is that an allowed operation is defined and follows its specification, and
  what follows from it, once for every data structure, is that sequences of operations do.
\<close>

fun run_ops :: "('op \<Rightarrow> 's \<Rightarrow> ('r \<times> 's) option) \<Rightarrow> 'op list \<Rightarrow> 's \<Rightarrow> ('r list \<times> 's) option" where
  "run_ops step [] s = Some ([], s)"
| "run_ops step (x # xs) s =
     Option.bind (step x s) (\<lambda>(r, s). map_option (\<lambda>(rs, s). (r # rs, s)) (run_ops step xs s))"

fun spec_ops :: "('op \<Rightarrow> 'a \<Rightarrow> 'r \<times> 'a) \<Rightarrow> 'op list \<Rightarrow> 'a \<Rightarrow> 'r list \<times> 'a" where
  "spec_ops spec [] a = ([], a)"
| "spec_ops spec (x # xs) a = (let (r, a) = spec x a; (rs, a) = spec_ops spec xs a in (r # rs, a))"

fun ops_ok :: "('op \<Rightarrow> 'a \<Rightarrow> bool) \<Rightarrow> ('op \<Rightarrow> 'a \<Rightarrow> 'r \<times> 'a) \<Rightarrow> 'op list \<Rightarrow> 'a \<Rightarrow> bool" where
  "ops_ok ok spec [] a \<longleftrightarrow> True"
| "ops_ok ok spec (x # xs) a \<longleftrightarrow> ok x a \<and> ops_ok ok spec xs (snd (spec x a))"

locale op_refinement =
  fixes step :: "'op \<Rightarrow> 's \<Rightarrow> ('r \<times> 's) option"
    and spec :: "'op \<Rightarrow> 'a \<Rightarrow> 'r \<times> 'a"
    and ok :: "'op \<Rightarrow> 'a \<Rightarrow> bool"
    and rel :: "'s \<Rightarrow> 'a \<Rightarrow> bool"
  assumes step_refines:
    "rel s a \<Longrightarrow> ok x a \<Longrightarrow> \<exists>s'. step x s = Some (fst (spec x a), s') \<and> rel s' (snd (spec x a))"
begin

lemma run_refines:
  assumes "rel s a" "ops_ok ok spec xs a"
  shows "\<exists>s'. run_ops step xs s = Some (fst (spec_ops spec xs a), s') \<and> rel s' (snd (spec_ops spec xs a))"
  using assms
proof (induction xs arbitrary: s a)
  case (Cons x xs)
  obtain s1 where s1: "step x s = Some (fst (spec x a), s1)" "rel s1 (snd (spec x a))"
    using step_refines Cons.prems by fastforce
  obtain s2 where "run_ops step xs s1 = Some (fst (spec_ops spec xs (snd (spec x a))), s2)"
    "rel s2 (snd (spec_ops spec xs (snd (spec x a))))"
    using Cons.IH[OF s1(2)] Cons.prems(2) by auto
  then show ?case
    using s1 by (auto simp: split_beta Let_def)
qed simp

end

end
