(* ===== verification/Virtqueue_Correct.thy ===== *)
theory Virtqueue_Correct
  imports Virtqueue Op_Refinement "HOL-Library.Multiset"
begin

unbundle bit_operations_syntax

text \<open>
  The virtqueue refines two queues of descriptors between a driver and a device. The indices of the rings run freely
  over 16 bits and are taken modulo the number of entries, a power of two; the relation \<open>vq_rel\<close> says that the slots
  between the indices hold the queues, and that every descriptor is in exactly one place. It interprets the
  locale \<open>op_refinement\<close>. Then the notification window of a kick, and the layout of the shared memory.
\<close>

section \<open>Rings with free-running indices\<close>

text \<open>
  \<open>holds n slots start xs\<close>: from the 16-bit index \<open>start\<close> on, taken modulo the number of entries, the slots hold \<open>xs\<close>.
\<close>

definition holds :: "nat \<Rightarrow> 'a list \<Rightarrow> u16 \<Rightarrow> 'a list \<Rightarrow> bool" where
  "holds n slots start xs \<longleftrightarrow> length xs \<le> n \<and> n \<le> length slots \<and>
     (\<forall>i<length xs. slots ! (unat (start + of_nat i) mod n) = xs ! i)"

lemma unat_add_mod:
  assumes "k \<le> 16"
  shows "unat (start + of_nat i :: u16) mod 2 ^ k = (unat start + i) mod 2 ^ k"
proof -
  have "(2 :: nat) ^ k dvd 2 ^ 16"
    using assms by (rule le_imp_power_dvd)
  then have m: "x mod 2 ^ 16 mod 2 ^ k = x mod 2 ^ k" for x :: nat
    by (rule mod_mod_cancel)
  have "unat (start + of_nat i :: u16) = (unat start + i) mod 2 ^ 16"
    by (simp add: unat_word_ariths unat_of_nat mod_add_right_eq)
  then show ?thesis
    by (simp only: m)
qed

lemma mod_add_distinct:
  assumes "i < n" "j < n" "(a + i) mod n = (a + j) mod (n :: nat)"
  shows "i = j"
  using assms
proof (induction i j rule: linorder_wlog)
  case (le i j)
  then have "n dvd j - i"
    using mod_eq_dvd_iff_nat[of "a + i" "a + j" n] by simp
  then show ?case
    using le by (meson dvd_imp_le leD le_antisym less_imp_diff_less not_gr_zero diff_is_0_eq)
qed simp

lemma holds_push:
  assumes "holds (2 ^ k) slots start xs" "length xs < 2 ^ k" "k \<le> 15"
  shows "holds (2 ^ k) (slots[unat (start + of_nat (length xs)) mod 2 ^ k := x]) start (xs @ [x])"
proof -
  have ne: "unat (start + of_nat (length xs)) mod 2 ^ k \<noteq> unat (start + of_nat i) mod 2 ^ k" if "i < length xs" for i
    using that assms(2,3) mod_add_distinct[of "length xs" "2 ^ k" i "unat start"] by (auto simp: unat_add_mod)
  have "unat (start + of_nat (length xs)) mod 2 ^ k < length slots"
    using assms(1) by (auto simp: holds_def intro: less_le_trans[OF mod_less_divisor])
  then show ?thesis
    using assms(1,2) ne by (auto simp: holds_def nth_append less_Suc_eq)
qed

lemma holds_pop:
  assumes "holds n slots start (x # xs)"
  shows "slots ! (unat start mod n) = x" "holds n slots (start + 1) xs"
  using assms by (auto simp: holds_def nth_Cons algebra_simps dest: spec[of _ 0] spec[of _ "Suc _"])

lemma ring_empty:
  assumes "length xs \<le> 2 ^ k" "k \<le> 15"
  shows "(start :: u16) = start + of_nat (length xs) \<longleftrightarrow> xs = []"
proof -
  have "(2 :: nat) ^ k \<le> 2 ^ 15"
    using assms(2) by (intro power_increasing) auto
  then have "(of_nat (length xs) :: u16) = 0 \<longleftrightarrow> length xs = 0"
    using assms(1) by (simp add: of_nat_eq_0_iff word_of_nat_eq_0_iff nat_dvd_not_less dvd_imp_le) (auto dest: dvd_imp_le)
  then show ?thesis
    by simp
qed

lemma ring_index_mod:
  assumes "vq_nentries vq = 2 ^ k" "k \<le> 15"
  shows "ring_index vq i = unat i mod 2 ^ k"
proof -
  have "vq_nentries vq - 1 = mask k"
    using assms(1) by (simp add: mask_eq_exp_minus_1)
  then have "ring_index vq i = unat (take_bit k i)"
    by (simp add: ring_index_def take_bit_eq_mask)
  also have "\<dots> = take_bit k (unat i)"
    by (rule unsigned_take_bit_eq)
  finally show ?thesis
    by (simp add: take_bit_eq_mod)
qed

section \<open>The two sides of a queue\<close>

text \<open>
  The driver owns the free descriptors and makes them available; the device takes them, and gives them back as used. The
  specification: which descriptors each side owns, the two queues between them, and the buffers that the descriptors name.
\<close>

record vq_spec =
  sp_head :: nat
  sp_bufs :: "(u32 \<times> u32) list"
  sp_free :: "nat list"
  sp_avail :: "nat list"
  sp_held :: "nat list"
  sp_used :: "(nat \<times> u32) list"

datatype vq_op =
    Fill u32 u32 | Fill_used u32 u32 | Add nat | Take | Consume nat u32 | Reclaim | Desc_size | Enable_cb | Disable_cb

datatype vq_result = Vq_status vq_status | Vq_buffer "(u32 \<times> nat \<times> u32) option" | Vq_size u32 | Vq_more bool | Vq_done

text \<open>An operation of the driver or the device on its control block and the shared ring.\<close>

definition vq_do ::
  "vq_op \<Rightarrow> 'c virtqueue \<times> 'c virtqueue \<times> vring_mem \<Rightarrow> (vq_result \<times> 'c virtqueue \<times> 'c virtqueue \<times> vring_mem) option" where
  "vq_do x s = (case s of (drv, dev, r) \<Rightarrow>
     (case x of
        Fill b len \<Rightarrow> map_option (\<lambda>(st, drv, r). (Vq_status st, drv, dev, r)) (virtqueue_fill_avail_buffers b len (drv, r))
      | Fill_used b len \<Rightarrow> map_option (\<lambda>(st, drv, r). (Vq_status st, drv, dev, r)) (virtqueue_fill_used_buffers b len (drv, r))
      | Add d \<Rightarrow> map_option (\<lambda>(st, drv, r). (Vq_status st, drv, dev, r)) (virtqueue_add_buffer (of_nat d) (drv, r))
      | Take \<Rightarrow> map_option (\<lambda>(b, dev). (Vq_buffer (map_option (\<lambda>(a, i, len). (a, unat i, len)) b), drv, dev, r))
          (virtqueue_get_available_buffer dev r)
      | Consume d len \<Rightarrow>
          map_option (\<lambda>(st, dev, r). (Vq_status st, drv, dev, r)) (virtqueue_add_consumed_buffer (of_nat d) len (dev, r))
      | Reclaim \<Rightarrow> Option.bind (virtqueue_get_buffer (Some drv) r) (\<lambda>(b, drv).
          map_option (\<lambda>drv. (Vq_buffer (map_option (\<lambda>(a, len, i). (a, unat i, len)) b), drv, dev, r)) drv)
      | Desc_size \<Rightarrow> map_option (\<lambda>n. (Vq_size n, drv, dev, r)) (virtqueue_get_desc_size dev r)
      | Enable_cb \<Rightarrow> map_option (\<lambda>(b, r). (Vq_more b, drv, dev, r)) (virtqueue_enable_cb (drv, r))
      | Disable_cb \<Rightarrow> map_option (\<lambda>r. (Vq_done, drv, dev, r)) (virtqueue_disable_cb (drv, r))))"

fun vq_abs :: "vq_op \<Rightarrow> vq_spec \<Rightarrow> vq_result \<times> vq_spec" where
  "vq_abs (Fill b len) a = (Vq_status VQUEUE_SUCCESS,
     a\<lparr>sp_head := sp_head a + 1, sp_bufs := (sp_bufs a)[sp_head a := (b, len)],
       sp_free := remove1 (sp_head a) (sp_free a), sp_avail := sp_avail a @ [sp_head a]\<rparr>)"
| "vq_abs (Fill_used b len) a = (Vq_status VQUEUE_SUCCESS,
     a\<lparr>sp_head := sp_head a + 1, sp_bufs := (sp_bufs a)[sp_head a := (b, len)],
       sp_free := remove1 (sp_head a) (sp_free a), sp_used := sp_used a @ [(sp_head a, len)]\<rparr>)"
| "vq_abs (Add d) a = (Vq_status VQUEUE_SUCCESS, a\<lparr>sp_free := remove1 d (sp_free a), sp_avail := sp_avail a @ [d]\<rparr>)"
| "vq_abs Take a =
     (case sp_avail a of
        [] \<Rightarrow> (Vq_buffer None, a)
      | d # ds \<Rightarrow> (Vq_buffer (Some (fst (sp_bufs a ! d), d, snd (sp_bufs a ! d))), a\<lparr>sp_avail := ds, sp_held := d # sp_held a\<rparr>))"
| "vq_abs (Consume d len) a =
     (Vq_status VQUEUE_SUCCESS, a\<lparr>sp_held := remove1 d (sp_held a), sp_used := sp_used a @ [(d, len)]\<rparr>)"
| "vq_abs Reclaim a =
     (case sp_used a of
        [] \<Rightarrow> (Vq_buffer None, a)
      | (d, len) # us \<Rightarrow> (Vq_buffer (Some (fst (sp_bufs a ! d), d, len)), a\<lparr>sp_used := us, sp_free := d # sp_free a\<rparr>))"
| "vq_abs Desc_size a = (Vq_size (if sp_avail a = [] then 0 else snd (sp_bufs a ! hd (sp_avail a))), a)"
| "vq_abs Enable_cb a = (Vq_more (sp_used a \<noteq> []), a)"
| "vq_abs Disable_cb a = (Vq_done, a)"

text \<open>The rule of the protocol: each side passes on only descriptors that it owns.\<close>

fun vq_ok :: "vq_op \<Rightarrow> vq_spec \<Rightarrow> bool" where
  "vq_ok (Fill b len) a \<longleftrightarrow> sp_head a \<in> set (sp_free a)"
| "vq_ok (Fill_used b len) a \<longleftrightarrow> sp_head a \<in> set (sp_free a) \<and> b \<noteq> 0"
| "vq_ok (Add d) a \<longleftrightarrow> d \<in> set (sp_free a)"
| "vq_ok (Consume d len) a \<longleftrightarrow> d \<in> set (sp_held a)"
| "vq_ok x a \<longleftrightarrow> True"

definition owned :: "vq_spec \<Rightarrow> nat list" where
  "owned a = sp_free a @ sp_avail a @ sp_held a @ map fst (sp_used a)"

definition used_elem :: "nat \<times> u32 \<Rightarrow> vring_used_elem" where
  "used_elem p = \<lparr>used_id = of_nat (fst p), used_len = snd p\<rparr>"

definition vq_rel :: "nat \<Rightarrow> 'c virtqueue \<times> 'c virtqueue \<times> vring_mem \<Rightarrow> vq_spec \<Rightarrow> bool" where
  "vq_rel k s a \<longleftrightarrow> (case s of (drv, dev, r) \<Rightarrow>
     k \<le> 15 \<and> vq_nentries drv = 2 ^ k \<and> vq_nentries dev = 2 ^ k \<and> \<not> event_idx_on drv \<and>
     vq_desc_head_idx drv = of_nat (sp_head a) \<and> sp_head a \<le> 2 ^ k \<and>
     length (vr_desc r) = 2 ^ k \<and> map (\<lambda>d. (ucast (desc_addr d), desc_len d)) (vr_desc r) = sp_bufs a \<and>
     holds (2 ^ k) (avail_ring r) (vq_available_idx dev) (map of_nat (sp_avail a)) \<and>
     avail_idx r = vq_available_idx dev + of_nat (length (sp_avail a)) \<and>
     holds (2 ^ k) (used_ring r) (vq_used_cons_idx drv) (map used_elem (sp_used a)) \<and>
     used_idx r = vq_used_cons_idx drv + of_nat (length (sp_used a)) \<and>
     mset (owned a) = mset [0..<2 ^ k])"

text \<open>As every descriptor is in one place, a queue with a descriptor elsewhere has room.\<close>

lemma owned_bounds:
  assumes "mset (owned a) = mset [0..<n]"
  shows "length (sp_free a) + length (sp_avail a) + length (sp_held a) + length (sp_used a) = n"
    "x \<in> set (owned a) \<Longrightarrow> x < n"
proof -
  have "length (owned a) = n"
    using assms by (metis length_upt minus_nat.diff_0 size_mset)
  then show "length (sp_free a) + length (sp_avail a) + length (sp_held a) + length (sp_used a) = n"
    by (simp add: owned_def)
  have "set (owned a) = set [0..<n]"
    using assms by (metis set_mset_mset)
  then show "x \<in> set (owned a) \<Longrightarrow> x < n"
    by simp
qed

lemma small_index:
  assumes "d < 2 ^ k" "k \<le> 15"
  shows "unat (of_nat d :: u16) = d" "unat (ucast (of_nat d :: u32) :: u16) = d" "ucast (of_nat d :: u16) = (of_nat d :: u32)"
    "\<not> (of_nat d :: u16) > 2 ^ k"
proof -
  have p: "(2 :: nat) ^ k \<le> 2 ^ 15"
    using assms(2) by (intro power_increasing) auto
  then have d: "d < 2 ^ 15"
    using assms(1) by linarith
  then show u: "unat (of_nat d :: u16) = d"
    by (simp add: unat_of_nat)
  show "unat (ucast (of_nat d :: u32) :: u16) = d"
    using d by (simp add: unsigned_ucast_eq unat_of_nat take_bit_eq_mod)
  show "ucast (of_nat d :: u16) = (of_nat d :: u32)"
    using d by (intro word_unat_eq_iff[THEN iffD2]) (simp add: unsigned_ucast_eq unat_of_nat take_bit_eq_mod)
  have "unat (2 ^ k :: u16) = 2 ^ k"
    using p unat_of_nat[of "2 ^ k", where 'a = 16] by simp
  then show "\<not> (of_nat d :: u16) > 2 ^ k"
    using u assms(1) by (simp add: word_less_nat_alt)
qed

lemma vq_relD:
  assumes "vq_rel k (drv, dev, r) a"
  shows "ring_index drv i = unat i mod 2 ^ k" "ring_index dev i = unat i mod 2 ^ k"
    "vq_available_idx dev = avail_idx r \<longleftrightarrow> sp_avail a = []" "vq_used_cons_idx drv = used_idx r \<longleftrightarrow> sp_used a = []"
    "d \<in> set (owned a) \<Longrightarrow> d < 2 ^ k"
    "d < 2 ^ k \<Longrightarrow> nth_opt (vr_desc r) d = Some (vr_desc r ! d) \<and> sp_bufs a ! d = (ucast (desc_addr (vr_desc r ! d)), desc_len (vr_desc r ! d))"
proof -
  note r = assms(1)[unfolded vq_rel_def prod.case]
  show "ring_index drv i = unat i mod 2 ^ k" "ring_index dev i = unat i mod 2 ^ k"
    using r by (simp_all add: ring_index_mod)
  note b = owned_bounds[of a "2 ^ k"]
  show "vq_available_idx dev = avail_idx r \<longleftrightarrow> sp_avail a = []" "vq_used_cons_idx drv = used_idx r \<longleftrightarrow> sp_used a = []"
    using r b(1) ring_empty[of "sp_avail a" k "vq_available_idx dev"] ring_empty[of "sp_used a" k "vq_used_cons_idx drv"]
    by auto
  show "d \<in> set (owned a) \<Longrightarrow> d < 2 ^ k"
    using r b(2) by blast
  show "d < 2 ^ k \<Longrightarrow> nth_opt (vr_desc r) d = Some (vr_desc r ! d) \<and>
      sp_bufs a ! d = (ucast (desc_addr (vr_desc r ! d)), desc_len (vr_desc r ! d))"
    using r nth_map[of d "vr_desc r" "\<lambda>d. (ucast (desc_addr d) :: u32, desc_len d)"] by (simp add: nth_opt_def)
qed

text \<open>The queue to the device: a descriptor put in, and one taken out.\<close>

lemma update_avail_rel:
  assumes "holds (2 ^ k) (avail_ring r) start (map of_nat ds)" "avail_idx r = start + of_nat (length ds)" "length ds < 2 ^ k"
    and "vq_nentries vq = 2 ^ k" "k \<le> 15"
  shows "\<exists>ring. vq_ring_update_avail (of_nat d) (vq, r) =
      Some (vq\<lparr>vq_queued_cnt := vq_queued_cnt vq + 1\<rparr>, r\<lparr>avail_ring := ring, avail_idx := avail_idx r + 1\<rparr>) \<and>
    holds (2 ^ k) ring start (map of_nat (ds @ [d]))"
proof -
  have i: "ring_index vq (avail_idx r) = unat (start + of_nat (length ds)) mod 2 ^ k"
    using assms(2,4,5) by (simp add: ring_index_mod)
  moreover have "\<dots> < length (avail_ring r)"
    using assms(1) by (auto simp: holds_def intro: less_le_trans[OF mod_less_divisor])
  ultimately show ?thesis
    using holds_push[OF assms(1), of "of_nat d"] assms(3,5)
    by (intro exI[of _ "(avail_ring r)[unat (start + of_nat (length ds)) mod 2 ^ k := of_nat d]"])
      (simp add: vq_ring_update_avail_def upd_opt_def)
qed

lemma update_used_rel:
  assumes "holds (2 ^ k) (used_ring r) start (map used_elem us)" "used_idx r = start + of_nat (length us)" "length us < 2 ^ k"
    and "vq_nentries vq = 2 ^ k" "k \<le> 15" "d < 2 ^ k"
  shows "\<exists>ring. vq_ring_update_used (of_nat d) len (vq, r) = Some (vq, r\<lparr>used_ring := ring, used_idx := used_idx r + 1\<rparr>) \<and>
    holds (2 ^ k) ring start (map used_elem (us @ [(d, len)]))"
proof -
  have i: "ring_index vq (used_idx r) = unat (start + of_nat (length us)) mod 2 ^ k"
    using assms(2,4,5) by (simp add: ring_index_mod)
  moreover have "\<dots> < length (used_ring r)"
    using assms(1) by (auto simp: holds_def intro: less_le_trans[OF mod_less_divisor])
  ultimately show ?thesis
    using holds_push[OF assms(1), of "used_elem (d, len)"] assms(3,5) small_index(3)[OF assms(6,5)]
    by (intro exI[of _ "(used_ring r)[unat (start + of_nat (length us)) mod 2 ^ k := used_elem (d, len)]"])
      (simp add: vq_ring_update_used_def upd_opt_def used_elem_def)
qed

lemma owned_move:
  "d \<in> set (sp_free a) \<Longrightarrow> mset (owned (a\<lparr>sp_free := remove1 d (sp_free a), sp_avail := sp_avail a @ [d]\<rparr>)) = mset (owned a)"
  "d \<in> set (sp_held a) \<Longrightarrow> mset (owned (a\<lparr>sp_held := remove1 d (sp_held a), sp_used := sp_used a @ [(d, len)]\<rparr>)) = mset (owned a)"
  "sp_avail a = d # ds \<Longrightarrow> mset (owned (a\<lparr>sp_avail := ds, sp_held := d # sp_held a\<rparr>)) = mset (owned a)"
  "sp_used a = (d, len) # us \<Longrightarrow> mset (owned (a\<lparr>sp_used := us, sp_free := d # sp_free a\<rparr>)) = mset (owned a)"
  by (simp_all add: owned_def)


lemma fill_desc:
  assumes "vq_rel k (drv, dev, r) a" "sp_head a \<in> set (sp_free a)"
  shows "sp_head a < 2 ^ k" "unat (vq_desc_head_idx drv) = sp_head a" "vq_desc_head_idx drv = of_nat (sp_head a)"
    "length (sp_avail a) < 2 ^ k" "length (sp_used a) < 2 ^ k"
    "sp_head a < length (vr_desc r)"
proof -
  note r = assms(1)[unfolded vq_rel_def prod.case]
  show h: "sp_head a < 2 ^ k"
    using vq_relD(5)[OF assms(1)] assms(2) by (simp add: owned_def)
  show "unat (vq_desc_head_idx drv) = sp_head a" "vq_desc_head_idx drv = of_nat (sp_head a)"
    using r small_index(1)[OF h] by auto
  have "0 < length (sp_free a)"
    using assms(2) by (cases "sp_free a") auto
  then show "length (sp_avail a) < 2 ^ k" "length (sp_used a) < 2 ^ k"
    using owned_bounds(1)[of a "2 ^ k"] r by linarith+
  show "sp_head a < length (vr_desc r)"
    using h r by simp
qed

lemma ucast_addr: "ucast (ucast (b :: u32) :: u64) = b"
  by (rule bit_word_eqI) (simp add: bit_simps)

lemma vq_rel_fill:
  assumes "vq_rel k (drv, dev, r) a" "sp_head a \<in> set (sp_free a)"
  shows "\<exists>s'. vq_do (Fill b len) (drv, dev, r) = Some (fst (vq_abs (Fill b len) a), s') \<and> vq_rel k s' (snd (vq_abs (Fill b len) a))"
proof -
  note r = assms(1)[unfolded vq_rel_def prod.case]
  note f = fill_desc[OF assms]
  let ?d = "(vr_desc r)[sp_head a := (vr_desc r ! sp_head a)\<lparr>desc_addr := ucast b, desc_len := len, desc_flags := VRING_DESC_F_WRITE\<rparr>]"
  let ?v = "drv\<lparr>vq_desc_head_idx := vq_desc_head_idx drv + 1\<rparr>"
  obtain ring where ring: "vq_ring_update_avail (of_nat (sp_head a)) (?v, r\<lparr>vr_desc := ?d\<rparr>) =
      Some (?v\<lparr>vq_queued_cnt := vq_queued_cnt ?v + 1\<rparr>, (r\<lparr>vr_desc := ?d\<rparr>)\<lparr>avail_ring := ring, avail_idx := avail_idx r + 1\<rparr>)"
    "holds (2 ^ k) ring (vq_available_idx dev) (map of_nat (sp_avail a @ [sp_head a]))"
    using update_avail_rel[of k "r\<lparr>vr_desc := ?d\<rparr>" "vq_available_idx dev" "sp_avail a" ?v "sp_head a"] r f(4) by auto
  then have "vq_do (Fill b len) (drv, dev, r) = Some (Vq_status VQUEUE_SUCCESS, ?v\<lparr>vq_queued_cnt := vq_queued_cnt ?v + 1\<rparr>, dev,
      (r\<lparr>vr_desc := ?d\<rparr>)\<lparr>avail_ring := ring, avail_idx := avail_idx r + 1\<rparr>)"
    using f by (simp add: vq_do_def virtqueue_fill_avail_buffers_def upd_opt_def Let_def)
  moreover have "vq_rel k (?v\<lparr>vq_queued_cnt := vq_queued_cnt ?v + 1\<rparr>, dev,
      (r\<lparr>vr_desc := ?d\<rparr>)\<lparr>avail_ring := ring, avail_idx := avail_idx r + 1\<rparr>) (snd (vq_abs (Fill b len) a))"
    using ring(2) r f owned_move(1)[OF assms(2)] ucast_addr
    by (simp add: vq_rel_def map_update event_idx_on_def owned_def)
  ultimately show ?thesis
    by (auto simp del: split_paired_Ex)
qed

lemma vq_rel_fill_used:
  assumes "vq_rel k (drv, dev, r) a" "sp_head a \<in> set (sp_free a)" "b \<noteq> 0"
  shows "\<exists>s'. vq_do (Fill_used b len) (drv, dev, r) = Some (fst (vq_abs (Fill_used b len) a), s') \<and>
    vq_rel k s' (snd (vq_abs (Fill_used b len) a))"
proof -
  note r = assms(1)[unfolded vq_rel_def prod.case]
  note f = fill_desc[OF assms(1,2)]
  let ?d = "(vr_desc r)[sp_head a := (vr_desc r ! sp_head a)\<lparr>desc_addr := ucast b, desc_len := len, desc_flags := VRING_DESC_F_WRITE\<rparr>]"
  let ?v = "drv\<lparr>vq_desc_head_idx := vq_desc_head_idx drv + 1\<rparr>"
  obtain ring where ring: "vq_ring_update_used (of_nat (sp_head a)) len (?v, r\<lparr>vr_desc := ?d\<rparr>) =
      Some (?v, (r\<lparr>vr_desc := ?d\<rparr>)\<lparr>used_ring := ring, used_idx := used_idx r + 1\<rparr>)"
    "holds (2 ^ k) ring (vq_used_cons_idx drv) (map used_elem (sp_used a @ [(sp_head a, len)]))"
    using update_used_rel[of k "r\<lparr>vr_desc := ?d\<rparr>" "vq_used_cons_idx drv" "sp_used a" ?v "sp_head a" len] r f(1,5) by auto
  then have "vq_do (Fill_used b len) (drv, dev, r) = Some (Vq_status VQUEUE_SUCCESS, ?v, dev,
      (r\<lparr>vr_desc := ?d\<rparr>)\<lparr>used_ring := ring, used_idx := used_idx r + 1\<rparr>)"
    using f assms(3) by (simp add: vq_do_def virtqueue_fill_used_buffers_def vq_ring_add_buffer_def upd_opt_def Let_def)
  moreover have "vq_rel k (?v, dev, (r\<lparr>vr_desc := ?d\<rparr>)\<lparr>used_ring := ring, used_idx := used_idx r + 1\<rparr>)
      (snd (vq_abs (Fill_used b len) a))"
    using ring(2) r f assms(2) ucast_addr by (simp add: vq_rel_def map_update event_idx_on_def owned_def)
  ultimately show ?thesis
    by (auto simp del: split_paired_Ex)
qed

lemma vq_rel_add:
  assumes "vq_rel k (drv, dev, r) a" "d \<in> set (sp_free a)"
  shows "\<exists>s'. vq_do (Add d) (drv, dev, r) = Some (fst (vq_abs (Add d) a), s') \<and> vq_rel k s' (snd (vq_abs (Add d) a))"
proof -
  note r = assms(1)[unfolded vq_rel_def prod.case]
  have "0 < length (sp_free a)"
    using assms(2) by (cases "sp_free a") auto
  then have "length (sp_avail a) < 2 ^ k"
    using owned_bounds(1)[of a "2 ^ k"] r by linarith
  then obtain ring where ring: "vq_ring_update_avail (of_nat d) (drv, r) =
      Some (drv\<lparr>vq_queued_cnt := vq_queued_cnt drv + 1\<rparr>, r\<lparr>avail_ring := ring, avail_idx := avail_idx r + 1\<rparr>)"
    "holds (2 ^ k) ring (vq_available_idx dev) (map of_nat (sp_avail a @ [d]))"
    using update_avail_rel[of k r "vq_available_idx dev" "sp_avail a" drv d] r by auto
  then show ?thesis
    using r owned_move(1)[OF assms(2)] by (simp add: vq_do_def virtqueue_add_buffer_def vq_rel_def event_idx_on_def owned_def)
qed

lemma vq_rel_consume:
  assumes "vq_rel k (drv, dev, r) a" "d \<in> set (sp_held a)"
  shows "\<exists>s'. vq_do (Consume d len) (drv, dev, r) = Some (fst (vq_abs (Consume d len) a), s') \<and>
    vq_rel k s' (snd (vq_abs (Consume d len) a))"
proof -
  note r = assms(1)[unfolded vq_rel_def prod.case]
  have d: "d < 2 ^ k"
    using vq_relD(5)[OF assms(1)] assms(2) by (simp add: owned_def)
  have "0 < length (sp_held a)"
    using assms(2) by (cases "sp_held a") auto
  then have "length (sp_used a) < 2 ^ k"
    using owned_bounds(1)[of a "2 ^ k"] r by linarith
  then obtain ring where ring: "vq_ring_update_used (of_nat d) len (dev, r) =
      Some (dev, r\<lparr>used_ring := ring, used_idx := used_idx r + 1\<rparr>)"
    "holds (2 ^ k) ring (vq_used_cons_idx drv) (map used_elem (sp_used a @ [(d, len)]))"
    using update_used_rel[of k r "vq_used_cons_idx drv" "sp_used a" dev d len] r d by auto
  then show ?thesis
    using r owned_move(2)[OF assms(2)] small_index(4)[OF d]
    by (simp add: vq_do_def virtqueue_add_consumed_buffer_def vq_rel_def owned_def)
qed

lemma vq_rel_take:
  assumes "vq_rel k (drv, dev, r) a"
  shows "\<exists>s'. vq_do Take (drv, dev, r) = Some (fst (vq_abs Take a), s') \<and> vq_rel k s' (snd (vq_abs Take a))"
proof (cases "sp_avail a")
  case Nil
  then show ?thesis
    using vq_relD(3)[OF assms] assms by (simp add: vq_do_def virtqueue_get_available_buffer_def)
next
  case (Cons d ds)
  note r = assms[unfolded vq_rel_def prod.case]
  have d: "d < 2 ^ k"
    using vq_relD(5)[OF assms] Cons by (simp add: owned_def)
  have h: "avail_ring r ! (unat (vq_available_idx dev) mod 2 ^ k) = of_nat d"
    "holds (2 ^ k) (avail_ring r) (vq_available_idx dev + 1) (map of_nat ds)"
    using holds_pop[of "2 ^ k" "avail_ring r" "vq_available_idx dev" "of_nat d" "map of_nat ds"] r Cons by simp_all
  have "unat (vq_available_idx dev) mod 2 ^ k < length (avail_ring r)"
    using r by (auto simp: holds_def intro: less_le_trans[OF mod_less_divisor])
  then have n: "nth_opt (avail_ring r) (unat (vq_available_idx dev) mod 2 ^ k) = Some (of_nat d)"
    using h(1) by (simp add: nth_opt_def)
  show ?thesis
    using n h(2) r Cons owned_move(3)[OF Cons] small_index(1)[OF d] vq_relD[OF assms] d
    by (simp add: vq_do_def virtqueue_get_available_buffer_def vq_rel_def owned_def)
qed

lemma vq_rel_reclaim:
  assumes "vq_rel k (drv, dev, r) a"
  shows "\<exists>s'. vq_do Reclaim (drv, dev, r) = Some (fst (vq_abs Reclaim a), s') \<and> vq_rel k s' (snd (vq_abs Reclaim a))"
proof (cases "sp_used a")
  case Nil
  then show ?thesis
    using vq_relD(4)[OF assms] assms by (simp add: vq_do_def virtqueue_get_buffer_def)
next
  case (Cons p us)
  obtain d len where p: "p = (d, len)"
    by (cases p)
  note r = assms[unfolded vq_rel_def prod.case]
  have d: "d < 2 ^ k"
    using vq_relD(5)[OF assms] Cons p by (simp add: owned_def)
  have h: "used_ring r ! (unat (vq_used_cons_idx drv) mod 2 ^ k) = used_elem (d, len)"
    "holds (2 ^ k) (used_ring r) (vq_used_cons_idx drv + 1) (map used_elem us)"
    using holds_pop[of "2 ^ k" "used_ring r" "vq_used_cons_idx drv" "used_elem (d, len)" "map used_elem us"] r Cons p by simp_all
  have "unat (vq_used_cons_idx drv) mod 2 ^ k < length (used_ring r)"
    using r by (auto simp: holds_def intro: less_le_trans[OF mod_less_divisor])
  then have n: "nth_opt (used_ring r) (unat (vq_used_cons_idx drv) mod 2 ^ k) = Some (used_elem (d, len))"
    using h(1) by (simp add: nth_opt_def)
  show ?thesis
    using n h(2) r Cons p owned_move(4)[of a d len us] small_index(1,2)[OF d] vq_relD[OF assms] d
    by (simp add: vq_do_def virtqueue_get_buffer_def vq_rel_def owned_def used_elem_def event_idx_on_def)
qed


lemma vq_rel_desc_size:
  assumes "vq_rel k (drv, dev, r) a"
  shows "\<exists>s'. vq_do Desc_size (drv, dev, r) = Some (fst (vq_abs Desc_size a), s') \<and> vq_rel k s' (snd (vq_abs Desc_size a))"
proof (cases "sp_avail a")
  case Nil
  then show ?thesis
    using vq_relD(3)[OF assms] assms by (simp add: vq_do_def virtqueue_get_desc_size_def)
next
  case (Cons d ds)
  note r = assms[unfolded vq_rel_def prod.case]
  have d: "d < 2 ^ k"
    using vq_relD(5)[OF assms] Cons by (simp add: owned_def)
  have "unat (vq_available_idx dev) mod 2 ^ k < length (avail_ring r)"
    using r by (auto simp: holds_def intro: less_le_trans[OF mod_less_divisor])
  then have n: "nth_opt (avail_ring r) (unat (vq_available_idx dev) mod 2 ^ k) = Some (of_nat d)"
    using holds_pop(1)[of "2 ^ k" "avail_ring r" "vq_available_idx dev" "of_nat d" "map of_nat ds"] r Cons
    by (simp add: nth_opt_def)
  show ?thesis
    using n Cons small_index(1)[OF d] vq_relD[OF assms] d r assms by (simp add: vq_do_def virtqueue_get_desc_size_def)
qed

lemma vq_rel_enable_cb:
  assumes "vq_rel k (drv, dev, r) a"
  shows "\<exists>s'. vq_do Enable_cb (drv, dev, r) = Some (fst (vq_abs Enable_cb a), s') \<and> vq_rel k s' (snd (vq_abs Enable_cb a))"
proof -
  note r = assms[unfolded vq_rel_def prod.case]
  have "used_idx r - vq_used_cons_idx drv > 0 \<longleftrightarrow> vq_used_cons_idx drv \<noteq> used_idx r"
    by (auto simp: word_greater_zero_iff)
  then show ?thesis
    using vq_relD(4)[OF assms] r
    by (simp add: vq_do_def virtqueue_enable_cb_def vq_ring_enable_interrupt_def virtqueue_nused_def vq_rel_def)
qed

lemma vq_rel_disable_cb:
  "vq_rel k (drv, dev, r) a \<Longrightarrow> \<exists>s'. vq_do Disable_cb (drv, dev, r) = Some (fst (vq_abs Disable_cb a), s') \<and> vq_rel k s' (snd (vq_abs Disable_cb a))"
  by (simp add: vq_do_def virtqueue_disable_cb_def vq_rel_def)

interpretation vq: op_refinement vq_do vq_abs vq_ok "vq_rel k" for k
proof
  fix s :: "'c virtqueue \<times> 'c virtqueue \<times> vring_mem" and a x
  assume "vq_rel k s a" "vq_ok x a"
  moreover obtain drv dev r where "s = (drv, dev, r)"
    by (cases s)
  ultimately show "\<exists>s'. vq_do x s = Some (fst (vq_abs x a), s') \<and> vq_rel k s' (snd (vq_abs x a))"
    using vq_rel_fill vq_rel_fill_used vq_rel_add vq_rel_take vq_rel_consume vq_rel_reclaim vq_rel_desc_size
      vq_rel_enable_cb vq_rel_disable_cb
    by (cases x) (simp_all only: vq_ok.simps, blast+)
qed


section \<open>Properties of the queue\<close>

text \<open>The state of the specification on a cleared ring: the driver owns every descriptor.\<close>

definition vq_start :: "nat \<Rightarrow> vq_spec" where
  "vq_start n = \<lparr>sp_head = 0, sp_bufs = replicate n (0, 0), sp_free = [0..<n], sp_avail = [], sp_held = [], sp_used = []\<rparr>"

lemma vq_rel_start:
  assumes "num_descs info = 2 ^ k" "k \<le> 15"
  shows "vq_rel k (virtqueue_create_static qid name info cb ntfy, virtqueue_create_static qid' name' info cb' ntfy', vring_cleared (2 ^ k))
    (vq_start (2 ^ k))"
  using assms
  by (simp add: vq_rel_def virtqueue_create_static_def vring_cleared_def vq_start_def event_idx_on_def holds_def owned_def
      map_replicate_const)

text \<open>
  C36. From two control blocks created on a cleared ring of a power of two of entries, every sequence of operations of driver
  and device in which each side passes on only descriptors it owns runs without an access outside of the rings; every result is that
  of the two queues, and every descriptor stays in exactly one place: free, available, held or used.
\<close>

theorem virtqueue_refines:
  assumes "num_descs info = 2 ^ k" "k \<le> 15" "ops_ok vq_ok vq_abs xs (vq_start (2 ^ k))"
  shows "\<exists>s'. run_ops vq_do xs
        (virtqueue_create_static qid name info cb ntfy, virtqueue_create_static qid' name' info cb' ntfy', vring_cleared (2 ^ k))
      = Some (fst (spec_ops vq_abs xs (vq_start (2 ^ k))), s') \<and>
    mset (owned (snd (spec_ops vq_abs xs (vq_start (2 ^ k))))) = mset [0..<2 ^ k]"
proof -
  obtain s' where "run_ops vq_do xs
        (virtqueue_create_static qid name info cb ntfy, virtqueue_create_static qid' name' info cb' ntfy', vring_cleared (2 ^ k))
      = Some (fst (spec_ops vq_abs xs (vq_start (2 ^ k))), s')"
    "vq_rel k s' (snd (spec_ops vq_abs xs (vq_start (2 ^ k))))"
    using vq.run_refines[OF vq_rel_start[OF assms(1,2)] assms(3)] by blast
  then show ?thesis
    by (auto simp: vq_rel_def)
qed

theorem virtqueue_refines_witness:
  "\<exists>s'. run_ops vq_do [Fill 4096 512, Take, Reclaim, Consume 0 100, Reclaim, Add 0, Fill_used 4608 512, Desc_size]
        (virtqueue_create_static 0 [] \<lparr>phy_addr = 8192, ring_align = 16, num_descs = 2 ^ 1\<rparr> None None,
         virtqueue_create_static 0 [] \<lparr>phy_addr = 8192, ring_align = 16, num_descs = 2 ^ 1\<rparr> None None, vring_cleared (2 ^ 1))
      = Some ([Vq_status VQUEUE_SUCCESS, Vq_buffer (Some (4096, 0, 512)), Vq_buffer None, Vq_status VQUEUE_SUCCESS,
               Vq_buffer (Some (4096, 0, 100)), Vq_status VQUEUE_SUCCESS, Vq_status VQUEUE_SUCCESS, Vq_size 512],
           s' :: unit virtqueue \<times> unit virtqueue \<times> vring_mem)"
  using virtqueue_refines[of "\<lparr>phy_addr = 8192, ring_align = 16, num_descs = 2 ^ 1\<rparr>" 1
      "[Fill 4096 512, Take, Reclaim, Consume 0 100, Reclaim, Add 0, Fill_used 4608 512, Desc_size]" 0 "[]" None None 0 "[]" None None]
  by (auto simp: vq_start_def upt_rec simp del: run_ops.simps split_paired_Ex)

text \<open>With event indices, a kick notifies when the entries added since the last one pass the index that the other side asked for.\<close>

lemma need_event_crossed: "vring_need_event e new old \<longleftrightarrow> (\<exists>j<unat (new - old). e = old + of_nat j)"
proof -
  have "vring_need_event e new old \<longleftrightarrow> e - old < new - old"
    unfolding vring_need_event_def by uint_arith
  also have "\<dots> \<longleftrightarrow> (\<exists>j<unat (new - old). e = old + of_nat j)"
  proof
    assume "e - old < new - old"
    then show "\<exists>j<unat (new - old). e = old + of_nat j"
      by (intro exI[of _ "unat (e - old)"]) (simp add: word_less_nat_alt)
  next
    assume "\<exists>j<unat (new - old). e = old + of_nat j"
    then obtain j where j: "j < unat (new - old)" "e - old = of_nat j"
      by auto
    then have "j < 2 ^ 16"
      using unsigned_less[of "new - old", where ?'a = nat] by simp
    then show "e - old < new - old"
      using j by (simp add: word_less_nat_alt unat_of_nat)
  qed
  finally show ?thesis .
qed


lemma vring_need_event_window:
  "virtqueue_kick call (vq, r) w =
     (if event_idx_on vq then
        map_option (\<lambda>e. (vq\<lparr>vq_queued_cnt := 0\<rparr>,
            if \<exists>j<unat (vq_queued_cnt vq). e = avail_idx r - vq_queued_cnt vq + of_nat j then vq_ring_notify_host call vq w else w))
          (vring_avail_event vq r)
      else Some (vq\<lparr>vq_queued_cnt := 0\<rparr>, if used_flags r AND VRING_USED_F_NO_NOTIFY = 0 then vq_ring_notify_host call vq w else w))"
  by (cases "vring_avail_event vq r") (simp_all add: virtqueue_kick_def vq_ring_must_notify_host_def need_event_crossed)

section \<open>The layout of the shared memory\<close>

lemma unat_clear_low: "unat (y AND NOT (2 ^ j - 1) :: u32) = unat y div 2 ^ j * 2 ^ j"
proof -
  have "y AND NOT (2 ^ j - 1) = push_bit j (drop_bit j y)"
    by (rule bit_word_eqI) (auto simp: bit_simps simp flip: mask_eq_exp_minus_1)
  then have "unat (y AND NOT (2 ^ j - 1)) = take_bit 32 (unat y div 2 ^ j * 2 ^ j)"
    by (simp only: unsigned_push_bit_eq unsigned_drop_bit_eq) (simp add: push_bit_eq_mult drop_bit_eq_div take_bit_eq_mod unsigned_less[of y, where ?'a = nat, simplified])
  moreover have "unat y div 2 ^ j * 2 ^ j < 2 ^ 32"
    using unsigned_less[of y, where ?'a = nat] by (intro order.strict_trans1[OF div_times_less_eq_dividend]) simp
  ultimately show ?thesis
    by (simp add: take_bit_eq_mod)
qed

lemma align_up:
  assumes "unat x + 2 ^ j \<le> 2 ^ 32" "j < 32"
  defines "y \<equiv> (x + 2 ^ j - 1) AND NOT (2 ^ j - 1) :: u32"
  shows "unat x \<le> unat y" "2 ^ j dvd unat y" "\<And>m. 2 ^ j dvd m \<Longrightarrow> unat x \<le> m \<Longrightarrow> unat y \<le> m"
    "unat y \<le> unat x + 2 ^ j - 1"
proof -
  have "(2 :: nat) ^ j < 2 ^ 32"
    using assms(2) by (intro power_strict_increasing) auto
  then have "of_nat (unat x + 2 ^ j - 1) = x + 2 ^ j - 1"
    by (subst of_nat_diff) (simp_all add: Suc_le_eq)
  moreover have "unat (of_nat (unat x + 2 ^ j - 1) :: u32) = unat x + 2 ^ j - 1"
    using assms(1) zero_less_power[OF zero_less_numeral, of num.One j] by (subst unat_of_nat, subst mod_less) simp_all
  ultimately have y: "unat y = (unat x + 2 ^ j - 1) div 2 ^ j * 2 ^ j"
    unfolding y_def by (simp add: unat_clear_low)
  show "2 ^ j dvd unat y"
    by (simp add: y)
  show "unat y \<le> unat x + 2 ^ j - 1"
    unfolding y by (rule div_times_less_eq_dividend)
  show "unat x \<le> unat y"
  proof -
    have "(1 :: nat) \<le> 2 ^ j" "(unat x + 2 ^ j - 1) mod 2 ^ j < 2 ^ j"
      by simp_all
    then show ?thesis
      using div_mult_mod_eq[of "unat x + 2 ^ j - 1" "2 ^ j"] unfolding y by linarith
  qed
  show "unat y \<le> m" if "2 ^ j dvd m" "unat x \<le> m" for m
  proof -
    obtain q where q: "m = q * 2 ^ j"
      using \<open>2 ^ j dvd m\<close> by (metis dvd_def mult.commute)
    moreover have "(1 :: nat) \<le> 2 ^ j"
      by simp
    ultimately have "unat x + 2 ^ j - 1 < (q + 1) * 2 ^ j"
      using that(2) unfolding distrib_right by linarith
    then have "(unat x + 2 ^ j - 1) div 2 ^ j \<le> q"
      using less_mult_imp_div_less[of _ "q + 1"] by fastforce
    then show ?thesis
      unfolding y q by simp
  qed
qed

lemma vring_pow2_slack: "\<not> 16 dvd 18 * 2 ^ k + (4 :: nat)" "\<not> 16 dvd 18 * 2 ^ k + (5 :: nat)"
proof -
  obtain m :: nat where m: "m = 2 ^ k"
    by simp
  have "m \<in> {1, 2, 4} \<or> 8 dvd m"
  proof (cases "k < 3")
    case True
    then show ?thesis
      using m by (cases k rule: nat.exhaust[case_product nat.exhaust]) (auto simp: less_Suc_eq numeral_eq_Suc)
  next
    case False
    then show ?thesis
      using m le_imp_power_dvd[of 3 k "2 :: nat"] by simp
  qed
  then show "\<not> 16 dvd 18 * 2 ^ k + (4 :: nat)" "\<not> 16 dvd 18 * 2 ^ k + (5 :: nat)"
    unfolding m[symmetric] by (auto, presburger+)
qed

text \<open>
  The descriptors, the available ring with its event index and the used ring lie in this order, do not overlap and fit
  the size that \<^const>\<open>vring_size\<close> computes, for alignments from 16 bytes on.
\<close>

theorem vring_layout:
  assumes "k \<le> 15" "4 \<le> j" "j \<le> 20" "2 ^ j dvd unat p" "unat p \<le> 2 ^ 31"
  defines "v \<equiv> vring_init (2 ^ k) p (2 ^ j)"
  shows "unat (avail_ptr v) = unat (desc_ptr v) + 16 * 2 ^ k" "2 ^ j dvd unat (used_ptr v)"
    "unat (avail_ptr v) + 6 + 2 * 2 ^ k \<le> unat (used_ptr v)"
    "unat (used_ptr v) + 6 + 8 * 2 ^ k \<le> unat p + unat (vring_size (2 ^ k) (2 ^ j))"
proof -
  let ?n = "2 ^ k :: nat" and ?a = "2 ^ j :: nat"
  have b: "?n \<le> 2 ^ 15" "?a \<le> 2 ^ 20"
    using assms(1,3) by (intro power_increasing; simp)+
  have small: "unat (of_nat m :: u32) = m" if "m < 2 ^ 32" for m
    using that by (simp add: unat_of_nat)
  have e: "p + 2 ^ k * 16 + 4 + 2 ^ k * 2 = of_nat (unat p + 18 * ?n + 4)" "p + 2 ^ k * 16 = of_nat (unat p + 16 * ?n)"
    "(2 ^ k * 16 + (6 + 2 ^ k * 2 + 2) :: u32) = of_nat (18 * ?n + 8)"
    by (simp_all add: algebra_simps)
  have "unat p + 18 * ?n + 4 < 2 ^ 32" "unat p + 16 * ?n < 2 ^ 32" "18 * ?n + 8 < 2 ^ 32"
    using b(1) assms(5) by simp_all
  then have x: "unat (p + 2 ^ k * 16 + 4 + 2 ^ k * 2) = unat p + 18 * ?n + 4" "unat (p + 2 ^ k * 16) = unat p + 16 * ?n"
    "unat (2 ^ k * 16 + (6 + 2 ^ k * 2 + 2) :: u32) = 18 * ?n + 8"
    using small[of "unat p + 18 * ?n + 4"] small[of "unat p + 16 * ?n"] small[of "18 * ?n + 8"] by (metis e(1), metis e(2), metis e(3))
  note u = align_up[of "p + 2 ^ k * 16 + 4 + 2 ^ k * 2" j]
  note s = align_up[of "2 ^ k * 16 + (6 + 2 ^ k * 2 + 2)" j]
  show a: "unat (avail_ptr v) = unat (desc_ptr v) + 16 * ?n"
    using x by (simp add: v_def vring_init_def)
  show d: "?a dvd unat (used_ptr v)"
    using u(2) x b assms(3,5) by (simp add: v_def vring_init_def Let_def)
  show "unat (avail_ptr v) + 6 + 2 * ?n \<le> unat (used_ptr v)"
  proof -
    have "unat p + 18 * ?n + 4 \<le> unat (used_ptr v)"
      using u(1) x b assms(3,5) by (simp add: v_def vring_init_def Let_def)
    moreover have "16 dvd unat p" "16 dvd unat (used_ptr v)"
      using assms(2,4) d le_imp_power_dvd[of 4 j "2 :: nat"] by (auto dest: dvd_trans)
    then have "unat (used_ptr v) \<noteq> unat p + 18 * ?n + 4" "unat (used_ptr v) \<noteq> unat p + 18 * ?n + 5"
      using vring_pow2_slack[of k] by (auto simp: add.assoc dvd_add_right_iff simp del: dvd_add_times_triv_left_iff)
    ultimately show ?thesis
      using a by (simp add: v_def vring_init_def Let_def)
  qed
  show "unat (used_ptr v) + 6 + 8 * ?n \<le> unat p + unat (vring_size (2 ^ k) (2 ^ j))"
  proof -
    let ?s = "((2 ^ k * 16 + (6 + 2 ^ k * 2 + 2)) + 2 ^ j - 1) AND NOT (2 ^ j - 1) :: u32"
    have sz: "18 * ?n + 8 \<le> unat ?s" "?a dvd unat ?s"
      using s(1,2) x b assms(3) by simp_all
    have "unat ?s < 2 ^ 30"
      using s(4) x(3) b assms(3) by simp
    moreover have "vring_size (2 ^ k) (2 ^ j) = of_nat (unat ?s + 14 + 8 * ?n)"
      by (simp add: vring_size_def Let_def algebra_simps)
    moreover have "unat ?s + 14 + 8 * ?n < 2 ^ 32" if "unat ?s < 2 ^ 30"
      using that b(1) by simp
    ultimately have "unat (vring_size (2 ^ k) (2 ^ j)) = unat ?s + 14 + 8 * ?n"
      by (simp only: small)
    moreover have "unat (used_ptr v) \<le> unat p + unat ?s"
      using u(3)[of "unat p + unat ?s"] x b assms(3,4,5) sz by (simp add: v_def vring_init_def Let_def)
    ultimately show ?thesis
      by simp
  qed
qed

end
