(* ===== verification/Utils_Crc_Correct.thy ===== *)
theory Utils_Crc_Correct
  imports Utils_Crc
begin

text \<open>
  The checksums against the mathematical definition: a bitwise reflected CRC with a polynomial (\<open>crc_spec\<close>), its linearity over
  exclusive or, from which the 768 table entries are checked, and what the checksum detects.
\<close>

section \<open>The reference\<close>

text \<open>One bit of a reflected CRC with polynomial \<open>p\<close>: divide by \<open>x\<close> and subtract \<open>p\<close> if the bit that drops out is 1.\<close>

definition crc_bit :: "'a::len word \<Rightarrow> 'a word \<Rightarrow> 'a word" where
  "crc_bit p c = (if bit c 0 then drop_bit 1 c XOR p else drop_bit 1 c)"

definition crc_byte :: "'a::len word \<Rightarrow> u8 \<Rightarrow> 'a word \<Rightarrow> 'a word" where
  "crc_byte p b c = (crc_bit p ^^ 8) (c XOR ucast b)"

text \<open>The CRC of a message: all ones at the start, the bytes in order, and a final exclusive or.\<close>

definition crc_spec :: "'a::len word \<Rightarrow> 'a word \<Rightarrow> bytes \<Rightarrow> 'a word" where
  "crc_spec p out bs = fold (crc_byte p) bs (NOT 0) XOR out"

lemma crc_bit_xor: "crc_bit p (a XOR b) = crc_bit p a XOR crc_bit p b"
  by (rule bit_word_eqI) (auto simp: crc_bit_def bit_simps)

lemma crc_bits_xor: "(crc_bit p ^^ n) (a XOR b) = (crc_bit p ^^ n) a XOR (crc_bit p ^^ n) b"
  by (induction n) (simp_all add: crc_bit_xor)

text \<open>As long as no 1 drops out the division is a shift.\<close>

lemma crc_bits_shift: "(\<And>i. i < n \<Longrightarrow> \<not> bit a i) \<Longrightarrow> (crc_bit p ^^ n) a = drop_bit n a"
proof (induction n arbitrary: a)
  case (Suc n)
  have "(crc_bit p ^^ Suc n) a = (crc_bit p ^^ n) (crc_bit p a)" by (simp add: funpow_swap1)
  also have "crc_bit p a = drop_bit 1 a" using Suc.prems [of 0] by (simp add: crc_bit_def)
  also have "(crc_bit p ^^ n) (drop_bit 1 a) = drop_bit n (drop_bit 1 a)"
    using Suc.prems by (intro Suc.IH) (auto simp: bit_simps)
  finally show ?case by (simp add: drop_bit_drop_bit)
qed simp

lemma crc_bits_split: "(crc_bit p ^^ n) a = (crc_bit p ^^ n) (take_bit n a) XOR drop_bit n a"
proof -
  have "a = take_bit n a XOR (a AND NOT (mask n))" by (rule bit_word_eqI) (auto simp: bit_simps)
  then have "(crc_bit p ^^ n) a = (crc_bit p ^^ n) (take_bit n a) XOR (crc_bit p ^^ n) (a AND NOT (mask n))"
    by (metis crc_bits_xor)
  also have "(crc_bit p ^^ n) (a AND NOT (mask n)) = drop_bit n (a AND NOT (mask n))"
    by (rule crc_bits_shift) (auto simp: bit_simps)
  also have "drop_bit n (a AND NOT (mask n)) = drop_bit n a" by (rule bit_word_eqI) (auto simp: bit_simps dest: bit_imp_le_length)
  finally show ?thesis .
qed

section \<open>The tables\<close>

text \<open>The table of a function that is linear over exclusive or, from its values at the powers of two, the highest first.\<close>

fun linear_table :: "'a::len word list \<Rightarrow> 'a word list" where
  "linear_table [] = [0]"
| "linear_table (t # ts) = linear_table ts @ map (\<lambda>x. x XOR t) (linear_table ts)"

lemma length_linear_table [simp]: "length (linear_table ts) = 2 ^ length ts"
  by (induction ts) simp_all

lemma word_of_nat_split:
  assumes "j < 2 ^ k"
  shows "(word_of_nat (j + 2 ^ k) :: 'a::len word) = word_of_nat j XOR 2 ^ k"
proof -
  have "\<not> bit j k" using assms by (metis bit_take_bit_iff less_irrefl take_bit_nat_eq_self)
  then have "\<not> bit (word_of_nat j AND 2 ^ k :: 'a word) n" for n by (cases "n = k") (auto simp: bit_simps)
  then have "(word_of_nat j :: 'a word) AND 2 ^ k = 0" by (intro bit_word_eqI) simp
  then show ?thesis by (simp add: disjunctive_add_eq_xor)
qed

lemma nth_linear_table:
  fixes g :: "'a::len word \<Rightarrow> 'a word"
  assumes "\<And>a b. g (a XOR b) = g a XOR g b" "i < 2 ^ n"
  shows "linear_table (rev (map (\<lambda>k. g (2 ^ k)) [0..<n])) ! i = g (word_of_nat i)"
  using assms(2)
proof (induction n arbitrary: i)
  case 0
  have "g 0 = g 0 XOR g 0" using assms(1) [of 0 0] by simp
  then have "g 0 = 0" by simp
  with 0 show ?case by simp
next
  case (Suc n)
  show ?case
  proof (cases "i < 2 ^ n")
    case True
    with Suc.IH show ?thesis by (simp add: nth_append)
  next
    case False
    then obtain j where j: "i = j + 2 ^ n" "j < 2 ^ n" using Suc.prems by (metis add.commute le_add_diff_inverse less_diff_conv2 linorder_not_less mult_2 power_Suc)
    with Suc.IH [of j] assms(1) show ?thesis by (simp add: nth_append word_of_nat_split del: of_nat_add of_nat_power)
  qed
qed

lemma crc_bits_power:
  assumes "k < n" "k < LENGTH('a::len)"
  shows "(crc_bit p ^^ n) (2 ^ k :: 'a word) = (crc_bit p ^^ (n - Suc k)) p"
proof -
  have "(crc_bit p ^^ k) (2 ^ k) = drop_bit k (2 ^ k :: 'a word)"
    by (rule crc_bits_shift) (simp add: bit_exp_iff)
  also have "\<dots> = 1" using assms(2) by (intro bit_word_eqI) (auto simp: bit_simps)
  finally have k: "(crc_bit p ^^ k) (2 ^ k) = 1" .
  have "drop_bit 1 (1 :: 'a word) = 0" by (rule bit_word_eqI) (auto simp: bit_simps)
  then have "(crc_bit p ^^ Suc k) (2 ^ k) = p" by (simp add: k crc_bit_def)
  moreover have "n = (n - Suc k) + Suc k" using assms(1) by simp
  ultimately show ?thesis by (metis comp_apply funpow_add)
qed

lemma funpow_small:
  "(f ^^ 2) x = f (f x)" "(f ^^ 3) x = f (f (f x))" "(f ^^ 4) x = f (f (f (f x)))" "(f ^^ 5) x = f (f (f (f (f x))))"
  "(f ^^ 6) x = f (f (f (f (f (f x)))))" "(f ^^ 7) x = f (f (f (f (f (f (f x))))))"
  by (simp_all add: numeral_eq_Suc)

lemma crc_bits_8:
  assumes "8 \<le> LENGTH('a::len)"
  shows "(crc_bit p ^^ 8) (1 :: 'a word) = (crc_bit p ^^ 7) p" "(crc_bit p ^^ 8) (2 :: 'a word) = (crc_bit p ^^ 6) p"
    "(crc_bit p ^^ 8) (4 :: 'a word) = (crc_bit p ^^ 5) p" "(crc_bit p ^^ 8) (8 :: 'a word) = (crc_bit p ^^ 4) p"
    "(crc_bit p ^^ 8) (16 :: 'a word) = (crc_bit p ^^ 3) p" "(crc_bit p ^^ 8) (32 :: 'a word) = (crc_bit p ^^ 2) p"
    "(crc_bit p ^^ 8) (64 :: 'a word) = crc_bit p p" "(crc_bit p ^^ 8) (128 :: 'a word) = p"
  using assms crc_bits_power [of 0 8 p] crc_bits_power [of 1 8 p] crc_bits_power [of 2 8 p] crc_bits_power [of 3 8 p]
    crc_bits_power [of 4 8 p] crc_bits_power [of 5 8 p] crc_bits_power [of 6 8 p] crc_bits_power [of 7 8 p] by simp_all

lemma crc32_bits:
  "crc_bit 0xedb88320 (0xedb88320 :: u32) = 0x76dc4190"
  "crc_bit 0xedb88320 (0x76dc4190 :: u32) = 0x3b6e20c8"
  "crc_bit 0xedb88320 (0x3b6e20c8 :: u32) = 0x1db71064"
  "crc_bit 0xedb88320 (0x1db71064 :: u32) = 0xedb8832"
  "crc_bit 0xedb88320 (0xedb8832 :: u32) = 0x76dc419"
  "crc_bit 0xedb88320 (0x76dc419 :: u32) = 0xee0e612c"
  "crc_bit 0xedb88320 (0xee0e612c :: u32) = 0x77073096"
  by (simp_all add: crc_bit_def)

lemma crc32_powers:
  "rev (map (\<lambda>k. (crc_bit 0xedb88320 ^^ 8) (2 ^ k :: u32)) [0..<8]) =
     [0xedb88320, 0x76dc4190, 0x3b6e20c8, 0x1db71064, 0xedb8832, 0x76dc419, 0xee0e612c, 0x77073096]"
proof -
  have "[0..<8] = [0, 1, 2, 3, 4, 5, 6, 7 :: nat]" by (simp add: upt_rec)
  then show ?thesis by (simp add: crc_bits_8 funpow_small crc32_bits)
qed

lemma crc32Tab_linear: "crc32Tab = linear_table [0xedb88320, 0x76dc4190, 0x3b6e20c8, 0x1db71064, 0xedb8832, 0x76dc419, 0xee0e612c, 0x77073096]"
  by (simp add: crc32Tab_def)

lemma crc16_bits:
  "crc_bit 0xa001 (0xa001 :: u16) = 0xf001"
  "crc_bit 0xa001 (0xf001 :: u16) = 0xd801"
  "crc_bit 0xa001 (0xd801 :: u16) = 0xcc01"
  "crc_bit 0xa001 (0xcc01 :: u16) = 0xc601"
  "crc_bit 0xa001 (0xc601 :: u16) = 0xc301"
  "crc_bit 0xa001 (0xc301 :: u16) = 0xc181"
  "crc_bit 0xa001 (0xc181 :: u16) = 0xc0c1"
  by (simp_all add: crc_bit_def)

lemma crc16_powers:
  "rev (map (\<lambda>k. (crc_bit 0xa001 ^^ 8) (2 ^ k :: u16)) [0..<8]) =
     [0xa001, 0xf001, 0xd801, 0xcc01, 0xc601, 0xc301, 0xc181, 0xc0c1]"
proof -
  have "[0..<8] = [0, 1, 2, 3, 4, 5, 6, 7 :: nat]" by (simp add: upt_rec)
  then show ?thesis by (simp add: crc_bits_8 funpow_small crc16_bits)
qed

text \<open>The two tables of CRC-16 hold the low and the high byte of the table of its polynomial.\<close>

lemma crc16_tables_linear:
  "map2 (\<lambda>h l. push_bit 8 (ucast l) OR ucast h) chCRCHTalbe chCRCLTalbe =
     (linear_table [0xa001, 0xf001, 0xd801, 0xcc01, 0xc601, 0xc301, 0xc181, 0xc0c1] :: u16 list)"
  by (simp add: chCRCHTalbe_def chCRCLTalbe_def)
section \<open>Steps of the code are steps of the reference\<close>

lemma low_byte: "(x AND 0xFF :: 'a::len word) = take_bit 8 x"
proof -
  have "(0xFF :: 'a word) = mask 8" by (simp add: mask_eq_exp_minus_1)
  then show ?thesis by (simp add: take_bit_eq_mask)
qed

lemma crc32_step_crc_byte: "crc32_step b c = crc_byte 0xEDB88320 b c"
proof -
  let ?x = "c XOR ucast b"
  have "unat (?x AND 0xFF) = take_bit 8 (unat ?x)" by (simp only: low_byte unsigned_take_bit_eq)
  then have "unat (?x AND 0xFF) < 256" using take_bit_nat_less_exp [of 8 "unat ?x"] by simp
  then have "crc32Tab ! unat (?x AND 0xFF) = (crc_bit 0xEDB88320 ^^ 8) (word_of_nat (unat (?x AND 0xFF)))"
    using nth_linear_table [of "(crc_bit (0xEDB88320 :: u32) ^^ 8)" "unat (?x AND 0xFF)" 8, OF crc_bits_xor]
    by (simp add: crc32Tab_linear crc32_powers del: linear_table.simps)
  moreover have "drop_bit 8 ?x = drop_bit 8 c" by (rule bit_word_eqI) (auto simp: bit_simps dest: bit_imp_le_length)
  ultimately show ?thesis
    unfolding crc32_step_def crc_byte_def crc_bits_split [of 8 _ ?x] by (simp add: low_byte)
qed

abbreviation crc16_join :: "u8 \<times> u8 \<Rightarrow> u16" where
  "crc16_join s \<equiv> push_bit 8 (ucast (fst s)) OR ucast (snd s)"

lemma crc16_step_crc_byte: "crc16_join (crc16_step b s) = crc_byte 0xA001 b (crc16_join s)"
proof -
  obtain hi lo where s: "s = (hi, lo)" by (cases s)
  let ?i = "unat (lo XOR b)" and ?x = "crc16_join s XOR ucast b"
  have i: "?i < 256" using unsigned_less [of "lo XOR b", where 'a = nat] by simp
  have len: "length chCRCHTalbe = 256" "length chCRCLTalbe = 256" by (simp_all add: chCRCHTalbe_def chCRCLTalbe_def)
  have t: "take_bit 8 ?x = ucast (lo XOR b)" "drop_bit 8 ?x = ucast hi"
    by (rule bit_word_eqI, auto simp: s bit_simps dest: bit_imp_le_length)+
  have "push_bit 8 (ucast (chCRCLTalbe ! ?i)) OR ucast (chCRCHTalbe ! ?i) = (crc_bit 0xA001 ^^ 8) (word_of_nat ?i :: u16)"
    using nth_linear_table [of "(crc_bit (0xA001 :: u16) ^^ 8)" ?i 8, OF crc_bits_xor] i len
      arg_cong [OF crc16_tables_linear, of "\<lambda>t. t ! ?i"]
    by (simp add: crc16_powers del: linear_table.simps)
  moreover have "(word_of_nat ?i :: u16) = ucast (lo XOR b)"
    by (simp add: of_nat_unat)
  ultimately have "crc_byte 0xA001 b (crc16_join s) =
      (push_bit 8 (ucast (chCRCLTalbe ! ?i)) OR ucast (chCRCHTalbe ! ?i)) XOR ucast hi"
    unfolding crc_byte_def crc_bits_split [of 8 _ ?x] t by simp
  also have "\<dots> = crc16_join (crc16_step b s)"
    by (rule bit_word_eqI) (auto simp: s crc16_step_def Let_def bit_simps dest: bit_imp_le_length)
  finally show ?thesis by simp
qed

lemma ccitt_bits_crc: "ccitt_bits n d c = (crc_bit POLY ^^ n) (c XOR ucast d) XOR ucast (drop_bit n d)"
proof (induction n arbitrary: d c)
  case (Suc n)
  let ?c = "if (c AND 1) XOR ucast (d AND 1) \<noteq> 0 then drop_bit 1 c XOR POLY else drop_bit 1 c"
  have odd: "((c AND 1) XOR ucast (d AND 1) \<noteq> 0) = (bit c 0 \<noteq> bit d 0)"
    by (cases "odd c"; cases "odd d") (simp_all add: and_one_eq mod_2_eq_odd bit_0)
  have "crc_bit POLY (c XOR ucast d) = ?c XOR ucast (drop_bit 1 d)"
    by (rule bit_word_eqI) (auto simp: odd crc_bit_def bit_simps dest: bit_imp_le_length)
  then have "(crc_bit POLY ^^ Suc n) (c XOR ucast d) = (crc_bit POLY ^^ n) (?c XOR ucast (drop_bit 1 d))"
    by (simp add: funpow_swap1)
  with Suc.IH [of "drop_bit 1 d" ?c] show ?case by (simp add: drop_bit_drop_bit)
qed (simp add: xor.assoc)

lemma ccitt_byte: "ccitt_bits 8 d c = crc_byte POLY d c"
proof -
  have "drop_bit 8 d = 0" by (rule bit_word_eqI) (auto simp: bit_simps dest: bit_imp_le_length)
  then show ?thesis by (simp add: ccitt_bits_crc crc_byte_def)
qed

section \<open>Several bytes at once, and errors\<close>

lemma le_word_high: "8 * length bs \<le> i \<Longrightarrow> \<not> bit (le_word bs :: 'a::len word) i"
  by (induction bs arbitrary: i) (auto simp: bit_simps dest: bit_imp_le_length)

text \<open>Up to the width of the checksum, bytes are processed as one little-endian word.\<close>

lemma fold_crc_byte:
  assumes "8 * length bs \<le> LENGTH('a::len)"
  shows "fold (crc_byte p) bs c = (crc_bit p ^^ (8 * length bs)) (c XOR le_word bs :: 'a word)"
  using assms
proof (induction bs arbitrary: c)
  case (Cons b bs)
  let ?r = "le_word bs :: 'a word"
  have x: "c XOR le_word (b # bs) = (c XOR ucast b) XOR push_bit 8 ?r"
    by (rule bit_word_eqI) (auto simp: bit_simps dest: bit_imp_le_length)
  have "(crc_bit p ^^ 8) (push_bit 8 ?r) = drop_bit 8 (push_bit 8 ?r)"
    by (rule crc_bits_shift) (auto simp: bit_simps)
  also have "\<dots> = ?r"
  proof (rule bit_word_eqI)
    fix n assume "n < LENGTH('a)"
    have "bit ?r n \<Longrightarrow> 8 + n < LENGTH('a)"
      using Cons.prems le_word_high [of bs n, where 'a = 'a] by (cases "8 * length bs \<le> n") auto
    then show "bit (drop_bit 8 (push_bit 8 ?r)) n = bit ?r n" by (auto simp: bit_simps)
  qed
  finally have "(crc_bit p ^^ 8) (c XOR le_word (b # bs)) = crc_byte p b c XOR ?r"
    unfolding x crc_byte_def crc_bits_xor [of 8 p "c XOR ucast b"] by simp
  moreover have "(crc_bit p ^^ (8 * length (b # bs))) y = (crc_bit p ^^ (8 * length bs)) ((crc_bit p ^^ 8) y)" for y
    by (metis add.commute comp_apply funpow_add length_Cons mult_Suc_right)
  ultimately show ?case using Cons by simp
qed simp

lemma crc_bit_inj:
  assumes "bit p (LENGTH('a::len) - 1)" "crc_bit p a = crc_bit p (b :: 'a word)"
  shows "a = b"
proof -
  have top: "\<not> bit (drop_bit 1 c) (LENGTH('a) - 1)" for c :: "'a word"
    by (auto simp: bit_simps dest: bit_imp_le_length)
  have "bit (crc_bit p c) (LENGTH('a) - 1) = bit c 0" for c :: "'a word"
    using assms(1) top [of c] by (simp add: crc_bit_def bit_xor_iff)
  with assms(2) have z: "bit a 0 = bit b 0" by metis
  have "x XOR p = y XOR p \<Longrightarrow> x = y" for x y :: "'a word" by (auto simp: bit_eq_iff bit_simps)
  with assms(2) z have d: "drop_bit 1 a = drop_bit 1 b" by (cases "bit b 0") (auto simp: crc_bit_def)
  have "bit a n = bit b n" for n
    using z arg_cong [OF d, of "\<lambda>w. bit w (n - 1)"] by (cases n) (simp_all add: bit_drop_bit_eq)
  then show ?thesis by (simp add: bit_eq_iff)
qed
lemma crc_bits_inj:
  "bit p (LENGTH('a::len) - 1) \<Longrightarrow> (crc_bit p ^^ n) a = (crc_bit p ^^ n) (b :: 'a word) \<Longrightarrow> a = b"
proof (induction n)
  case (Suc n)
  from Suc.prems(2) have "crc_bit p ((crc_bit p ^^ n) a) = crc_bit p ((crc_bit p ^^ n) b)" by simp
  from Suc.IH [OF Suc.prems(1) crc_bit_inj [OF Suc.prems(1) this]] show ?case .
qed simp

lemma xor_cancel: "x XOR z = y XOR z \<Longrightarrow> x = (y :: 'a::len word)"
  by (auto simp: bit_eq_iff bit_simps)

lemma crc_bytes_inj:
  "bit p (LENGTH('a::len) - 1) \<Longrightarrow> fold (crc_byte p) bs a = fold (crc_byte p) bs (b :: 'a word) \<Longrightarrow> a = b"
proof (induction bs arbitrary: a b)
  case (Cons x bs)
  then have "crc_byte p x a = crc_byte p x b" by (metis fold_simps(2))
  then have "a XOR ucast x = b XOR ucast x" using crc_bits_inj [OF Cons.prems(1)] by (simp only: crc_byte_def)
  then show ?case by (rule xor_cancel)
qed simp

text \<open>A burst of errors no longer than the checksum changes it.\<close>

lemma crc_spec_burst:
  assumes "bit p (LENGTH('a::len) - 1)" "length ws = length vs" "8 * length ws \<le> LENGTH('a)" "ws \<noteq> vs"
  shows "crc_spec p out (xs @ ws @ ys) \<noteq> crc_spec p (out :: 'a word) (xs @ vs @ ys)"
proof
  let ?c = "fold (crc_byte p) xs (NOT 0)"
  assume "crc_spec p out (xs @ ws @ ys) = crc_spec p out (xs @ vs @ ys)"
  then have "fold (crc_byte p) ys (fold (crc_byte p) ws ?c) = fold (crc_byte p) ys (fold (crc_byte p) vs ?c)"
    unfolding crc_spec_def fold_append comp_apply by (rule xor_cancel)
  then have "fold (crc_byte p) ws ?c = fold (crc_byte p) vs ?c" by (rule crc_bytes_inj [OF assms(1)])
  then have "(crc_bit p ^^ (8 * length ws)) (?c XOR le_word ws) = (crc_bit p ^^ (8 * length ws)) (?c XOR le_word vs)"
    using fold_crc_byte [of ws p ?c] fold_crc_byte [of vs p ?c] assms(2,3) by simp
  then have "?c XOR le_word ws = ?c XOR le_word vs" by (rule crc_bits_inj [OF assms(1)])
  then have "le_word ws XOR ?c = le_word vs XOR ?c" by (simp only: xor.commute)
  then have "(le_word ws :: 'a word) = le_word vs" by (rule xor_cancel)
  then have "ws = vs" using le_bytes_le_word [of ws, where 'a = 'a] le_bytes_le_word [of vs, where 'a = 'a] assms(2,3) by metis
  with assms(4) show False by simp
qed

section \<open>Properties of the checksums\<close>

lemma all_ones: "(0xffffffff :: u32) = - 1" "(0xFFFF :: u16) = - 1"
  by simp_all

lemma crc32_spec:
  assumes "unat len \<le> length data"
  shows "utils_crc32 data len = Some (crc_spec 0xEDB88320 (NOT 0) (take (unat len) data))"
proof -
  have "crc32_step = crc_byte 0xEDB88320" by (simp add: fun_eq_iff crc32_step_crc_byte)
  with assms show ?thesis by (simp add: utils_crc32_def crc_spec_def Let_def all_ones)
qed

text \<open>
  C37. The table-driven checksums are the bitwise ones: CRC-32 with the reflected polynomial 0xEDB88320, CRC-16 with 0xA001 and
  CRC-16-CCITT with 0x8408, all starting from all ones, the first and the last complemented at the end. In particular every
  one of the 768 table entries is right.
\<close>

theorem crc_reference:
  assumes "unat len \<le> length data"
  shows "utils_crc32 data len = Some (crc_spec 0xEDB88320 (NOT 0) (take (unat len) data)) \<and>
    utils_crc16 data len = Some (crc_spec 0xA001 0 (take (unat len) data)) \<and>
    utils_crc16_ccitt data len = Some (crc_spec 0x8408 (NOT 0) (take (unat len) data))"
proof (intro conjI)
  show "utils_crc32 data len = Some (crc_spec 0xEDB88320 (NOT 0) (take (unat len) data))" by (rule crc32_spec [OF assms])
  have "crc16_join (fold crc16_step bs s) = fold (crc_byte 0xA001) bs (crc16_join s)" for bs s
    by (induction bs arbitrary: s) (simp_all only: fold_simps crc16_step_crc_byte)
  from this [of _ "(0xFF, 0xFF)"] assms show "utils_crc16 data len = Some (crc_spec 0xA001 0 (take (unat len) data))"
    by (simp add: utils_crc16_def crc_spec_def case_prod_beta all_ones)
  have "ccitt_bits 8 = crc_byte 0x8408" by (simp only: fun_eq_iff ccitt_byte POLY_def simp_thms)
  with assms show "utils_crc16_ccitt data len = Some (crc_spec 0x8408 (NOT 0) (take (unat len) data))"
    by (cases "len = 0") (simp_all add: utils_crc16_ccitt_def crc_spec_def Let_def all_ones)
qed

theorem crc_reference_witness:
  "utils_crc32 [0x31, 0x32, 0x33] 3 = Some (crc_spec 0xEDB88320 (NOT 0) [0x31, 0x32, 0x33])"
  using crc_reference [of 3 "[0x31, 0x32, 0x33]"] by simp

text \<open>
  C38. A change of a message that is confined to four neighbouring bytes is always detected: the CRC-32 of the two messages differ.
\<close>

theorem crc32_detects_burst:
  assumes "length ws = length vs" "length ws \<le> 4" "ws \<noteq> vs" "length xs + length ws + length ys < 2 ^ 32"
  shows "utils_crc32 (xs @ ws @ ys) (of_nat (length xs + length ws + length ys)) \<noteq>
    utils_crc32 (xs @ vs @ ys) (of_nat (length xs + length ws + length ys))"
proof -
  have len: "unat (of_nat (length xs + length ws + length ys) :: u32) = length xs + length ws + length ys"
    using assms(4) by (simp only: unat_of_nat) simp
  have "bit (0xEDB88320 :: u32) 31" by (simp add: bit_numeral_rec)
  then have "crc_spec 0xEDB88320 (NOT 0 :: u32) (xs @ ws @ ys) \<noteq> crc_spec 0xEDB88320 (NOT 0) (xs @ vs @ ys)"
    using assms(1-3) by (intro crc_spec_burst) simp_all
  moreover have "utils_crc32 (xs @ zs @ ys) (of_nat (length xs + length ws + length ys)) =
      Some (crc_spec 0xEDB88320 (NOT 0) (xs @ zs @ ys))" if "length zs = length ws" for zs
    using crc32_spec [of "of_nat (length xs + length ws + length ys)" "xs @ zs @ ys"] that unfolding len by simp
  ultimately show ?thesis using assms(1) by simp
qed

theorem crc32_detects_burst_witness:
  "utils_crc32 [1, 2, 3, 4, 5] 5 \<noteq> utils_crc32 [1, 9, 3, 7, 5] 5"
  using crc32_detects_burst [of "[2, 3, 4]" "[9, 3, 7]" "[1]" "[5]"] by simp

text \<open>Feeding a list of blocks into a stream.\<close>

fun feed_blocks :: "bytes list \<Rightarrow> crc32_stream_ctx \<Rightarrow> crc32_stream_ctx option" where
  "feed_blocks [] ctx = Some ctx"
| "feed_blocks (b # bs) ctx = Option.bind (utils_crc32_stream_feed_block b (of_nat (length b)) ctx) (feed_blocks bs)"

lemma feed_blocks_fold:
  "\<forall>b \<in> set bs. length b < 2 ^ 32 \<Longrightarrow> feed_blocks bs ctx = Some (ctx\<lparr>ctx_crc := fold crc32_step (concat bs) (ctx_crc ctx)\<rparr>)"
proof (induction bs arbitrary: ctx)
  case (Cons b bs)
  then have "unat (of_nat (length b) :: u32) = length b" by (simp only: unat_of_nat) simp
  with Cons show ?case by (simp add: utils_crc32_stream_feed_block_def)
qed simp

text \<open>
  The stream gives the CRC-32 of the whole message, however it is cut into blocks.
\<close>

theorem crc32_stream_blocks:
  assumes "length (concat bs) < 2 ^ 32"
  shows "\<exists>ctx'. feed_blocks bs (utils_crc32_stream_init ctx) = Some ctx' \<and>
    utils_crc32 (concat bs) (of_nat (length (concat bs))) = Some (utils_crc32_stream_results ctx')"
proof -
  have "length b \<le> length (concat bs)" if "b \<in> set bs" for b
    using that by (induction bs) auto
  then have "\<forall>b \<in> set bs. length b < 2 ^ 32" using assms order_le_less_trans by blast
  moreover have "unat (of_nat (length (concat bs)) :: u32) = length (concat bs)" using assms by (simp only: unat_of_nat) simp
  ultimately show ?thesis
    by (simp add: feed_blocks_fold utils_crc32_stream_init_def utils_crc32_stream_results_def utils_crc32_def)
qed

theorem crc32_stream_blocks_witness:
  "\<exists>ctx'. feed_blocks [[1, 2], [], [3]] (utils_crc32_stream_init \<lparr>ctx_crc = 0\<rparr>) = Some ctx' \<and>
    utils_crc32 [1, 2, 3] 3 = Some (utils_crc32_stream_results ctx')"
  using crc32_stream_blocks [of "[[1, 2], [], [3]]" "\<lparr>ctx_crc = 0\<rparr>"] by simp

end
