(* ===== verification/Utils_List.thy ===== *)
theory Utils_List
  imports Oblfr_Prelude
begin

text \<open>
  The linked list of the wifi component (\<^verbatim>\<open>components/wifi/utils/utils_list.c\<close> and the inline functions of its header): a list
  head with pointers to the first and the last element, and elements that hold the pointer to the next. The
  heap gives the \<^verbatim>\<open>next\<close> field of every element; following a null or dangling pointer is \<^const>\<open>None\<close>, as is a
  walk that does not end. The payload of the elements is not modelled.
\<close>

type_synonym list_heap = "nat \<rightharpoonup> nat option"

record utils_list =
  l_first :: "nat option"
  l_last :: "nat option"

definition set_next :: "nat \<Rightarrow> nat option \<Rightarrow> list_heap \<Rightarrow> list_heap option" where
  "set_next a p h = (if h a = None then None else Some (h(a \<mapsto> p)))"

definition utils_list_init :: "utils_list \<Rightarrow> utils_list" where
  "utils_list_init l = l\<lparr>l_first := None, l_last := None\<rparr>"

definition utils_list_is_empty :: "utils_list \<Rightarrow> bool" where
  "utils_list_is_empty l \<longleftrightarrow> l_first l = None"

definition utils_list_pick :: "utils_list \<Rightarrow> nat option" where
  "utils_list_pick l = l_first l"

definition utils_list_pick_last :: "utils_list \<Rightarrow> nat option" where
  "utils_list_pick_last l = l_last l"

definition utils_list_next :: "nat \<Rightarrow> list_heap \<Rightarrow> nat option option" where
  "utils_list_next a h = h a"

definition utils_list_push_back :: "utils_list \<Rightarrow> nat \<Rightarrow> list_heap \<Rightarrow> (utils_list \<times> list_heap) option" where
  "utils_list_push_back l hdr h = do {
     (l, h) \<leftarrow>
       (if utils_list_is_empty l then Some (l\<lparr>l_first := Some hdr\<rparr>, h)
        else do { la \<leftarrow> l_last l; h \<leftarrow> set_next la (Some hdr) h; Some (l, h) });
     let l = l\<lparr>l_last := Some hdr\<rparr>;
     h \<leftarrow> set_next hdr None h;
     Some (l, h)
   }"

text \<open>
  \<^verbatim>\<open>utils_list_pool_init\<close>: \<open>pool\<close> is the address of the first element. The default value that is copied into an
  element is payload, and its header is set by the push that follows.
\<close>

fun pool_push :: "nat \<Rightarrow> nat \<Rightarrow> nat \<Rightarrow> utils_list \<Rightarrow> list_heap \<Rightarrow> (utils_list \<times> list_heap) option" where
  "pool_push pool sz 0 l h = Some (l, h)"
| "pool_push pool sz (Suc n) l h = do {
     (l, h) \<leftarrow> utils_list_push_back l pool h;
     pool_push (pool + sz) sz n l h
   }"

definition utils_list_pool_init ::
  "utils_list \<Rightarrow> nat \<Rightarrow> nat \<Rightarrow> nat \<Rightarrow> list_heap \<Rightarrow> (utils_list \<times> list_heap) option" where
  "utils_list_pool_init l pool elmt_size elmt_cnt h = pool_push pool elmt_size elmt_cnt (utils_list_init l) h"

definition utils_list_push_front :: "utils_list \<Rightarrow> nat \<Rightarrow> list_heap \<Rightarrow> (utils_list \<times> list_heap) option" where
  "utils_list_push_front l hdr h = do {
     let l = (if utils_list_is_empty l then l\<lparr>l_last := Some hdr\<rparr> else l);
     h \<leftarrow> set_next hdr (l_first l) h;
     Some (l\<lparr>l_first := Some hdr\<rparr>, h)
   }"

definition utils_list_pop_front :: "utils_list \<Rightarrow> list_heap \<Rightarrow> (nat option \<times> utils_list) option" where
  "utils_list_pop_front l h =
     (case l_first l of
        None \<Rightarrow> Some (None, l)
      | Some a \<Rightarrow> do { n \<leftarrow> h a; Some (Some a, l\<lparr>l_first := n\<rparr>) })"

text \<open>The loop of \<^verbatim>\<open>utils_list_extract\<close>: the element whose successor is \<open>hdr\<close>, or the last one.\<close>

partial_function (option) extract_walk :: "list_heap \<Rightarrow> nat \<Rightarrow> nat \<Rightarrow> nat option" where
  "extract_walk h hdr scan =
     Option.bind (h scan) (\<lambda>n.
       case n of
         None \<Rightarrow> Some scan
       | Some b \<Rightarrow> if b \<noteq> hdr then extract_walk h hdr b else Some scan)"

definition utils_list_extract :: "utils_list \<Rightarrow> nat \<Rightarrow> list_heap \<Rightarrow> (utils_list \<times> list_heap) option" where
  "utils_list_extract l hdr h =
     (case l_first l of
        None \<Rightarrow> Some (l, h)
      | Some scan \<Rightarrow>
          if scan = hdr then do { n \<leftarrow> h scan; Some (l\<lparr>l_first := n\<rparr>, h) }
          else do {
            scan \<leftarrow> extract_walk h hdr scan;
            n \<leftarrow> h scan;
            if n \<noteq> None then do {
              let l = (if l_last l = Some hdr then l\<lparr>l_last := Some scan\<rparr> else l);
              m \<leftarrow> h hdr;
              h \<leftarrow> set_next scan m h;
              Some (l, h)
            } else Some (l, h)
          })"

partial_function (option) find_walk :: "list_heap \<Rightarrow> nat \<Rightarrow> nat option \<Rightarrow> nat option option" where
  "find_walk h hdr tmp =
     (case tmp of
        None \<Rightarrow> Some None
      | Some a \<Rightarrow> if a \<noteq> hdr then Option.bind (h a) (find_walk h hdr) else Some tmp)"

definition utils_list_find :: "utils_list \<Rightarrow> nat \<Rightarrow> list_heap \<Rightarrow> bool option" where
  "utils_list_find l hdr h = do { tmp \<leftarrow> find_walk h hdr (l_first l); Some (tmp = Some hdr) }"

partial_function (option) cnt_walk :: "list_heap \<Rightarrow> nat option \<Rightarrow> u32 \<Rightarrow> u32 option" where
  "cnt_walk h elt cnt =
     (case elt of
        None \<Rightarrow> Some cnt
      | Some a \<Rightarrow> Option.bind (utils_list_next a h) (\<lambda>n. cnt_walk h n (cnt + 1)))"

definition utils_list_cnt :: "utils_list \<Rightarrow> list_heap \<Rightarrow> u32 option" where
  "utils_list_cnt l h = cnt_walk h (utils_list_pick l) 0"

text \<open>The loop of \<^verbatim>\<open>utils_list_insert\<close>: the pointers \<open>prev\<close> and \<open>scan\<close> where it stops.\<close>

partial_function (option) list_insert_walk ::
  "(nat \<Rightarrow> nat \<Rightarrow> bool) \<Rightarrow> list_heap \<Rightarrow> nat \<Rightarrow> nat option \<Rightarrow> nat option \<Rightarrow> (nat option \<times> nat option) option" where
  "list_insert_walk cmp h element prev scan =
     (case scan of
        None \<Rightarrow> Some (prev, None)
      | Some a \<Rightarrow> if cmp element a then Some (prev, scan)
          else Option.bind (h a) (list_insert_walk cmp h element scan))"

definition utils_list_insert ::
  "(nat \<Rightarrow> nat \<Rightarrow> bool) \<Rightarrow> utils_list \<Rightarrow> nat \<Rightarrow> list_heap \<Rightarrow> (utils_list \<times> list_heap) option" where
  "utils_list_insert cmp l element h = do {
     (prev, scan) \<leftarrow> list_insert_walk cmp h element None (l_first l);
     let l = (if scan = None then l\<lparr>l_last := Some element\<rparr> else l);
     h \<leftarrow> set_next element scan h;
     case prev of
       Some p \<Rightarrow> do { h \<leftarrow> set_next p (Some element) h; Some (l, h) }
     | None \<Rightarrow> Some (l\<lparr>l_first := Some element\<rparr>, h)
   }"

definition utils_list_insert_after ::
  "utils_list \<Rightarrow> nat option \<Rightarrow> nat \<Rightarrow> list_heap \<Rightarrow> (utils_list \<times> list_heap) option" where
  "utils_list_insert_after l prev_element element h =
     (case prev_element of
        None \<Rightarrow> utils_list_push_front l element h
      | Some p \<Rightarrow> do {
          scan \<leftarrow> find_walk h p (l_first l);
          if scan \<noteq> None then do {
            n \<leftarrow> h p;
            h \<leftarrow> set_next element n h;
            h \<leftarrow> set_next p (Some element) h;
            n \<leftarrow> h element;
            Some (if n = None then l\<lparr>l_last := Some element\<rparr> else l, h)
          } else Some (l, h)
        })"

partial_function (option) before_walk :: "list_heap \<Rightarrow> nat \<Rightarrow> nat option \<Rightarrow> nat option option" where
  "before_walk h nxt scan =
     (case scan of
        None \<Rightarrow> Some None
      | Some a \<Rightarrow> Option.bind (h a) (\<lambda>n. if n = Some nxt then Some scan else before_walk h nxt n))"

definition utils_list_insert_before ::
  "utils_list \<Rightarrow> nat option \<Rightarrow> nat \<Rightarrow> list_heap \<Rightarrow> (utils_list \<times> list_heap) option" where
  "utils_list_insert_before l next_element element h =
     (case next_element of
        None \<Rightarrow> utils_list_push_back l element h
      | Some nxt \<Rightarrow>
          if next_element = l_first l then utils_list_push_front l element h
          else do {
            scan \<leftarrow> before_walk h nxt (l_first l);
            case scan of
              Some s \<Rightarrow> do {
                h \<leftarrow> set_next element (Some nxt) h;
                h \<leftarrow> set_next s (Some element) h;
                Some (l, h)
              }
            | None \<Rightarrow> Some (l, h)
          })"

definition utils_list_concat ::
  "utils_list \<Rightarrow> utils_list \<Rightarrow> list_heap \<Rightarrow> (utils_list \<times> utils_list \<times> list_heap) option" where
  "utils_list_concat l1 l2 h =
     (if l_first l2 = None then Some (l1, l2, h)
      else do {
        (l1, h) \<leftarrow>
          (if l_first l1 = None then Some (l2, h)
           else do {
             la \<leftarrow> l_last l1;
             h \<leftarrow> set_next la (l_first l2) h;
             Some (l1\<lparr>l_last := l_last l2\<rparr>, h)
           });
        Some (l1, l2\<lparr>l_first := None\<rparr>, h)
      })"

definition utils_list_remove ::
  "utils_list \<Rightarrow> nat option \<Rightarrow> nat \<Rightarrow> list_heap \<Rightarrow> (utils_list \<times> list_heap) option" where
  "utils_list_remove l prev_element element h = do {
     n \<leftarrow> h element;
     (l, h) \<leftarrow>
       (case prev_element of
          None \<Rightarrow> Some (l\<lparr>l_first := n\<rparr>, h)
        | Some p \<Rightarrow> do {
            h \<leftarrow> set_next p n h;
            Some (if l_last l = Some element then l\<lparr>l_last := Some p\<rparr> else l, h)
          });
     h \<leftarrow> set_next element None h;
     Some (l, h)
   }"

section \<open>The doubly linked list of the header\<close>

text \<open>
  A ring of nodes, one of which is the head. A pointer is an address; null is an address outside of the heap.
\<close>

record utils_dlist =
  d_prev :: nat
  d_next :: nat

type_synonym dlist_heap = "nat \<rightharpoonup> utils_dlist"

definition set_node :: "nat \<Rightarrow> (utils_dlist \<Rightarrow> utils_dlist) \<Rightarrow> dlist_heap \<Rightarrow> dlist_heap option" where
  "set_node a f h = (case h a of None \<Rightarrow> None | Some d \<Rightarrow> Some (h(a \<mapsto> f d)))"

text \<open>The function \<^verbatim>\<open>__utils_dlist_add\<close>.\<close>

definition dlist_add_between :: "nat \<Rightarrow> nat \<Rightarrow> nat \<Rightarrow> dlist_heap \<Rightarrow> dlist_heap option" where
  "dlist_add_between node prv nxt h = do {
     h \<leftarrow> set_node node (\<lambda>d. d\<lparr>d_next := nxt\<rparr>) h;
     h \<leftarrow> set_node node (\<lambda>d. d\<lparr>d_prev := prv\<rparr>) h;
     h \<leftarrow> set_node prv (\<lambda>d. d\<lparr>d_next := node\<rparr>) h;
     set_node nxt (\<lambda>d. d\<lparr>d_prev := node\<rparr>) h
   }"

definition utils_dlist_add :: "nat \<Rightarrow> nat \<Rightarrow> dlist_heap \<Rightarrow> dlist_heap option" where
  "utils_dlist_add node queue h = do { q \<leftarrow> h queue; dlist_add_between node queue (d_next q) h }"

definition utils_dlist_add_tail :: "nat \<Rightarrow> nat \<Rightarrow> dlist_heap \<Rightarrow> dlist_heap option" where
  "utils_dlist_add_tail node queue h = do { q \<leftarrow> h queue; dlist_add_between node (d_prev q) queue h }"

definition utils_dlist_del :: "nat \<Rightarrow> dlist_heap \<Rightarrow> dlist_heap option" where
  "utils_dlist_del node h = do {
     d \<leftarrow> h node;
     let prv = d_prev d;
     let nxt = d_next d;
     h \<leftarrow> set_node prv (\<lambda>d. d\<lparr>d_next := nxt\<rparr>) h;
     set_node nxt (\<lambda>d. d\<lparr>d_prev := prv\<rparr>) h
   }"

definition utils_dlist_init :: "nat \<Rightarrow> dlist_heap \<Rightarrow> dlist_heap option" where
  "utils_dlist_init node h = do {
     h \<leftarrow> set_node node (\<lambda>d. d\<lparr>d_prev := node\<rparr>) h;
     set_node node (\<lambda>d. d\<lparr>d_next := node\<rparr>) h
   }"

definition INIT_UTILS_DLIST_HEAD :: "nat \<Rightarrow> dlist_heap \<Rightarrow> dlist_heap option" where
  "INIT_UTILS_DLIST_HEAD l h = do {
     h \<leftarrow> set_node l (\<lambda>d. d\<lparr>d_next := l\<rparr>) h;
     set_node l (\<lambda>d. d\<lparr>d_prev := l\<rparr>) h
   }"

definition utils_dlist_empty :: "nat \<Rightarrow> dlist_heap \<Rightarrow> bool option" where
  "utils_dlist_empty head h = map_option (\<lambda>d. d_next d = head) (h head)"

text \<open>The loop of \<^verbatim>\<open>utils_dlist_for_each\<close>, with the nodes it meets.\<close>

partial_function (option) dlist_for_each :: "dlist_heap \<Rightarrow> nat \<Rightarrow> nat \<Rightarrow> nat list option" where
  "dlist_for_each h head pos =
     (if pos = head then Some []
      else Option.bind (h pos) (\<lambda>d. Option.bind (dlist_for_each h head (d_next d)) (\<lambda>xs. Some (pos # xs))))"

definition utils_dlist_for_each :: "dlist_heap \<Rightarrow> nat \<Rightarrow> nat list option" where
  "utils_dlist_for_each h head = do { d \<leftarrow> h head; dlist_for_each h head (d_next d) }"

text \<open>
  The counter of \<^verbatim>\<open>utils_dlist_entry_number\<close> is an \<^verbatim>\<open>int\<close>; 32-bit memory has no room for enough nodes to overflow it.
\<close>

partial_function (option) entry_number_walk :: "dlist_heap \<Rightarrow> nat \<Rightarrow> nat \<Rightarrow> int \<Rightarrow> int option" where
  "entry_number_walk h queue cur num =
     Option.bind (h cur) (\<lambda>d. if d_next d \<noteq> queue then entry_number_walk h queue (d_next d) (num + 1) else Some num)"

definition utils_dlist_entry_number :: "nat \<Rightarrow> dlist_heap \<Rightarrow> int option" where
  "utils_dlist_entry_number queue h = entry_number_walk h queue queue 0"

section \<open>The singly linked list of the header\<close>

text \<open>Here the head is a node itself, whose \<^verbatim>\<open>next\<close> field is the first element.\<close>

definition utils_slist_add :: "nat \<Rightarrow> nat \<Rightarrow> list_heap \<Rightarrow> list_heap option" where
  "utils_slist_add node head h = do {
     n \<leftarrow> h head;
     h \<leftarrow> set_next node n h;
     set_next head (Some node) h
   }"

text \<open>The loop of \<^verbatim>\<open>utils_slist_add_tail\<close>, \<^verbatim>\<open>utils_slist_append\<close> and \<^verbatim>\<open>utils_slist_tail\<close>: the last node.\<close>

partial_function (option) slist_end :: "list_heap \<Rightarrow> nat \<Rightarrow> nat option" where
  "slist_end h a = Option.bind (h a) (\<lambda>n. case n of None \<Rightarrow> Some a | Some b \<Rightarrow> slist_end h b)"

definition utils_slist_add_tail :: "nat \<Rightarrow> nat \<Rightarrow> list_heap \<Rightarrow> list_heap option" where
  "utils_slist_add_tail node head h = do { head \<leftarrow> slist_end h head; utils_slist_add node head h }"

definition utils_slist_append :: "nat \<Rightarrow> nat \<Rightarrow> list_heap \<Rightarrow> list_heap option" where
  "utils_slist_append l n h = do {
     node \<leftarrow> slist_end h l;
     h \<leftarrow> set_next node (Some n) h;
     set_next n None h
   }"

partial_function (option) slist_del_walk :: "list_heap \<Rightarrow> nat \<Rightarrow> nat \<Rightarrow> list_heap option" where
  "slist_del_walk h node head =
     Option.bind (h head) (\<lambda>n. case n of
         None \<Rightarrow> Some h
       | Some b \<Rightarrow> if b = node then Option.bind (h node) (\<lambda>m. set_next head m h) else slist_del_walk h node b)"

definition utils_slist_del :: "nat \<Rightarrow> nat \<Rightarrow> list_heap \<Rightarrow> list_heap option" where
  "utils_slist_del node head h = slist_del_walk h node head"

definition utils_slist_empty :: "nat \<Rightarrow> list_heap \<Rightarrow> bool option" where
  "utils_slist_empty head h = map_option (\<lambda>n. n = None) (h head)"

definition utils_slist_init :: "nat \<Rightarrow> list_heap \<Rightarrow> list_heap option" where
  "utils_slist_init head h = set_next head None h"

definition utils_slist_first :: "nat \<Rightarrow> list_heap \<Rightarrow> nat option option" where
  "utils_slist_first l h = h l"

definition utils_slist_tail :: "nat \<Rightarrow> list_heap \<Rightarrow> nat option" where
  "utils_slist_tail l h = slist_end h l"

definition utils_slist_next :: "nat \<Rightarrow> list_heap \<Rightarrow> nat option option" where
  "utils_slist_next l h = h l"

partial_function (option) slist_number_walk :: "list_heap \<Rightarrow> nat \<Rightarrow> int \<Rightarrow> int option" where
  "slist_number_walk h cur num =
     Option.bind (h cur) (\<lambda>n. case n of None \<Rightarrow> Some num | Some b \<Rightarrow> slist_number_walk h b (num + 1))"

definition utils_slist_entry_number :: "nat \<Rightarrow> list_heap \<Rightarrow> int option" where
  "utils_slist_entry_number queue h = slist_number_walk h queue 0"

end
