(* ===== verification/Utils_List_Correct.thy ===== *)
theory Utils_List_Correct
  imports Utils_List Op_Refinement
begin

text \<open>
  The list of \<^verbatim>\<open>utils_list.c\<close> as a list of addresses: what each operation does to it, and that sequences of
  operations follow the specification (locale \<open>op_refinement\<close> of \<open>Op_Refinement\<close>).
\<close>

section \<open>The chain of elements as a list of addresses\<close>

text \<open>\<open>lseg h p xs q\<close>: from the pointer \<open>p\<close> the \<^verbatim>\<open>next\<close> fields lead through \<open>xs\<close> to \<open>q\<close>.\<close>

fun lseg :: "list_heap \<Rightarrow> nat option \<Rightarrow> nat list \<Rightarrow> nat option \<Rightarrow> bool" where
  "lseg h p [] q \<longleftrightarrow> p = q"
| "lseg h p (x # xs) q \<longleftrightarrow> p = Some x \<and> (case h x of None \<Rightarrow> False | Some n \<Rightarrow> lseg h n xs q)"

definition ulist :: "list_heap \<Rightarrow> utils_list \<Rightarrow> nat list \<Rightarrow> bool" where
  "ulist h l xs \<longleftrightarrow> distinct xs \<and> lseg h (l_first l) xs None \<and> (xs \<noteq> [] \<longrightarrow> l_last l = Some (last xs))"

lemma lseg_cong: "(\<And>x. x \<in> set xs \<Longrightarrow> h x = h' x) \<Longrightarrow> lseg h p xs q = lseg h' p xs q"
  by (induction xs arbitrary: p) (auto split: option.splits)

lemma lseg_frame [simp]: "a \<notin> set xs \<Longrightarrow> lseg (h(a := v)) p xs q = lseg h p xs q"
  by (rule lseg_cong) auto

lemma lseg_append: "lseg h p (xs @ ys) q \<longleftrightarrow> (\<exists>m. lseg h p xs m \<and> lseg h m ys q)"
  by (induction xs arbitrary: p) (auto split: option.splits)

lemma lseg_dom: "lseg h p xs q \<Longrightarrow> set xs \<subseteq> dom h"
  by (induction xs arbitrary: p) (auto split: option.splits)

lemma lseg_hd: "lseg h p xs q \<Longrightarrow> p = (if xs = [] then q else Some (hd xs))"
  by (cases xs) auto

lemma lseg_last: "lseg h p xs q \<Longrightarrow> xs \<noteq> [] \<Longrightarrow> h (last xs) = Some q"
  by (induction xs arbitrary: p) (auto split: option.splits)

text \<open>Redirecting the pointer at the end of a chain: the head's \<^verbatim>\<open>first\<close> for the empty one.\<close>

lemma lseg_redirect:
  assumes "lseg h p xs q" "distinct xs" "xs \<noteq> []"
  shows "lseg (h(last xs \<mapsto> r)) p xs r"
  using assms by (induction xs arbitrary: p) (auto split: option.splits)

lemma lseg_link:
  assumes "lseg h p xs r" "distinct xs" "xs \<noteq> []" "lseg h v ys q" "set xs \<inter> set ys = {}"
  shows "lseg (h(last xs \<mapsto> v)) p (xs @ ys) q"
proof -
  have "last xs \<notin> set ys"
    using assms(3,5) last_in_set by blast
  then show ?thesis
    using assms lseg_redirect unfolding lseg_append by fastforce
qed

text \<open>What an operation leaves alone.\<close>

definition touches :: "nat set \<Rightarrow> list_heap \<Rightarrow> list_heap \<Rightarrow> bool" where
  "touches A h h' \<longleftrightarrow> dom h' = dom h \<and> (\<forall>a. a \<notin> A \<longrightarrow> h' a = h a)"

lemma touches_refl [simp]: "touches A h h"
  by (simp add: touches_def)

lemma touches_trans: "touches A h h1 \<Longrightarrow> touches B h1 h2 \<Longrightarrow> A \<union> B \<subseteq> C \<Longrightarrow> touches C h h2"
  unfolding touches_def by (metis UnCI subset_iff)

lemma touches_upd [simp]: "a \<in> A \<Longrightarrow> h a \<noteq> None \<Longrightarrow> touches A h (h(a \<mapsto> v))"
  by (auto simp: touches_def)

lemma touches_upd_right: "touches A h g \<Longrightarrow> a \<in> A \<Longrightarrow> h a \<noteq> None \<Longrightarrow> touches A h (g(a \<mapsto> v))"
  by (auto simp: touches_def)

lemma touches_ulist: "touches A h h' \<Longrightarrow> A \<inter> set xs = {} \<Longrightarrow> ulist h' l xs = ulist h l xs"
  unfolding ulist_def touches_def using lseg_cong[of xs h' h] by fastforce

lemma set_next_Some: "h a \<noteq> None \<Longrightarrow> set_next a v h = Some (h(a \<mapsto> v))"
  by (simp add: set_next_def)

text \<open>The two changes of a chain: an element put between \<open>xs\<close> and \<open>ys\<close>, and an element between them cut out.\<close>

definition link :: "nat list \<Rightarrow> nat option \<Rightarrow> utils_list \<Rightarrow> list_heap \<Rightarrow> utils_list \<times> list_heap" where
  "link xs v l h = (if xs = [] then (l\<lparr>l_first := v\<rparr>, h) else (l, h(last xs \<mapsto> v)))"

lemma link_put:
  assumes "ulist h l (xs @ ys)" "h a \<noteq> None" "a \<notin> set (xs @ ys)"
    and "link xs (Some a) l (h(a \<mapsto> (if ys = [] then None else Some (hd ys)))) = (l', h')"
  shows "ulist h' (if ys = [] then l'\<lparr>l_last := Some a\<rparr> else l') (xs @ a # ys) \<and> touches (insert a (set xs)) h h'"
proof -
  define g where "g = h(a \<mapsto> (if ys = [] then None else Some (hd ys)))"
  obtain m where m: "lseg h (l_first l) xs m" "lseg h m ys None"
    using assms(1) by (auto simp: ulist_def lseg_append)
  have g: "lseg g (Some a) (a # ys) None" "lseg g (l_first l) xs m"
    using m lseg_hd[OF m(2)] assms(3) by (auto simp: g_def)
  have d: "distinct (xs @ a # ys)"
    using assms(1,3) by (auto simp: ulist_def)
  show ?thesis
  proof (cases "xs = []")
    case True
    then show ?thesis
      using assms g d by (auto simp: ulist_def link_def g_def)
  next
    case False
    then have "h (last xs) \<noteq> None"
      using lseg_last[OF m(1)] by simp
    moreover have "lseg (g(last xs \<mapsto> Some a)) (l_first l) (xs @ a # ys) None"
      using lseg_link[OF g(2) _ False g(1)] d by auto
    ultimately show ?thesis
      using False assms(1,2,4) d
      by (auto simp: ulist_def link_def g_def intro!: touches_upd_right)
  qed
qed

lemma link_cut:
  assumes "ulist h l (xs @ a # ys)" "link xs n l h = (l', h')" "h a = Some n"
  shows "ulist h' (if ys = [] \<and> xs \<noteq> [] then l'\<lparr>l_last := Some (last xs)\<rparr> else l') (xs @ ys) \<and> touches (set xs) h h' \<and>
    h' a = Some n"
proof -
  have m: "lseg h (l_first l) xs (Some a)" "lseg h n ys None" "distinct (xs @ a # ys)"
    using assms(1,3) by (auto simp: ulist_def lseg_append)
  show ?thesis
  proof (cases "xs = []")
    case True
    then show ?thesis
      using assms m by (auto simp: ulist_def link_def)
  next
    case False
    have "lseg (h(last xs \<mapsto> n)) (l_first l) (xs @ ys) None"
      using lseg_link[OF m(1) _ False m(2)] m(3) by auto
    moreover have "last xs \<in> set xs"
      using False by simp
    ultimately show ?thesis
      using False assms m(3) lseg_last[OF m(1) False] by (auto simp: ulist_def link_def)
  qed
qed

section \<open>The loops\<close>

lemma extract_walk_end:
  assumes "lseg h (Some s) (xs @ ys) None" "xs \<noteq> []" "hdr \<notin> set xs" "ys = [] \<or> hd ys = hdr"
  shows "extract_walk h hdr s = Some (last xs)"
  using assms
proof (induction xs arbitrary: s)
  case (Cons x xs)
  show ?case
  proof (cases xs)
    case Nil
    then show ?thesis
      using Cons.prems by (cases ys) (auto simp: extract_walk.simps split: option.splits)
  next
    case (Cons y zs)
    then show ?thesis
      using Cons.prems Cons.IH[of y] by (subst extract_walk.simps) (auto split: option.splits)
  qed
qed simp

lemma find_walk_skip: "lseg h p xs q \<Longrightarrow> a \<notin> set xs \<Longrightarrow> find_walk h a p = find_walk h a q"
proof (induction xs arbitrary: p)
  case (Cons x xs)
  then show ?case
    by (subst find_walk.simps) (auto split: option.splits)
qed simp

lemma find_walk_stop [simp]: "find_walk h a None = Some None" "find_walk h a (Some a) = Some (Some a)"
  by (simp_all add: find_walk.simps)

lemma find_walk_ulist:
  assumes "ulist h l xs"
  shows "find_walk h a (l_first l) = Some (if a \<in> set xs then Some a else None)"
proof (cases "a \<in> set xs")
  case True
  then obtain ys zs where "xs = ys @ a # zs" "a \<notin> set ys"
    by (meson split_list_first)
  then show ?thesis
    using assms find_walk_skip[of h "l_first l" ys "Some a" a] by (auto simp: ulist_def lseg_append split: option.splits)
next
  case False
  then show ?thesis
    using assms find_walk_skip[of h "l_first l" xs None a] by (auto simp: ulist_def)
qed

lemma cnt_walk_skip: "lseg h p xs q \<Longrightarrow> cnt_walk h p c = cnt_walk h q (c + of_nat (length xs))"
proof (induction xs arbitrary: p c)
  case (Cons x xs)
  then show ?case
    by (subst cnt_walk.simps) (auto simp: utils_list_next_def add.assoc split: option.splits)
qed simp

lemma insert_walk_skip:
  "lseg h p xs q \<Longrightarrow> \<forall>x\<in>set xs. \<not> cmp e x \<Longrightarrow>
   list_insert_walk cmp h e prv p = list_insert_walk cmp h e (if xs = [] then prv else Some (last xs)) q"
proof (induction xs arbitrary: p prv)
  case (Cons x xs)
  then obtain n where n: "p = Some x" "h x = Some n" "lseg h n xs q"
    by (auto split: option.splits)
  have "list_insert_walk cmp h e prv p = list_insert_walk cmp h e (Some x) n"
    using n Cons.prems(2) by (simp add: list_insert_walk.simps[of cmp h e prv])
  then show ?case
    using Cons.IH[OF n(3), of "Some x"] Cons.prems(2) by simp
qed simp

lemma insert_walk_ulist:
  assumes "ulist h l xs"
  shows "list_insert_walk cmp h e None (l_first l) =
    Some (let ys = takeWhile (\<lambda>x. \<not> cmp e x) xs in if ys = [] then None else Some (last ys),
          let zs = dropWhile (\<lambda>x. \<not> cmp e x) xs in if zs = [] then None else Some (hd zs))"
proof -
  let ?ys = "takeWhile (\<lambda>x. \<not> cmp e x) xs" and ?zs = "dropWhile (\<lambda>x. \<not> cmp e x) xs"
  have "lseg h (l_first l) (?ys @ ?zs) None"
    using assms by (simp add: ulist_def)
  then obtain m where m: "lseg h (l_first l) ?ys m" "lseg h m ?zs None"
    by (auto simp only: lseg_append)
  have "list_insert_walk cmp h e p m = Some (p, if ?zs = [] then None else Some (hd ?zs))" for p
    using lseg_hd[OF m(2)] hd_dropWhile[of "\<lambda>x. \<not> cmp e x" xs] by (auto simp: list_insert_walk.simps)
  moreover have "\<forall>x\<in>set ?ys. \<not> cmp e x"
    by (auto dest: set_takeWhileD)
  ultimately show ?thesis
    using insert_walk_skip[OF m(1), of cmp e None] by (simp add: Let_def)
qed

lemma before_walk_skip:
  "lseg h p xs q \<Longrightarrow> b \<notin> set (tl xs) \<Longrightarrow> q \<noteq> Some b \<Longrightarrow> before_walk h b p = before_walk h b q"
proof (induction xs arbitrary: p)
  case (Cons x xs)
  then obtain n where n: "p = Some x" "h x = Some n" "lseg h n xs q"
    by (auto split: option.splits)
  have "n \<noteq> Some b"
    using n(3) Cons.prems(2,3) by (cases xs) auto
  then show ?case
    using n Cons.IH[OF n(3)] Cons.prems by (subst before_walk.simps) (cases xs; auto)
qed simp

lemma before_walk_found:
  assumes "lseg h p (xs @ b # ys) None" "xs \<noteq> []" "b \<notin> set xs"
  shows "before_walk h b p = Some (Some (last xs))"
proof -
  obtain zs z where xs: "xs = zs @ [z]"
    using assms(2) by (metis append_butlast_last_id)
  have z: "lseg h p zs (Some z)" "h z = Some (Some b)"
    using assms(1) by (auto simp: xs lseg_append split: option.splits)
  have "before_walk h b p = before_walk h b (Some z)"
    using before_walk_skip[OF z(1)] assms(3) by (cases zs) (auto simp: xs)
  then show ?thesis
    using z(2) by (simp add: xs before_walk.simps)
qed

section \<open>The operations\<close>

definition implements ::
  "(utils_list \<times> list_heap) option \<Rightarrow> nat set \<Rightarrow> list_heap \<Rightarrow> nat list \<Rightarrow> bool" where
  "implements r A h xs \<longleftrightarrow> (\<exists>l' h'. r = Some (l', h') \<and> ulist h' l' xs \<and> touches A h h')"

lemma l_upd_commute [simp]: "l\<lparr>l_first := a, l_last := b\<rparr> = l\<lparr>l_last := b, l_first := a\<rparr>"
  by simp

lemma implements_put:
  assumes "ulist h l (xs @ ys)" "h a = Some v" "a \<notin> set (xs @ ys)"
    and "r = Some (let (l', h') = link xs (Some a) l (h(a \<mapsto> (if ys = [] then None else Some (hd ys))))
                   in (if ys = [] then l'\<lparr>l_last := Some a\<rparr> else l', h'))"
  shows "implements r (insert a (set (xs @ ys))) h (xs @ a # ys)"
proof -
  obtain l' h' where lh: "link xs (Some a) l (h(a \<mapsto> (if ys = [] then None else Some (hd ys)))) = (l', h')"
    by fastforce
  from link_put[OF assms(1) _ assms(3) lh] assms(2,4) show ?thesis
    unfolding implements_def lh by (auto simp: touches_def)
qed

lemma ulist_last:
  assumes "ulist h l xs" "xs \<noteq> []"
  shows "l_last l = Some (last xs)" "h (last xs) = Some None" "l_first l = Some (hd xs)"
  using assms lseg_last[of h "l_first l" xs None] lseg_hd[of h "l_first l" xs None] by (auto simp: ulist_def)

lemma ulist_Nil [simp]: "ulist h l [] \<longleftrightarrow> l_first l = None"
  by (simp add: ulist_def)

lemma ulist_dom: "ulist h l xs \<Longrightarrow> x \<in> set xs \<Longrightarrow> h x \<noteq> None"
  using lseg_dom by (fastforce simp: ulist_def)

lemma push_back_implements:
  assumes "ulist h l xs" "h a = Some v" "a \<notin> set xs"
  shows "implements (utils_list_push_back l a h) (insert a (set xs)) h (xs @ [a])"
proof (cases "xs = []")
  case True
  then show ?thesis
    using assms implements_put[of h l "[]" "[]" a v "utils_list_push_back l a h"]
    by (simp add: utils_list_push_back_def utils_list_is_empty_def link_def set_next_def)
next
  case False
  then have "last xs \<noteq> a"
    using assms(3) by auto
  then show ?thesis
    using False assms ulist_last[OF assms(1) False] implements_put[of h l xs "[]" a v "utils_list_push_back l a h"]
    by (simp add: utils_list_push_back_def utils_list_is_empty_def link_def set_next_def fun_upd_twist)
qed

lemma push_front_implements:
  assumes "ulist h l xs" "h a = Some v" "a \<notin> set xs"
  shows "implements (utils_list_push_front l a h) (insert a (set xs)) h (a # xs)"
  using assms implements_put[of h l "[]" xs a v "utils_list_push_front l a h"] ulist_last(3)[OF assms(1)]
  by (cases "xs = []")
    (auto simp: utils_list_push_front_def utils_list_is_empty_def link_def set_next_def Let_def)

lemma pop_front_implements:
  assumes "ulist h l xs"
  shows "\<exists>l'. utils_list_pop_front l h = Some (if xs = [] then None else Some (hd xs), l') \<and> ulist h l' (tl xs)"
  using assms by (cases xs) (auto simp: utils_list_pop_front_def ulist_def split: option.splits)

lemma extract_implements:
  assumes "ulist h l xs"
  shows "implements (utils_list_extract l a h) (set xs) h (remove1 a xs)"
proof (cases "a \<in> set xs")
  case True
  then obtain ys zs where xs: "xs = ys @ a # zs" "a \<notin> set ys"
    by (meson split_list_first)
  obtain n where n: "h a = Some n"
    using ulist_dom[OF assms True] by auto
  obtain l' h' where lh: "link ys n l h = (l', h')"
    by fastforce
  note cut = link_cut[OF assms[unfolded xs] lh n]
  have "utils_list_extract l a h = Some (if zs = [] \<and> ys \<noteq> [] then l'\<lparr>l_last := Some (last ys)\<rparr> else l', h')"
  proof (cases ys)
    case Nil
    then show ?thesis
      using assms lh n by (auto simp: utils_list_extract_def ulist_def xs link_def)
  next
    case (Cons y ws)
    have l: "l_first l = Some y" "l_last l = Some (last xs)" "lseg h (Some y) (ys @ a # zs) None" "y \<noteq> a"
      using assms xs by (auto simp: ulist_def Cons)
    have w: "extract_walk h a y = Some (last ys)"
      using extract_walk_end[OF l(3)] xs(2) by (simp add: Cons)
    have s: "h (last ys) = Some (Some a)"
      using l(3) lseg_last[of h "Some y" ys "Some a"] unfolding lseg_append by (auto simp: Cons)
    have "l_last l = Some a \<longleftrightarrow> zs = []"
      using assms by (auto simp: l xs ulist_def)
    then show ?thesis
      using l w s n lh Cons by (auto simp: utils_list_extract_def link_def set_next_def)
  qed
  then show ?thesis
    using cut by (auto simp: implements_def xs remove1_append touches_def)
next
  case False
  have "utils_list_extract l a h = Some (l, h)"
  proof (cases xs)
    case (Cons y ws)
    have w: "extract_walk h a y = Some (last xs)"
      using extract_walk_end[of h y xs "[]" a] assms False by (auto simp: ulist_def Cons)
    then show ?thesis
      using ulist_last[OF assms] False by (auto simp: utils_list_extract_def Cons)
  qed (use assms in \<open>simp add: utils_list_extract_def\<close>)
  then show ?thesis
    using assms False by (simp add: implements_def remove1_idem)
qed

lemma insert_implements:
  assumes "ulist h l xs" "h a = Some v" "a \<notin> set xs"
  shows "implements (utils_list_insert cmp l a h) (insert a (set xs)) h
    (takeWhile (\<lambda>x. \<not> cmp a x) xs @ a # dropWhile (\<lambda>x. \<not> cmp a x) xs)"
proof -
  define ys zs where yz: "ys = takeWhile (\<lambda>x. \<not> cmp a x) xs" "zs = dropWhile (\<lambda>x. \<not> cmp a x) xs"
  have xs: "xs = ys @ zs"
    by (simp add: yz)
  have w: "list_insert_walk cmp h a None (l_first l) =
    Some (if ys = [] then None else Some (last ys), if zs = [] then None else Some (hd zs))"
    using insert_walk_ulist[OF assms(1), of cmp a] by (simp add: yz Let_def)
  have "ys \<noteq> [] \<Longrightarrow> h (last ys) \<noteq> None" "ys \<noteq> [] \<Longrightarrow> last ys \<noteq> a"
    using ulist_dom[OF assms(1)] assms(3) by (auto simp: xs)
  then have "utils_list_insert cmp l a h = Some (let (l', h') = link ys (Some a) l (h(a \<mapsto> (if zs = [] then None else Some (hd zs))))
    in (if zs = [] then l'\<lparr>l_last := Some a\<rparr> else l', h'))"
    using w assms(2) by (cases "ys = []") (auto simp: utils_list_insert_def link_def set_next_def)
  from implements_put[OF assms(1)[unfolded xs] assms(2) assms(3)[unfolded xs] this] show ?thesis
    unfolding yz[symmetric] by (simp only: xs)
qed

text \<open>The lists that the insertions next to a given element produce.\<close>

fun ins_after :: "nat \<Rightarrow> nat \<Rightarrow> nat list \<Rightarrow> nat list" where
  "ins_after p e [] = []"
| "ins_after p e (x # xs) = (if x = p then x # e # xs else x # ins_after p e xs)"

fun ins_before :: "nat \<Rightarrow> nat \<Rightarrow> nat list \<Rightarrow> nat list" where
  "ins_before p e [] = []"
| "ins_before p e (x # xs) = (if x = p then e # x # xs else x # ins_before p e xs)"

lemma ins_after_split: "p \<notin> set ys \<Longrightarrow> ins_after p e (ys @ p # zs) = ys @ p # e # zs"
  by (induction ys) auto

lemma ins_before_split: "p \<notin> set ys \<Longrightarrow> ins_before p e (ys @ p # zs) = ys @ e # p # zs"
  by (induction ys) auto

lemma ins_notin: "p \<notin> set xs \<Longrightarrow> ins_after p e xs = xs" "p \<notin> set xs \<Longrightarrow> ins_before p e xs = xs"
  by (induction xs) auto

lemma implements_refl: "ulist h l xs \<Longrightarrow> implements (Some (l, h)) A h xs"
  by (auto simp: implements_def)

lemma insert_after_implements:
  assumes "ulist h l xs" "h a = Some v" "a \<notin> set xs"
  shows "implements (utils_list_insert_after l p a h) (insert a (set xs)) h
    (case p of None \<Rightarrow> a # xs | Some b \<Rightarrow> ins_after b a xs)"
proof (cases p)
  case None
  then show ?thesis
    using push_front_implements[OF assms] by (simp add: utils_list_insert_after_def)
next
  case (Some b)
  note w = find_walk_ulist[OF assms(1), of b]
  show ?thesis
  proof (cases "b \<in> set xs")
    case False
    then show ?thesis
      using w assms(1) Some by (simp add: utils_list_insert_after_def ins_notin implements_refl)
  next
    case True
    then obtain ys zs where xs: "xs = (ys @ [b]) @ zs" "b \<notin> set ys"
      using split_list_first by fastforce
    have n: "h b = Some (if zs = [] then None else Some (hd zs))"
      using assms(1) lseg_hd by (fastforce simp: ulist_def xs lseg_append split: option.splits)
    have "b \<noteq> a"
      using assms(3) by (auto simp: xs)
    then have "utils_list_insert_after l p a h = Some (let (l', h') = link (ys @ [b]) (Some a) l
        (h(a \<mapsto> (if zs = [] then None else Some (hd zs)))) in (if zs = [] then l'\<lparr>l_last := Some a\<rparr> else l', h'))"
      using w True n assms(2) Some by (simp add: utils_list_insert_after_def link_def set_next_def)
    from implements_put[OF assms(1)[unfolded xs(1)] assms(2) assms(3)[unfolded xs(1)] this] show ?thesis
      using xs Some by (simp add: ins_after_split)
  qed
qed

lemma insert_before_implements:
  assumes "ulist h l xs" "h a = Some v" "a \<notin> set xs"
  shows "implements (utils_list_insert_before l p a h) (insert a (set xs)) h
    (case p of None \<Rightarrow> xs @ [a] | Some b \<Rightarrow> ins_before b a xs)"
proof (cases p)
  case None
  then show ?thesis
    using push_back_implements[OF assms] by (simp add: utils_list_insert_before_def)
next
  case (Some b)
  show ?thesis
  proof (cases "b \<in> set xs")
    case False
    then have "l_first l \<noteq> Some b"
      using assms(1) by (cases xs) (auto simp: ulist_def)
    moreover have "before_walk h b (l_first l) = before_walk h b None"
      using before_walk_skip[of h "l_first l" xs None b] assms(1) False by (cases xs) (auto simp: ulist_def)
    ultimately show ?thesis
      using assms(1) Some False
      by (simp add: utils_list_insert_before_def ins_notin implements_refl before_walk.simps)
  next
    case True
    then obtain ys zs where xs: "xs = ys @ b # zs" "b \<notin> set ys"
      using split_list_first by fastforce
    show ?thesis
    proof (cases "ys = []")
      case True
      then show ?thesis
        using push_front_implements[OF assms] assms(1) Some by (auto simp: utils_list_insert_before_def xs ulist_def)
    next
      case False
      have "hd ys \<noteq> b"
        using xs(2) hd_in_set[OF False] by metis
      then have f: "l_first l \<noteq> Some b" "last ys \<noteq> a" "h (last ys) \<noteq> None"
        using ulist_last(3)[OF assms(1)] ulist_dom[OF assms(1)] assms(3) False by (auto simp: xs hd_append)
      have "before_walk h b (l_first l) = Some (Some (last ys))"
        using before_walk_found[OF _ False xs(2)] assms(1) by (auto simp: ulist_def xs)
      then have "utils_list_insert_before l p a h = Some (let (l', h') = link ys (Some a) l
        (h(a \<mapsto> (if b # zs = [] then None else Some (hd (b # zs))))) in (if b # zs = [] then l'\<lparr>l_last := Some a\<rparr> else l', h'))"
        using f assms(2) Some False by (simp add: utils_list_insert_before_def link_def set_next_def)
      from implements_put[OF assms(1)[unfolded xs(1)] assms(2) assms(3)[unfolded xs(1)] this] show ?thesis
        using xs Some by (simp add: ins_before_split)
    qed
  qed
qed

text \<open>The predecessor that a caller of \<^verbatim>\<open>utils_list_remove\<close> has to give.\<close>

definition prev_of :: "nat \<Rightarrow> nat list \<Rightarrow> nat option" where
  "prev_of e xs = (let ys = takeWhile (\<lambda>x. x \<noteq> e) xs in if ys = [] then None else Some (last ys))"

lemma prev_of_split: "e \<notin> set ys \<Longrightarrow> prev_of e (ys @ e # zs) = (if ys = [] then None else Some (last ys))"
proof -
  assume "e \<notin> set ys"
  then have "takeWhile (\<lambda>x. x \<noteq> e) (ys @ e # zs) = ys"
    by (induction ys) auto
  then show ?thesis
    by (simp add: prev_of_def)
qed

lemma remove_implements:
  assumes "ulist h l xs" "a \<in> set xs"
  shows "implements (utils_list_remove l (prev_of a xs) a h) (set xs) h (remove1 a xs)"
proof -
  obtain ys zs where xs: "xs = ys @ a # zs" "a \<notin> set ys"
    using assms(2) by (meson split_list_first)
  obtain n where n: "h a = Some n"
    using ulist_dom[OF assms] by auto
  obtain l' h' where lh: "link ys n l h = (l', h')"
    by fastforce
  note cut = link_cut[OF assms(1)[unfolded xs] lh n]
  have zs: "l_last l = Some a \<longleftrightarrow> zs = []" "a \<notin> set zs" "ys \<noteq> [] \<Longrightarrow> h (last ys) \<noteq> None"
    using assms(1) ulist_dom[OF assms(1)] by (auto simp: xs ulist_def)
  have ne: "ys \<noteq> [] \<Longrightarrow> last ys \<noteq> a"
    using xs(2) last_in_set by metis
  have "utils_list_remove l (prev_of a xs) a h =
    Some (if zs = [] \<and> ys \<noteq> [] then l'\<lparr>l_last := Some (last ys)\<rparr> else l', h'(a \<mapsto> None))"
    using lh n zs ne unfolding xs prev_of_split[OF xs(2)]
    by (cases "ys = []") (auto simp: utils_list_remove_def link_def set_next_def split: if_splits)
  moreover have "ulist (h'(a \<mapsto> None)) m (ys @ zs) = ulist h' m (ys @ zs)" for m
    by (rule touches_ulist[of "{a}"]) (use cut xs(2) zs in auto)
  moreover have "touches (set xs) h (h'(a \<mapsto> None))"
    using cut n by (auto simp: touches_def xs)
  ultimately show ?thesis
    using cut xs(2) by (auto simp: implements_def xs(1) remove1_append)
qed

lemma concat_implements:
  assumes "ulist h l1 xs" "ulist h l2 ys" "set xs \<inter> set ys = {}"
  shows "\<exists>l1' l2' h'. utils_list_concat l1 l2 h = Some (l1', l2', h') \<and> ulist h' l1' (xs @ ys) \<and> ulist h' l2' [] \<and>
    touches (set xs) h h'"
proof (cases "xs = [] \<or> ys = []")
  case True
  then show ?thesis
    using assms ulist_last(3)[OF assms(2)] by (cases "ys = []") (auto simp: utils_list_concat_def ulist_def)
next
  case False
  note l = ulist_last[OF assms(1)] ulist_last[OF assms(2)]
  have "lseg (h(last xs \<mapsto> l_first l2)) (l_first l1) (xs @ ys) None"
    using assms False by (auto simp: ulist_def intro!: lseg_link)
  then show ?thesis
    using assms False l by (auto simp: utils_list_concat_def set_next_def ulist_def)
qed

lemma pool_push_implements:
  assumes "ulist h l xs" "0 < sz" "\<forall>x\<in>set xs. x < pool" "\<forall>i<n. h (pool + i * sz) \<noteq> None"
  shows "implements (pool_push pool sz n l h) (set xs \<union> {pool..<pool + n * sz}) h (xs @ map (\<lambda>i. pool + i * sz) [0..<n])"
  using assms
proof (induction n arbitrary: pool l h xs)
  case (Suc n)
  obtain v where "h pool = Some v"
    using Suc.prems(4) by force
  then obtain l1 h1 where p: "utils_list_push_back l pool h = Some (l1, h1)" "ulist h1 l1 (xs @ [pool])"
    "touches (insert pool (set xs)) h h1"
    using push_back_implements[OF Suc.prems(1), of pool v] Suc.prems(3) by (auto simp: implements_def)
  have h1: "\<forall>i<n. h1 (pool + sz + i * sz) \<noteq> None"
  proof (intro allI impI)
    fix i
    assume "i < n"
    then have "h (pool + Suc i * sz) \<noteq> None"
      using Suc.prems(4) by (metis Suc_less_eq)
    then show "h1 (pool + sz + i * sz) \<noteq> None"
      using p(3) by (simp add: touches_def dom_def set_eq_iff add.assoc)
  qed
  have "map (\<lambda>i. pool + i * sz) [0..<Suc n] = pool # map (\<lambda>i. pool + sz + i * sz) [0..<n]"
    by (simp add: upt_conv_Cons map_Suc_upt[symmetric] add.assoc o_def del: upt_Suc)
  moreover have "implements (pool_push (pool + sz) sz n l1 h1) (set (xs @ [pool]) \<union> {pool + sz..<pool + sz + n * sz}) h1
      ((xs @ [pool]) @ map (\<lambda>i. pool + sz + i * sz) [0..<n])"
    by (rule Suc.IH) (use p h1 Suc.prems in auto)
  ultimately obtain l2 h2 where r: "pool_push (pool + sz) sz n l1 h1 = Some (l2, h2)"
    "ulist h2 l2 (xs @ map (\<lambda>i. pool + i * sz) [0..<Suc n])"
    "touches (set (xs @ [pool]) \<union> {pool + sz..<pool + sz + n * sz}) h1 h2"
    by (auto simp: implements_def)
  have "touches (set xs \<union> {pool..<pool + Suc n * sz}) h h2"
    by (rule touches_trans[OF p(3) r(3)]) (use Suc.prems(2) in auto)
  then show ?case
    using p(1) r(1,2) by (simp add: implements_def)
qed (simp add: implements_refl)

section \<open>Sequences of operations on a list\<close>

datatype list_op =
    Init | Push_back nat | Push_front nat | Pop_front | Extract nat | Insert nat | Insert_after "nat option" nat
  | Insert_before "nat option" nat | Remove "nat option" nat | Find nat | Cnt | Is_empty | Pick | Pick_last

datatype list_result = Done | Ptr "nat option" | Truth bool | Count u32

definition list_do ::
  "(nat \<Rightarrow> nat \<Rightarrow> bool) \<Rightarrow> list_op \<Rightarrow> utils_list \<times> list_heap \<Rightarrow> (list_result \<times> utils_list \<times> list_heap) option" where
  "list_do cmp x s = (case s of (l, h) \<Rightarrow>
     (case x of
        Init \<Rightarrow> Some (Done, utils_list_init l, h)
      | Push_back a \<Rightarrow> map_option (Pair Done) (utils_list_push_back l a h)
      | Push_front a \<Rightarrow> map_option (Pair Done) (utils_list_push_front l a h)
      | Pop_front \<Rightarrow> map_option (\<lambda>(r, l). (Ptr r, l, h)) (utils_list_pop_front l h)
      | Extract a \<Rightarrow> map_option (Pair Done) (utils_list_extract l a h)
      | Insert a \<Rightarrow> map_option (Pair Done) (utils_list_insert cmp l a h)
      | Insert_after p a \<Rightarrow> map_option (Pair Done) (utils_list_insert_after l p a h)
      | Insert_before p a \<Rightarrow> map_option (Pair Done) (utils_list_insert_before l p a h)
      | Remove p a \<Rightarrow> map_option (Pair Done) (utils_list_remove l p a h)
      | Find a \<Rightarrow> map_option (\<lambda>r. (Truth r, l, h)) (utils_list_find l a h)
      | Cnt \<Rightarrow> map_option (\<lambda>r. (Count r, l, h)) (utils_list_cnt l h)
      | Is_empty \<Rightarrow> Some (Truth (utils_list_is_empty l), l, h)
      | Pick \<Rightarrow> Some (Ptr (utils_list_pick l), l, h)
      | Pick_last \<Rightarrow> Some (Ptr (utils_list_pick_last l), l, h)))"

fun list_spec :: "(nat \<Rightarrow> nat \<Rightarrow> bool) \<Rightarrow> list_op \<Rightarrow> nat list \<Rightarrow> list_result \<times> nat list" where
  "list_spec cmp Init xs = (Done, [])"
| "list_spec cmp (Push_back a) xs = (Done, xs @ [a])"
| "list_spec cmp (Push_front a) xs = (Done, a # xs)"
| "list_spec cmp Pop_front xs = (Ptr (if xs = [] then None else Some (hd xs)), tl xs)"
| "list_spec cmp (Extract a) xs = (Done, remove1 a xs)"
| "list_spec cmp (Insert a) xs = (Done, takeWhile (\<lambda>x. \<not> cmp a x) xs @ a # dropWhile (\<lambda>x. \<not> cmp a x) xs)"
| "list_spec cmp (Insert_after p a) xs = (Done, case p of None \<Rightarrow> a # xs | Some b \<Rightarrow> ins_after b a xs)"
| "list_spec cmp (Insert_before p a) xs = (Done, case p of None \<Rightarrow> xs @ [a] | Some b \<Rightarrow> ins_before b a xs)"
| "list_spec cmp (Remove p a) xs = (Done, remove1 a xs)"
| "list_spec cmp (Find a) xs = (Truth (a \<in> set xs), xs)"
| "list_spec cmp Cnt xs = (Count (of_nat (length xs)), xs)"
| "list_spec cmp Is_empty xs = (Truth (xs = []), xs)"
| "list_spec cmp Pick xs = (Ptr (if xs = [] then None else Some (hd xs)), xs)"
| "list_spec cmp Pick_last xs = (Ptr (Some (last xs)), xs)"

text \<open>
  What a caller has to keep to, for elements of the memory \<open>D\<close>: an element that is inserted is not in the list, one that is
  removed behind its predecessor is, and the last element is asked for in a list that has one.
\<close>

fun list_ok :: "nat set \<Rightarrow> list_op \<Rightarrow> nat list \<Rightarrow> bool" where
  "list_ok D (Push_back a) xs \<longleftrightarrow> a \<in> D \<and> a \<notin> set xs"
| "list_ok D (Push_front a) xs \<longleftrightarrow> a \<in> D \<and> a \<notin> set xs"
| "list_ok D (Insert a) xs \<longleftrightarrow> a \<in> D \<and> a \<notin> set xs"
| "list_ok D (Insert_after p a) xs \<longleftrightarrow> a \<in> D \<and> a \<notin> set xs"
| "list_ok D (Insert_before p a) xs \<longleftrightarrow> a \<in> D \<and> a \<notin> set xs"
| "list_ok D (Remove p a) xs \<longleftrightarrow> a \<in> set xs \<and> p = prev_of a xs"
| "list_ok D Pick_last xs \<longleftrightarrow> xs \<noteq> []"
| "list_ok D x xs \<longleftrightarrow> True"

definition list_rel :: "nat set \<Rightarrow> utils_list \<times> list_heap \<Rightarrow> nat list \<Rightarrow> bool" where
  "list_rel D s xs \<longleftrightarrow> (case s of (l, h) \<Rightarrow> ulist h l xs \<and> dom h = D)"

lemma implements_dest: "implements r A h ys \<Longrightarrow> \<exists>l' h'. r = Some (l', h') \<and> ulist h' l' ys \<and> dom h' = dom h"
  by (auto simp: implements_def touches_def)

lemma find_implements: "ulist h l xs \<Longrightarrow> utils_list_find l a h = Some (a \<in> set xs)"
  by (simp add: utils_list_find_def find_walk_ulist)

lemma cnt_implements: "ulist h l xs \<Longrightarrow> utils_list_cnt l h = Some (of_nat (length xs))"
  using cnt_walk_skip[of h "l_first l" xs None 0]
  by (simp add: utils_list_cnt_def utils_list_pick_def ulist_def cnt_walk.simps)

lemma ulist_first: "ulist h l xs \<Longrightarrow> l_first l = (if xs = [] then None else Some (hd xs))"
  using lseg_hd by (fastforce simp: ulist_def)

lemmas list_implements = push_back_implements push_front_implements extract_implements insert_implements
  insert_after_implements insert_before_implements remove_implements

interpretation ul: op_refinement "list_do cmp" "list_spec cmp" "list_ok D" "list_rel D"
proof
  fix s xs x
  assume rel: "list_rel D s xs" and ok: "list_ok D x xs"
  obtain l h where s: "s = (l, h)"
    by fastforce
  have u: "ulist h l xs" "dom h = D"
    using rel by (simp_all add: list_rel_def s)
  show "\<exists>s'. list_do cmp x s = Some (fst (list_spec cmp x xs), s') \<and> list_rel D s' (snd (list_spec cmp x xs))"
  proof (cases x)
    case Pop_front
    then show ?thesis
      using pop_front_implements[OF u(1)] u(2) by (auto simp: list_do_def s list_rel_def)
  qed (use u ok ulist_first[OF u(1)] in
    \<open>auto simp: list_do_def s list_rel_def utils_list_init_def utils_list_is_empty_def utils_list_pick_def
      utils_list_pick_last_def find_implements cnt_implements ulist_last(1) intro: implements_dest list_implements\<close>)
qed

section \<open>The properties\<close>

text \<open>
  C39. The linked list of the wifi component refines a list of distinct addresses: on a list in memory, every sequence of
  the operations of utils\_list.c whose callers keep to the rules \<^const>\<open>list_ok\<close> (an inserted element is in memory
  and not in the list, a removed one follows the given predecessor) runs without a null access or an endless
  loop, returns what the abstract operations return, and leaves the list they leave, with the memory otherwise in place.
\<close>

theorem utils_list_refines:
  assumes "ulist h l xs" "ops_ok (list_ok (dom h)) (list_spec cmp) ops xs"
  shows "\<exists>l' h'. run_ops (list_do cmp) ops (l, h) = Some (fst (spec_ops (list_spec cmp) ops xs), l', h') \<and>
    ulist h' l' (snd (spec_ops (list_spec cmp) ops xs)) \<and> dom h' = dom h"
  using ul.run_refines[of "dom h" "(l, h)" xs cmp ops] assms by (auto simp: list_rel_def)

theorem utils_list_refines_witness:
  "let h = (\<lambda>a. if a < 8 then Some None else None);
       ops = [Init, Push_back 3, Push_front 1, Insert 2, Insert_after (Some 3) 5, Insert_before (Some 3) 4, Cnt, Extract 3,
              Remove (Some 4) 5, Pick_last, Find 5, Pop_front, Pop_front, Pop_front, Pop_front, Is_empty]
   in ops_ok (list_ok (dom h)) (list_spec (<)) ops [] \<and>
      map_option fst (run_ops (list_do (<)) ops (\<lparr>l_first = None, l_last = None\<rparr>, h)) =
        Some [Done, Done, Done, Done, Done, Done, Count 5, Done, Done, Ptr (Some 4), Truth False,
          Ptr (Some 1), Ptr (Some 2), Ptr (Some 4), Ptr None, Truth True]"
proof -
  let ?h = "\<lambda>a. if a < (8 :: nat) then Some None else None"
  let ?ops = "[Init, Push_back 3, Push_front 1, Insert 2, Insert_after (Some 3) 5, Insert_before (Some 3) 4, Cnt, Extract 3,
              Remove (Some 4) 5, Pick_last, Find 5, Pop_front, Pop_front, Pop_front, Pop_front, Is_empty]"
  have ok: "ops_ok (list_ok (dom ?h)) (list_spec (<)) ?ops []"
    by (simp add: prev_of_def dom_def)
  have sp: "fst (spec_ops (list_spec (<)) ?ops []) = [Done, Done, Done, Done, Done, Done, Count 5, Done, Done,
    Ptr (Some 4), Truth False, Ptr (Some 1), Ptr (Some 2), Ptr (Some 4), Ptr None, Truth True]"
    by simp
  have "ulist ?h \<lparr>l_first = None, l_last = None\<rparr> []"
    by simp
  from utils_list_refines[OF this ok] show ?thesis
    unfolding Let_def sp using ok by (fastforce simp del: run_ops.simps ops_ok.simps)
qed

text \<open>
  The pool that \<^verbatim>\<open>utils_list_pool_init\<close> makes: its elements in the order of their addresses, whatever the
  list head held before.
\<close>

theorem utils_list_pool_init_correct:
  assumes "0 < sz" "\<forall>i<n. h (pool + i * sz) \<noteq> None"
  shows "\<exists>l' h'. utils_list_pool_init l pool sz n h = Some (l', h') \<and> ulist h' l' (map (\<lambda>i. pool + i * sz) [0..<n]) \<and>
    dom h' = dom h"
proof -
  have "ulist h (utils_list_init l) []"
    by (simp add: utils_list_init_def)
  from pool_push_implements[OF this assms(1) _ assms(2)] show ?thesis
    by (auto simp: utils_list_pool_init_def dest: implements_dest)
qed

text \<open>Two lists become one, and the second is empty.\<close>

theorem utils_list_concat_correct:
  assumes "ulist h l1 xs" "ulist h l2 ys" "set xs \<inter> set ys = {}"
  shows "\<exists>l1' l2' h'. utils_list_concat l1 l2 h = Some (l1', l2', h') \<and> ulist h' l1' (xs @ ys) \<and> ulist h' l2' []"
  using concat_implements[OF assms] by blast

text \<open>
  The pointer to the last element is not reset when the list becomes empty: \<^verbatim>\<open>utils_list_pick_last\<close> then gives the element
  that was taken out, where \<^verbatim>\<open>utils_list_pick\<close> gives null.
\<close>

theorem utils_list_pick_last_stale:
  assumes "ulist h l [a]"
  shows "\<exists>l'. utils_list_pop_front l h = Some (Some a, l') \<and> ulist h l' [] \<and> utils_list_is_empty l' \<and>
    utils_list_pick l' = None \<and> utils_list_pick_last l' = Some a"
  using assms by (auto simp: utils_list_pop_front_def ulist_def utils_list_is_empty_def utils_list_pick_def
      utils_list_pick_last_def split: option.splits)

end
