(* ===== verification/Utils_Ring_Correct.thy ===== *)
theory Utils_Ring_Correct
  imports Utils_List_Correct
begin

text \<open>
  The doubly linked rings and the singly linked lists of \<^verbatim>\<open>utils_list.h\<close> as lists of addresses, and that sequences of
  their operations follow the specification.
\<close>

section \<open>Cyclic paths\<close>

text \<open>\<open>path f a xs b\<close>: from the node \<open>a\<close> the pointers \<open>f\<close> lead through \<open>xs\<close> to the node \<open>b\<close>.\<close>

fun path :: "(nat \<rightharpoonup> nat) \<Rightarrow> nat \<Rightarrow> nat list \<Rightarrow> nat \<Rightarrow> bool" where
  "path f a [] b \<longleftrightarrow> f a = Some b"
| "path f a (x # xs) b \<longleftrightarrow> f a = Some x \<and> path f x xs b"

lemma path_frame [simp]: "c \<notin> set (a # xs) \<Longrightarrow> path (f(c := v)) a xs b = path f a xs b"
  by (induction xs arbitrary: a) auto

lemma path_append: "path f a (xs @ x # ys) b \<longleftrightarrow> path f a xs x \<and> path f x ys b"
  by (induction xs arbitrary: a) auto

lemma path_first: "path f a xs b \<Longrightarrow> f a = Some (hd (xs @ [b]))"
  by (cases xs) auto

lemma path_last: "path f a xs b \<Longrightarrow> f (last (a # xs)) = Some b"
  by (induction xs arbitrary: a) auto

lemma path_dom: "path f a xs b \<Longrightarrow> set (a # xs) \<subseteq> dom f"
  by (induction xs arbitrary: a) auto

lemma path_redirect: "path f a xs b \<Longrightarrow> distinct (a # xs) \<Longrightarrow> path (f(last (a # xs) \<mapsto> c)) a xs c"
  by (induction xs arbitrary: a) auto

text \<open>A node put into a path, and a node cut out of it.\<close>

lemma path_put:
  assumes "path f a (xs @ ys) b" "distinct (a # xs @ ys)" "e \<notin> set (a # xs @ ys)"
  shows "path (f(e \<mapsto> hd (ys @ [b]), last (a # xs) \<mapsto> e)) a (xs @ e # ys) b"
proof -
  let ?f = "f(e \<mapsto> hd (ys @ [b]))"
  obtain c where c: "path f a xs c" "c = hd (ys @ [b])"
    using assms(1) by (cases ys) (auto simp: path_append)
  have "last (a # xs) \<notin> set (e # ys)"
    using assms(2,3) last_in_set[of "a # xs"] by (metis Un_iff UnI1 append_Cons disjoint_iff distinct_append list.distinct(1) set_ConsD set_append)
  moreover have "path ?f e ys b"
    using assms(1,3) by (cases ys) (auto simp: path_append)
  moreover have "path (?f(last (a # xs) \<mapsto> e)) a xs e"
    using path_redirect[of ?f a xs c e] c assms(2,3) by auto
  ultimately show ?thesis
    by (auto simp: path_append)
qed

lemma path_cut:
  assumes "path f a (xs @ e # ys) b" "distinct (a # xs @ e # ys)"
  shows "path (f(last (a # xs) \<mapsto> hd (ys @ [b]))) a (xs @ ys) b"
proof -
  have p: "path f a xs e" "path f e ys b"
    using assms(1) by (simp_all add: path_append)
  have r: "path (f(last (a # xs) \<mapsto> c)) a xs c" for c
    using path_redirect[OF p(1)] assms(2) by auto
  show ?thesis
  proof (cases ys)
    case Nil
    then show ?thesis
      using r by simp
  next
    case (Cons y zs)
    have "last (a # xs) \<notin> set ys"
      using assms(2) last_in_set[of "a # xs"] by (metis append_Cons disjoint_iff distinct_append list.distinct(1) list.set_intros(2))
    then show ?thesis
      using r p(2) by (auto simp: Cons path_append)
  qed
qed

section \<open>The ring of a doubly linked list\<close>

definition nx :: "dlist_heap \<Rightarrow> nat \<rightharpoonup> nat" where
  "nx h a = map_option d_next (h a)"

definition pv :: "dlist_heap \<Rightarrow> nat \<rightharpoonup> nat" where
  "pv h a = map_option d_prev (h a)"

definition dring :: "dlist_heap \<Rightarrow> nat \<Rightarrow> nat list \<Rightarrow> bool" where
  "dring h q xs \<longleftrightarrow> distinct (q # xs) \<and> path (nx h) q xs q \<and> path (pv h) q (rev xs) q"

lemma dom_nx [simp]: "dom (nx h) = dom h" "dom (pv h) = dom h"
  by (auto simp: nx_def pv_def)

lemma dring_dom: "dring h q xs \<Longrightarrow> set (q # xs) \<subseteq> dom h"
  using path_dom by (fastforce simp: dring_def)

text \<open>An operation that is defined, keeps the memory, and has the given links afterwards.\<close>

definition links :: "dlist_heap option \<Rightarrow> nat set \<Rightarrow> (nat \<rightharpoonup> nat) \<Rightarrow> (nat \<rightharpoonup> nat) \<Rightarrow> bool" where
  "links r D f g \<longleftrightarrow> (\<exists>h'. r = Some h' \<and> dom h' = D \<and> nx h' = f \<and> pv h' = g)"

lemma set_node_links:
  assumes "dom h = D" "nx h = f" "pv h = g" "a \<in> D"
  shows "links (set_node a (\<lambda>d. d\<lparr>d_next := v\<rparr>) h) D (f(a \<mapsto> v)) g"
    "links (set_node a (\<lambda>d. d\<lparr>d_prev := v\<rparr>) h) D f (g(a \<mapsto> v))"
proof -
  obtain d where "h a = Some d"
    using assms by auto
  then show "links (set_node a (\<lambda>d. d\<lparr>d_next := v\<rparr>) h) D (f(a \<mapsto> v)) g"
    "links (set_node a (\<lambda>d. d\<lparr>d_prev := v\<rparr>) h) D f (g(a \<mapsto> v))"
    using assms(1,4) unfolding links_def set_node_def assms(2,3)[symmetric]
    by (auto simp: nx_def pv_def fun_eq_iff split: if_splits intro!: exI[of _ "h(a \<mapsto> _)"])
qed

lemma links_bind:
  assumes "links r D f g" "\<And>h. dom h = D \<Longrightarrow> nx h = f \<Longrightarrow> pv h = g \<Longrightarrow> links (k h) D f' g'"
  shows "links (Option.bind r k) D f' g'"
  using assms by (auto simp: links_def)

lemma add_between_links:
  assumes "{node, p, n} \<subseteq> dom h"
  shows "links (dlist_add_between node p n h) (dom h) ((nx h)(node \<mapsto> n, p \<mapsto> node)) ((pv h)(node \<mapsto> p, n \<mapsto> node))"
proof -
  have D: "node \<in> dom h" "p \<in> dom h" "n \<in> dom h"
    using assms by auto
  show ?thesis
    unfolding dlist_add_between_def
    by (rule links_bind, rule set_node_links(1)[OF refl refl refl D(1)],
        rule links_bind, erule (2) set_node_links(2)[OF _ _ _ D(1)],
        rule links_bind, erule (2) set_node_links(1)[OF _ _ _ D(2)], erule (2) set_node_links(2)[OF _ _ _ D(3)])
qed

lemma del_links:
  assumes "h e = Some d" "d_prev d \<in> dom h" "d_next d \<in> dom h"
  shows "links (utils_dlist_del e h) (dom h) ((nx h)(d_prev d \<mapsto> d_next d)) ((pv h)(d_next d \<mapsto> d_prev d))"
  unfolding utils_dlist_del_def Let_def assms(1) Option.bind.simps
  by (rule links_bind, rule set_node_links(1)[OF refl refl refl assms(2)], erule (2) set_node_links(2)[OF _ _ _ assms(3)])

lemma hd_rev_snoc [simp]: "hd (rev ys @ [q]) = last (q # ys)" "last (q # rev zs) = hd (zs @ [q])"
  by (cases ys rule: rev_cases; simp) (cases zs; simp)

lemma dring_put:
  assumes "dring h q (ys @ zs)" "e \<in> dom h" "e \<notin> set (q # ys @ zs)"
  shows "\<exists>h'. dlist_add_between e (last (q # ys)) (hd (zs @ [q])) h = Some h' \<and> dring h' q (ys @ e # zs) \<and> dom h' = dom h"
proof -
  have ends: "last (q # ys) \<in> set (q # ys @ zs)" "hd (zs @ [q]) \<in> set (q # ys @ zs)"
    by (cases ys rule: rev_cases; auto) (cases zs; auto)
  have "{e, last (q # ys), hd (zs @ [q])} \<subseteq> dom h"
    using ends dring_dom[OF assms(1)] assms(2) by (auto simp del: last.simps hd_append)
  then obtain h' where h': "dlist_add_between e (last (q # ys)) (hd (zs @ [q])) h = Some h'" "dom h' = dom h"
    "nx h' = (nx h)(e \<mapsto> hd (zs @ [q]), last (q # ys) \<mapsto> e)" "pv h' = (pv h)(e \<mapsto> last (q # ys), hd (zs @ [q]) \<mapsto> e)"
    using add_between_links[of e "last (q # ys)" "hd (zs @ [q])" h] unfolding links_def by metis
  have d: "distinct (q # ys @ zs)" "path (nx h) q (ys @ zs) q" "path (pv h) q (rev zs @ rev ys) q"
    using assms(1) by (simp_all add: dring_def)
  have "path (nx h') q (ys @ e # zs) q"
    unfolding h' by (rule path_put[OF d(2,1) assms(3)])
  moreover have "path (pv h') q (rev zs @ e # rev ys) q"
    using path_put[OF d(3), of e] d(1) assms(3) unfolding h' hd_rev_snoc by (auto simp del: last.simps hd_append)
  ultimately show ?thesis
    using h'(1,2) d(1) assms(3) by (auto simp: dring_def)
qed

lemma dring_cut:
  assumes "dring h q (ys @ e # zs)"
  shows "\<exists>h'. utils_dlist_del e h = Some h' \<and> dring h' q (ys @ zs) \<and> dom h' = dom h"
proof -
  have d: "distinct (q # ys @ e # zs)" "path (nx h) q (ys @ e # zs) q" "path (pv h) q (rev zs @ e # rev ys) q"
    using assms by (simp_all add: dring_def)
  obtain de where de: "h e = Some de"
    using dring_dom[OF assms] by auto
  have lk: "d_next de = hd (zs @ [q])" "d_prev de = last (q # ys)"
    using path_first[of "nx h" e zs q] path_first[of "pv h" e "rev ys" q] d(2,3) de unfolding path_append
    by (simp_all add: nx_def pv_def del: last.simps hd_append)
  have ends: "last (q # ys) \<in> set (q # ys @ zs)" "hd (zs @ [q]) \<in> set (q # ys @ zs)"
    by (cases ys rule: rev_cases; auto) (cases zs; auto)
  then have "d_prev de \<in> dom h" "d_next de \<in> dom h"
    using dring_dom[OF assms] unfolding lk by (auto simp del: last.simps hd_append)
  then obtain h' where h': "utils_dlist_del e h = Some h'" "dom h' = dom h"
    "nx h' = (nx h)(last (q # ys) \<mapsto> hd (zs @ [q]))" "pv h' = (pv h)(hd (zs @ [q]) \<mapsto> last (q # ys))"
    using del_links[of h e de, OF de] unfolding lk links_def by metis
  have "path (nx h') q (ys @ zs) q"
    unfolding h' by (rule path_cut[OF d(2,1)])
  moreover have "path (pv h') q (rev zs @ rev ys) q"
    using path_cut[OF d(3)] d(1) unfolding h' hd_rev_snoc by (auto simp del: last.simps hd_append)
  ultimately show ?thesis
    using h'(1,2) d(1) by (auto simp: dring_def)
qed

lemma init_dring:
  assumes "q \<in> dom h"
  shows "\<exists>h'. INIT_UTILS_DLIST_HEAD q h = Some h' \<and> dring h' q [] \<and> dom h' = dom h"
    "\<exists>h'. utils_dlist_init q h = Some h' \<and> dring h' q [] \<and> dom h' = dom h"
  using assms by (auto simp: INIT_UTILS_DLIST_HEAD_def utils_dlist_init_def set_node_def dring_def nx_def pv_def)

lemma add_dring:
  assumes "dring h q xs" "e \<in> dom h" "e \<notin> set (q # xs)"
  shows "\<exists>h'. utils_dlist_add e q h = Some h' \<and> dring h' q (e # xs) \<and> dom h' = dom h"
    "\<exists>h'. utils_dlist_add_tail e q h = Some h' \<and> dring h' q (xs @ [e]) \<and> dom h' = dom h"
proof -
  obtain dq where dq: "h q = Some dq"
    using dring_dom[OF assms(1)] by auto
  have "d_next dq = hd (xs @ [q])" "d_prev dq = last (q # xs)"
    using path_first[of "nx h" q xs q] path_first[of "pv h" q "rev xs" q] assms(1) dq
    by (simp_all add: nx_def pv_def dring_def del: last.simps hd_append)
  then show "\<exists>h'. utils_dlist_add e q h = Some h' \<and> dring h' q (e # xs) \<and> dom h' = dom h"
    "\<exists>h'. utils_dlist_add_tail e q h = Some h' \<and> dring h' q (xs @ [e]) \<and> dom h' = dom h"
    using dring_put[of h q "[]" xs e] dring_put[of h q xs "[]" e] assms dq
    by (simp_all add: utils_dlist_add_def utils_dlist_add_tail_def del: hd_append)
qed

lemma empty_dring: "dring h q xs \<Longrightarrow> utils_dlist_empty q h = Some (xs = [])"
  by (cases xs) (auto simp: dring_def utils_dlist_empty_def nx_def)

lemma for_each_path: "path (nx h) a xs q \<Longrightarrow> q \<notin> set xs \<Longrightarrow> dlist_for_each h q (hd (xs @ [q])) = Some xs"
proof (induction xs arbitrary: a)
  case Nil
  show ?case
    by (simp add: dlist_for_each.simps)
next
  case (Cons x xs)
  then have "path (nx h) x xs q"
    by simp
  moreover from this obtain d where "h x = Some d" "d_next d = hd (xs @ [q])"
    using path_first by (force simp: nx_def)
  ultimately show ?case
    using Cons.IH Cons.prems(2) by (simp add: dlist_for_each.simps[of h q x])
qed

lemma entry_number_path:
  "path (nx h) a xs q \<Longrightarrow> q \<notin> set xs \<Longrightarrow> entry_number_walk h q a n = Some (n + int (length xs))"
proof (induction xs arbitrary: a n)
  case (Cons x xs)
  then show ?case
    by (subst entry_number_walk.simps) (auto simp: nx_def)
qed (auto simp: entry_number_walk.simps nx_def)

lemma for_each_dring: "dring h q xs \<Longrightarrow> utils_dlist_for_each h q = Some xs"
  using for_each_path[of h q xs q] path_first[of "nx h" q xs q]
  by (auto simp: dring_def utils_dlist_for_each_def nx_def)

lemma entry_number_dring: "dring h q xs \<Longrightarrow> utils_dlist_entry_number q h = Some (int (length xs))"
  using entry_number_path[of h q xs q 0] by (simp add: utils_dlist_entry_number_def dring_def)

section \<open>The list whose head is a node\<close>

definition slist :: "list_heap \<Rightarrow> nat \<Rightarrow> nat list \<Rightarrow> bool" where
  "slist h q xs \<longleftrightarrow> distinct (q # xs) \<and> lseg h (Some q) (q # xs) None"

text \<open>It is the list of addresses of a list head that points to the node.\<close>

lemma slist_ulist: "slist h q xs \<longleftrightarrow> ulist h \<lparr>l_first = Some q, l_last = Some (last (q # xs))\<rparr> (q # xs)"
  by (auto simp: slist_def ulist_def)

lemma slist_put:
  assumes "slist h q (xs @ ys)" "e \<in> dom h" "e \<notin> set (q # xs @ ys)"
  shows "slist (h(e \<mapsto> (if ys = [] then None else Some (hd ys)), last (q # xs) \<mapsto> Some e)) q (xs @ e # ys)"
proof -
  have "ulist h \<lparr>l_first = Some q, l_last = Some (last (q # xs @ ys))\<rparr> ((q # xs) @ ys)" "h e \<noteq> None"
    using assms(1,2) by (auto simp: slist_ulist)
  from link_put[OF this] assms(3) show ?thesis
    by (auto simp: link_def slist_def ulist_def split: if_splits)
qed

lemma slist_cut:
  assumes "slist h q (xs @ e # ys)" "h e = Some n"
  shows "slist (h(last (q # xs) \<mapsto> n)) q (xs @ ys)"
proof -
  have "ulist h \<lparr>l_first = Some q, l_last = Some (last (q # xs @ e # ys))\<rparr> ((q # xs) @ e # ys)"
    using assms(1) by (auto simp: slist_ulist)
  from link_cut[OF this _ assms(2)] show ?thesis
    by (auto simp: link_def slist_def ulist_def split: if_splits)
qed

lemma slist_next: "slist h q (xs @ ys) \<Longrightarrow> h (last (q # xs)) = Some (if ys = [] then None else Some (hd ys))"
proof -
  assume "slist h q (xs @ ys)"
  then obtain m where "lseg h (Some q) (q # xs) m" "lseg h m ys None"
    unfolding slist_def append_Cons[symmetric] lseg_append by blast
  then show ?thesis
    using lseg_last[of h "Some q" "q # xs" m] lseg_hd[of h m ys None] by simp
qed

lemma slist_dom: "slist h q xs \<Longrightarrow> set (q # xs) \<subseteq> dom h"
  using lseg_dom unfolding slist_def by blast

lemma slist_end_lseg: "lseg h (Some a) (a # xs) None \<Longrightarrow> slist_end h a = Some (last (a # xs))"
proof (induction xs arbitrary: a)
  case (Cons x xs)
  then show ?case
    by (subst slist_end.simps) (auto split: option.splits)
qed (auto simp: slist_end.simps split: option.splits)

lemma slist_number_lseg:
  "lseg h (Some a) (a # xs) None \<Longrightarrow> slist_number_walk h a n = Some (n + int (length xs))"
proof (induction xs arbitrary: a n)
  case (Cons x xs)
  then show ?case
    by (subst slist_number_walk.simps) (auto split: option.splits)
qed (auto simp: slist_number_walk.simps split: option.splits)

lemma slist_del_skip:
  "lseg h (Some a) (a # xs) (Some b) \<Longrightarrow> e \<notin> set xs \<Longrightarrow> e \<noteq> b \<Longrightarrow> slist_del_walk h e a = slist_del_walk h e b"
proof (induction xs arbitrary: a)
  case Nil
  then show ?case
    by (subst slist_del_walk.simps) (auto split: option.splits)
next
  case (Cons x xs)
  then show ?case
    by (subst slist_del_walk.simps) (auto split: option.splits)
qed

definition does :: "list_heap option \<Rightarrow> list_heap \<Rightarrow> nat \<Rightarrow> nat list \<Rightarrow> bool" where
  "does r h q xs \<longleftrightarrow> (\<exists>h'. r = Some h' \<and> slist h' q xs \<and> dom h' = dom h)"

lemma slist_add_does:
  assumes "slist h q (xs @ ys)" "e \<in> dom h" "e \<notin> set (q # xs @ ys)"
  shows "does (utils_slist_add e (last (q # xs)) h) h q (xs @ e # ys)"
proof -
  have "last (q # xs) \<in> dom h" "last (q # xs) \<noteq> e"
    using slist_dom[OF assms(1)] last_in_set[of "q # xs"] assms(3) by auto
  then show ?thesis
    using slist_put[OF assms] slist_next[OF assms(1)] assms(2)
    by (auto simp: does_def utils_slist_add_def set_next_def insert_absorb simp del: last.simps)
qed

lemma slist_add_tail_does:
  assumes "slist h q xs" "e \<in> dom h" "e \<notin> set (q # xs)"
  shows "does (utils_slist_add_tail e q h) h q (xs @ [e])"
  using slist_add_does[of h q xs "[]" e] slist_end_lseg[of h q xs] assms
  by (simp add: utils_slist_add_tail_def slist_def del: last.simps lseg.simps)

lemma slist_append_does:
  assumes "slist h q xs" "e \<in> dom h" "e \<notin> set (q # xs)"
  shows "does (utils_slist_append q e h) h q (xs @ [e])"
proof -
  have "last (q # xs) \<in> dom h" "last (q # xs) \<noteq> e"
    using slist_dom[OF assms(1)] last_in_set[of "q # xs"] assms(3) by auto
  moreover have "slist_end h q = Some (last (q # xs))"
    using slist_end_lseg assms(1) unfolding slist_def by blast
  ultimately show ?thesis
    using slist_put[of h q xs "[]" e] assms
    by (auto simp: does_def utils_slist_append_def set_next_def insert_absorb fun_upd_twist simp del: last.simps)
qed

lemma slist_del_does:
  assumes "slist h q xs" "e \<noteq> q"
  shows "does (utils_slist_del e q h) h q (remove1 e xs)"
proof (cases "e \<in> set xs")
  case True
  then obtain ys zs where xs: "xs = ys @ e # zs" "e \<notin> set ys"
    by (meson split_list_first)
  obtain n where n: "h e = Some n"
    using slist_dom[OF assms(1)] True by auto
  have l: "h (last (q # ys)) = Some (Some e)"
    using slist_next[of h q ys "e # zs"] assms(1) xs by simp
  have "slist_del_walk h e q = slist_del_walk h e (last (q # ys))"
  proof (cases ys rule: rev_cases)
    case (snoc ws w)
    have "lseg h (Some q) (q # ws) (Some w)"
      using assms(1) unfolding slist_def xs(1) snoc by (auto simp: lseg_append split: option.splits)
    then show ?thesis
      using slist_del_skip[of h q ws w e] xs(2) snoc by auto
  qed simp
  also have "\<dots> = Some (h(last (q # ys) \<mapsto> n))"
    using l n by (simp add: slist_del_walk.simps set_next_def)
  finally show ?thesis
    using slist_cut[of h q ys e zs n] assms(1) n l xs
    by (auto simp: does_def utils_slist_del_def remove1_append insert_absorb simp del: last.simps)
next
  case False
  have "slist_del_walk h e q = Some h"
    using assms False unfolding slist_def
  proof (induction xs arbitrary: q)
    case (Cons x xs)
    then show ?case
      by (subst slist_del_walk.simps) (auto split: option.splits)
  qed (auto simp: slist_del_walk.simps split: option.splits)
  then show ?thesis
    using assms False by (simp add: does_def utils_slist_del_def remove1_idem)
qed

section \<open>Sequences of operations\<close>

datatype ring_op =
    D_head | D_init | D_add nat | D_add_tail nat | D_del nat | D_empty | D_for_each | D_entry_number

datatype ring_result = R_done | R_truth bool | R_nodes "nat list" | R_number int | R_node "nat option"

definition ring_do :: "nat \<Rightarrow> ring_op \<Rightarrow> dlist_heap \<Rightarrow> (ring_result \<times> dlist_heap) option" where
  "ring_do q x h =
     (case x of
        D_head \<Rightarrow> map_option (Pair R_done) (INIT_UTILS_DLIST_HEAD q h)
      | D_init \<Rightarrow> map_option (Pair R_done) (utils_dlist_init q h)
      | D_add a \<Rightarrow> map_option (Pair R_done) (utils_dlist_add a q h)
      | D_add_tail a \<Rightarrow> map_option (Pair R_done) (utils_dlist_add_tail a q h)
      | D_del a \<Rightarrow> map_option (Pair R_done) (utils_dlist_del a h)
      | D_empty \<Rightarrow> map_option (\<lambda>r. (R_truth r, h)) (utils_dlist_empty q h)
      | D_for_each \<Rightarrow> map_option (\<lambda>r. (R_nodes r, h)) (utils_dlist_for_each h q)
      | D_entry_number \<Rightarrow> map_option (\<lambda>r. (R_number r, h)) (utils_dlist_entry_number q h))"

fun ring_spec :: "ring_op \<Rightarrow> nat list \<Rightarrow> ring_result \<times> nat list" where
  "ring_spec D_head xs = (R_done, [])"
| "ring_spec D_init xs = (R_done, [])"
| "ring_spec (D_add a) xs = (R_done, a # xs)"
| "ring_spec (D_add_tail a) xs = (R_done, xs @ [a])"
| "ring_spec (D_del a) xs = (R_done, remove1 a xs)"
| "ring_spec D_empty xs = (R_truth (xs = []), xs)"
| "ring_spec D_for_each xs = (R_nodes xs, xs)"
| "ring_spec D_entry_number xs = (R_number (int (length xs)), xs)"

text \<open>A node that is added is in memory and not in the ring; one that is deleted is in the ring and not its head.\<close>

fun ring_ok :: "nat set \<Rightarrow> nat \<Rightarrow> ring_op \<Rightarrow> nat list \<Rightarrow> bool" where
  "ring_ok D q (D_add a) xs \<longleftrightarrow> a \<in> D \<and> a \<notin> set (q # xs)"
| "ring_ok D q (D_add_tail a) xs \<longleftrightarrow> a \<in> D \<and> a \<notin> set (q # xs)"
| "ring_ok D q (D_del a) xs \<longleftrightarrow> a \<in> set xs"
| "ring_ok D q x xs \<longleftrightarrow> True"

lemma del_dring:
  assumes "dring h q xs" "e \<in> set xs"
  shows "\<exists>h'. utils_dlist_del e h = Some h' \<and> dring h' q (remove1 e xs) \<and> dom h' = dom h"
  using assms dring_cut by (fastforce dest: split_list_first simp: remove1_append)

interpretation dl: op_refinement "ring_do q" ring_spec "ring_ok D q" "\<lambda>h xs. dring h q xs \<and> dom h = D"
proof
  fix h xs x
  assume r: "dring h q xs \<and> dom h = D" and ok: "ring_ok D q x xs"
  then have "q \<in> dom h"
    using dring_dom by fastforce
  note init_dring[OF this] add_dring[of h q xs] del_dring[of h q xs] empty_dring[of h q xs] for_each_dring[of h q xs]
    entry_number_dring[of h q xs]
  then show "\<exists>h'. ring_do q x h = Some (fst (ring_spec x xs), h') \<and> dring h' q (snd (ring_spec x xs)) \<and> dom h' = D"
    using r ok by (cases x) (simp_all add: ring_do_def)
qed

datatype slist_op =
    S_init | S_add nat | S_add_tail nat | S_append nat | S_del nat | S_empty | S_first | S_tail | S_entry_number

definition slist_do :: "nat \<Rightarrow> slist_op \<Rightarrow> list_heap \<Rightarrow> (ring_result \<times> list_heap) option" where
  "slist_do q x h =
     (case x of
        S_init \<Rightarrow> map_option (Pair R_done) (utils_slist_init q h)
      | S_add a \<Rightarrow> map_option (Pair R_done) (utils_slist_add a q h)
      | S_add_tail a \<Rightarrow> map_option (Pair R_done) (utils_slist_add_tail a q h)
      | S_append a \<Rightarrow> map_option (Pair R_done) (utils_slist_append q a h)
      | S_del a \<Rightarrow> map_option (Pair R_done) (utils_slist_del a q h)
      | S_empty \<Rightarrow> map_option (\<lambda>r. (R_truth r, h)) (utils_slist_empty q h)
      | S_first \<Rightarrow> map_option (\<lambda>r. (R_node r, h)) (utils_slist_first q h)
      | S_tail \<Rightarrow> map_option (\<lambda>r. (R_node (Some r), h)) (utils_slist_tail q h)
      | S_entry_number \<Rightarrow> map_option (\<lambda>r. (R_number r, h)) (utils_slist_entry_number q h))"

fun slist_spec :: "nat \<Rightarrow> slist_op \<Rightarrow> nat list \<Rightarrow> ring_result \<times> nat list" where
  "slist_spec q S_init xs = (R_done, [])"
| "slist_spec q (S_add a) xs = (R_done, a # xs)"
| "slist_spec q (S_add_tail a) xs = (R_done, xs @ [a])"
| "slist_spec q (S_append a) xs = (R_done, xs @ [a])"
| "slist_spec q (S_del a) xs = (R_done, remove1 a xs)"
| "slist_spec q S_empty xs = (R_truth (xs = []), xs)"
| "slist_spec q S_first xs = (R_node (if xs = [] then None else Some (hd xs)), xs)"
| "slist_spec q S_tail xs = (R_node (Some (last (q # xs))), xs)"
| "slist_spec q S_entry_number xs = (R_number (int (length xs)), xs)"

fun slist_ok :: "nat set \<Rightarrow> nat \<Rightarrow> slist_op \<Rightarrow> nat list \<Rightarrow> bool" where
  "slist_ok D q (S_add a) xs \<longleftrightarrow> a \<in> D \<and> a \<notin> set (q # xs)"
| "slist_ok D q (S_add_tail a) xs \<longleftrightarrow> a \<in> D \<and> a \<notin> set (q # xs)"
| "slist_ok D q (S_append a) xs \<longleftrightarrow> a \<in> D \<and> a \<notin> set (q # xs)"
| "slist_ok D q (S_del a) xs \<longleftrightarrow> a \<noteq> q"
| "slist_ok D q x xs \<longleftrightarrow> True"

lemma slist_reads:
  assumes "slist h q xs"
  shows "utils_slist_empty q h = Some (xs = [])" "utils_slist_first q h = Some (if xs = [] then None else Some (hd xs))"
    "utils_slist_tail q h = Some (last (q # xs))" "utils_slist_entry_number q h = Some (int (length xs))"
  using slist_next[of h q "[]" xs] slist_end_lseg[of h q xs] slist_number_lseg[of h q xs 0] assms
  by (simp_all add: slist_def utils_slist_empty_def utils_slist_first_def utils_slist_tail_def
      utils_slist_entry_number_def last_ConsL[OF refl] del: last.simps lseg.simps)

lemma slist_init_does: "slist h q xs \<Longrightarrow> does (utils_slist_init q h) h q []"
  using slist_dom[of h q xs] by (auto simp: does_def utils_slist_init_def set_next_def slist_def)

interpretation sl: op_refinement "slist_do q" "slist_spec q" "slist_ok D q" "\<lambda>h xs. slist h q xs \<and> dom h = D"
proof
  fix h xs x
  assume r: "slist h q xs \<and> dom h = D" and ok: "slist_ok D q x xs"
  note slist_init_does[of h q xs] slist_add_does[of h q "[]" xs] slist_add_tail_does[of h q xs]
    slist_append_does[of h q xs] slist_del_does[of h q xs] slist_reads[of h q xs]
  then show "\<exists>h'. slist_do q x h = Some (fst (slist_spec q x xs), h') \<and> slist h' q (snd (slist_spec q x xs)) \<and> dom h' = D"
    using r ok by (cases x) (simp_all add: slist_do_def does_def last_ConsL[OF refl] del: last.simps)
qed

section \<open>The properties\<close>

text \<open>
  C40. The doubly linked rings and the singly linked lists of utils\_list.h refine lists of addresses: every sequence of
  their operations on a ring or list in memory, where only nodes that are not in it are added and only nodes of the ring are
  deleted, runs without leaving the memory or looping, returns what the abstract operations return, and leaves a
  ring whose forward and backward links agree, or a list that ends.
\<close>

theorem utils_rings_refine:
  assumes "dring h q xs" "ops_ok (ring_ok (dom h) q) ring_spec ops xs"
    and "slist g p ys" "ops_ok (slist_ok (dom g) p) (slist_spec p) ops' ys"
  shows "(\<exists>h'. run_ops (ring_do q) ops h = Some (fst (spec_ops ring_spec ops xs), h') \<and>
      dring h' q (snd (spec_ops ring_spec ops xs)) \<and> dom h' = dom h) \<and>
    (\<exists>g'. run_ops (slist_do p) ops' g = Some (fst (spec_ops (slist_spec p) ops' ys), g') \<and>
      slist g' p (snd (spec_ops (slist_spec p) ops' ys)) \<and> dom g' = dom g)"
  using dl.run_refines[of h q xs "dom h" ops] sl.run_refines[of g p ys "dom g" ops'] assms by simp

theorem utils_rings_refine_witness:
  "let h = (\<lambda>a. if a < 8 then Some \<lparr>d_prev = a, d_next = a\<rparr> else None); g = (\<lambda>a. if a < 8 then Some None else None);
       ops = [D_head, D_add 3, D_add_tail 1, D_add 2, D_for_each, D_del 3, D_entry_number, D_del 1, D_del 2, D_empty];
       ops' = [S_init, S_add 3, S_append 1, S_add_tail 2, S_first, S_tail, S_del 1, S_del 7, S_entry_number, S_empty]
   in ops_ok (ring_ok (dom h) 0) ring_spec ops [] \<and> ops_ok (slist_ok (dom g) 0) (slist_spec 0) ops' [] \<and>
      map_option fst (run_ops (ring_do 0) ops h) = Some [R_done, R_done, R_done, R_done, R_nodes [2, 3, 1], R_done,
        R_number 2, R_done, R_done, R_truth True] \<and>
      map_option fst (run_ops (slist_do 0) ops' g) = Some [R_done, R_done, R_done, R_done, R_node (Some 3), R_node (Some 2),
        R_done, R_done, R_number 2, R_truth False]"
proof -
  let ?h = "\<lambda>a. if a < (8 :: nat) then Some \<lparr>d_prev = a, d_next = a\<rparr> else None"
  let ?g = "\<lambda>a. if a < (8 :: nat) then Some None else None"
  let ?ops = "[D_head, D_add 3, D_add_tail 1, D_add 2, D_for_each, D_del 3, D_entry_number, D_del 1, D_del 2, D_empty]"
  let ?ops' = "[S_init, S_add 3, S_append 1, S_add_tail 2, S_first, S_tail, S_del 1, S_del 7, S_entry_number, S_empty]"
  have ok: "ops_ok (ring_ok (dom ?h) 0) ring_spec ?ops []" "ops_ok (slist_ok (dom ?g) 0) (slist_spec 0) ?ops' []"
    by (simp_all add: dom_def)
  have sp: "fst (spec_ops ring_spec ?ops []) =
      [R_done, R_done, R_done, R_done, R_nodes [2, 3, 1], R_done, R_number 2, R_done, R_done, R_truth True]"
    "fst (spec_ops (slist_spec 0) ?ops' []) =
      [R_done, R_done, R_done, R_done, R_node (Some 3), R_node (Some 2), R_done, R_done, R_number 2, R_truth False]"
    by simp_all
  have "dring ?h 0 []" "slist ?g 0 []"
    by (simp_all add: dring_def nx_def pv_def slist_def)
  from utils_rings_refine[OF this(1) ok(1) this(2) ok(2)] show ?thesis
    unfolding Let_def sp using ok by (fastforce simp del: run_ops.simps ops_ok.simps)
qed

end
