(* ===== verification/Utils_Tlv.thy ===== *)
theory Utils_Tlv
  imports Oblfr_Prelude
begin

text \<open>
  The element encoding of the wifi configuration (\<^verbatim>\<open>components/wifi/utils/utils_tlv_bl.c\<close>). The buffer is the word that the
  pointer \<open>buf\<close> gives; the argument behind \<open>arg1\<close> is a sequence of bytes, and an access beyond its end is \<^const>\<open>None\<close>.
\<close>

definition CFG_ELEMENT_TYPE_SIZE_BOOLEAN :: int where "CFG_ELEMENT_TYPE_SIZE_BOOLEAN = 4"
definition CFG_ELEMENT_TYPE_SIZE_UINT32 :: int where "CFG_ELEMENT_TYPE_SIZE_UINT32 = 4"
definition UTILS_TLV_BL_ERROR_CODE_BUF_TOO_SMALL :: int where "UTILS_TLV_BL_ERROR_CODE_BUF_TOO_SMALL = - 1"
definition UTILS_TLV_BL_ERROR_CODE_UNKOWN :: int where "UTILS_TLV_BL_ERROR_CODE_UNKOWN = - 2"
definition CFG_ELEMENT_TYPE_BOOLEAN :: u16 where "CFG_ELEMENT_TYPE_BOOLEAN = 1"
definition CFG_ELEMENT_TYPE_UINT32 :: u16 where "CFG_ELEMENT_TYPE_UINT32 = 7"

named_theorems tlv_consts
lemmas [tlv_consts] = CFG_ELEMENT_TYPE_SIZE_BOOLEAN_def CFG_ELEMENT_TYPE_SIZE_UINT32_def
  UTILS_TLV_BL_ERROR_CODE_BUF_TOO_SMALL_def UTILS_TLV_BL_ERROR_CODE_UNKOWN_def
  CFG_ELEMENT_TYPE_BOOLEAN_def CFG_ELEMENT_TYPE_UINT32_def

definition utils_tlv_bl_pack_bool :: "u32 \<Rightarrow> int \<Rightarrow> bool \<Rightarrow> int \<times> u32" where
  "utils_tlv_bl_pack_bool buf buf_sz val =
     (if buf_sz < CFG_ELEMENT_TYPE_SIZE_BOOLEAN then (UTILS_TLV_BL_ERROR_CODE_BUF_TOO_SMALL, buf)
      else (CFG_ELEMENT_TYPE_SIZE_BOOLEAN, of_bool val))"

definition utils_tlv_bl_pack_uint32 :: "u32 \<Rightarrow> int \<Rightarrow> u32 \<Rightarrow> int \<times> u32" where
  "utils_tlv_bl_pack_uint32 buf buf_sz val =
     (if buf_sz < CFG_ELEMENT_TYPE_SIZE_UINT32 then (UTILS_TLV_BL_ERROR_CODE_BUF_TOO_SMALL, buf)
      else (CFG_ELEMENT_TYPE_SIZE_UINT32, val))"

definition utils_tlv_bl_unpack_bool :: "u32 \<Rightarrow> int \<Rightarrow> bool \<Rightarrow> int \<times> bool" where
  "utils_tlv_bl_unpack_bool buf buf_sz val =
     (if buf_sz < CFG_ELEMENT_TYPE_SIZE_BOOLEAN then (UTILS_TLV_BL_ERROR_CODE_BUF_TOO_SMALL, val)
      else (CFG_ELEMENT_TYPE_SIZE_BOOLEAN, buf \<noteq> 0))"

definition utils_tlv_bl_unpack_uint32 :: "u32 \<Rightarrow> int \<Rightarrow> u32 \<Rightarrow> int \<times> u32" where
  "utils_tlv_bl_unpack_uint32 buf buf_sz val =
     (if buf_sz < CFG_ELEMENT_TYPE_SIZE_UINT32 then (UTILS_TLV_BL_ERROR_CODE_BUF_TOO_SMALL, val)
      else (CFG_ELEMENT_TYPE_SIZE_BOOLEAN, buf))"

text \<open>Access to the argument through a cast pointer.\<close>

definition load_bool :: "bytes \<Rightarrow> bool option" where
  "load_bool arg = (if arg = [] then None else Some (hd arg \<noteq> 0))"

definition load_u32 :: "bytes \<Rightarrow> u32 option" where
  "load_u32 arg = (if length arg < 4 then None else Some (le_word (take 4 arg)))"

definition store_bool :: "bool \<Rightarrow> bytes \<Rightarrow> bytes option" where
  "store_bool v arg = (if arg = [] then None else Some (of_bool v # tl arg))"

definition store_u32 :: "u32 \<Rightarrow> bytes \<Rightarrow> bytes option" where
  "store_u32 v arg = (if length arg < 4 then None else Some (le_bytes 4 v @ drop 4 arg))"

definition utils_tlv_bl_pack_auto :: "u32 \<Rightarrow> int \<Rightarrow> u16 \<Rightarrow> bytes \<Rightarrow> (int \<times> u32) option" where
  "utils_tlv_bl_pack_auto buf buf_sz ty arg1 =
     (if ty = CFG_ELEMENT_TYPE_BOOLEAN then map_option (utils_tlv_bl_pack_bool buf buf_sz) (load_bool arg1)
      else if ty = CFG_ELEMENT_TYPE_UINT32 then map_option (utils_tlv_bl_pack_uint32 buf buf_sz) (load_u32 arg1)
      else Some (UTILS_TLV_BL_ERROR_CODE_UNKOWN, buf))"

definition utils_tlv_bl_unpack_auto :: "u32 \<Rightarrow> int \<Rightarrow> u16 \<Rightarrow> bytes \<Rightarrow> (int \<times> bytes) option" where
  "utils_tlv_bl_unpack_auto buf buf_sz ty arg1 =
     (if ty = CFG_ELEMENT_TYPE_BOOLEAN then
        (let (ret, val) = utils_tlv_bl_unpack_bool buf buf_sz True in map_option (Pair ret) (store_bool val arg1))
      else if ty = CFG_ELEMENT_TYPE_UINT32 then
        (let (ret, val) = utils_tlv_bl_unpack_uint32 buf buf_sz 0 in map_option (Pair ret) (store_u32 val arg1))
      else Some (UTILS_TLV_BL_ERROR_CODE_UNKOWN, arg1))"

text \<open>
  Packing and unpacking: the two types that are implemented round-trip where the buffer has room for a word, a smaller buffer
  and every other type are refused with their code, and the buffer is then as it was.
\<close>

theorem tlv_pack_unpack:
  assumes "4 \<le> sz" "4 \<le> length arg" "4 \<le> length out"
  shows "\<exists>b. utils_tlv_bl_pack_auto buf sz CFG_ELEMENT_TYPE_UINT32 arg = Some (4, b) \<and>
      utils_tlv_bl_unpack_auto b sz CFG_ELEMENT_TYPE_UINT32 out = Some (4, take 4 arg @ drop 4 out)"
    "\<exists>b. utils_tlv_bl_pack_auto buf sz CFG_ELEMENT_TYPE_BOOLEAN arg = Some (4, b) \<and>
      utils_tlv_bl_unpack_auto b sz CFG_ELEMENT_TYPE_BOOLEAN out = Some (4, of_bool (hd arg \<noteq> 0) # tl out)"
proof -
  have "le_bytes 4 (le_word (take 4 arg) :: u32) = take 4 arg"
    using le_bytes_le_word[of "take 4 arg", where 'a = 32] assms(2) by simp
  then show "\<exists>b. utils_tlv_bl_pack_auto buf sz CFG_ELEMENT_TYPE_UINT32 arg = Some (4, b) \<and>
      utils_tlv_bl_unpack_auto b sz CFG_ELEMENT_TYPE_UINT32 out = Some (4, take 4 arg @ drop 4 out)"
    using assms by (simp add: utils_tlv_bl_pack_auto_def utils_tlv_bl_unpack_auto_def utils_tlv_bl_pack_uint32_def
        utils_tlv_bl_unpack_uint32_def load_u32_def store_u32_def tlv_consts)
  show "\<exists>b. utils_tlv_bl_pack_auto buf sz CFG_ELEMENT_TYPE_BOOLEAN arg = Some (4, b) \<and>
      utils_tlv_bl_unpack_auto b sz CFG_ELEMENT_TYPE_BOOLEAN out = Some (4, of_bool (hd arg \<noteq> 0) # tl out)"
    using assms by (auto simp: utils_tlv_bl_pack_auto_def utils_tlv_bl_unpack_auto_def utils_tlv_bl_pack_bool_def
        utils_tlv_bl_unpack_bool_def load_bool_def store_bool_def tlv_consts)
qed

theorem tlv_refused:
  assumes "utils_tlv_bl_pack_auto buf sz ty arg = Some (r, b)" "r < 0"
  shows "b = buf \<and> (r = UTILS_TLV_BL_ERROR_CODE_BUF_TOO_SMALL \<and> sz < 4 \<or>
    r = UTILS_TLV_BL_ERROR_CODE_UNKOWN \<and> ty \<notin> {CFG_ELEMENT_TYPE_BOOLEAN, CFG_ELEMENT_TYPE_UINT32})"
  using assms by (auto simp: utils_tlv_bl_pack_auto_def utils_tlv_bl_pack_bool_def utils_tlv_bl_pack_uint32_def tlv_consts
      split: if_splits)

end
