(* ===== verification/Spec2Isabelle.thy ===== *)
theory Spec2Isabelle
  imports Nvkvs Kved_Flash_Correct Button_Correct Indicator_Correct Mailbox_Correct Rpmsg_Correct Virtqueue_Correct Utils_Crc_Correct Utils_Ring_Correct Utils_Tlv
begin

text \<open>
  A verification of the firmware components of OBLFR, the OpenBouffalo firmware repository.

  \<^bold>\<open>The program.\<close> OBLFR is a set of C components for the Bouffalo chips on top of the vendor SDK and FreeRTOS.
  The parts that carry logic of their own, all under \<^verbatim>\<open>components/\<close>, are

  \<^item> the non-volatile key-value store: the database \<^verbatim>\<open>nvkvs/kved/kved.c\<close>, which keeps a log of entries in two
    alternating index sectors and two string sectors; its backends \<^verbatim>\<open>oblfr_kved_memory.c\<close> (RAM) and
    \<^verbatim>\<open>oblfr_kved_flash.c\<close> (NOR flash), called through a record of function pointers; and the typed
    API \<^verbatim>\<open>oblfr_nvkvs.c\<close>;
  \<^item> software timers on one hardware compare channel, in a sorted linked list served by a task
    (\<^verbatim>\<open>timer/oblfr_timer.c\<close>);
  \<^item> buttons with debouncing and click recognition (\<^verbatim>\<open>button/src/oblfr_button.c\<close>, \<^verbatim>\<open>oblfr_button_gpio.c\<close>), scanned by
    one of those timers;
  \<^item> LED indicators that play blink patterns by priority (\<^verbatim>\<open>indicator/src/oblfr_indicator.c\<close>);
  \<^item> the mailbox between the M0 core and Linux on the D0 core, with interrupt forwarding
    (\<^verbatim>\<open>mailbox/src/oblfr_mailbox.c\<close>, \<^verbatim>\<open>oblfr_usb_peripheral.c\<close>);
  \<^item> the message devices between the two cores, on top of the vendored rpmsg-lite (\<^verbatim>\<open>rpmsg/src/oblfr_rpmsg.c\<close>);
  \<^item> the virtqueues of that library, rings of descriptors in shared memory (\<^verbatim>\<open>rpmsg/rpmsg-lite/virtio/virtqueue.c\<close>, \<^verbatim>\<open>virtio_ring.h\<close>);
  \<^item> the helpers of the wifi component: linked lists, checksums and the encoding of configuration elements
    (\<^verbatim>\<open>wifi/utils/utils_list.c\<close>, \<^verbatim>\<open>utils_list.h\<close>, \<^verbatim>\<open>utils_crc.c\<close>, \<^verbatim>\<open>utils_tlv_bl.c\<close>).

  \<^bold>\<open>The model.\<close> A C function is a HOL function of the same name (a leading underscore is dropped); its state is a
  record that is passed and returned. \<^const>\<open>None\<close> stands for undefined behaviour, a loop that does not end, or a wait
  that never returns; an error code is an ordinary result. Machine integers are words of their width and wrap.
  Pointers that the code follows are addresses into an explicit heap (timers, buttons); a list that is only walked
  through the queue macros is a HOL list (mailbox, indicators). SDK and FreeRTOS calls are parameters, and what is
  assumed of them is a locale or a named hypothesis, with a simulated instance for the concrete runs.

  \<^item> \<open>Oblfr_Prelude\<close>: word and byte lemmas, the C string functions, the counting loop.
  \<^item> \<open>Kved_Driver\<close> (the driver record and its contract, locale \<open>kved_backend\<close>), \<open>Kved\<close> (every function of kved.c),
    \<open>Kved_Encoding\<close>, \<open>Kved_Table\<close>, \<open>Kved_Store\<close>, \<open>Kved_Switch\<close>, \<open>Kved_Correct\<close>, \<open>Kved_Init\<close> (locale \<open>kved_store\<close>: the slots of
    the active sector as an abstract map \<open>kved_abs\<close> and the invariant \<open>kved_inv\<close>; what write, read, delete,
    sector switch and start-up do to them).
  \<^item> \<open>Kved_Memory\<close>: the RAM backend, its interpretation of the contract, and C1 to C4.
  \<^item> \<open>Nvkvs\<close>: every function of oblfr\_nvkvs.c, with C5 and C6.
  \<^item> \<open>Kved_Flash\<close>, \<open>Kved_Flash_Run\<close>, \<open>Kved_Flash_Correct\<close>: the flash backend with its address arithmetic, the laws of NOR flash
    (locale \<open>nor_flash\<close>, a sublocale of \<open>kved_store\<close>), and C7 and C8.
  \<^item> \<open>Timer\<close> (the module), \<open>Timer_List\<close> (the linked list as a HOL list), \<open>Timer_Pass\<close> (a pass of the task),
    \<open>Timer_Correct\<close> (C9 to C13).
  \<^item> \<open>Button\<close> (the module), \<open>Button_Run\<close> (debouncer and state machine over runs, locale \<open>debounced\<close>), \<open>Button_List\<close> (the
    list of buttons over any scan timer, locale \<open>scan_timer\<close>), \<open>Button_Timer\<close> (the timer module provides it, locale
    \<open>timer_port\<close>), \<open>Button_Correct\<close> (C14 to C20).
  \<^item> \<open>Indicator\<close>, \<open>Indicator_Run\<close> (locale \<open>led_board\<close>), \<open>Indicator_Correct\<close> (C21 to C24).
  \<^item> \<open>Mailbox\<close>, \<open>Mailbox_Run\<close> (step relation, invariant, locale \<open>irq_board\<close>), \<open>Mailbox_Correct\<close> (C25 to C32).
  \<^item> \<open>Rpmsg\<close> (every function of oblfr\_rpmsg.c), \<open>Rpmsg_Run\<close> (invariant, reachable states, locale \<open>rpmsg_link\<close>),
    \<open>Rpmsg_Correct\<close> (C33 to C35).
  \<^item> \<open>Op_Refinement\<close>: the locale \<open>op_refinement\<close>, from one operation that follows its specification to sequences of them; interpreted
    by the virtqueue and the linked lists.
  \<^item> \<open>Virtqueue\<close>, \<open>Virtqueue_Correct\<close> (C36).
  \<^item> \<open>Utils_Crc\<close>, \<open>Utils_Crc_Correct\<close> (C37, C38); \<open>Utils_List\<close>, \<open>Utils_List_Correct\<close> (C39), \<open>Utils_Ring_Correct\<close> (C40); \<open>Utils_Tlv\<close>.

  \<^bold>\<open>What is shown.\<close>
  \<^item> The store. On RAM and on NOR flash a write, read and delete of numeric values refine the operations of a
    finite map, through append, replacement and sector switch (C1, C2, C3, C7); a start on empty storage gives the empty
    map and a restart the map that was there (C4, C8); every typed setter and getter round-trips (C5); the
    iterator ends and meets every entry once (C6); the flash layout keeps words apart.
  \<^item> The timers. A pass of the task ends, fires what is due and nothing before the due time it had at the start of the pass,
    and keeps the list sorted, for periods above 0 (C9); a start inserts the timer at its place, but is refused for one that
    left the list ahead of another, since its link stays set (C10, with \<open>Timer_Correct.timer_stopped_not_startable\<close>); stop; the value programmed into the hardware, including the wrap for an overdue timer (C11); restart never
    restarts (C12), and a second start ties the list into a cycle (C13).
  \<^item> The buttons. The state machine keeps its invariant (C14), reports presses and releases alternately (C15), filters
    shorter pulses (C16) except for the setting 8, which stops it (C17), recognises a click (C18), bursts in a
    long press (C19); a scan round ends and handles each button once; creation and deletion over the timer module (C20).
  \<^item> The indicators. The callback ends and shows the right step (C21); priorities at start (C22); stop leaves pins and timers
    alone (C23); a timeout makes the next callback read outside the pattern (C24); creation and its failures.
  \<^item> The mailbox. Delivery of odd operations (C25), the loss of even ones (C26), registration (C27), the interrupt handler as
    a reference definition (C28) and the messages it loses (C29), the invariant of all reachable states (C30),
    start-up (C31), forwarding and its end (C32); the USB registers.
  \<^item> The message devices. For any behaviour of rpmsg-lite the list of devices stays well formed and no call with a held handle
    touches freed memory (C33); the task delivers every waiting message in order to its device (C34); a
    withdrawn endpoint is not noticed (C35); what a send returns, and what a failed announcement leaves.
  \<^item> The virtqueue. Driver and device exchange descriptors through two queues, none is lost or doubled, and no index leaves
    the rings (C36); when a kick notifies; the parts of the shared memory do not overlap.
  \<^item> The helpers. The table-driven checksums are the polynomial ones (C37) and detect bursts of up to four bytes (C38), and the
    stream gives the same in any division into blocks; the linked lists refine HOL lists over every
    sequence of operations (C39, C40), pools and concatenation included; the element encoding round-trips.

  Some of these state what the code does where its comments mean something else; the statements follow the code.

  \<^bold>\<open>Bounds and loops.\<close> There is no fuel: loops with a bound are recursive functions, loops over linked memory are partial
  functions in the option monad, and the properties prove that they return. The endless loop of
  the rpmsg task is modelled by any number of its rounds. The RAM backend has room for 23 keys, a flash sector
  of \<open>2 ^ k\<close> bytes for \<open>2 ^ k div 16 - 1\<close>, with \<open>k\<close> from 10 to 16, the sizes the 8-bit sector size of the chip configuration
  allows up to 64 KB. \<open>nor_flash\<close> asks for enough entries that the string index fits its sector, and for 14 flash sectors.

  \<^bold>\<open>Not modelled.\<close> Log output everywhere. String values are modelled in \<open>Kved\<close> and \<open>Nvkvs\<close>, but the map of C1 to C4 covers
  databases of numeric values only. The file backend and the ADC buttons are not part of any build. The start code, the board support
  packages and the applications are glue around SDK calls. The rest of the vendored rpmsg-lite is a parameter of \<open>Rpmsg\<close>, and
  the wifi component surrounds binary libraries.
\<close>

end
